(* ===== verification/Prelude.thy ===== *)
theory Prelude
  imports Main
begin

text \<open>
  Shared ground of the development: programs that thread a state and may end in an error
  (the shape of every Go method of the server that returns an \<open>error\<close>), a small
  program logic for them, and the Go string operations the sources use.

  A Go method \<open>func (s *Store) Op(...) (T, error)\<close> is a program
  \<open>'s \<Rightarrow> ('e + 'a) \<times> 's\<close>: whatever it wrote before an error stays written, so the
  state is returned in both cases; \<open>Inl\<close> is the error and \<open>Inr\<close> the result.
\<close>

named_theorems prog_rules \<open>introduction rules of the program logic\<close>
named_theorems prog_simps \<open>evaluation of programs\<close>
named_theorems stable_intros \<open>predicates that later steps cannot invalidate\<close>

section \<open>Programs\<close>

type_synonym ('e, 's, 'a) prog = "'s \<Rightarrow> ('e + 'a) \<times> 's"

definition retP :: "'a \<Rightarrow> ('e, 's, 'a) prog" where
  "retP x = (\<lambda>s. (Inr x, s))"

definition throwP :: "'e \<Rightarrow> ('e, 's, 'a) prog" where
  "throwP e = (\<lambda>s. (Inl e, s))"

definition bindP :: "('e, 's, 'a) prog \<Rightarrow> ('a \<Rightarrow> ('e, 's, 'b) prog) \<Rightarrow> ('e, 's, 'b) prog" where
  "bindP m f = (\<lambda>s. case m s of (Inl e, s') \<Rightarrow> (Inl e, s') | (Inr x, s') \<Rightarrow> f x s')"

text \<open>\<open>tryP\<close> hands the outcome to the caller, as \<open>x, err := m()\<close> followed by a test of
  \<open>err\<close> other than the immediate return does.\<close>

definition tryP :: "('e, 's, 'a) prog \<Rightarrow> ('e, 's, 'e + 'a) prog" where
  "tryP m = (\<lambda>s. case m s of (r, s') \<Rightarrow> (Inr r, s'))"

definition getP :: "('s \<Rightarrow> 'a) \<Rightarrow> ('e, 's, 'a) prog" where
  "getP f = (\<lambda>s. (Inr (f s), s))"

definition liftE :: "('e + 'a) \<Rightarrow> ('e, 's, 'a) prog" where
  "liftE r = (\<lambda>s. (r, s))"

lemma retP_apply [prog_simps]: "retP x s = (Inr x, s)"
  by (simp add: retP_def)

lemma throwP_apply [prog_simps]: "throwP e s = (Inl e, s)"
  by (simp add: throwP_def)

lemma getP_apply [prog_simps]: "getP f s = (Inr (f s), s)"
  by (simp add: getP_def)

lemma liftE_apply [prog_simps]: "liftE r s = (r, s)"
  by (simp add: liftE_def)

lemma bindP_Inl [prog_simps]: "m s = (Inl e, s') \<Longrightarrow> bindP m f s = (Inl e, s')"
  by (simp add: bindP_def)

lemma bindP_Inr [prog_simps]: "m s = (Inr x, s') \<Longrightarrow> bindP m f s = f x s'"
  by (simp add: bindP_def)

lemma bindP_assoc: "bindP (bindP m f) g = bindP m (\<lambda>x. bindP (f x) g)"
  by (rule ext) (simp add: bindP_def split: prod.splits sum.splits)

lemma bindP_retP [simp]: "bindP (retP x) f = f x"
  by (rule ext) (simp add: bindP_def retP_def)

lemma bindP_throwP [simp]: "bindP (throwP e) f = throwP e"
  by (rule ext) (simp add: bindP_def throwP_def)

section \<open>A program logic\<close>

text \<open>
  \<open>runs R P m Q\<close>: started in a state with \<open>P\<close>, the program \<open>m\<close> only moves along \<open>R\<close>
  (also when it ends in an error), and where it returns \<open>x\<close> the final state satisfies
  \<open>Q x\<close>. The relation \<open>R\<close> is what other components may rely on; a predicate that no
  \<open>R\<close>-step invalidates is stable and can be carried along.
\<close>

definition runs :: "('s \<Rightarrow> 's \<Rightarrow> bool) \<Rightarrow> ('s \<Rightarrow> bool) \<Rightarrow> ('e, 's, 'a) prog \<Rightarrow> ('a \<Rightarrow> 's \<Rightarrow> bool) \<Rightarrow> bool" where
  "runs R P m Q \<longleftrightarrow>
     (\<forall>s. P s \<longrightarrow> R s (snd (m s)) \<and> (\<forall>x. fst (m s) = Inr x \<longrightarrow> Q x (snd (m s))))"

definition stable :: "('s \<Rightarrow> 's \<Rightarrow> bool) \<Rightarrow> ('s \<Rightarrow> bool) \<Rightarrow> bool" where
  "stable R P \<longleftrightarrow> (\<forall>s s'. P s \<longrightarrow> R s s' \<longrightarrow> P s')"

lemma runsI:
  assumes "\<And>s. P s \<Longrightarrow> R s (snd (m s))"
    and "\<And>s x. P s \<Longrightarrow> fst (m s) = Inr x \<Longrightarrow> Q x (snd (m s))"
  shows "runs R P m Q"
  using assms by (simp add: runs_def)

lemma runsD: "runs R P m Q \<Longrightarrow> P s \<Longrightarrow> R s (snd (m s))"
  by (simp add: runs_def)

lemma runs_result: "runs R P m Q \<Longrightarrow> P s \<Longrightarrow> fst (m s) = Inr x \<Longrightarrow> Q x (snd (m s))"
  by (simp add: runs_def)

lemma runs_conseq:
  "runs R P m Q \<Longrightarrow> (\<And>s. P' s \<Longrightarrow> P s) \<Longrightarrow> (\<And>x s. Q x s \<Longrightarrow> Q' x s) \<Longrightarrow> runs R P' m Q'"
  by (simp add: runs_def)

lemma runs_pre: "runs R P m Q \<Longrightarrow> (\<And>s. P' s \<Longrightarrow> P s) \<Longrightarrow> runs R P' m Q"
  by (simp add: runs_def)

lemma runs_post: "runs R P m Q \<Longrightarrow> (\<And>x s. Q x s \<Longrightarrow> Q' x s) \<Longrightarrow> runs R P m Q'"
  by (simp add: runs_def)

lemma stableI: "(\<And>s s'. P s \<Longrightarrow> R s s' \<Longrightarrow> P s') \<Longrightarrow> stable R P"
  by (auto simp: stable_def)

lemma stableD: "stable R P \<Longrightarrow> P s \<Longrightarrow> R s s' \<Longrightarrow> P s'"
  by (auto simp: stable_def)

lemma stable_conj [stable_intros]: "stable R P \<Longrightarrow> stable R Q \<Longrightarrow> stable R (\<lambda>s. P s \<and> Q s)"
  by (auto simp: stable_def)

lemma stable_all [stable_intros]: "(\<And>x. stable R (P x)) \<Longrightarrow> stable R (\<lambda>s. \<forall>x. P x s)"
  by (auto simp: stable_def)

lemma stable_ball [stable_intros]:
  "(\<And>x. x \<in> A \<Longrightarrow> stable R (P x)) \<Longrightarrow> stable R (\<lambda>s. \<forall>x\<in>A. P x s)"
  by (auto simp: stable_def)

lemma stable_const [stable_intros]: "stable R (\<lambda>s. c)"
  by (simp add: stable_def)

lemma stable_const_imp [stable_intros]: "(c \<Longrightarrow> stable R P) \<Longrightarrow> stable R (\<lambda>s. c \<longrightarrow> P s)"
  by (auto simp: stable_def)

lemma runs_frame:
  assumes "runs R P m Q" and "stable R F"
  shows "runs R (\<lambda>s. P s \<and> F s) m (\<lambda>x s. Q x s \<and> F s)"
  using assms by (auto simp: runs_def stable_def)

text \<open>The contract of a relation that program steps compose along: every rule of the logic
  needs no more than that it is reflexive and transitive.\<close>

locale step_relation =
  fixes R :: "'s \<Rightarrow> 's \<Rightarrow> bool"
  assumes step_refl: "R s s"
    and step_trans: "R s t \<Longrightarrow> R t u \<Longrightarrow> R s u"
begin

lemma runs_retP: "(\<And>s. P s \<Longrightarrow> Q x s) \<Longrightarrow> runs R P (retP x) Q"
  by (rule runsI) (simp_all add: retP_def step_refl)

lemma runs_throwP: "runs R P (throwP e) Q"
  by (rule runsI) (simp_all add: throwP_def step_refl)

lemma runs_getP: "(\<And>s. P s \<Longrightarrow> Q (f s) s) \<Longrightarrow> runs R P (getP f) Q"
  by (rule runsI) (auto simp: getP_def step_refl)

lemma runs_liftE: "(\<And>x s. r = Inr x \<Longrightarrow> P s \<Longrightarrow> Q x s) \<Longrightarrow> runs R P (liftE r) Q"
  by (rule runsI) (auto simp: liftE_def step_refl)

lemma runs_bindP:
  assumes m: "runs R P m Q" and f: "\<And>x. runs R (Q x) (f x) S"
  shows "runs R P (bindP m f) S"
proof (rule runsI)
  fix s assume P: "P s"
  obtain r s' where ms: "m s = (r, s')" by fastforce
  have step: "R s s'" using runsD [OF m P] ms by simp
  have post: "\<And>x. r = Inr x \<Longrightarrow> Q x s'" using runs_result [OF m P] ms by simp
  show "R s (snd (bindP m f s))"
  proof (cases r)
    case (Inl e)
    then show ?thesis using ms step by (simp add: bindP_def)
  next
    case (Inr x)
    then have "R s' (snd (f x s'))" using runsD [OF f [of x]] post by simp
    then show ?thesis using ms Inr step step_trans by (auto simp: bindP_def)
  qed
  fix y assume y: "fst (bindP m f s) = Inr y"
  then obtain x where x: "r = Inr x" using ms by (cases r) (simp_all add: bindP_def)
  then show "S y (snd (bindP m f s))"
    using runs_result [OF f [of x]] post y ms by (simp add: bindP_def)
qed

lemma runs_tryP:
  assumes "runs R P m Q" and "stable R F" and "\<And>s. P s \<Longrightarrow> F s"
  shows "runs R P (tryP m) (\<lambda>r s. F s \<and> (\<forall>x. r = Inr x \<longrightarrow> Q x s))"
proof (rule runsI)
  fix s assume P: "P s"
  obtain r s' where ms: "m s = (r, s')" by fastforce
  show "R s (snd (tryP m s))" using runsD [OF assms(1) P] ms by (simp add: tryP_def)
  fix x assume "fst (tryP m s) = Inr x"
  then have x: "x = r" "snd (tryP m s) = s'" using ms by (simp_all add: tryP_def)
  have "R s s'" using runsD [OF assms(1) P] ms by simp
  then have "F s'" using stableD [OF assms(2)] assms(3) P by blast
  then show "F (snd (tryP m s)) \<and> (\<forall>y. x = Inr y \<longrightarrow> Q y (snd (tryP m s)))"
    using x runs_result [OF assms(1) P] ms by simp
qed

lemma runs_if: "(b \<Longrightarrow> runs R P m Q) \<Longrightarrow> (\<not> b \<Longrightarrow> runs R P n Q) \<Longrightarrow> runs R P (if b then m else n) Q"
  by simp

lemma runs_option:
  "(x = None \<Longrightarrow> runs R P m Q) \<Longrightarrow> (\<And>y. x = Some y \<Longrightarrow> runs R P (f y) Q) \<Longrightarrow>
     runs R P (case x of None \<Rightarrow> m | Some y \<Rightarrow> f y) Q"
  by (cases x) simp_all

lemma runs_sum:
  "(\<And>e. x = Inl e \<Longrightarrow> runs R P (f e) Q) \<Longrightarrow> (\<And>y. x = Inr y \<Longrightarrow> runs R P (g y) Q) \<Longrightarrow>
     runs R P (case x of Inl e \<Rightarrow> f e | Inr y \<Rightarrow> g y) Q"
  by (cases x) simp_all

lemma runs_prod: "(\<And>a b. x = (a, b) \<Longrightarrow> runs R P (f a b) Q) \<Longrightarrow> runs R P (case x of (a, b) \<Rightarrow> f a b) Q"
  by (cases x) simp

lemma runs_let: "runs R P (f v) Q \<Longrightarrow> runs R P (let x = v in f x) Q"
  by simp

end

section \<open>Go strings\<close>

text \<open>Go strings are byte sequences, as HOL's \<^typ>\<open>string\<close> is.\<close>

fun has_prefix :: "string \<Rightarrow> string \<Rightarrow> bool" where
  "has_prefix [] s = True"
| "has_prefix (p # ps) [] = False"
| "has_prefix (p # ps) (c # s) = (p = c \<and> has_prefix ps s)"

lemma has_prefix_iff: "has_prefix p s \<longleftrightarrow> (\<exists>t. s = p @ t)"
  by (induction p s rule: has_prefix.induct) auto

text \<open>\<open>strings.TrimSpace\<close>: the UTF-8 encodings of Unicode white space. The last rune of a
  string is white space exactly when one of these encodings is a suffix of it.\<close>

definition go_spaces :: "string list" where
  "go_spaces =
     [[CHR 0x09], [CHR 0x0A], [CHR 0x0B], [CHR 0x0C], [CHR 0x0D], [CHR 0x20],
      [CHR 0xC2, CHR 0x85], [CHR 0xC2, CHR 0xA0], [CHR 0xE1, CHR 0x9A, CHR 0x80]] @
     map (\<lambda>c. [CHR 0xE2, CHR 0x80, c])
       [CHR 0x80, CHR 0x81, CHR 0x82, CHR 0x83, CHR 0x84, CHR 0x85, CHR 0x86, CHR 0x87, CHR 0x88,
        CHR 0x89, CHR 0x8A, CHR 0xA8, CHR 0xA9, CHR 0xAF] @
     [[CHR 0xE2, CHR 0x81, CHR 0x9F], [CHR 0xE3, CHR 0x80, CHR 0x80]]"

fun strip_prefixes :: "nat \<Rightarrow> string list \<Rightarrow> string \<Rightarrow> string" where
  "strip_prefixes 0 ws s = s"
| "strip_prefixes (Suc n) ws s =
     (case find (\<lambda>w. has_prefix w s) ws of
        None \<Rightarrow> s
      | Some w \<Rightarrow> strip_prefixes n ws (drop (length w) s))"

definition TrimSpace :: "string \<Rightarrow> string" where
  "TrimSpace s =
     (let l = strip_prefixes (length s) go_spaces s
      in rev (strip_prefixes (length l) (map rev go_spaces) (rev l)))"

lemma strip_prefixes_none: "\<forall>w\<in>set ws. \<not> has_prefix w s \<Longrightarrow> strip_prefixes n ws s = s"
  by (cases n) (auto split: option.splits simp: find_Some_iff)

lemma strip_prefixes_suffix: "\<exists>p. s = p @ strip_prefixes n ws s"
proof (induction n arbitrary: s)
  case 0
  then show ?case by simp
next
  case (Suc n)
  show ?case
  proof (cases "find (\<lambda>w. has_prefix w s) ws")
    case None
    then show ?thesis by simp
  next
    case (Some w)
    obtain p where "drop (length w) s = p @ strip_prefixes n ws (drop (length w) s)"
      using Suc.IH by blast
    then have "s = (take (length w) s @ p) @ strip_prefixes n ws (drop (length w) s)"
      by (metis append_take_drop_id append_assoc)
    then have "\<exists>q. s = q @ strip_prefixes n ws (drop (length w) s)" by blast
    then show ?thesis using Some by simp
  qed
qed

lemma strip_prefixes_done:
  assumes "\<forall>w\<in>set ws. w \<noteq> []" "length s \<le> n" "w \<in> set ws"
  shows "\<not> has_prefix w (strip_prefixes n ws s)"
  using assms
proof (induction n arbitrary: s)
  case 0
  then show ?case by (cases w) auto
next
  case (Suc n)
  show ?case
  proof (cases "find (\<lambda>w. has_prefix w s) ws")
    case None
    then have "strip_prefixes (Suc n) ws s = s" "\<not> has_prefix w s"
      using Suc.prems(3) by (simp, auto simp: find_None_iff)
    then show ?thesis by simp
  next
    case (Some v)
    then have "v \<in> set ws" "has_prefix v s" by (auto simp: find_Some_iff)
    moreover have "Suc 0 \<le> length v" using Suc.prems(1) calculation(1) by (cases v) auto
    ultimately have "length (drop (length v) s) \<le> n" using Suc.prems(2) unfolding length_drop by linarith
    then show ?thesis using Suc Some by simp
  qed
qed

lemma TrimSpace_idem [simp]: "TrimSpace (TrimSpace s) = TrimSpace s"
proof -
  have ne: "\<forall>w\<in>set go_spaces. w \<noteq> []" "\<forall>w\<in>set (map rev go_spaces). w \<noteq> []"
    by (auto simp: go_spaces_def)
  define l where "l = strip_prefixes (length s) go_spaces s"
  define r where "r = strip_prefixes (length l) (map rev go_spaces) (rev l)"
  have t: "TrimSpace s = rev r" by (simp add: TrimSpace_def l_def r_def Let_def)
  obtain p where "rev l = p @ r" using strip_prefixes_suffix unfolding r_def by blast
  then have l: "l = rev r @ rev p" by (metis rev_append rev_rev_ident)
  have "\<not> has_prefix w (rev r)" if "w \<in> set go_spaces" for w
  proof
    assume "has_prefix w (rev r)"
    then have "has_prefix w l" using l by (auto simp: has_prefix_iff)
    then show False using strip_prefixes_done [OF ne(1) order.refl that] l_def by blast
  qed
  then have 1: "strip_prefixes (length (rev r)) go_spaces (rev r) = rev r"
    by (intro strip_prefixes_none) blast
  have "\<not> has_prefix w r" if "w \<in> set (map rev go_spaces)" for w
    unfolding r_def by (rule strip_prefixes_done [OF ne(2) _ that]) simp
  then have "strip_prefixes (length (rev r)) (map rev go_spaces) r = r"
    by (intro strip_prefixes_none) blast
  then show ?thesis unfolding t by (simp add: TrimSpace_def 1 [simplified])
qed

lemma TrimSpace_Nil [simp]: "TrimSpace '''' = ''''"
  by (simp add: TrimSpace_def)

text \<open>\<open>strings.Split(s, sep)\<close> for a one-character separator: always at least one field.\<close>

fun split_on :: "char \<Rightarrow> string \<Rightarrow> string list" where
  "split_on c [] = [[]]"
| "split_on c (x # xs) =
     (if x = c then [] # split_on c xs
      else case split_on c xs of [] \<Rightarrow> [[x]] | f # fs \<Rightarrow> (x # f) # fs)"

text \<open>\<open>strings.ReplaceAll(s, old, new)\<close> for a two-character \<open>old\<close>, scanning left to right over
  non-overlapping matches.\<close>

fun replace_all2 :: "char \<Rightarrow> char \<Rightarrow> string \<Rightarrow> string \<Rightarrow> string" where
  "replace_all2 a b new (x # y # s) =
     (if x = a \<and> y = b then new @ replace_all2 a b new s else x # replace_all2 a b new (y # s))"
| "replace_all2 a b new s = s"

text \<open>\<open>strconv.Itoa\<close> on the integers.\<close>

fun digits_of :: "nat \<Rightarrow> string" where
  "digits_of n = (if n < 10 then [char_of (48 + n)] else digits_of (n div 10) @ [char_of (48 + n mod 10)])"

declare digits_of.simps [simp del]

definition itoa :: "int \<Rightarrow> string" where
  "itoa i = (if i < 0 then CHR ''-'' # digits_of (nat (- i)) else digits_of (nat i))"

lemma split_on_not_Nil [simp]: "split_on c s \<noteq> []"
  by (cases s) (auto split: list.splits)

lemma split_on_no_sep: "c \<notin> set f \<Longrightarrow> split_on c f = [f]"
  by (induction f) auto

lemma split_on_append: "c \<notin> set f \<Longrightarrow> split_on c (f @ c # s) = f # split_on c s"
  by (induction f) auto

lemma split_on_fields: "f \<in> set (split_on c s) \<Longrightarrow> c \<notin> set f"
proof (induction s arbitrary: f)
  case Nil
  then show ?case by simp
next
  case (Cons x xs)
  obtain g gs where g: "split_on c xs = g # gs" by (cases "split_on c xs") auto
  have IH: "\<And>h. h \<in> set (g # gs) \<Longrightarrow> c \<notin> set h" using Cons.IH g by simp
  from Cons.prems g IH show ?case by (auto split: if_splits)
qed

section \<open>64-bit integers\<close>

text \<open>Go's \<open>int\<close> and \<open>int64\<close> are two's complement: every result of an addition or multiplication is
  reduced to the range.\<close>

definition wrap64 :: "int \<Rightarrow> int" where
  "wrap64 x = (x + 2 ^ 63) mod 2 ^ 64 - 2 ^ 63"

lemma wrap64_id: "- (2 ^ 63) \<le> x \<Longrightarrow> x < 2 ^ 63 \<Longrightarrow> wrap64 x = x"
  by (simp add: wrap64_def)

lemma wrap64_left [simp]: "wrap64 (wrap64 a + b) = wrap64 (a + b)" "wrap64 (b + wrap64 a) = wrap64 (b + a)"
  by (simp_all add: wrap64_def) (simp_all add: mod_simps algebra_simps)

lemma wrap64_range: "- (2 ^ 63) \<le> wrap64 x \<and> wrap64 x < 2 ^ 63"
  by (simp add: wrap64_def)

section \<open>Results\<close>

text \<open>Go's \<open>if err != nil { return err }\<close>, and a loop that stops at the first error.\<close>

definition bindE :: "'e + 'a \<Rightarrow> ('a \<Rightarrow> 'e + 'b) \<Rightarrow> 'e + 'b" where
  "bindE m f = (case m of Inl e \<Rightarrow> Inl e | Inr x \<Rightarrow> f x)"

lemma bindE_Inr_iff [simp]: "bindE m f = Inr y \<longleftrightarrow> (\<exists>x. m = Inr x \<and> f x = Inr y)"
  by (cases m) (simp_all add: bindE_def)

lemma bindE_simps [simp]: "bindE (Inr x) f = f x" "bindE (Inl e) f = Inl e"
  by (simp_all add: bindE_def)

definition guardE :: "bool \<Rightarrow> 'e \<Rightarrow> 'e + unit" where
  "guardE b e = (if b then Inr () else Inl e)"

lemma guardE_Inr_iff [simp]: "guardE b e = Inr u \<longleftrightarrow> b"
  by (simp add: guardE_def)

definition ofOption :: "'e \<Rightarrow> 'a option \<Rightarrow> 'e + 'a" where
  "ofOption e x = (case x of None \<Rightarrow> Inl e | Some y \<Rightarrow> Inr y)"

lemma ofOption_Inr_iff [simp]: "ofOption e x = Inr y \<longleftrightarrow> x = Some y"
  by (simp add: ofOption_def split: option.splits)

fun foldE :: "('a \<Rightarrow> 's \<Rightarrow> 'e + 's) \<Rightarrow> 'a list \<Rightarrow> 's \<Rightarrow> 'e + 's" where
  "foldE f [] s = Inr s"
| "foldE f (x # xs) s = bindE (f x s) (foldE f xs)"

lemma foldE_append: "foldE f (xs @ ys) s = bindE (foldE f xs s) (foldE f ys)"
proof (induction xs arbitrary: s)
  case (Cons x xs)
  then show ?case by (cases "f x s") simp_all
qed simp

section \<open>Optional values\<close>

text \<open>A Go pointer argument that leaves a column alone when it is \<open>nil\<close>.\<close>

definition set_if :: "'a option \<Rightarrow> 'a \<Rightarrow> 'a" where
  "set_if v old = (case v of None \<Rightarrow> old | Some x \<Rightarrow> x)"

definition set_opt :: "'a option \<Rightarrow> 'a option \<Rightarrow> 'a option" where
  "set_opt v old = (case v of None \<Rightarrow> old | Some x \<Rightarrow> Some x)"

lemma set_if_simps [simp]: "set_if None old = old" "set_if (Some x) old = x"
  by (simp_all add: set_if_def)

lemma set_opt_simps [simp]: "set_opt None old = old" "set_opt (Some x) old = Some x"
  by (simp_all add: set_opt_def)

text \<open>A string column that \<open>""\<close> clears and \<open>nil\<close> leaves alone.\<close>

definition set_clear :: "string option \<Rightarrow> string option \<Rightarrow> string option" where
  "set_clear v old = (case v of None \<Rightarrow> old | Some x \<Rightarrow> if x = '''' then None else Some x)"

lemma set_clear_simps [simp]:
  "set_clear None old = old"
  "set_clear (Some '''') old = None"
  "x \<noteq> '''' \<Longrightarrow> set_clear (Some x) old = Some x"
  by (simp_all add: set_clear_def)

end
