(* ===== verification/Json_Pointer.thy ===== *)
theory Json_Pointer
  imports Prelude
begin

text \<open>
  JSON Pointers, \<open>internal/core/workflow/pointer.go\<close>: how a binding or a result selector
  reads a value out of a document. Documents are JSON text; the decoding and the encoding of
  \<open>encoding/json\<close> are the parameters \<open>unmarshal\<close> and \<open>marshal\<close>. A decoded value is a
  \<open>json\<close>: a Go \<open>map[string]any\<close> is its list of members.
\<close>

datatype json =
  JNull | JBool bool | JNum string | JStr string | JArr "json list" | JObj "(string \<times> json) list"

datatype pointer_error = ErrInvalidPointer | ErrPointerMiss | ErrPointerJSON

section \<open>Syntax\<close>

fun validateToken :: "string \<Rightarrow> pointer_error + unit" where
  "validateToken [] = Inr ()"
| "validateToken (c # s) =
     (if c \<noteq> CHR ''~'' then validateToken s
      else case s of
             [] \<Rightarrow> Inl ErrInvalidPointer
           | d # s' \<Rightarrow> if d \<noteq> CHR ''0'' \<and> d \<noteq> CHR ''1'' then Inl ErrInvalidPointer else validateToken s')"

fun validate_tokens :: "string list \<Rightarrow> pointer_error + unit" where
  "validate_tokens [] = Inr ()"
| "validate_tokens (t # ts) =
     (case validateToken t of Inl e \<Rightarrow> Inl e | Inr _ \<Rightarrow> validate_tokens ts)"

definition ValidatePointer :: "string \<Rightarrow> pointer_error + unit" where
  "ValidatePointer pointer =
     (if pointer = '''' then Inr ()
      else if \<not> has_prefix ''/'' pointer then Inl ErrInvalidPointer
      else validate_tokens (split_on (CHR ''/'') (tl pointer)))"

definition unescapeToken :: "string \<Rightarrow> string" where
  "unescapeToken tok =
     replace_all2 (CHR ''~'') (CHR ''0'') ''~''
       (replace_all2 (CHR ''~'') (CHR ''1'') ''/'' tok)"

section \<open>Descent\<close>

text \<open>\<open>strconv.Atoi\<close>: an optional sign, at least one decimal digit, a value within \<open>int\<close>
  (64 bits).\<close>

fun parse_digits :: "string \<Rightarrow> nat \<Rightarrow> nat option" where
  "parse_digits [] acc = Some acc"
| "parse_digits (c # s) acc =
     (if 48 \<le> (of_char c :: nat) \<and> (of_char c :: nat) \<le> 57
      then parse_digits s (acc * 10 + (of_char c - 48)) else None)"

definition Atoi :: "string \<Rightarrow> int option" where
  "Atoi s =
     (let neg = has_prefix ''-'' s;
          body = (if has_prefix ''-'' s \<or> has_prefix ''+'' s then tl s else s)
      in if body = '''' then None
         else case parse_digits body 0 of
                None \<Rightarrow> None
              | Some n \<Rightarrow>
                  let v = (if neg then - int n else int n)
                  in if - (2 ^ 63) \<le> v \<and> v < 2 ^ 63 then Some v else None)"

fun step :: "json \<Rightarrow> string \<Rightarrow> pointer_error + json" where
  "step (JObj ms) ref = (case map_of ms ref of None \<Rightarrow> Inl ErrPointerMiss | Some v \<Rightarrow> Inr v)"
| "step (JArr xs) ref =
     (case Atoi ref of
        None \<Rightarrow> Inl ErrPointerMiss
      | Some i \<Rightarrow> if i < 0 \<or> i \<ge> int (length xs) then Inl ErrPointerMiss else Inr (xs ! nat i))"
| "step _ ref = Inl ErrPointerMiss"

fun descend :: "json \<Rightarrow> string list \<Rightarrow> pointer_error + json" where
  "descend current [] = Inr current"
| "descend current (tok # toks) =
     (case step current (unescapeToken tok) of Inl e \<Rightarrow> Inl e | Inr v \<Rightarrow> descend v toks)"

definition ResolvePointer ::
  "(string \<Rightarrow> json option) \<Rightarrow> (json \<Rightarrow> string) \<Rightarrow> string \<Rightarrow> string \<Rightarrow> pointer_error + string" where
  "ResolvePointer unmarshal marshal doc pointer =
     (case ValidatePointer pointer of
        Inl e \<Rightarrow> Inl e
      | Inr _ \<Rightarrow>
          if pointer = '''' then Inr doc
          else case unmarshal doc of
                 None \<Rightarrow> Inl ErrPointerJSON
               | Some v \<Rightarrow>
                   (case descend v (split_on (CHR ''/'') (tl pointer)) of
                      Inl e \<Rightarrow> Inl e
                    | Inr w \<Rightarrow> Inr (marshal w)))"

section \<open>Specification: reference paths and their pointer text\<close>

text \<open>RFC 6901 writes a reference with \<open>~\<close> as \<open>~0\<close> and \<open>/\<close> as \<open>~1\<close>; a path is
  the references it follows, and its text puts a slash before each escaped reference.\<close>

primrec escape :: "string \<Rightarrow> string" where
  "escape [] = []"
| "escape (c # s) =
     (if c = CHR ''~'' then ''~0'' @ escape s
      else if c = CHR ''/'' then ''~1'' @ escape s
      else c # escape s)"

definition pointer_text :: "string list \<Rightarrow> string" where
  "pointer_text path = concat (map (\<lambda>r. CHR ''/'' # escape r) path)"

primrec walk :: "json \<Rightarrow> string list \<Rightarrow> pointer_error + json" where
  "walk v [] = Inr v"
| "walk v (r # rs) = (case step v r of Inl e \<Rightarrow> Inl e | Inr w \<Rightarrow> walk w rs)"

lemma replace_all2_skip: "x \<noteq> a \<Longrightarrow> replace_all2 a b new (x # s) = x # replace_all2 a b new s"
  by (cases s) auto

lemma unescapeToken_Nil [simp]: "unescapeToken [] = []"
  by (simp add: unescapeToken_def)

lemma unescapeToken_plain [simp]: "c \<noteq> CHR ''~'' \<Longrightarrow> unescapeToken (c # s) = c # unescapeToken s"
  by (simp add: unescapeToken_def replace_all2_skip)

lemma unescapeToken_tilde [simp]:
  "unescapeToken (CHR ''~'' # CHR ''0'' # s) = CHR ''~'' # unescapeToken s"
  by (simp add: unescapeToken_def replace_all2_skip)

lemma unescapeToken_slash [simp]:
  "unescapeToken (CHR ''~'' # CHR ''1'' # s) = CHR ''/'' # unescapeToken s"
  by (simp add: unescapeToken_def replace_all2_skip)

lemma unescape_escape: "unescapeToken (escape r) = r"
  by (induction r) simp_all

lemma escape_no_slash: "CHR ''/'' \<notin> set (escape r)"
  by (induction r) auto

lemma validateToken_escape: "validateToken (escape r) = Inr ()"
  by (induction r) auto

text \<open>Conversely every valid token is the escape of what it unescapes to, so the escaping is
  a bijection and two valid tokens never name the same reference.\<close>

lemma escape_unescape:
  "validateToken tok = Inr () \<Longrightarrow> CHR ''/'' \<notin> set tok \<Longrightarrow> escape (unescapeToken tok) = tok"
  by (induction tok rule: validateToken.induct) (auto split: if_splits list.splits)

lemma pointer_text_Nil [simp]: "pointer_text [] = ''''"
  by (simp add: pointer_text_def)

lemma pointer_text_Cons: "pointer_text (r # rs) = CHR ''/'' # escape r @ pointer_text rs"
  by (simp add: pointer_text_def)

lemma split_pointer_text:
  "split_on (CHR ''/'') (escape r @ pointer_text rs) = escape r # map escape rs"
proof (induction rs arbitrary: r)
  case Nil
  then show ?case by (simp add: split_on_no_sep escape_no_slash)
next
  case (Cons q qs)
  then show ?case by (simp add: pointer_text_Cons split_on_append escape_no_slash)
qed

lemma validate_tokens_iff:
  "validate_tokens ts = Inr () \<longleftrightarrow> (\<forall>t\<in>set ts. validateToken t = Inr ())"
  by (induction ts) (auto split: sum.splits)

lemma ValidatePointer_text: "ValidatePointer (pointer_text path) = Inr ()"
proof (cases path)
  case Nil
  then show ?thesis by (simp add: ValidatePointer_def)
next
  case (Cons r rs)
  then show ?thesis
    by (simp add: ValidatePointer_def pointer_text_Cons split_pointer_text validateToken_escape
        validate_tokens_iff)
qed

lemma descend_escape: "descend v (map escape path) = walk v path"
  by (induction path arbitrary: v) (simp_all add: unescape_escape split: sum.splits)

lemma join_split: "concat (map (\<lambda>f. c # f) (split_on c s)) = c # s"
proof (induction s)
  case Nil
  then show ?case by simp
next
  case (Cons x xs)
  obtain f fs where "split_on c xs = f # fs" by (cases "split_on c xs") auto
  with Cons show ?case by (auto split: if_splits)
qed

lemma validateToken_error: "validateToken t = Inl e \<Longrightarrow> e = ErrInvalidPointer"
  by (induction t rule: validateToken.induct) (auto split: if_splits list.splits)

lemma validate_tokens_error: "validate_tokens ts = Inl e \<Longrightarrow> e = ErrInvalidPointer"
  by (induction ts) (auto split: sum.splits dest: validateToken_error)

lemma ValidatePointer_error: "ValidatePointer p = Inl e \<Longrightarrow> e = ErrInvalidPointer"
  by (auto simp: ValidatePointer_def split: if_splits dest: validate_tokens_error)

text \<open>The pointers \<open>ValidatePointer\<close> accepts are exactly the texts of reference paths.\<close>

lemma ValidatePointer_iff: "ValidatePointer p = Inr () \<longleftrightarrow> (\<exists>path. p = pointer_text path)"
proof
  assume ok: "ValidatePointer p = Inr ()"
  show "\<exists>path. p = pointer_text path"
  proof (cases "p = ''''")
    case True
    then show ?thesis by (metis pointer_text_Nil)
  next
    case False
    then obtain s where p: "p = CHR ''/'' # s"
      using ok by (cases p) (auto simp: ValidatePointer_def split: if_splits)
    let ?ts = "split_on (CHR ''/'') s"
    have v: "\<forall>t\<in>set ?ts. validateToken t = Inr ()"
      using ok p by (simp add: ValidatePointer_def validate_tokens_iff)
    have "pointer_text (map unescapeToken ?ts) = concat (map (\<lambda>t. CHR ''/'' # t) ?ts)"
      unfolding pointer_text_def using v
      by (intro arg_cong [where f = concat]) (auto simp: escape_unescape split_on_fields)
    then show ?thesis using p by (metis join_split)
  qed
qed (auto simp: ValidatePointer_text)

lemma ResolvePointer_text:
  assumes "unmarshal doc = Some v" "path \<noteq> []"
  shows "ResolvePointer unmarshal marshal doc (pointer_text path) =
    (case walk v path of Inl e \<Rightarrow> Inl e | Inr w \<Rightarrow> Inr (marshal w))"
proof -
  obtain r rs where path: "path = r # rs" using assms(2) by (cases path) auto
  have "split_on (CHR ''/'') (tl (pointer_text path)) = map escape path"
    by (simp add: path pointer_text_Cons split_pointer_text)
  then show ?thesis
    using assms ValidatePointer_text [of path] descend_escape [of v path]
    by (simp add: ResolvePointer_def path pointer_text_Cons del: split_on.simps)
qed

section \<open>Properties\<close>



text \<open>The references of the pointers are in bijection with the tokens: an escaped reference is
  read back as itself, and a token \<open>validateToken\<close> accepts is the escape of what it is read as.\<close>

theorem pointer_tokens_roundtrip:
  "unescapeToken (escape r) = r \<and> validateToken (escape r) = Inr () \<and>
   (validateToken tok = Inr () \<and> CHR ''/'' \<notin> set tok \<longrightarrow> escape (unescapeToken tok) = tok)"
  by (simp add: unescape_escape validateToken_escape escape_unescape)

theorem pointer_tokens_roundtrip_witness: "escape (unescapeToken ''m~0n~1'') = ''m~0n~1''"
  using pointer_tokens_roundtrip [of "''''" "''m~0n~1''"] by simp

text \<open>Array steps read the reference with \<open>strconv.Atoi\<close>, so a reference RFC 6901 does not
  allow as an array index (a sign, leading zeros) selects an element; a numeral without a sign and
  in range selects the element of that index, and nothing else is ever selected out of range.\<close>

theorem step_array_index:
  "(step (JArr xs) ref = Inr v \<longleftrightarrow> (\<exists>i. Atoi ref = Some i \<and> 0 \<le> i \<and> i < int (length xs) \<and> v = xs ! nat i)) \<and>
   step (JArr [JStr ''a'', JStr ''b'']) ''+01'' = Inr (JStr ''b'') \<and> step (JArr [JStr ''a'']) ''-0'' = Inr (JStr ''a'') \<and>
   step (JArr xs) ''-'' = Inl ErrPointerMiss \<and> step (JArr xs) '''' = Inl ErrPointerMiss"
  by (auto simp: Atoi_def Let_def split: option.splits)

end
