(* ===== verification/Json_Schema.thy ===== *)
theory Json_Schema
  imports Json_Pointer "HOL-Library.Multiset" "HOL-Library.Char_ord" "HOL-Library.List_Lexorder"
begin

text \<open>
  The JSON Schema subset, \<open>internal/core/jsonschema/jsonschema.go\<close>: \<open>Compile\<close> turns schema text
  into a \<open>Schema\<close> or rejects it, \<open>Validate\<close> checks a value. Decoding is a parameter: \<open>unmarshal\<close>
  is \<open>json.Unmarshal\<close>, which takes a whole document, \<open>decode\<close> is one \<open>Decoder.Decode\<close> with
  \<open>UseNumber\<close>, which takes the first value of its input. A \<open>json.RawMessage\<close> inside a decoded
  document is the value it holds. \<open>integral\<close> says of a number's text that its
  \<open>Float64\<close> is in range and has no fraction. Error texts are dropped, the error cases are not;
  where Go ranges over a map the model takes the members in their listed order.
\<close>

datatype schema_error =
  SchemaEmpty | SchemaNotObject | UnsupportedKeyword | MissingType | TypeNotString | UnsupportedType
| KeywordNotValid | MissingAdditional | AdditionalNotFalse | MissingProperties | PropertiesNotObject
| RequiredNotStrings | RequiredUndeclared | MissingItems | EnumNotArray | EnumEmpty | EnumMismatch
| ValueNotJSON | ExpectedObject | MissingRequired | UnexpectedProperty | ExpectedArray
| ScalarMismatch | NotInEnum | NilSchema

definition TypeObject :: string where "TypeObject = ''object''"
definition TypeArray :: string where "TypeArray = ''array''"
definition TypeString :: string where "TypeString = ''string''"
definition TypeNumber :: string where "TypeNumber = ''number''"
definition TypeInteger :: string where "TypeInteger = ''integer''"
definition TypeBoolean :: string where "TypeBoolean = ''boolean''"

lemmas schema_types =
  TypeObject_def TypeArray_def TypeString_def TypeNumber_def TypeInteger_def TypeBoolean_def

lemma schema_types_distinct [simp]: "TypeArray \<noteq> TypeObject" "TypeObject \<noteq> TypeArray"
  by (simp_all add: schema_types)

datatype Schema =
  Schema (sc_typ: string) (sc_enum: "json list option") (sc_properties: "(string \<times> Schema) list")
    (sc_required: "string list") (sc_items: "Schema option")

definition allowedKeywords :: "string list" where
  "allowedKeywords =
     [''type'', ''description'', ''enum'', ''properties'', ''required'', ''additionalProperties'', ''items'']"

section \<open>Decoding into Go types\<close>

text \<open>\<open>json.Unmarshal\<close> of \<open>null\<close> leaves the Go value as it is: a nil map or slice, an empty
  string, \<open>false\<close>.\<close>

fun as_fields :: "json \<Rightarrow> (string \<times> json) list option" where
  "as_fields (JObj ms) = Some ms"
| "as_fields JNull = Some []"
| "as_fields _ = None"

fun as_string :: "json \<Rightarrow> string option" where
  "as_string (JStr s) = Some s"
| "as_string JNull = Some ''''"
| "as_string _ = None"

fun as_bool :: "json \<Rightarrow> bool option" where
  "as_bool (JBool b) = Some b"
| "as_bool JNull = Some False"
| "as_bool _ = None"

fun as_array :: "json \<Rightarrow> json list option" where
  "as_array (JArr xs) = Some xs"
| "as_array JNull = Some []"
| "as_array _ = None"

definition as_strings :: "json \<Rightarrow> string list option" where
  "as_strings v = Option.bind (as_array v) (\<lambda>xs. those (map as_string xs))"

section \<open>Compile\<close>

definition forbid :: "(string \<times> json) list \<Rightarrow> string list \<Rightarrow> schema_error + unit" where
  "forbid fields keys =
     (if list_ex (\<lambda>key. map_of fields key \<noteq> None) keys then Inl KeywordNotValid else Inr ())"

definition checkScalarType :: "(string \<Rightarrow> bool) \<Rightarrow> string \<Rightarrow> json \<Rightarrow> schema_error + unit" where
  "checkScalarType integral typ v =
     (if typ = TypeString then (case v of JStr _ \<Rightarrow> Inr () | _ \<Rightarrow> Inl ScalarMismatch)
      else if typ = TypeBoolean then (case v of JBool _ \<Rightarrow> Inr () | _ \<Rightarrow> Inl ScalarMismatch)
      else if typ = TypeNumber then (case v of JNum _ \<Rightarrow> Inr () | _ \<Rightarrow> Inl ScalarMismatch)
      else if typ = TypeInteger then
        (case v of JNum n \<Rightarrow> if integral n then Inr () else Inl ScalarMismatch | _ \<Rightarrow> Inl ScalarMismatch)
      else Inr ())"

definition compileScalar :: "(string \<Rightarrow> bool) \<Rightarrow> string \<Rightarrow> (string \<times> json) list \<Rightarrow> schema_error + Schema" where
  "compileScalar integral typ fields =
     (case forbid fields [''properties'', ''required'', ''additionalProperties'', ''items''] of
        Inl e \<Rightarrow> Inl e
      | Inr _ \<Rightarrow>
          (case map_of fields ''enum'' of
             None \<Rightarrow> Inr (Schema typ None [] [] None)
           | Some enumRaw \<Rightarrow>
               (case as_array enumRaw of
                  None \<Rightarrow> Inl EnumNotArray
                | Some entries \<Rightarrow>
                    if entries = [] then Inl EnumEmpty
                    else if list_all (\<lambda>v. checkScalarType integral typ v = Inr ()) entries
                    then Inr (Schema typ (Some entries) [] [] None)
                    else Inl EnumMismatch)))"

definition check_required :: "(string \<times> json) list \<Rightarrow> (string \<times> Schema) list \<Rightarrow> schema_error + string list" where
  "check_required fields props =
     (case map_of fields ''required'' of
        None \<Rightarrow> Inr []
      | Some reqRaw \<Rightarrow>
          (case as_strings reqRaw of
             None \<Rightarrow> Inl RequiredNotStrings
           | Some names \<Rightarrow>
               if list_all (\<lambda>name. map_of props name \<noteq> None) names then Inr names
               else Inl RequiredUndeclared))"

abbreviation members_size :: "(string \<times> json) list \<Rightarrow> nat" where
  "members_size ms \<equiv> size_list (size_prod (\<lambda>_. 0) size) ms"

lemma map_of_size: "map_of ms k = Some v \<Longrightarrow> size v < members_size ms"
  by (induction ms) (auto split: if_splits)

lemma as_fields_size: "as_fields v = Some ms \<Longrightarrow> members_size ms \<le> size v"
  by (cases v) auto

function (sequential)
  compileNode :: "(string \<Rightarrow> bool) \<Rightarrow> json \<Rightarrow> schema_error + Schema" and
  compileObject :: "(string \<Rightarrow> bool) \<Rightarrow> (string \<times> json) list \<Rightarrow> schema_error + Schema" and
  compileArray :: "(string \<Rightarrow> bool) \<Rightarrow> (string \<times> json) list \<Rightarrow> schema_error + Schema" and
  compile_props :: "(string \<Rightarrow> bool) \<Rightarrow> (string \<times> json) list \<Rightarrow> schema_error + (string \<times> Schema) list"
where
  "compileNode integral raw =
     (case as_fields raw of
        None \<Rightarrow> Inl SchemaNotObject
      | Some fields \<Rightarrow>
          if list_ex (\<lambda>(key, _). key \<notin> set allowedKeywords) fields then Inl UnsupportedKeyword
          else case map_of fields ''type'' of
                 None \<Rightarrow> Inl MissingType
               | Some typeRaw \<Rightarrow>
                   (case as_string typeRaw of
                      None \<Rightarrow> Inl TypeNotString
                    | Some typ \<Rightarrow>
                        if typ = TypeObject then compileObject integral fields
                        else if typ = TypeArray then compileArray integral fields
                        else if typ \<in> {TypeString, TypeNumber, TypeInteger, TypeBoolean}
                        then compileScalar integral typ fields
                        else Inl UnsupportedType))"
| "compileObject integral fields =
     (case forbid fields [''enum'', ''items''] of
        Inl e \<Rightarrow> Inl e
      | Inr _ \<Rightarrow>
          (case map_of fields ''additionalProperties'' of
             None \<Rightarrow> Inl MissingAdditional
           | Some apRaw \<Rightarrow>
               if as_bool apRaw \<noteq> Some False then Inl AdditionalNotFalse
               else case map_of fields ''properties'' of
                      None \<Rightarrow> Inl MissingProperties
                    | Some propsRaw \<Rightarrow>
                        (case as_fields propsRaw of
                           None \<Rightarrow> Inl PropertiesNotObject
                         | Some members \<Rightarrow>
                             (case compile_props integral members of
                                Inl e \<Rightarrow> Inl e
                              | Inr props \<Rightarrow>
                                  (case check_required fields props of
                                     Inl e \<Rightarrow> Inl e
                                   | Inr names \<Rightarrow> Inr (Schema TypeObject None props names None))))))"
| "compileArray integral fields =
     (case forbid fields [''properties'', ''required'', ''additionalProperties'', ''enum''] of
        Inl e \<Rightarrow> Inl e
      | Inr _ \<Rightarrow>
          (case map_of fields ''items'' of
             None \<Rightarrow> Inl MissingItems
           | Some itemsRaw \<Rightarrow>
               (case compileNode integral itemsRaw of
                  Inl e \<Rightarrow> Inl e
                | Inr child \<Rightarrow> Inr (Schema TypeArray None [] [] (Some child)))))"
| "compile_props integral [] = Inr []"
| "compile_props integral ((name, propRaw) # members) =
     (case compileNode integral propRaw of
        Inl e \<Rightarrow> Inl e
      | Inr child \<Rightarrow>
          (case compile_props integral members of
             Inl e \<Rightarrow> Inl e
           | Inr props \<Rightarrow> Inr ((name, child) # props)))"
  by pat_completeness auto
termination
  by (relation "measure (\<lambda>x. case x of
        Inl (Inl (_, v)) \<Rightarrow> 3 * size v + 2
      | Inl (Inr (_, ms)) \<Rightarrow> 3 * members_size ms + 1
      | Inr (Inl (_, ms)) \<Rightarrow> 3 * members_size ms + 1
      | Inr (Inr (_, ms)) \<Rightarrow> 3 * members_size ms)")
    (auto dest!: map_of_size as_fields_size)

declare compileNode.simps [simp del]

definition Compile :: "(string \<Rightarrow> json option) \<Rightarrow> (string \<Rightarrow> bool) \<Rightarrow> string \<Rightarrow> schema_error + Schema" where
  "Compile unmarshal integral raw =
     (if TrimSpace raw = '''' then Inl SchemaEmpty
      else case unmarshal raw of
             None \<Rightarrow> Inl SchemaNotObject
           | Some v \<Rightarrow> compileNode integral v)"

section \<open>Validate\<close>

definition checkEnum :: "json list option \<Rightarrow> json \<Rightarrow> schema_error + unit" where
  "checkEnum enum v =
     (case enum of
        None \<Rightarrow> Inr ()
      | Some allowed \<Rightarrow> if list_ex (\<lambda>a. a = v) allowed then Inr () else Inl NotInEnum)"

lemma members_size_sort [simp]: "members_size (sort_key f ms) = members_size ms"
  by (simp add: size_list_conv_sum_list flip: sum_mset_sum_list)

text \<open>A missing \<open>items\<close> is a nil pointer that an element would dereference; \<open>NilSchema\<close> stands for
  that panic.\<close>

function (sequential)
  validateValue :: "(string \<Rightarrow> bool) \<Rightarrow> Schema \<Rightarrow> json \<Rightarrow> schema_error + unit" and
  validateObject :: "(string \<Rightarrow> bool) \<Rightarrow> Schema \<Rightarrow> json \<Rightarrow> schema_error + unit" and
  validate_members :: "(string \<Rightarrow> bool) \<Rightarrow> (string \<times> Schema) list \<Rightarrow> (string \<times> json) list \<Rightarrow> schema_error + unit" and
  validateArray :: "(string \<Rightarrow> bool) \<Rightarrow> Schema \<Rightarrow> json list \<Rightarrow> schema_error + unit"
where
  "validateValue integral s v =
     (if sc_typ s = TypeObject then validateObject integral s v
      else if sc_typ s = TypeArray then
        (case v of JArr xs \<Rightarrow> validateArray integral s xs | _ \<Rightarrow> Inl ExpectedArray)
      else case checkScalarType integral (sc_typ s) v of
             Inl e \<Rightarrow> Inl e
           | Inr _ \<Rightarrow> checkEnum (sc_enum s) v)"
| "validateObject integral s (JObj ms) =
     (if list_ex (\<lambda>name. map_of ms name = None) (sc_required s) then Inl MissingRequired
      else validate_members integral (sc_properties s) (sort_key fst ms))"
| "validateObject integral s v = Inl ExpectedObject"
| "validate_members integral props [] = Inr ()"
| "validate_members integral props ((name, v) # ms) =
     (case map_of props name of
        None \<Rightarrow> Inl UnexpectedProperty
      | Some child \<Rightarrow>
          (case validateValue integral child v of
             Inl e \<Rightarrow> Inl e
           | Inr _ \<Rightarrow> validate_members integral props ms))"
| "validateArray integral s [] = Inr ()"
| "validateArray integral s (x # xs) =
     (case sc_items s of
        None \<Rightarrow> Inl NilSchema
      | Some child \<Rightarrow>
          (case validateValue integral child x of
             Inl e \<Rightarrow> Inl e
           | Inr _ \<Rightarrow> validateArray integral s xs))"
  by pat_completeness auto
termination
  by (relation "measure (\<lambda>x. case x of
        Inl (Inl (_, s, v)) \<Rightarrow> 2 * size v + 1
      | Inl (Inr (_, s, v)) \<Rightarrow> 2 * size v
      | Inr (Inl (_, props, ms)) \<Rightarrow> 2 * members_size ms + 1
      | Inr (Inr (_, s, xs)) \<Rightarrow> 2 * size_list size xs)") auto

declare validateValue.simps [simp del]

definition Validate :: "(string \<Rightarrow> json option) \<Rightarrow> (string \<Rightarrow> bool) \<Rightarrow> Schema \<Rightarrow> string \<Rightarrow> schema_error + unit" where
  "Validate decode integral s raw =
     (case decode raw of None \<Rightarrow> Inl ValueNotJSON | Some v \<Rightarrow> validateValue integral s v)"

section \<open>Specification\<close>

definition enum_ok :: "json list option \<Rightarrow> json \<Rightarrow> bool" where
  "enum_ok enum v \<longleftrightarrow> (\<forall>allowed. enum = Some allowed \<longrightarrow> v \<in> set allowed)"

inductive conforms :: "(string \<Rightarrow> bool) \<Rightarrow> Schema \<Rightarrow> json \<Rightarrow> bool" for integral where
  conforms_object:
    "set req \<subseteq> fst ` set ms \<Longrightarrow>
     (\<And>k v. (k, v) \<in> set ms \<Longrightarrow> \<exists>c. map_of props k = Some c \<and> conforms integral c v) \<Longrightarrow>
     conforms integral (Schema TypeObject e props req i) (JObj ms)"
| conforms_array:
    "(\<And>x. x \<in> set xs \<Longrightarrow> conforms integral c x) \<Longrightarrow>
     conforms integral (Schema TypeArray e ps r (Some c)) (JArr xs)"
| conforms_string: "enum_ok e (JStr x) \<Longrightarrow> conforms integral (Schema TypeString e ps r i) (JStr x)"
| conforms_boolean: "enum_ok e (JBool b) \<Longrightarrow> conforms integral (Schema TypeBoolean e ps r i) (JBool b)"
| conforms_number: "enum_ok e (JNum n) \<Longrightarrow> conforms integral (Schema TypeNumber e ps r i) (JNum n)"
| conforms_integer:
    "enum_ok e (JNum n) \<Longrightarrow> integral n \<Longrightarrow> conforms integral (Schema TypeInteger e ps r i) (JNum n)"

inductive_cases conforms_objectE: "conforms integral (Schema TypeObject e props req i) v"
inductive_cases conforms_arrayE: "conforms integral (Schema TypeArray e props req i) v"

text \<open>The schemas of the subset, and the JSON text a schema is written as.\<close>

inductive wf_schema :: "(string \<Rightarrow> bool) \<Rightarrow> Schema \<Rightarrow> bool" for integral where
  wf_object:
    "set req \<subseteq> fst ` set props \<Longrightarrow> (\<And>k c. (k, c) \<in> set props \<Longrightarrow> wf_schema integral c) \<Longrightarrow>
     wf_schema integral (Schema TypeObject None props req None)"
| wf_array: "wf_schema integral c \<Longrightarrow> wf_schema integral (Schema TypeArray None [] [] (Some c))"
| wf_scalar:
    "typ \<in> {TypeString, TypeNumber, TypeInteger, TypeBoolean} \<Longrightarrow>
     (\<And>es. enum = Some es \<Longrightarrow> es \<noteq> [] \<and> (\<forall>v\<in>set es. checkScalarType integral typ v = Inr ())) \<Longrightarrow>
     wf_schema integral (Schema typ enum [] [] None)"

primrec render :: "Schema \<Rightarrow> json" where
  "render (Schema typ enum props req items) = JObj
     ((''type'', JStr typ) #
      (if typ = TypeObject
       then [(''additionalProperties'', JBool False), (''properties'', JObj (map (map_prod id render) props)),
             (''required'', JArr (map JStr req))]
       else (case map_option render items of Some c \<Rightarrow> [(''items'', c)] | None \<Rightarrow> []) @
            (case enum of Some es \<Rightarrow> [(''enum'', JArr es)] | None \<Rightarrow> [])))"

section \<open>Validation decides conformance\<close>

lemma checkScalarType_cases:
  "checkScalarType integral TypeString v = Inr () \<longleftrightarrow> (\<exists>x. v = JStr x)"
  "checkScalarType integral TypeBoolean v = Inr () \<longleftrightarrow> (\<exists>x. v = JBool x)"
  "checkScalarType integral TypeNumber v = Inr () \<longleftrightarrow> (\<exists>x. v = JNum x)"
  "checkScalarType integral TypeInteger v = Inr () \<longleftrightarrow> (\<exists>x. v = JNum x \<and> integral x)"
  by (auto simp: checkScalarType_def schema_types split: json.splits)

lemma checkEnum_iff: "checkEnum e v = Inr () \<longleftrightarrow> enum_ok e v"
  by (auto simp: checkEnum_def enum_ok_def list_ex_iff split: option.splits)

lemma wf_schema_prop: "wf_schema integral (Schema TypeObject e props req i) \<Longrightarrow> map_of props k = Some c \<Longrightarrow> wf_schema integral c"
  by (erule wf_schema.cases) (auto simp: schema_types dest: map_of_SomeD)

lemma wf_schema_items: "wf_schema integral (Schema TypeArray e props req i) \<Longrightarrow> \<exists>c. i = Some c \<and> wf_schema integral c"
  by (erule wf_schema.cases) (auto simp: schema_types)

lemma wf_schema_typ: "wf_schema integral s \<Longrightarrow>
    sc_typ s \<in> {TypeObject, TypeArray, TypeString, TypeNumber, TypeInteger, TypeBoolean}"
  by (erule wf_schema.cases) auto

lemma conforms_scalar:
  assumes "typ \<in> {TypeString, TypeNumber, TypeInteger, TypeBoolean}"
  shows "conforms integral (Schema typ e ps r i) v \<longleftrightarrow> checkScalarType integral typ v = Inr () \<and> enum_ok e v"
proof -
  consider "typ = TypeString" | "typ = TypeNumber" | "typ = TypeInteger" | "typ = TypeBoolean"
    using assms by blast
  then show ?thesis
    by cases (auto simp: checkScalarType_cases intro: conforms.intros
        elim!: conforms.cases, simp_all add: schema_types)
qed

lemma validate_members_iff:
  "validate_members integral props ms = Inr () \<longleftrightarrow>
     (\<forall>(k, v)\<in>set ms. \<exists>c. map_of props k = Some c \<and> validateValue integral c v = Inr ())"
  by (induction ms) (auto split: option.splits sum.splits)

lemma validateArray_iff:
  "validateArray integral s xs = Inr () \<longleftrightarrow>
     (\<forall>x\<in>set xs. \<exists>c. sc_items s = Some c \<and> validateValue integral c x = Inr ())"
  by (induction xs) (auto split: option.splits sum.splits)

lemma member_size: "(k, v) \<in> set ms \<Longrightarrow> size v < size (JObj ms)"
  by (induction ms) auto

lemma elem_size: "x \<in> set xs \<Longrightarrow> size x < size (JArr xs)"
  by (induction xs) auto

lemma validate_object_iff:
  "validateValue integral (Schema TypeObject e props req i) v = Inr () \<longleftrightarrow>
     (\<exists>ms. v = JObj ms \<and> set req \<subseteq> fst ` set ms \<and>
        (\<forall>k w. (k, w) \<in> set ms \<longrightarrow> (\<exists>c. map_of props k = Some c \<and> validateValue integral c w = Inr ())))"
  by (cases v)
    (auto simp: validateValue.simps [of _ "Schema TypeObject e props req i"] list_ex_iff validate_members_iff
      map_of_eq_None_iff)

lemma conforms_object_iff:
  "conforms integral (Schema TypeObject e props req i) v \<longleftrightarrow>
     (\<exists>ms. v = JObj ms \<and> set req \<subseteq> fst ` set ms \<and>
        (\<forall>k w. (k, w) \<in> set ms \<longrightarrow> (\<exists>c. map_of props k = Some c \<and> conforms integral c w)))"
proof
  assume "conforms integral (Schema TypeObject e props req i) v"
  then show "\<exists>ms. v = JObj ms \<and> set req \<subseteq> fst ` set ms \<and>
      (\<forall>k w. (k, w) \<in> set ms \<longrightarrow> (\<exists>c. map_of props k = Some c \<and> conforms integral c w))"
    by (rule conforms_objectE) (auto simp: schema_types)
qed (auto intro: conforms_object)

lemma validate_array_iff:
  "validateValue integral (Schema TypeArray e props req (Some c)) v = Inr () \<longleftrightarrow>
     (\<exists>xs. v = JArr xs \<and> (\<forall>x\<in>set xs. validateValue integral c x = Inr ()))"
  by (cases v) (auto simp: validateValue.simps [of _ "Schema TypeArray e props req (Some c)"]
      validateArray_iff)

lemma conforms_array_iff:
  "conforms integral (Schema TypeArray e props req (Some c)) v \<longleftrightarrow>
     (\<exists>xs. v = JArr xs \<and> (\<forall>x\<in>set xs. conforms integral c x))"
proof
  assume "conforms integral (Schema TypeArray e props req (Some c)) v"
  then show "\<exists>xs. v = JArr xs \<and> (\<forall>x\<in>set xs. conforms integral c x)"
    by (rule conforms_arrayE) (auto simp: schema_types)
qed (auto intro: conforms_array)

lemma validateValue_conforms:
  "wf_schema integral s \<Longrightarrow> validateValue integral s v = Inr () \<longleftrightarrow> conforms integral s v"
proof (induction v arbitrary: s rule: measure_induct_rule [of size])
  case (less v)
  obtain ty e props req i where s: "s = Schema ty e props req i" by (cases s)
  consider "ty = TypeObject" | "ty = TypeArray" | "ty \<in> {TypeString, TypeNumber, TypeInteger, TypeBoolean}"
    using wf_schema_typ [OF less.prems] s by auto
  then show ?case
  proof cases
    case 1
    have "validateValue integral c w = Inr () \<longleftrightarrow> conforms integral c w"
      if "v = JObj ms" "(k, w) \<in> set ms" "map_of props k = Some c" for ms k w c
      using less.IH [of w c] member_size [OF that(2)] wf_schema_prop that less.prems s 1 by blast
    then show ?thesis unfolding s 1 validate_object_iff conforms_object_iff by metis
  next
    case 2
    obtain c where c: "i = Some c" "wf_schema integral c" using wf_schema_items less.prems s 2 by blast
    have "validateValue integral c x = Inr () \<longleftrightarrow> conforms integral c x" if "v = JArr xs" "x \<in> set xs" for x xs
      using less.IH [of x c] elem_size [OF that(2)] c that by blast
    then show ?thesis unfolding s 2 c validate_array_iff conforms_array_iff by metis
  next
    case 3
    then have "ty \<noteq> TypeObject" "ty \<noteq> TypeArray" by (auto simp: schema_types)
    then show ?thesis using s conforms_scalar [OF 3] checkEnum_iff
      by (auto simp: validateValue.simps [of _ "Schema ty e props req i"] split: sum.splits)
  qed
qed

section \<open>Compilation\<close>

text \<open>What \<open>Compile\<close> returns is a schema of the subset.\<close>

lemma compileScalar_wf:
  "compileScalar integral ty fields = Inr s \<Longrightarrow>
     ty \<in> {TypeString, TypeNumber, TypeInteger, TypeBoolean} \<Longrightarrow> wf_schema integral s"
  by (auto simp: compileScalar_def list_all_iff split: sum.splits option.splits if_splits intro!: wf_scalar)

lemma check_required_Inr: "check_required fields props = Inr names \<Longrightarrow> set names \<subseteq> fst ` set props"
  by (auto simp: check_required_def list_all_iff split: option.splits if_splits
      dest!: bspec map_of_SomeD intro: image_eqI [where x = "(_, _)"])

lemma compileObject_Inr:
  assumes "compileObject integral fields = Inr s"
  obtains members props names where "compile_props integral members = Inr props"
    "check_required fields props = Inr names" "s = Schema TypeObject None props names None"
  using assms by (auto split: sum.splits option.splits if_splits)

lemma compileArray_Inr:
  assumes "compileArray integral fields = Inr s"
  obtains raw child where "compileNode integral raw = Inr child" "s = Schema TypeArray None [] [] (Some child)"
  using assms by (auto split: sum.splits option.splits if_splits)

lemma compile_wf:
  "compileNode integral raw = Inr s \<Longrightarrow> wf_schema integral s"
  "compileObject integral fields = Inr s \<Longrightarrow> wf_schema integral s"
  "compileArray integral fields = Inr s \<Longrightarrow> wf_schema integral s"
  "compile_props integral fields = Inr props \<Longrightarrow> (k, c) \<in> set props \<Longrightarrow> wf_schema integral c"
proof (induction integral raw and integral fields and integral fields and integral fields
    arbitrary: s and s and s and props k c
    rule: compileNode_compileObject_compileArray_compile_props.induct)
  case (1 integral raw)
  then show ?case
    by (auto simp: compileNode.simps split: option.splits if_splits intro: compileScalar_wf)
next
  case (2 integral fields)
  show ?case
    using 2(2) by (auto split: sum.splits option.splits if_splits intro!: wf_object 2(1) dest: check_required_Inr)
next
  case (3 integral fields)
  show ?case
    using 3(2) by (auto split: sum.splits option.splits intro!: wf_array 3(1))
next
  case (4 integral)
  then show ?case by simp
next
  case (5 integral name propRaw members)
  then show ?case by (fastforce split: sum.splits)
qed

text \<open>Writing a schema of the subset as JSON and compiling it again gives it back, so the subset
  \<open>wf_schema\<close> is exactly what \<open>Compile\<close> can return.\<close>

lemma compile_props_render:
  "(\<And>k c. (k, c) \<in> set props \<Longrightarrow> compileNode integral (render c) = Inr c) \<Longrightarrow>
     compile_props integral (map (map_prod id render) props) = Inr props"
proof (induction props)
  case Nil
  then show ?case by simp
next
  case (Cons p props)
  obtain k c where p: "p = (k, c)" by fastforce
  have "compile_props integral (map (map_prod id render) props) = Inr props"
  proof (rule Cons.IH)
    fix k' c' assume "(k', c') \<in> set props"
    then show "compileNode integral (render c') = Inr c'" using Cons.prems [of k' c'] by simp
  qed
  then show ?case using p Cons.prems [of k c] by (simp add: id_def)
qed

lemma as_strings_JStr: "as_strings (JArr (map JStr names)) = Some names"
  unfolding as_strings_def by (induction names) (auto simp: comp_def)

lemma compile_render: "wf_schema integral s \<Longrightarrow> compileNode integral (render s) = Inr s"
proof (induction rule: wf_schema.induct)
  case (wf_object req props)
  have "compile_props integral (map (map_prod id render) props) = Inr props"
    using wf_object.IH by (rule compile_props_render)
  moreover have "list_all (\<lambda>name. map_of props name \<noteq> None) req"
    using wf_object(1) by (auto simp: list_all_iff map_of_eq_None_iff)
  ultimately show ?case
    by (simp add: compileNode.simps allowedKeywords_def forbid_def check_required_def as_strings_JStr)
next
  case (wf_array c)
  then show ?case
    by (simp add: compileNode.simps [of _ "JObj _"] allowedKeywords_def forbid_def)
next
  case (wf_scalar ty enum)
  then have ne: "ty \<noteq> TypeObject" "ty \<noteq> TypeArray" by (auto simp: schema_types)
  show ?case
  proof (cases enum)
    case None
    then show ?thesis using wf_scalar(1) ne
      by (simp add: compileNode.simps allowedKeywords_def compileScalar_def forbid_def)
  next
    case (Some es)
    then show ?thesis using wf_scalar(1) wf_scalar(2) [OF Some] ne
      by (simp add: compileNode.simps allowedKeywords_def compileScalar_def forbid_def list_all_iff)
  qed
qed

lemma Compile_wf: "Compile unmarshal integral raw = Inr s \<Longrightarrow> wf_schema integral s"
  by (auto simp: Compile_def split: if_splits option.splits intro: compile_wf)

section \<open>Properties\<close>

text \<open>C16: A compiled schema accepts exactly the values that conform to it: \<open>Validate\<close> returns nil
  if and only if the value decodes and has the declared type, every required member, no member
  the schema does not declare, conforming members and elements, and is one of the enum values
  where the schema has an enum. In particular no compiled schema dereferences a nil \<open>items\<close>.\<close>

theorem Validate_iff_conforms:
  assumes "Compile unmarshal integral schema = Inr s"
  shows "Validate decode integral s raw = Inr () \<longleftrightarrow> (\<exists>v. decode raw = Some v \<and> conforms integral s v)"
  using validateValue_conforms [OF Compile_wf [OF assms]]
  by (auto simp: Validate_def split: option.splits)

definition ex_schema :: Schema where
  "ex_schema = Schema TypeObject None
     [(''name'', Schema TypeString None [] [] None),
      (''tags'', Schema TypeArray None [] [] (Some (Schema TypeString (Some [JStr ''a'', JStr ''b'']) [] [] None)))]
     [''name''] None"

definition ex_value :: json where
  "ex_value = JObj [(''tags'', JArr [JStr ''b'']), (''name'', JStr ''x'')]"

text \<open>A decoder for two documents, standing for \<open>encoding/json\<close>.\<close>

definition ex_decode :: "string \<Rightarrow> json option" where
  "ex_decode t = (if t = ''S'' then Some (render ex_schema) else if t = ''V'' then Some ex_value else None)"

lemma ex_schema_wf: "wf_schema integral ex_schema"
proof -
  have "wf_schema integral (Schema TypeString None [] [] None)" by (intro wf_scalar) auto
  moreover have "wf_schema integral (Schema TypeString (Some [JStr ''a'', JStr ''b'']) [] [] None)"
    by (intro wf_scalar) (auto simp: checkScalarType_def)
  ultimately show ?thesis
    unfolding ex_schema_def by (intro wf_object) (auto intro: wf_array)
qed

lemma ex_Compile: "Compile ex_decode integral ''S'' = Inr ex_schema"
  using compile_render [OF ex_schema_wf, of integral]
  by (simp add: Compile_def ex_decode_def TrimSpace_def go_spaces_def)

theorem Validate_iff_conforms_witness: "conforms (\<lambda>_. True) ex_schema ex_value"
proof -
  have "Validate ex_decode (\<lambda>_. True) ex_schema ''V'' = Inr ()"
    by (simp add: Validate_def ex_decode_def ex_value_def ex_schema_def validateValue.simps schema_types
        checkScalarType_def checkEnum_def)
  then show ?thesis using Validate_iff_conforms [OF ex_Compile, of ex_decode "\<lambda>_. True" "''V''"]
    by (simp add: ex_decode_def)
qed



end
