(* ===== verification/Workflow_Core.thy ===== *)
theory Workflow_Core
  imports Prelude
begin

text \<open>
  The workflow domain model, \<open>internal/core/workflow/workflow.go\<close>: definitions, runs, node
  runs, requests, the two status machines, retry backoff and deadlines, binding sources and
  admission keys. Times are nanoseconds since the epoch; a \<open>time.Duration\<close> is an
  \<open>int64\<close>, so products of durations wrap.
\<close>

type_synonym time = int

definition Second :: int where "Second = 1000000000"
definition Minute :: int where "Minute = 60 * Second"

section \<open>Constants\<close>

definition StatusDraft :: string where "StatusDraft = ''draft''"
definition StatusPublished :: string where "StatusPublished = ''published''"
definition StatusArchived :: string where "StatusArchived = ''archived''"
definition NodeTypeAgentTask :: string where "NodeTypeAgentTask = ''agent_task''"
definition NodeTypeHumanInput :: string where "NodeTypeHumanInput = ''human_input''"
definition DefinitionSchemaVersion :: int where "DefinitionSchemaVersion = 1"
definition MaxParallelNodesCeiling :: int where "MaxParallelNodesCeiling = 8"
definition MaxNodeAttemptsCeiling :: int where "MaxNodeAttemptsCeiling = 5"
definition MinTimeoutSeconds :: int where "MinTimeoutSeconds = 60"
definition MaxTimeoutSeconds :: int where "MaxTimeoutSeconds = 30 * 24 * 60 * 60"

lemmas workflow_consts =
  StatusDraft_def StatusPublished_def StatusArchived_def NodeTypeAgentTask_def
  NodeTypeHumanInput_def DefinitionSchemaVersion_def MaxParallelNodesCeiling_def
  MaxNodeAttemptsCeiling_def MinTimeoutSeconds_def MaxTimeoutSeconds_def

section \<open>Status machines\<close>

datatype RunStatus =
  RunStatusPending | RunStatusRunning | RunStatusFailing | RunStatusCanceling
| RunStatusSucceeded | RunStatusFailed | RunStatusCanceled

datatype NodeRunStatus =
  NodeRunStatusPending | NodeRunStatusRunning | NodeRunStatusSucceeded | NodeRunStatusFailed
| NodeRunStatusCanceled | NodeRunStatusBlocked | NodeRunStatusRetryWait | NodeRunStatusWaiting

datatype ReportStatus = ReportNone | ReportPending | ReportSent | ReportSkipped | ReportFailed

fun RunStatusTerminal :: "RunStatus \<Rightarrow> bool" where
  "RunStatusTerminal RunStatusSucceeded = True"
| "RunStatusTerminal RunStatusFailed = True"
| "RunStatusTerminal RunStatusCanceled = True"
| "RunStatusTerminal _ = False"

definition TerminalRunStatuses :: "RunStatus list" where
  "TerminalRunStatuses = [RunStatusSucceeded, RunStatusFailed, RunStatusCanceled]"

fun NodeRunStatusTerminal :: "NodeRunStatus \<Rightarrow> bool" where
  "NodeRunStatusTerminal NodeRunStatusSucceeded = True"
| "NodeRunStatusTerminal NodeRunStatusFailed = True"
| "NodeRunStatusTerminal NodeRunStatusCanceled = True"
| "NodeRunStatusTerminal NodeRunStatusBlocked = True"
| "NodeRunStatusTerminal _ = False"

fun ValidRunStatusTransition :: "RunStatus \<Rightarrow> RunStatus \<Rightarrow> bool" where
  "ValidRunStatusTransition RunStatusPending to =
     (to = RunStatusRunning \<or> to = RunStatusFailed \<or> to = RunStatusCanceled)"
| "ValidRunStatusTransition RunStatusRunning to =
     (to = RunStatusSucceeded \<or> to = RunStatusFailed \<or> to = RunStatusCanceled
      \<or> to = RunStatusFailing \<or> to = RunStatusCanceling)"
| "ValidRunStatusTransition RunStatusFailing to = (to = RunStatusFailed)"
| "ValidRunStatusTransition RunStatusCanceling to = (to = RunStatusCanceled)"
| "ValidRunStatusTransition _ to = False"

fun ValidNodeRunTransition :: "NodeRunStatus \<Rightarrow> NodeRunStatus \<Rightarrow> bool" where
  "ValidNodeRunTransition NodeRunStatusPending to =
     (to = NodeRunStatusRunning \<or> to = NodeRunStatusBlocked \<or> to = NodeRunStatusFailed
      \<or> to = NodeRunStatusCanceled \<or> to = NodeRunStatusWaiting)"
| "ValidNodeRunTransition NodeRunStatusRunning to =
     (to = NodeRunStatusSucceeded \<or> to = NodeRunStatusFailed \<or> to = NodeRunStatusCanceled
      \<or> to = NodeRunStatusRetryWait \<or> to = NodeRunStatusWaiting)"
| "ValidNodeRunTransition NodeRunStatusRetryWait to =
     (to = NodeRunStatusRunning \<or> to = NodeRunStatusFailed \<or> to = NodeRunStatusCanceled)"
| "ValidNodeRunTransition NodeRunStatusWaiting to =
     (to = NodeRunStatusSucceeded \<or> to = NodeRunStatusRunning
      \<or> to = NodeRunStatusFailed \<or> to = NodeRunStatusCanceled)"
| "ValidNodeRunTransition _ to = False"

fun_cases valid_run_transitionE: "ValidRunStatusTransition from to"
fun_cases valid_node_transitionE: "ValidNodeRunTransition from to"

lemma run_terminal_iff: "RunStatusTerminal r \<longleftrightarrow> r \<in> set TerminalRunStatuses"
  by (cases r) (simp_all add: TerminalRunStatuses_def)

lemma terminal_run_no_transition [simp]: "RunStatusTerminal r \<Longrightarrow> \<not> ValidRunStatusTransition r t"
  by (cases r) simp_all

lemma terminal_node_no_transition [simp]: "NodeRunStatusTerminal n \<Longrightarrow> \<not> ValidNodeRunTransition n t"
  by (cases n) simp_all

lemma run_transition_irrefl [simp]: "\<not> ValidRunStatusTransition r r"
  by (cases r) simp_all

lemma node_transition_irrefl [simp]: "\<not> ValidNodeRunTransition n n"
  by (cases n) simp_all

section \<open>Failure classes\<close>

type_synonym FailureClass = string

definition FailureNode :: FailureClass where "FailureNode = ''node_failed''"
definition FailureOutputSchema :: FailureClass where "FailureOutputSchema = ''output_schema''"
definition FailureNodeTimeout :: FailureClass where "FailureNodeTimeout = ''node_timeout''"
definition FailureAdmission :: FailureClass where "FailureAdmission = ''admission''"
definition FailureRequestDeclined :: FailureClass where "FailureRequestDeclined = ''request_declined''"
definition FailureRequestExpired :: FailureClass where "FailureRequestExpired = ''request_expired''"
definition FailureRunDeadline :: FailureClass where "FailureRunDeadline = ''run_deadline''"
definition FailureUnclassified :: FailureClass where "FailureUnclassified = ''unclassified''"

definition FailureClasses :: "FailureClass list" where
  "FailureClasses =
     [FailureNode, FailureOutputSchema, FailureNodeTimeout, FailureAdmission,
      FailureRequestDeclined, FailureRequestExpired, FailureRunDeadline, FailureUnclassified]"

definition NormalizeFailureClass :: "string \<Rightarrow> FailureClass" where
  "NormalizeFailureClass s =
     (case find (\<lambda>c. c = s) FailureClasses of Some c \<Rightarrow> c | None \<Rightarrow> FailureUnclassified)"

lemma NormalizeFailureClass_in: "NormalizeFailureClass s \<in> set FailureClasses"
  by (auto simp: NormalizeFailureClass_def find_Some_iff FailureClasses_def split: option.splits)

lemma NormalizeFailureClass_id: "c \<in> set FailureClasses \<Longrightarrow> NormalizeFailureClass c = c"
  by (auto simp: NormalizeFailureClass_def find_None_iff find_Some_iff split: option.splits)

section \<open>Requests\<close>

datatype RequestKind = RequestKindInput | RequestKindQuestion

datatype RequestStatus =
  RequestStatusPending | RequestStatusAnswered | RequestStatusDeclined
| RequestStatusExpired | RequestStatusCanceled

record Request =
  rq_ID :: string
  rq_WorkflowRunID :: string
  rq_Key :: string
  rq_WorkflowID :: string
  rq_NodeRunID :: string
  rq_NodeID :: string
  rq_Kind :: RequestKind
  rq_Prompt :: string
  rq_Questions :: "string option"
  rq_ResponseSchema :: "string option"
  rq_TaskRunID :: "string option"
  rq_Status :: RequestStatus
  rq_ExpiresAt :: "time option"
  rq_Response :: "string option"
  rq_RespondedBy :: "string option"
  rq_RespondedAt :: "time option"
  rq_CreatedAt :: time

section \<open>Retry backoff and deadlines\<close>

function backoff_loop :: "int \<Rightarrow> int \<Rightarrow> int \<Rightarrow> int" where
  "backoff_loop attempt i d =
     (if i < attempt \<and> d < 10 * Minute then backoff_loop attempt (i + 1) (wrap64 (d * 2)) else d)"
  by pat_completeness auto
termination
  by (relation "measure (\<lambda>(attempt, i, d). nat (attempt - i))") auto

declare backoff_loop.simps [simp del]

definition RetryBackoff :: "int \<Rightarrow> int" where
  "RetryBackoff attempt = min (backoff_loop attempt 1 (30 * Second)) (10 * Minute)"

definition Deadline :: "time \<Rightarrow> int \<Rightarrow> time option" where
  "Deadline start timeoutSeconds =
     (if timeoutSeconds \<le> 0 then None else Some (start + wrap64 (timeoutSeconds * Second)))"

lemma backoff_loop_closed:
  assumes "30 * Second \<le> d" "d < 2 * (10 * Minute)"
  shows "min (backoff_loop attempt i d) (10 * Minute) = min (d * 2 ^ nat (attempt - i)) (10 * Minute)"
  using assms
proof (induction attempt i d rule: backoff_loop.induct)
  case (1 attempt i d)
  show ?case
  proof (cases "i < attempt \<and> d < 10 * Minute")
    case True
    have w: "wrap64 (d * 2) = d * 2"
      using True 1(2,3) by (intro wrap64_id) (simp_all add: Minute_def Second_def)
    have "nat (attempt - i) = Suc (nat (attempt - (i + 1)))" using True by arith
    moreover have "min (backoff_loop attempt (i + 1) (wrap64 (d * 2))) (10 * Minute)
        = min (d * 2 * 2 ^ nat (attempt - (i + 1))) (10 * Minute)"
      using 1(1) [OF True] True 1(2) w by (simp add: Second_def)
    ultimately show ?thesis using True by (simp add: backoff_loop.simps [of attempt i d] mult.assoc)
  next
    case False
    have "d \<le> d * 2 ^ nat (attempt - i)"
      using 1(2) by (simp add: Second_def)
    then show ?thesis using False by (auto simp: backoff_loop.simps [of attempt i d])
  qed
qed

text \<open>The backoff is the doubling the comment on \<open>RetryBackoff\<close> describes, for every attempt
  number: no overflow, and never above ten minutes.\<close>

lemma RetryBackoff_closed:
  "RetryBackoff attempt = min (30 * Second * 2 ^ nat (attempt - 1)) (10 * Minute)"
  unfolding RetryBackoff_def by (rule backoff_loop_closed) (simp_all add: Minute_def Second_def)

lemma RetryBackoff_bounds: "30 * Second \<le> RetryBackoff a" "RetryBackoff a \<le> 10 * Minute"
  by (simp_all add: RetryBackoff_closed Second_def Minute_def)

lemma RetryBackoff_mono: "a \<le> b \<Longrightarrow> RetryBackoff a \<le> RetryBackoff b"
proof -
  assume "a \<le> b"
  then have "(2::int) ^ nat (a - 1) \<le> 2 ^ nat (b - 1)"
    by (intro power_increasing nat_mono) simp_all
  then have "30 * Second * 2 ^ nat (a - 1) \<le> 30 * Second * 2 ^ nat (b - 1)"
    by (simp add: Second_def)
  then show ?thesis unfolding RetryBackoff_closed by linarith
qed

lemma Deadline_None [simp]: "Deadline t 0 = None"
  by (simp add: Deadline_def)

lemma Deadline_Some:
  assumes "0 < n" "n \<le> MaxTimeoutSeconds"
  shows "Deadline t n = Some (t + n * Second)"
proof -
  have "wrap64 (n * Second) = n * Second"
    using assms by (intro wrap64_id) (simp_all add: MaxTimeoutSeconds_def Second_def)
  then show ?thesis using assms by (simp add: Deadline_def)
qed

section \<open>Workflows, runs and node runs\<close>

record Workflow =
  wf_ID :: string
  wf_SpaceID :: string
  wf_Name :: string
  wf_Description :: string
  wf_Definition :: string
  wf_Status :: string
  wf_Revision :: int
  wf_CreatedBy :: string
  wf_CreatedAt :: time
  wf_UpdatedAt :: time

record Revision =
  rv_WorkflowID :: string
  rv_Revision :: int
  rv_Name :: string
  rv_Description :: string
  rv_Definition :: string
  rv_Status :: string
  rv_CreatedBy :: string
  rv_CreatedAt :: time

record Run =
  r_ID :: string
  r_WorkflowID :: string
  r_WorkflowRevision :: int
  r_IssueID :: "string option"
  r_ScheduleID :: "string option"
  r_ConversationID :: "string option"
  r_RequestedBy :: string
  r_AssistantID :: string
  r_AssistantRevision :: int
  r_ReportStatus :: ReportStatus
  r_Input :: "string option"
  r_Status :: RunStatus
  r_CreatedBy :: string
  r_Result :: "string option"
  r_CreatedAt :: time
  r_StartedAt :: "time option"
  r_EndedAt :: "time option"
  r_ErrorMessage :: "string option"
  r_FailureClass :: string
  r_DeadlineAt :: "time option"
  r_ReconcileOwner :: "string option"
  r_LeaseExpiresAt :: "time option"
  r_NextReconcileAt :: "time option"

record StepBinding =
  b_Name :: string
  b_Source :: string
  b_Pointer :: string

record NodeRun =
  n_ID :: string
  n_WorkflowRunID :: string
  n_NodeID :: string
  n_NodeIndex :: int
  n_NodeType :: string
  n_Needs :: "string list"
  n_IssueAccess :: string
  n_TargetAgentID :: "string option"
  n_AgentName :: string
  n_AgentDescription :: string
  n_AgentInstructions :: string
  n_AgentRevision :: int
  n_Prompt :: string
  n_Bindings :: "StepBinding list"
  n_OutputSchema :: "string option"
  n_MaxAttempts :: int
  n_TimeoutSeconds :: int
  n_Attempt :: int
  n_DeadlineAt :: "time option"
  n_NextAttemptAt :: "time option"
  n_Status :: NodeRunStatus
  n_TaskID :: "string option"
  n_TaskRunID :: "string option"
  n_ResolvedInput :: "string option"
  n_Output :: "string option"
  n_Structured :: "string option"
  n_ErrorMessage :: "string option"
  n_CreatedAt :: time
  n_StartedAt :: "time option"
  n_EndedAt :: "time option"

section \<open>Definitions\<close>

record DefinitionPolicy =
  dp_MaxParallelNodes :: int
  dp_TimeoutSeconds :: int

record NodePolicy =
  np_TimeoutSeconds :: int
  np_MaxAttempts :: int

record ResultSelector =
  rs_Source :: string
  rs_Pointer :: string

record NodeAgent =
  na_ID :: string
  na_Revision :: int

record NodeInput =
  ni_Instruction :: string
  ni_Bindings :: "StepBinding list"

record DefinitionNode =
  dn_ID :: string
  dn_Type :: string
  dn_Needs :: "string list"
  dn_Agent :: NodeAgent
  dn_Input :: NodeInput
  dn_IssueAccess :: string
  dn_OutputSchema :: string
  dn_Policy :: "NodePolicy option"

text \<open>A \<open>json.RawMessage\<close> field is its JSON text, empty when the member is absent.\<close>

record Definition =
  df_SchemaVersion :: int
  df_InputSchema :: string
  df_Policy :: "DefinitionPolicy option"
  df_Nodes :: "DefinitionNode list"
  df_Result :: "ResultSelector option"

definition MaxParallelNodes :: "Definition \<Rightarrow> int" where
  "MaxParallelNodes d =
     (case df_Policy d of
        Some p \<Rightarrow> if dp_MaxParallelNodes p > 0 then dp_MaxParallelNodes p else MaxParallelNodesCeiling
      | None \<Rightarrow> MaxParallelNodesCeiling)"

definition MaxAttempts :: "DefinitionNode \<Rightarrow> int" where
  "MaxAttempts n =
     (case dn_Policy n of
        Some p \<Rightarrow> if np_MaxAttempts p > 0 then np_MaxAttempts p else 1
      | None \<Rightarrow> 1)"

definition TimeoutSeconds :: "DefinitionNode \<Rightarrow> int" where
  "TimeoutSeconds n = (case dn_Policy n of Some p \<Rightarrow> np_TimeoutSeconds p | None \<Rightarrow> 0)"

definition IssueAccessNone :: string where "IssueAccessNone = ''none''"
definition IssueAccessIfBound :: string where "IssueAccessIfBound = ''if_bound''"
definition IssueAccessRequired :: string where "IssueAccessRequired = ''required''"

definition ValidIssueAccess :: "string \<Rightarrow> bool" where
  "ValidIssueAccess s \<longleftrightarrow> s = IssueAccessNone \<or> s = IssueAccessIfBound \<or> s = IssueAccessRequired"

section \<open>Binding sources and admission keys\<close>

definition BindingSourceWorkflowInput :: string where
  "BindingSourceWorkflowInput = ''workflow.input''"

definition NodeOutputSource :: "string \<Rightarrow> string" where
  "NodeOutputSource nodeID = ''node.'' @ nodeID @ ''.output''"

definition TaskAdmissionKey :: "string \<Rightarrow> string \<Rightarrow> string" where
  "TaskAdmissionKey workflowRunID nodeID = ''workflow/'' @ workflowRunID @ ''/node/'' @ nodeID"

definition TaskRunAdmissionKey :: "string \<Rightarrow> string \<Rightarrow> int \<Rightarrow> string" where
  "TaskRunAdmissionKey workflowRunID nodeID attempt =
     TaskAdmissionKey workflowRunID nodeID @ ''/attempt/'' @ itoa attempt"

definition ParseNodeOutputSource :: "string \<Rightarrow> string option" where
  "ParseNodeOutputSource source =
     (if length source \<le> 5 + 7 then None
      else if take 5 source \<noteq> ''node.'' \<or> drop (length source - 7) source \<noteq> ''.output'' then None
      else Some (take (length source - 7 - 5) (drop 5 source)))"

record NodeOutputArtifact =
  oa_ID :: string
  oa_Path :: string
  oa_MediaType :: string

record NodeOutputEnvelope =
  oe_Text :: string
  oe_Structured :: "string option"
  oe_Artifacts :: "NodeOutputArtifact list"
  oe_TaskID :: string
  oe_TaskRunID :: string

lemma ParseNodeOutputSource_of_source: "x \<noteq> '''' \<Longrightarrow> ParseNodeOutputSource (NodeOutputSource x) = Some x"
  by (simp add: ParseNodeOutputSource_def NodeOutputSource_def)

lemma ParseNodeOutputSource_SomeD:
  assumes "ParseNodeOutputSource s = Some x"
  shows "s = NodeOutputSource x" "x \<noteq> ''''"
proof -
  have len: "length s > 12" and pre: "take 5 s = ''node.''"
    and suf: "drop (length s - 7) s = ''.output''"
    and x: "x = take (length s - 12) (drop 5 s)"
    using assms by (auto simp: ParseNodeOutputSource_def split: if_splits)
  have "s = take 5 s @ take (length s - 12) (drop 5 s) @ drop (length s - 12) (drop 5 s)"
    by (metis append_take_drop_id)
  moreover have "drop (length s - 12) (drop 5 s) = drop (length s - 7) s"
    using len by simp
  ultimately show "s = NodeOutputSource x"
    unfolding NodeOutputSource_def using pre suf x by metis
  show "x \<noteq> ''''" using len x by auto
qed

lemma append_sep_inject:
  "c \<notin> set a \<Longrightarrow> c \<notin> set b \<Longrightarrow> a @ c # x = b @ c # y \<longleftrightarrow> a = b \<and> x = y"
proof (induction a arbitrary: b)
  case Nil
  then show ?case by (cases b) auto
next
  case (Cons h t)
  then show ?case by (cases b) auto
qed

lemma TaskAdmissionKey_inject:
  assumes "CHR ''/'' \<notin> set r" "CHR ''/'' \<notin> set r'"
  shows "TaskAdmissionKey r n = TaskAdmissionKey r' n' \<longleftrightarrow> r = r' \<and> n = n'"
  using append_sep_inject [OF assms, of "''node/'' @ n" "''node/'' @ n'"]
  by (simp add: TaskAdmissionKey_def)

end
