(* ===== verification/Service_Errors.thy ===== *)
theory Service_Errors
  imports Json_Schema Workflow_Core
begin

text \<open>
  The error values the services and the store return, one constructor per sentinel
  (\<open>apierr.New\<close> and \<open>errors.New\<close> of \<open>internal/service/workflow\<close>, \<open>internal/service/task\<close>,
  \<open>internal/core/task\<close>, \<open>internal/core/workflow\<close>, \<open>internal/core/apierr\<close> and
  \<open>internal/infra/db/publicid.go\<close>); \<open>ErrDB\<close> is any failure of the database itself and \<open>ErrText\<close> an
  error made with \<open>fmt.Errorf\<close> or \<open>errors.New\<close> in place. \<open>ErrPanic\<close> is the panic of a nil
  dereference and \<open>OutOfFuel\<close> the end of the fuel of a bounded recursion: no error branch sees them. The detail \<open>apierr.Detail\<close> adds to a
  sentinel is dropped: no branch of the code looks at it. The functions of the standard library and
  of other packages the services use are the fields of \<open>codec\<close>.
\<close>

datatype err =
  ErrWorkflowsNotConfigured | ErrIssuesNotConfigured | ErrTasksNotConfigured
| ErrWorkflowNameRequired | ErrWorkflowDefinitionRequired | ErrWorkflowNameTooLong
| ErrWorkflowDescriptionTooLong | ErrWorkflowNotFound | ErrWorkflowRunNotFound
| ErrWorkflowRevisionNotFound | ErrIssueNotFound | ErrIssueWorkflowMismatch
| ErrInvalidDefinition | ErrUnsupportedSchemaVersion | ErrInvalidInputSchema | ErrInvalidResult
| ErrInvalidRunInput | ErrInvalidNodeType | ErrInvalidHumanInputNode | ErrInvalidNodeID
| ErrInvalidNeeds | ErrInvalidPolicy | ErrInvalidNodePolicy | ErrInvalidIssueAccess
| ErrInvalidAgentRevision | ErrIssueRequired | ErrInvalidBinding | ErrInvalidOutputSchema
| ErrInvalidTargetAgent | ErrInvalidWorkflowStatus | ErrWorkflowNotPublished | ErrWorkflowArchived
| ErrWorkflowRequestNotFound | ErrWorkflowRequestResolved | ErrInvalidRequestResponse
| ErrInvalidRequestAction | ErrWorkflowRunFinished | ErrWorkflowRunStoppingFailed
| ErrInvalidWorkflowRunTransition | ErrInvalidNodeRunTransition | ErrRevisionConflict
| ErrInputRequired | ErrInputTooLong | ErrAgentsNotConfigured | ErrTaskServiceNotConfigured
| ErrTaskRunsNotConfigured | ErrAgentNotFound | ErrTaskNotFound | ErrAdmissionKeyRequired
| ErrNoRunToRetry | ErrRetryOfWorkflowStep | ErrContinueOfWorkflowStep
| ErrRunInProgress | ErrTaskAdmissionConflict | ErrInvalidRunTransition
| ErrNotFound | ErrRecordNotFound | ErrPublicIDExhausted | ErrQuota | ErrConflict string
| ErrDuplicateAdmission | ErrDB | ErrText string | ErrPanic | OutOfFuel

record codec =
  cd_unmarshalDefinition :: "string \<Rightarrow> Definition option"
  cd_marshalDefinition :: "Definition \<Rightarrow> string"
  cd_unmarshal :: "string \<Rightarrow> json option"
  cd_decode :: "string \<Rightarrow> json option"
  cd_marshal :: "json \<Rightarrow> string"
  cd_integral :: "string \<Rightarrow> bool"
  cd_unmarshalString :: "string \<Rightarrow> string option"
  cd_marshalString :: "string \<Rightarrow> string"
  cd_marshalEnvelope :: "NodeOutputEnvelope \<Rightarrow> string option"
  cd_quote :: "string \<Rightarrow> string"
  cd_rfc3339 :: "time \<Rightarrow> string"
  cd_errorText :: "err \<Rightarrow> string"

end
