(* ===== verification/Task_Core.thy ===== *)
theory Task_Core
  imports Service_Errors
begin

text \<open>
  The task domain model, \<open>internal/core/task\<close>: a task and its runs, the run status machine,
  failure classes, admission fingerprints and origins. A run belongs to one task and a task
  mirrors its latest run. Columns of purely operational interest (workspace checkpoints beyond the
  base pointer, plugin environments) are left out of the records.
\<close>

datatype TaskRunStatus = TPending | TScheduled | TRunning | TSucceeded | TFailed | TCanceled

fun TaskRunStatusTerminal :: "TaskRunStatus \<Rightarrow> bool" where
  "TaskRunStatusTerminal TSucceeded = True"
| "TaskRunStatusTerminal TFailed = True"
| "TaskRunStatusTerminal TCanceled = True"
| "TaskRunStatusTerminal _ = False"

fun ValidTaskRunTransition :: "TaskRunStatus \<Rightarrow> TaskRunStatus \<Rightarrow> bool" where
  "ValidTaskRunTransition TPending to = (to = TScheduled \<or> to = TCanceled)"
| "ValidTaskRunTransition TScheduled to = (to = TRunning \<or> to = TFailed \<or> to = TCanceled)"
| "ValidTaskRunTransition TRunning to = (to = TSucceeded \<or> to = TFailed \<or> to = TCanceled)"
| "ValidTaskRunTransition _ to = False"

definition ActiveRunStatuses :: "TaskRunStatus list" where
  "ActiveRunStatuses = [TPending, TScheduled, TRunning]"

lemma active_iff: "x \<in> set ActiveRunStatuses \<longleftrightarrow> \<not> TaskRunStatusTerminal x"
  by (cases x) (simp_all add: ActiveRunStatuses_def)

lemma terminal_taskrun_no_transition [simp]: "TaskRunStatusTerminal a \<Longrightarrow> \<not> ValidTaskRunTransition a b"
  by (cases a) simp_all

lemma taskrun_transition_irrefl [simp]: "\<not> ValidTaskRunTransition a a"
  by (cases a) simp_all

section \<open>Failure classes and reasons\<close>

definition RunCreatedByTypeUser :: string where "RunCreatedByTypeUser = ''user''"
definition RunTriggerSourceTaskCreate :: string where "RunTriggerSourceTaskCreate = ''task_create''"
definition RunTriggerSourceTaskRerun :: string where "RunTriggerSourceTaskRerun = ''task_rerun''"
definition RunTriggerSourceTaskRetry :: string where "RunTriggerSourceTaskRetry = ''task_retry''"
definition RunTriggerSourceWorkflowStep :: string where "RunTriggerSourceWorkflowStep = ''workflow_step''"
definition RunTriggerSourceSchedule :: string where "RunTriggerSourceSchedule = ''schedule''"
definition CancelReasonWorkflowStopped :: string where "CancelReasonWorkflowStopped = ''workflow_stopped''"
definition CancelReasonWorkflowNodeTimeout :: string where
  "CancelReasonWorkflowNodeTimeout = ''workflow_node_timeout''"

definition TaskFailureUnclassified :: string where "TaskFailureUnclassified = ''unclassified''"

definition TaskFailureClasses :: "string list" where
  "TaskFailureClasses =
     [''dispatch'', ''worker_lost'', ''abandoned'', ''interrupted'', ''infrastructure'',
      ''space_configuration'', ''model'', ''run'', TaskFailureUnclassified]"

definition NormalizeTaskFailureClass :: "string \<Rightarrow> string" where
  "NormalizeTaskFailureClass s =
     (case find (\<lambda>c. c = s) TaskFailureClasses of Some c \<Rightarrow> c | None \<Rightarrow> TaskFailureUnclassified)"

lemma NormalizeTaskFailureClass_in: "NormalizeTaskFailureClass s \<in> set TaskFailureClasses"
  by (auto simp: NormalizeTaskFailureClass_def find_Some_iff TaskFailureClasses_def split: option.splits)

section \<open>Tasks and runs\<close>

record Task =
  tk_ID :: string
  tk_ConversationID :: "string option"
  tk_SpaceID :: string
  tk_IssueID :: "string option"
  tk_ScheduleID :: "string option"
  tk_Status :: TaskRunStatus
  tk_Input :: string
  tk_Title :: string
  tk_TitlePromptTokens :: int
  tk_TitleCompletionTokens :: int
  tk_Output :: "string option"
  tk_OutputSchema :: "string option"
  tk_CreatedBy :: string
  tk_RequestedBy :: string
  tk_AssistantID :: string
  tk_AssistantRevision :: int
  tk_CreatedAt :: time
  tk_StartedAt :: "time option"
  tk_EndedAt :: "time option"
  tk_ErrorMessage :: "string option"
  tk_SessionID :: "string option"
  tk_LastRunID :: "string option"
  tk_AwaitingAnswer :: bool
  tk_AgentID :: "string option"
  tk_WorkspaceHead :: "string option"
  tk_AdmissionKey :: "string option"
  tk_AdmissionFingerprint :: "string option"

record TaskRun =
  tr_ID :: string
  tr_TaskID :: string
  tr_PreviousTaskRunID :: "string option"
  tr_Input :: string
  tr_CreatedBy :: string
  tr_CreatedByType :: string
  tr_TriggerSource :: string
  tr_Status :: TaskRunStatus
  tr_Output :: "string option"
  tr_Structured :: "string option"
  tr_Questions :: "string option"
  tr_ErrorMessage :: "string option"
  tr_StartedAt :: "time option"
  tr_EndedAt :: "time option"
  tr_SessionID :: "string option"
  tr_WorkerType :: string
  tr_K8sJobName :: "string option"
  tr_K8sJobCreatedAt :: "time option"
  tr_PromptTokens :: "int option"
  tr_CompletionTokens :: "int option"
  tr_TracePath :: "string option"
  tr_CancelRequestedAt :: "time option"
  tr_CancelRequestedBy :: "string option"
  tr_CancelReason :: string
  tr_FailureClass :: string
  tr_FailureCause :: "string option"
  tr_RetryOfTaskRunID :: "string option"
  tr_SourceMessageID :: "string option"
  tr_AgentRevision :: "int option"
  tr_SpaceInstructionsRevision :: "int option"
  tr_PluginPins :: string
  tr_SandboxNetworkTier :: "string option"
  tr_SandboxFilesystemTier :: "string option"
  tr_LastSeenAt :: "time option"
  tr_CreatedAt :: time
  tr_IdempotencyKey :: "string option"
  tr_WorkspaceBase :: "string option"

record CreateInput =
  ci_ConversationID :: string
  ci_SpaceID :: string
  ci_Input :: string
  ci_Title :: string
  ci_CreatedBy :: string
  ci_InitialRunCreatedBy :: string
  ci_InitialRunCreatedByType :: string
  ci_InitialRunTriggerSource :: string
  ci_InitialRunSourceMessageID :: "string option"
  ci_TitlePromptTokens :: int
  ci_TitleCompletionTokens :: int
  ci_AgentID :: "string option"
  ci_InitialRunAgentRevision :: "int option"
  ci_InitialRunSandboxNetworkTier :: "string option"
  ci_InitialRunSandboxFilesystemTier :: "string option"
  ci_IssueID :: "string option"
  ci_ScheduleID :: "string option"
  ci_AdmissionKey :: string
  ci_WorkflowNodeRunID :: string
  ci_OutputSchema :: "string option"
  ci_RequestedBy :: string
  ci_AssistantID :: string
  ci_AssistantRevision :: int

record CreateRunInput =
  cr_TaskID :: string
  cr_Input :: string
  cr_CreatedBy :: string
  cr_CreatedByType :: string
  cr_TriggerSource :: string
  cr_RetryOfTaskRunID :: "string option"
  cr_SourceMessageID :: "string option"
  cr_AgentRevision :: "int option"
  cr_SandboxNetworkTier :: "string option"
  cr_SandboxFilesystemTier :: "string option"
  cr_IdempotencyKey :: "string option"
  cr_WorkflowNodeRunID :: string
  cr_WorkflowNodeFrom :: "NodeRunStatus option"
  cr_WorkflowAttempt :: int

record TransitionTaskRunInput =
  tt_TaskRunID :: string
  tt_ExpectedStatus :: TaskRunStatus
  tt_NewStatus :: TaskRunStatus
  tt_StartedAt :: "time option"
  tt_EndedAt :: "time option"
  tt_Output :: "string option"
  tt_Structured :: "string option"
  tt_Questions :: "string option"
  tt_ErrorMessage :: "string option"
  tt_SessionID :: "string option"
  tt_PromptTokens :: "int option"
  tt_CompletionTokens :: "int option"
  tt_TracePath :: "string option"
  tt_CancelReason :: "string option"
  tt_FailureClass :: string

section \<open>Admission fingerprints\<close>

text \<open>\<open>AdmissionFingerprint\<close> digests the caller's intent. The payload struct is its list of
  fields; the JSON encoding of that fixed shape and its SHA-256 digest are the parameter
  \<open>digest\<close>.\<close>

definition fingerprint_payload :: "CreateInput \<Rightarrow> string option list" where
  "fingerprint_payload ci =
     [Some (ci_SpaceID ci), Some (ci_ConversationID ci), Some (ci_Input ci), ci_AgentID ci, ci_IssueID ci,
      ci_ScheduleID ci, Some (ci_CreatedBy ci), Some (ci_InitialRunCreatedBy ci),
      Some (ci_InitialRunCreatedByType ci), Some (ci_InitialRunTriggerSource ci),
      ci_InitialRunSourceMessageID ci, ci_OutputSchema ci]"

definition AdmissionFingerprint :: "(string option list \<Rightarrow> string) \<Rightarrow> CreateInput \<Rightarrow> string" where
  "AdmissionFingerprint digest ci = digest (fingerprint_payload ci)"

section \<open>Origins\<close>

datatype OriginKind = OriginWorkflow | OriginIssue | OriginConversation | OriginSchedule

record Origin =
  og_Kind :: OriginKind
  og_ID :: string
  og_Name :: string
  og_Step :: int

record OriginRelations =
  or_WorkflowRunID :: string
  or_WorkflowName :: string
  or_WorkflowStep :: int
  or_IssueID :: string
  or_IssueTitle :: string
  or_ConversationID :: string
  or_ConversationTitle :: string
  or_ScheduleID :: string
  or_ScheduleName :: string

definition origin_of :: "OriginRelations \<Rightarrow> Origin option" where
  "origin_of r =
     (if or_WorkflowRunID r \<noteq> '''' then
        Some \<lparr>og_Kind = OriginWorkflow, og_ID = or_WorkflowRunID r, og_Name = or_WorkflowName r, og_Step = or_WorkflowStep r\<rparr>
      else if or_IssueID r \<noteq> '''' then
        Some \<lparr>og_Kind = OriginIssue, og_ID = or_IssueID r, og_Name = or_IssueTitle r, og_Step = 0\<rparr>
      else if or_ConversationID r \<noteq> '''' then
        Some \<lparr>og_Kind = OriginConversation, og_ID = or_ConversationID r, og_Name = or_ConversationTitle r, og_Step = 0\<rparr>
      else if or_ScheduleID r \<noteq> '''' then
        Some \<lparr>og_Kind = OriginSchedule, og_ID = or_ScheduleID r, og_Name = or_ScheduleName r, og_Step = 0\<rparr>
      else None)"

end
