(* ===== verification/Workflow_Graph.thy ===== *)
theory Workflow_Graph
  imports Workflow_Core
begin

text \<open>
  The dependency graph of a definition, \<open>internal/core/workflow/graph.go\<close>: \<open>BuildGraph\<close>
  checks the \<open>needs\<close> edges, \<open>topoSort\<close> is Kahn's algorithm with ties broken by definition
  position, \<open>transitivePreds\<close> folds the predecessor sets in that order. The lemmas show that
  a graph is built exactly for the definitions whose edges are closed, duplicate-free and
  acyclic, that its order is the least topological order by position, and that
  \<open>IsPredecessor\<close> is the transitive closure of the edges.
\<close>

datatype graph_error =
  NeedsItself string | NeedsUnknown string string | NeedsTwice string string | NodesFormCycle

record Graph =
  g_order :: "string list"
  g_preds :: "string \<Rightarrow> string set"

section \<open>The algorithm\<close>

fun check_needs :: "string \<Rightarrow> string set \<Rightarrow> string set \<Rightarrow> string list \<Rightarrow> graph_error + unit" where
  "check_needs n ids seen [] = Inr ()"
| "check_needs n ids seen (dep # deps) =
     (if dep = n then Inl (NeedsItself n)
      else if dep \<notin> ids then Inl (NeedsUnknown n dep)
      else if dep \<in> seen then Inl (NeedsTwice n dep)
      else check_needs n ids (insert dep seen) deps)"

text \<open>The loop over the nodes also fills the \<open>needs\<close> map; a missing key reads as the empty
  slice.\<close>

fun collect_needs ::
  "string set \<Rightarrow> DefinitionNode list \<Rightarrow> (string \<Rightarrow> string list) \<Rightarrow> graph_error + (string \<Rightarrow> string list)" where
  "collect_needs ids [] needs = Inr needs"
| "collect_needs ids (n # ns) needs =
     (case check_needs (dn_ID n) ids {} (dn_Needs n) of
        Inl e \<Rightarrow> Inl e
      | Inr _ \<Rightarrow> collect_needs ids ns (needs(dn_ID n := dn_Needs n)))"

fun add_dependents :: "string \<Rightarrow> string list \<Rightarrow> (string \<Rightarrow> string list) \<Rightarrow> (string \<Rightarrow> string list)" where
  "add_dependents n [] dependents = dependents"
| "add_dependents n (dep # deps) dependents =
     add_dependents n deps (dependents(dep := dependents dep @ [n]))"

fun init_tables ::
  "(string \<Rightarrow> string list) \<Rightarrow> string list \<Rightarrow> nat \<Rightarrow>
     (string \<Rightarrow> int) \<times> (string \<Rightarrow> string list) \<times> (string \<Rightarrow> nat) \<Rightarrow>
     (string \<Rightarrow> int) \<times> (string \<Rightarrow> string list) \<times> (string \<Rightarrow> nat)" where
  "init_tables needs [] i t = t"
| "init_tables needs (n # ns) i (indeg, dependents, pos) =
     init_tables needs ns (Suc i)
       (indeg(n := int (length (needs n))), add_dependents n (needs n) dependents, pos(n := i))"

text \<open>The scan for the ready node of the least position.\<close>

fun best_index :: "(string \<Rightarrow> nat) \<Rightarrow> string list \<Rightarrow> nat \<Rightarrow> nat" where
  "best_index pos ready 0 = 0"
| "best_index pos ready (Suc k) =
     (let best = best_index pos ready k
      in if pos (ready ! Suc k) < pos (ready ! best) then Suc k else best)"

fun relax :: "string list \<Rightarrow> (string \<Rightarrow> int) \<Rightarrow> string list \<Rightarrow> (string \<Rightarrow> int) \<times> string list" where
  "relax [] indeg ready = (indeg, ready)"
| "relax (dep # deps) indeg ready =
     (let indeg' = indeg(dep := indeg dep - 1)
      in relax deps indeg' (if indeg' dep = 0 then ready @ [dep] else ready))"

lemma relax_measure:
  assumes "set deps \<subseteq> set U" "distinct U"
  shows "length (snd (relax deps indeg ready)) + length (filter (\<lambda>x. 0 < fst (relax deps indeg ready) x) U)
       \<le> length ready + length (filter (\<lambda>x. 0 < indeg x) U)"
  using assms
proof (induction deps arbitrary: indeg ready)
  case Nil
  then show ?case by simp
next
  case (Cons d ds)
  let ?i = "indeg(d := indeg d - 1)"
  let ?r = "if ?i d = 0 then ready @ [d] else ready"
  have "length ?r + length (filter (\<lambda>x. 0 < ?i x) U) \<le> length ready + length (filter (\<lambda>x. 0 < indeg x) U)"
  proof (cases "indeg d = 1")
    case True
    have "filter (\<lambda>x. 0 < ?i x) U = filter (\<lambda>x. x \<noteq> d) (filter (\<lambda>x. 0 < indeg x) U)"
      using True by (simp, intro filter_cong) auto
    moreover have "d \<in> set (filter (\<lambda>x. 0 < indeg x) U)" using True Cons.prems by simp
    then have "length (filter (\<lambda>x. x \<noteq> d) (filter (\<lambda>x. 0 < indeg x) U))
        < length (filter (\<lambda>x. 0 < indeg x) U)"
      by (intro length_filter_less) auto
    ultimately show ?thesis using True by simp
  next
    case False
    have "length (filter (\<lambda>x. 0 < ?i x) U) \<le> length (filter (\<lambda>x. 0 < indeg x) U)"
      unfolding length_filter_conv_card by (intro card_mono) (auto split: if_splits)
    then show ?thesis using False by simp
  qed
  moreover have "length (snd (relax ds ?i ?r)) + length (filter (\<lambda>x. 0 < fst (relax ds ?i ?r) x) U)
      \<le> length ?r + length (filter (\<lambda>x. 0 < ?i x) U)"
    using Cons.prems by (intro Cons.IH) auto
  moreover have "relax (d # ds) indeg ready = relax ds ?i ?r" by (simp only: relax.simps Let_def)
  ultimately show ?case by (simp only:)
qed

lemma best_index_bound: "best_index pos ready m \<le> m"
  by (induction m) (auto simp: Let_def le_SucI)

lemma length_remove_at: "i < length xs \<Longrightarrow> length (take i xs @ drop (Suc i) xs) = length xs - 1"
  by simp

text \<open>The worklist loop. Every dependent is one of the nodes \<open>U\<close> of the definition, so the
  ready list and the nodes with a positive in-degree together shrink. The test
  \<open>d \<in> set U\<close> is what the termination measure needs; it holds of every table \<open>init_tables\<close>
  builds (lemma \<open>dependents_closed\<close> below).\<close>

function topo_loop ::
  "string list \<Rightarrow> (string \<Rightarrow> string list) \<Rightarrow> (string \<Rightarrow> nat) \<Rightarrow> (string \<Rightarrow> int) \<Rightarrow> string list \<Rightarrow> string list \<Rightarrow> string list"
where
  "topo_loop U dependents pos indeg ready order =
     (if ready = [] then order
      else
        let best = best_index pos ready (length ready - 1);
            n = ready ! best;
            rest = take best ready @ drop (Suc best) ready;
            (indeg', ready') = relax (filter (\<lambda>d. d \<in> set U) (dependents n)) indeg rest
        in topo_loop U dependents pos indeg' ready' (order @ [n]))"
  by pat_completeness auto

termination
proof (relation "measure (\<lambda>(U, dependents, pos, indeg, ready, order).
    length ready + length (filter (\<lambda>x. 0 < indeg x) (remdups U)))", goal_cases)
  case 1
  then show ?case by simp
next
  case (2 U dependents pos indeg ready order best n rest z indeg' ready')
  have b: "best < length ready"
    using best_index_bound [of pos ready "length ready - 1"] 2 by (cases ready) auto
  have "relax (filter (\<lambda>d. d \<in> set U) (dependents n)) indeg rest = (indeg', ready')" using 2 by simp
  then have "length ready' + length (filter (\<lambda>x. 0 < indeg' x) (remdups U))
      \<le> length rest + length (filter (\<lambda>x. 0 < indeg x) (remdups U))"
    using relax_measure [of "filter (\<lambda>d. d \<in> set U) (dependents n)" "remdups U" indeg rest]
    by auto
  moreover have "length rest < length ready" using b 2 by (cases ready) auto
  ultimately show ?case by simp
qed

declare topo_loop.simps [simp del]

definition topoSort :: "DefinitionNode list \<Rightarrow> (string \<Rightarrow> string list) \<Rightarrow> graph_error + string list" where
  "topoSort nodes needs =
     (let U = map dn_ID nodes;
          (indeg, dependents, pos) = init_tables needs U 0 (\<lambda>_. 0, \<lambda>_. [], \<lambda>_. 0);
          ready = filter (\<lambda>n. indeg n = 0) U;
          order = topo_loop U dependents pos indeg ready []
      in if length order \<noteq> length nodes then Inl NodesFormCycle else Inr order)"

fun transitivePreds :: "string list \<Rightarrow> (string \<Rightarrow> string list) \<Rightarrow> (string \<Rightarrow> string set) \<Rightarrow> (string \<Rightarrow> string set)" where
  "transitivePreds [] needs preds = preds"
| "transitivePreds (n # ns) needs preds =
     transitivePreds ns needs (preds(n := (\<Union>dep\<in>set (needs n). insert dep (preds dep))))"

definition BuildGraph :: "DefinitionNode list \<Rightarrow> graph_error + Graph" where
  "BuildGraph nodes =
     (case collect_needs (set (map dn_ID nodes)) nodes (\<lambda>_. []) of
        Inl e \<Rightarrow> Inl e
      | Inr needs \<Rightarrow>
          (case topoSort nodes needs of
             Inl e \<Rightarrow> Inl e
           | Inr order \<Rightarrow>
               Inr \<lparr>g_order = order, g_preds = transitivePreds order needs (\<lambda>_. {})\<rparr>))"

definition IsPredecessor :: "Graph \<Rightarrow> string \<Rightarrow> string \<Rightarrow> bool" where
  "IsPredecessor g node from \<longleftrightarrow> from \<in> g_preds g node"

definition Order :: "Graph \<Rightarrow> string list" where
  "Order g = g_order g"

section \<open>Specification\<close>

definition node_ids :: "DefinitionNode list \<Rightarrow> string list" where
  "node_ids nodes = map dn_ID nodes"

definition needs_edges :: "DefinitionNode list \<Rightarrow> (string \<times> string) set" where
  "needs_edges nodes = {(d, n). \<exists>nd\<in>set nodes. dn_ID nd = n \<and> d \<in> set (dn_Needs nd)}"

definition edges_ok :: "DefinitionNode list \<Rightarrow> bool" where
  "edges_ok nodes \<longleftrightarrow>
     (\<forall>nd\<in>set nodes. set (dn_Needs nd) \<subseteq> set (node_ids nodes) \<and> distinct (dn_Needs nd)
        \<and> dn_ID nd \<notin> set (dn_Needs nd))"

text \<open>A topological order of a needs map, and the one Kahn's algorithm with the position
  tie-break must return: at each place the least-positioned node that is available.\<close>

definition topological :: "(string \<Rightarrow> string list) \<Rightarrow> string list \<Rightarrow> bool" where
  "topological needs xs \<longleftrightarrow> (\<forall>i<length xs. set (needs (xs ! i)) \<subseteq> set (take i xs))"

definition least_first :: "(string \<Rightarrow> string list) \<Rightarrow> (string \<Rightarrow> nat) \<Rightarrow> string set \<Rightarrow> string list \<Rightarrow> bool" where
  "least_first needs pos V xs \<longleftrightarrow>
     (\<forall>i<length xs. \<forall>x\<in>V - set (take i xs). set (needs x) \<subseteq> set (take i xs) \<longrightarrow> pos (xs ! i) \<le> pos x)"

lemma topological_snoc:
  "topological needs (xs @ [x]) \<longleftrightarrow> topological needs xs \<and> set (needs x) \<subseteq> set xs"
  by (auto simp: topological_def nth_append less_Suc_eq)

lemma least_first_snoc:
  "least_first needs pos V (xs @ [x]) \<longleftrightarrow> least_first needs pos V xs \<and>
     (\<forall>y\<in>V - set xs. set (needs y) \<subseteq> set xs \<longrightarrow> pos x \<le> pos y)"
  by (auto simp: least_first_def nth_append less_Suc_eq)

section \<open>Checking the edges\<close>

lemma check_needs_iff:
  "check_needs n ids seen deps = Inr () \<longleftrightarrow>
     n \<notin> set deps \<and> set deps \<subseteq> ids \<and> distinct deps \<and> set deps \<inter> seen = {}"
  by (induction deps arbitrary: seen) auto

lemma collect_needs_iff:
  "(\<exists>f. collect_needs ids ns needs = Inr f) \<longleftrightarrow>
     (\<forall>nd\<in>set ns. dn_ID nd \<notin> set (dn_Needs nd) \<and> set (dn_Needs nd) \<subseteq> ids \<and> distinct (dn_Needs nd))"
proof (induction ns arbitrary: needs)
  case Nil
  then show ?case by simp
next
  case (Cons n ns)
  then show ?case
    using check_needs_iff [of "dn_ID n" ids "{}" "dn_Needs n"]
    by (cases "check_needs (dn_ID n) ids {} (dn_Needs n)") auto
qed

lemma collect_needs_other:
  "collect_needs ids ns needs = Inr f \<Longrightarrow> x \<notin> dn_ID ` set ns \<Longrightarrow> f x = needs x"
  by (induction ns arbitrary: needs) (auto split: sum.splits)

lemma collect_needs_node:
  "collect_needs ids ns needs = Inr f \<Longrightarrow> distinct (map dn_ID ns) \<Longrightarrow> nd \<in> set ns \<Longrightarrow> f (dn_ID nd) = dn_Needs nd"
proof (induction ns arbitrary: needs)
  case Nil
  then show ?case by simp
next
  case (Cons n ns)
  then show ?case
    by (auto split: sum.splits dest: collect_needs_other)
qed

section \<open>The tables of the sort\<close>

lemma add_dependents_eq:
  "add_dependents n deps f = (\<lambda>d. f d @ replicate (count_list deps d) n)"
  by (induction deps arbitrary: f) (auto simp: fun_eq_iff replicate_app_Cons_same)

lemma count_list_distinct: "distinct xs \<Longrightarrow> count_list xs x = (if x \<in> set xs then 1 else 0)"
  by (induction xs) auto

lemma init_tables_other:
  assumes "init_tables needs ns i (indeg, dependents, pos) = (indeg', dependents', pos')" "x \<notin> set ns"
  shows "indeg' x = indeg x" "pos' x = pos x"
  using assms by (induction ns arbitrary: i indeg dependents pos) auto

lemma init_tables_indeg:
  assumes "init_tables needs ns i (indeg, dependents, pos) = (indeg', dependents', pos')" "x \<in> set ns"
  shows "indeg' x = int (length (needs x))"
  using assms
proof (induction ns arbitrary: i indeg dependents pos)
  case Nil
  then show ?case by simp
next
  case (Cons n ns)
  show ?case
  proof (cases "x \<in> set ns")
    case True
    then show ?thesis using Cons by simp
  next
    case False
    then show ?thesis using Cons.prems init_tables_other(1) by fastforce
  qed
qed

lemma init_tables_dependents:
  assumes "init_tables needs ns i (indeg, dependents, pos) = (indeg', dependents', pos')"
    and "\<forall>n\<in>set ns. distinct (needs n)"
  shows "dependents' d = dependents d @ filter (\<lambda>n. d \<in> set (needs n)) ns"
  using assms
proof (induction ns arbitrary: i indeg dependents pos)
  case Nil
  then show ?case by simp
next
  case (Cons n ns)
  have "count_list (needs n) d = (if d \<in> set (needs n) then 1 else 0)"
    using Cons.prems(2) by (simp add: count_list_distinct)
  then show ?case using Cons by (auto simp: add_dependents_eq)
qed

lemma init_tables_pos:
  assumes "init_tables needs ns i (indeg, dependents, pos) = (indeg', dependents', pos')"
    and "distinct ns" "k < length ns"
  shows "pos' (ns ! k) = i + k"
  using assms
proof (induction ns arbitrary: i k indeg dependents pos)
  case Nil
  then show ?case by simp
next
  case (Cons n ns)
  show ?case
  proof (cases k)
    case 0
    then show ?thesis using Cons.prems init_tables_other(2) [of needs ns "Suc i"] by fastforce
  next
    case (Suc j)
    then show ?thesis using Cons by simp
  qed
qed

lemma distinct_relax:
  "distinct deps \<Longrightarrow> relax deps indeg ready =
     ((\<lambda>x. if x \<in> set deps then indeg x - 1 else indeg x), ready @ filter (\<lambda>x. indeg x = 1) deps)"
proof (induction deps arbitrary: indeg ready)
  case Nil
  then show ?case by simp
next
  case (Cons d ds)
  have "filter (\<lambda>x. (indeg(d := indeg d - 1)) x = 1) ds = filter (\<lambda>x. indeg x = 1) ds"
    using Cons.prems by (intro filter_cong) auto
  then show ?case using Cons by (auto simp: Let_def fun_eq_iff)
qed

lemma best_index_least:
  "i \<le> m \<Longrightarrow> pos (ready ! best_index pos ready m) \<le> pos (ready ! i)"
proof (induction m)
  case 0
  then show ?case by simp
next
  case (Suc m)
  then show ?case by (cases "i = Suc m") (auto simp: Let_def)
qed

lemma distinct_remove_at:
  assumes "distinct xs" "i < length xs"
  shows "set (take i xs @ drop (Suc i) xs) = set xs - {xs ! i}" "distinct (take i xs @ drop (Suc i) xs)"
proof -
  have "xs = take i xs @ xs ! i # drop (Suc i) xs" using assms by (simp add: id_take_nth_drop)
  then have "distinct (take i xs @ xs ! i # drop (Suc i) xs)"
    "set xs = set (take i xs) \<union> {xs ! i} \<union> set (drop (Suc i) xs)"
    using assms by (metis, metis Un_insert_right list.simps(15) set_append sup_bot_right Un_insert_left)
  then show "set (take i xs @ drop (Suc i) xs) = set xs - {xs ! i}" "distinct (take i xs @ drop (Suc i) xs)"
    by auto
qed

section \<open>The loop\<close>

text \<open>What the worklist loop keeps: the nodes placed or ready are exactly those whose needs
  are placed, and the in-degree of a node counts its needs not yet placed.\<close>

definition topo_inv ::
  "(string \<Rightarrow> string list) \<Rightarrow> string list \<Rightarrow> (string \<Rightarrow> nat) \<Rightarrow> (string \<Rightarrow> int) \<Rightarrow> string list \<Rightarrow> string list \<Rightarrow> bool"
where
  "topo_inv needs U pos indeg ready order \<longleftrightarrow>
     distinct (order @ ready) \<and> set (order @ ready) \<subseteq> set U
     \<and> (\<forall>n\<in>set U. indeg n = int (card (set (needs n) - set order)))
     \<and> (\<forall>n\<in>set U. n \<in> set order \<union> set ready \<longleftrightarrow> set (needs n) \<subseteq> set order)
     \<and> topological needs order \<and> least_first needs pos (set U) order"

lemma card_minus_insert:
  assumes "finite A" "x \<in> A" "x \<notin> B"
  shows "int (card (A - insert x B)) = int (card (A - B)) - 1"
proof -
  have "A - B = insert x (A - insert x B)" using assms by auto
  moreover have "x \<notin> A - insert x B" by simp
  moreover have "finite (A - insert x B)" using assms by simp
  ultimately show ?thesis by (metis card_insert_disjoint of_nat_Suc add_diff_cancel_left')
qed

lemma topo_inv_step:
  assumes inv: "topo_inv needs U pos indeg ready order" and U: "distinct U"
    and dep: "dependents n = filter (\<lambda>m. n \<in> set (needs m)) U"
    and b: "b < length ready" "\<And>i. i < length ready \<Longrightarrow> pos (ready ! b) \<le> pos (ready ! i)"
    and n: "n = ready ! b"
    and rel: "relax (dependents n) indeg (take b ready @ drop (Suc b) ready) = (indeg', ready')"
  shows "topo_inv needs U pos indeg' ready' (order @ [n])"
proof -
  let ?D = "filter (\<lambda>m. n \<in> set (needs m)) U"
  have dist: "distinct (order @ ready)" and sub: "set (order @ ready) \<subseteq> set U"
    and ind: "\<And>m. m \<in> set U \<Longrightarrow> indeg m = int (card (set (needs m) - set order))"
    and mem: "\<And>m. m \<in> set U \<Longrightarrow> m \<in> set order \<union> set ready \<longleftrightarrow> set (needs m) \<subseteq> set order"
    and top: "topological needs order" and least: "least_first needs pos (set U) order"
    using inv by (auto simp: topo_inv_def)
  have nr: "n \<in> set ready" "n \<notin> set order" "n \<in> set U" using b n dist sub by auto
  have i': "indeg' = (\<lambda>x. if x \<in> set ?D then indeg x - 1 else indeg x)"
    and r': "ready' = (take b ready @ drop (Suc b) ready) @ filter (\<lambda>x. indeg x = 1) ?D"
    using rel U unfolding dep by (auto simp: distinct_relax)
  have rest: "set (take b ready @ drop (Suc b) ready) = set ready - {n}"
    "distinct (take b ready @ drop (Suc b) ready)"
    using distinct_remove_at [of ready b] dist b n by auto
  have ind': "indeg' m = int (card (set (needs m) - set (order @ [n])))" if "m \<in> set U" for m
  proof (cases "n \<in> set (needs m)")
    case True
    then show ?thesis
      using that ind card_minus_insert [of "set (needs m)" n "set order"] nr by (simp only: i') simp
  next
    case False
    then have "set (needs m) - set (order @ [n]) = set (needs m) - set order" by auto
    then show ?thesis using False that ind by (simp add: i')
  qed
  have one: "indeg m = 1 \<longleftrightarrow> set (needs m) - set order = {n}" if "m \<in> set ?D" for m
  proof -
    have "n \<in> set (needs m) - set order" using that nr by simp
    then have "card (set (needs m) - set order) = 1 \<longleftrightarrow> set (needs m) - set order = {n}"
      by (metis card_1_singletonE card.empty card_insert_disjoint finite.emptyI empty_iff singletonD One_nat_def)
    then show ?thesis using ind [of m] that by simp
  qed
  have new: "m \<in> set (filter (\<lambda>x. indeg x = 1) ?D) \<longleftrightarrow>
      n \<in> set (needs m) \<and> set (needs m) \<subseteq> set (order @ [n])" if "m \<in> set U" for m
    using one [of m] that nr by auto
  have fresh: "m \<notin> set order \<union> set ready" if "m \<in> set ?D" for m
    using that mem [of m] nr by auto
  have mem': "m \<in> set (order @ [n]) \<union> set ready' \<longleftrightarrow> set (needs m) \<subseteq> set (order @ [n])"
    if m: "m \<in> set U" for m
  proof -
    have "m \<in> set (order @ [n]) \<union> set ready' \<longleftrightarrow>
        m \<in> set order \<union> set ready \<or> m \<in> set (filter (\<lambda>x. indeg x = 1) ?D)"
      using rest nr unfolding r' by auto
    also have "\<dots> \<longleftrightarrow> set (needs m) \<subseteq> set order \<or> n \<in> set (needs m) \<and> set (needs m) \<subseteq> set (order @ [n])"
      using mem [OF m] new [OF m] by simp
    also have "\<dots> \<longleftrightarrow> set (needs m) \<subseteq> set (order @ [n])" by auto
    finally show ?thesis .
  qed
  have "distinct ((order @ [n]) @ ready')"
  proof -
    have "distinct (filter (\<lambda>x. indeg x = 1) ?D)" using U by simp
    moreover have "set (filter (\<lambda>x. indeg x = 1) ?D) \<inter> (set order \<union> set ready) = {}"
      using fresh by fastforce
    ultimately show ?thesis using dist rest nr unfolding r' by auto
  qed
  moreover have "set ((order @ [n]) @ ready') \<subseteq> set U" using rest sub nr unfolding r' by auto
  moreover have "topological needs (order @ [n])"
    using top mem [of n] nr by (simp add: topological_snoc)
  moreover have "least_first needs pos (set U) (order @ [n])"
  proof -
    have "pos n \<le> pos y" if "y \<in> set U - set order" "set (needs y) \<subseteq> set order" for y
    proof -
      have "y \<in> set ready" using that mem [of y] by auto
      then show ?thesis using b(2) n by (metis in_set_conv_nth)
    qed
    then show ?thesis using least by (auto simp: least_first_snoc)
  qed
  ultimately show ?thesis using ind' mem' unfolding topo_inv_def by blast
qed

lemma topo_loop_inv:
  assumes "topo_inv needs U pos indeg ready order" "distinct U"
    and "\<And>n. dependents n = filter (\<lambda>m. n \<in> set (needs m)) U"
  shows "\<exists>indeg'. topo_inv needs U pos indeg' [] (topo_loop U dependents pos indeg ready order)"
  using assms
proof (induction U dependents pos indeg ready order rule: topo_loop.induct)
  case (1 U dependents pos indeg ready order)
  show ?case
  proof (cases "ready = []")
    case True
    then show ?thesis using 1 by (subst topo_loop.simps) auto
  next
    case False
    let ?b = "best_index pos ready (length ready - 1)"
    let ?rest = "take ?b ready @ drop (Suc ?b) ready"
    obtain i' r' where rel: "relax (dependents (ready ! ?b)) indeg ?rest = (i', r')" by fastforce
    have f: "filter (\<lambda>d. d \<in> set U) (dependents (ready ! ?b)) = dependents (ready ! ?b)"
      using 1(4) by (intro filter_True) simp
    have blt: "?b < length ready"
      using best_index_bound [of pos ready "length ready - 1"] False by (cases ready) auto
    have inv': "topo_inv needs U pos i' r' (order @ [ready ! ?b])"
    proof (rule topo_inv_step [where b = ?b and dependents = dependents])
      fix i assume "i < length ready"
      then show "pos (ready ! ?b) \<le> pos (ready ! i)" by (intro best_index_least) simp
    qed (use 1(2,3,4) blt rel in auto)
    have "topo_loop U dependents pos indeg ready order = topo_loop U dependents pos i' r' (order @ [ready ! ?b])"
      using False
      by (simp only: topo_loop.simps [of U dependents pos indeg ready order] if_False Let_def f rel prod.case)
    moreover have "\<exists>indeg'. topo_inv needs U pos indeg' [] (topo_loop U dependents pos i' r' (order @ [ready ! ?b]))"
      by (rule 1(1) [OF False refl refl refl _ refl inv' 1(3,4)]) (simp only: f rel)
    ultimately show ?thesis by (simp only:)
  qed
qed

lemma topo_inv_init:
  assumes "init_tables needs U 0 (\<lambda>_. 0, \<lambda>_. [], \<lambda>_. 0) = (indeg, dependents, pos)"
    and "distinct U" "\<forall>n\<in>set U. distinct (needs n)"
  shows "topo_inv needs U pos indeg (filter (\<lambda>n. indeg n = 0) U) []"
proof -
  have ind: "indeg n = int (length (needs n))" if "n \<in> set U" for n
    using init_tables_indeg [OF assms(1) that] .
  have "indeg n = int (card (set (needs n)))" if "n \<in> set U" for n
    using ind [OF that] assms(3) that by (simp add: distinct_card)
  then show ?thesis using assms(2)
    by (auto simp: topo_inv_def topological_def least_first_def ind)
qed

lemma dependents_closed:
  assumes "init_tables needs U 0 (\<lambda>_. 0, \<lambda>_. [], \<lambda>_. 0) = (indeg, dependents, pos)"
    and "\<forall>n\<in>set U. distinct (needs n)"
  shows "dependents d = filter (\<lambda>n. d \<in> set (needs n)) U" "set (dependents d) \<subseteq> set U"
  using init_tables_dependents [OF assms] by auto

text \<open>The order of a definition is what the sort promises: a permutation of the nodes in
  which every node follows its needs and, at each place, the available node that comes first
  in the definition. The edges of the nodes of \<open>U\<close> are \<open>edges\<close>.\<close>

definition need_rel :: "(string \<Rightarrow> string list) \<Rightarrow> string set \<Rightarrow> (string \<times> string) set" where
  "need_rel needs V = {(d, n). n \<in> V \<and> d \<in> set (needs n)}"

lemma topological_closed: "topological needs xs \<Longrightarrow> m \<in> set xs \<Longrightarrow> set (needs m) \<subseteq> set xs"
  by (induction xs rule: rev_induct) (auto simp: topological_snoc)

lemma topological_acyclic:
  "topological needs xs \<Longrightarrow> distinct xs \<Longrightarrow> acyclic (need_rel needs (set xs))"
proof (induction xs rule: rev_induct)
  case Nil
  then show ?case by (simp add: need_rel_def acyclic_def)
next
  case (snoc x xs)
  then have top: "topological needs xs" "set (needs x) \<subseteq> set xs" "x \<notin> set xs" "distinct xs"
    by (auto simp: topological_snoc)
  have IH: "acyclic (need_rel needs (set xs))" using snoc top by simp
  have closed: "\<And>m. m \<in> set xs \<Longrightarrow> set (needs m) \<subseteq> set xs" using top(1) by (rule topological_closed)
  have split: "need_rel needs (set (xs @ [x])) = need_rel needs (set xs) \<union> {(d, x) |d. d \<in> set (needs x)}"
    by (auto simp: need_rel_def)
  have sink: "x \<notin> fst ` need_rel needs (set (xs @ [x]))"
  proof
    assume "x \<in> fst ` need_rel needs (set (xs @ [x]))"
    then have "\<exists>m\<in>set (xs @ [x]). x \<in> set (needs m)" by (auto simp: need_rel_def)
    then show False using closed top(2,3) by fastforce
  qed
  have "(a, b) \<in> (need_rel needs (set (xs @ [x])))\<^sup>+ \<Longrightarrow> b \<noteq> x \<Longrightarrow> (a, b) \<in> (need_rel needs (set xs))\<^sup>+" for a b
  proof (induction rule: trancl_induct)
    case (base y)
    then show ?case by (auto simp: need_rel_def)
  next
    case (step y z)
    then have "y \<noteq> x" using sink by force
    moreover have "(y, z) \<in> need_rel needs (set xs)" using step by (auto simp: need_rel_def)
    ultimately show ?case using step by auto
  qed
  moreover have "(x, x) \<notin> (need_rel needs (set (xs @ [x])))\<^sup>+"
  proof
    assume "(x, x) \<in> (need_rel needs (set (xs @ [x])))\<^sup>+"
    then show False using sink by (auto dest!: tranclD simp: image_iff)
  qed
  ultimately show ?case using IH unfolding acyclic_def by blast
qed

lemma topo_stuck_cycle:
  assumes mem: "\<forall>n\<in>set U. n \<in> set order \<longleftrightarrow> set (needs n) \<subseteq> set order"
    and closed: "\<forall>n\<in>set U. set (needs n) \<subseteq> set U"
    and ac: "acyclic (need_rel needs (set U))"
  shows "set U \<subseteq> set order"
proof (rule ccontr)
  assume "\<not> set U \<subseteq> set order"
  then have ne: "set U - set order \<noteq> {}" by auto
  have "need_rel needs (set U) \<subseteq> set U \<times> set U" using closed by (auto simp: need_rel_def)
  then have "finite (need_rel needs (set U))" by (rule finite_subset) simp
  then have "wf (need_rel needs (set U))" using ac by (rule finite_acyclic_wf)
  then obtain z where z: "z \<in> set U - set order"
      "\<And>y. (y, z) \<in> need_rel needs (set U) \<Longrightarrow> y \<notin> set U - set order"
    using ne unfolding wf_eq_minimal by (metis ex_in_conv)
  then have "set (needs z) \<subseteq> set order" using closed by (auto simp: need_rel_def)
  then show False using z mem by auto
qed

lemma topoSort_outcome:
  assumes ids: "distinct (map dn_ID nodes)"
    and needs: "\<forall>n\<in>set (map dn_ID nodes). distinct (needs n) \<and> set (needs n) \<subseteq> set (map dn_ID nodes)"
  obtains (cyclic) "topoSort nodes needs = Inl NodesFormCycle"
      "\<not> acyclic (need_rel needs (set (map dn_ID nodes)))"
  | (ordered) order pos where "topoSort nodes needs = Inr order"
      "acyclic (need_rel needs (set (map dn_ID nodes)))"
      "distinct order" "set order = set (map dn_ID nodes)" "topological needs order"
      "least_first needs pos (set (map dn_ID nodes)) order"
      "\<forall>k<length nodes. pos (dn_ID (nodes ! k)) = k"
proof -
  let ?U = "map dn_ID nodes"
  obtain indeg dependents pos where
    t: "init_tables needs ?U 0 (\<lambda>_. 0, \<lambda>_. [], \<lambda>_. 0) = (indeg, dependents, pos)"
    by (metis prod_cases3)
  have nd: "\<forall>n\<in>set ?U. distinct (needs n)" using needs by blast
  let ?o = "topo_loop ?U dependents pos indeg (filter (\<lambda>n. indeg n = 0) ?U) []"
  obtain i' where inv: "topo_inv needs ?U pos i' [] ?o"
    using topo_loop_inv [OF topo_inv_init [OF t ids nd] ids dependents_closed(1) [OF t nd]] by blast
  have mem: "\<forall>n\<in>set ?U. n \<in> set ?o \<longleftrightarrow> set (needs n) \<subseteq> set ?o"
    and o: "distinct ?o" "set ?o \<subseteq> set ?U" "topological needs ?o" "least_first needs pos (set ?U) ?o"
    using inv by (auto simp: topo_inv_def)
  have "card (set ?o) = length ?o" "card (set ?U) = length nodes"
    using distinct_card [OF o(1)] distinct_card [OF ids] by simp_all
  then have len: "length ?o = length nodes \<longleftrightarrow> set ?o = set ?U"
    using card_subset_eq [OF List.finite_set o(2)] by (simp only:) metis
  have sort: "topoSort nodes needs = (if length ?o \<noteq> length nodes then Inl NodesFormCycle else Inr ?o)"
    by (simp add: topoSort_def t Let_def)
  have pos: "\<forall>k<length nodes. pos (dn_ID (nodes ! k)) = k"
    using init_tables_pos [OF t ids] by simp
  show thesis
  proof (cases "set ?o = set ?U")
    case True
    then have "acyclic (need_rel needs (set ?U))" using topological_acyclic [of needs ?o] o by simp
    then show ?thesis using ordered [OF _ _ o(1) True o(3,4) pos] sort len True by simp
  next
    case False
    then have "\<not> acyclic (need_rel needs (set ?U))"
      using topo_stuck_cycle [OF mem] needs o(2) by blast
    then show ?thesis using cyclic sort len False by simp
  qed
qed

section \<open>Transitive predecessors\<close>

lemma transitivePreds_other: "x \<notin> set ns \<Longrightarrow> transitivePreds ns needs preds x = preds x"
  by (induction ns arbitrary: preds) auto

lemma transitivePreds_append:
  "transitivePreds (xs @ ys) needs preds = transitivePreds ys needs (transitivePreds xs needs preds)"
  by (induction xs arbitrary: preds) auto

lemma need_rel_restrict:
  assumes closed: "\<And>m. m \<in> V \<Longrightarrow> set (needs m) \<subseteq> V" and "V \<subseteq> W" "b \<in> V"
  shows "(a, b) \<in> (need_rel needs W)\<^sup>+ \<longleftrightarrow> (a, b) \<in> (need_rel needs V)\<^sup>+"
proof
  assume "(a, b) \<in> (need_rel needs W)\<^sup>+"
  then show "(a, b) \<in> (need_rel needs V)\<^sup>+" using assms(3)
  proof (induction rule: trancl_induct)
    case (base y)
    then show ?case by (auto simp: need_rel_def)
  next
    case (step y z)
    then have "y \<in> V" "(y, z) \<in> need_rel needs V" using closed by (auto simp: need_rel_def)
    then show ?case using step by auto
  qed
next
  assume "(a, b) \<in> (need_rel needs V)\<^sup>+"
  then show "(a, b) \<in> (need_rel needs W)\<^sup>+"
    by (rule trancl_mono) (use assms(2) in \<open>auto simp: need_rel_def\<close>)
qed

lemma transitivePreds_trancl:
  "topological needs order \<Longrightarrow> distinct order \<Longrightarrow> n \<in> set order \<Longrightarrow>
     transitivePreds order needs (\<lambda>_. {}) n = {p. (p, n) \<in> (need_rel needs (set order))\<^sup>+}"
proof (induction order arbitrary: n rule: rev_induct)
  case Nil
  then show ?case by simp
next
  case (snoc x xs)
  let ?P = "transitivePreds xs needs (\<lambda>_. {})"
  let ?R = "need_rel needs (set (xs @ [x]))"
  have top: "topological needs xs" "set (needs x) \<subseteq> set xs" "x \<notin> set xs" "distinct xs"
    using snoc.prems by (auto simp: topological_snoc)
  have P: "?P m = {p. (p, m) \<in> ?R\<^sup>+}" if m: "m \<in> set xs" for m
  proof -
    have "(p, m) \<in> ?R\<^sup>+ \<longleftrightarrow> (p, m) \<in> (need_rel needs (set xs))\<^sup>+" for p
      by (rule need_rel_restrict) (use topological_closed [OF top(1)] m in auto)
    then show ?thesis using snoc.IH [OF top(1,4) m] by simp
  qed
  show ?case
  proof (cases "n = x")
    case True
    have "(p, x) \<in> ?R\<^sup>+ \<longleftrightarrow> (\<exists>d\<in>set (needs x). p = d \<or> (p, d) \<in> ?R\<^sup>+)" for p
      by (subst trancl_unfold) (auto simp: need_rel_def relcomp_unfold)
    then show ?thesis using True top P by (fastforce simp: transitivePreds_append)
  next
    case False
    then show ?thesis using snoc.prems P by (simp add: transitivePreds_append)
  qed
qed

section \<open>Building the graph\<close>

lemma needs_edges_need_rel:
  assumes "distinct (map dn_ID nodes)" "collect_needs ids nodes f = Inr needs"
  shows "need_rel needs (set (map dn_ID nodes)) = needs_edges nodes"
  using collect_needs_node [OF assms(2,1)]
  by (fastforce simp: need_rel_def needs_edges_def)

lemma edges_ok_collect:
  "edges_ok nodes \<longleftrightarrow> (\<exists>f. collect_needs (set (map dn_ID nodes)) nodes (\<lambda>_. []) = Inr f)"
  by (auto simp: collect_needs_iff edges_ok_def node_ids_def)

text \<open>What the definition format promises of a built graph, over the needs its nodes declare.\<close>

definition position_of :: "string list \<Rightarrow> string \<Rightarrow> nat" where
  "position_of xs x = length (takeWhile (\<lambda>y. y \<noteq> x) xs)"

definition declared_needs :: "DefinitionNode list \<Rightarrow> string \<Rightarrow> string list" where
  "declared_needs nodes x = (case find (\<lambda>nd. dn_ID nd = x) nodes of Some nd \<Rightarrow> dn_Needs nd | None \<Rightarrow> [])"

definition graph_of :: "DefinitionNode list \<Rightarrow> Graph \<Rightarrow> bool" where
  "graph_of nodes g \<longleftrightarrow>
     distinct (Order g) \<and> set (Order g) = set (node_ids nodes)
     \<and> topological (declared_needs nodes) (Order g)
     \<and> least_first (declared_needs nodes) (position_of (node_ids nodes)) (set (node_ids nodes)) (Order g)
     \<and> (\<forall>n m. IsPredecessor g n m \<longleftrightarrow> (m, n) \<in> (needs_edges nodes)\<^sup>+)"

lemma position_of_nth: "distinct xs \<Longrightarrow> k < length xs \<Longrightarrow> position_of xs (xs ! k) = k"
proof (induction xs arbitrary: k)
  case Nil
  then show ?case by simp
next
  case (Cons x xs)
  then show ?case by (cases k) (auto simp: position_of_def)
qed

lemma declared_needs_node:
  "distinct (map dn_ID nodes) \<Longrightarrow> nd \<in> set nodes \<Longrightarrow> declared_needs nodes (dn_ID nd) = dn_Needs nd"
  by (induction nodes) (auto simp: declared_needs_def)

lemma topological_cong:
  "(\<And>x. x \<in> set xs \<Longrightarrow> f x = g x) \<Longrightarrow> topological f xs = topological g xs"
  by (simp add: topological_def)

lemma least_first_cong:
  assumes "\<And>x. x \<in> V \<Longrightarrow> f x = g x" "\<And>x. x \<in> V \<Longrightarrow> p x = q x" "set xs \<subseteq> V"
  shows "least_first f p V xs = least_first g q V xs"
proof -
  have "p (xs ! i) = q (xs ! i)" if "i < length xs" for i
    using assms(2) [of "xs ! i"] assms(3) that nth_mem by blast
  then show ?thesis using assms(1,2) by (simp add: least_first_def)
qed

lemma BuildGraph_outcome:
  assumes ids: "distinct (node_ids nodes)"
  obtains (bad) e where "BuildGraph nodes = Inl e" "\<not> (edges_ok nodes \<and> acyclic (needs_edges nodes))"
  | (built) g where "BuildGraph nodes = Inr g" "edges_ok nodes" "acyclic (needs_edges nodes)" "graph_of nodes g"
proof (cases "collect_needs (set (map dn_ID nodes)) nodes (\<lambda>_. [])")
  case (Inl e)
  then have "\<not> edges_ok nodes" by (simp add: edges_ok_collect)
  then show ?thesis using Inl bad [of e] by (simp add: BuildGraph_def)
next
  case (Inr needs)
  have ids': "distinct (map dn_ID nodes)" using ids by (simp add: node_ids_def)
  have ok: "edges_ok nodes" using Inr by (simp add: edges_ok_collect)
  have nd: "needs (dn_ID nd) = dn_Needs nd" if "nd \<in> set nodes" for nd
    using collect_needs_node [OF Inr ids' that] .
  have rel: "need_rel needs (set (map dn_ID nodes)) = needs_edges nodes"
    using needs_edges_need_rel [OF ids' Inr] .
  have "\<forall>n\<in>set (map dn_ID nodes). distinct (needs n) \<and> set (needs n) \<subseteq> set (map dn_ID nodes)"
    using ok nd by (auto simp: edges_ok_def node_ids_def)
  with ids' show ?thesis
  proof (cases rule: topoSort_outcome)
    case cyclic
    then show ?thesis using Inr bad [of NodesFormCycle] rel by (simp add: BuildGraph_def)
  next
    case (ordered order pos)
    let ?g = "\<lparr>g_order = order, g_preds = transitivePreds order needs (\<lambda>_. {})\<rparr>"
    have dn: "needs x = declared_needs nodes x" if x: "x \<in> set (map dn_ID nodes)" for x
      using x nd declared_needs_node [OF ids'] by auto
    have ps: "pos x = position_of (map dn_ID nodes) x" if "x \<in> set (map dn_ID nodes)" for x
    proof -
      obtain k where k: "k < length nodes" "x = dn_ID (nodes ! k)"
        using \<open>x \<in> set (map dn_ID nodes)\<close> by (auto simp: in_set_conv_nth)
      then show ?thesis using ordered(7) position_of_nth [OF ids', of k] by simp
    qed
    have pred: "IsPredecessor ?g n m \<longleftrightarrow> (m, n) \<in> (needs_edges nodes)\<^sup>+" for n m
    proof (cases "n \<in> set order")
      case True
      then show ?thesis
        using transitivePreds_trancl [OF ordered(5,3) True] ordered(4) rel by (simp add: IsPredecessor_def)
    next
      case False
      then have "(x, n) \<notin> needs_edges nodes" for x
        using ordered(4) by (auto simp: needs_edges_def)
      then have "(m, n) \<notin> (needs_edges nodes)\<^sup>+" by (meson tranclE)
      then show ?thesis using False by (simp add: IsPredecessor_def transitivePreds_other)
    qed
    have "topological (declared_needs nodes) order"
      using ordered(4,5) topological_cong [of order needs "declared_needs nodes"] dn by simp
    moreover have "least_first (declared_needs nodes) (position_of (map dn_ID nodes)) (set (map dn_ID nodes)) order"
      using least_first_cong [where xs = order, OF dn ps] ordered(4,6) by simp
    ultimately have "graph_of nodes ?g"
      using ordered(3,4) pred by (simp add: graph_of_def node_ids_def Order_def)
    moreover have "BuildGraph nodes = Inr ?g" using Inr ordered(1) by (simp add: BuildGraph_def)
    ultimately show ?thesis using built ok ordered(2) rel by simp
  qed
qed

section \<open>The interface the definition check and the runs rely on\<close>

text \<open>A client of the graph asks for the order and for predecessors only. The laws say that
  both speak about the declared needs of the nodes the graph was built from.\<close>

locale dependency_graph =
  fixes build :: "'n list \<Rightarrow> 'e + 'g"
    and order :: "'g \<Rightarrow> 'i list"
    and isPred :: "'g \<Rightarrow> 'i \<Rightarrow> 'i \<Rightarrow> bool"
    and ids :: "'n list \<Rightarrow> 'i list"
    and needs :: "'n list \<Rightarrow> 'i \<Rightarrow> 'i list"
  assumes build_nodes:
      "distinct (ids ns) \<Longrightarrow> build ns = Inr g \<Longrightarrow> distinct (order g) \<and> set (order g) = set (ids ns)"
    and build_order:
      "distinct (ids ns) \<Longrightarrow> build ns = Inr g \<Longrightarrow> i < length (order g) \<Longrightarrow>
         set (needs ns (order g ! i)) \<subseteq> set (take i (order g))"
    and build_pred:
      "distinct (ids ns) \<Longrightarrow> build ns = Inr g \<Longrightarrow>
         isPred g n m \<longleftrightarrow> (m, n) \<in> {(d, k). k \<in> set (ids ns) \<and> d \<in> set (needs ns k)}\<^sup>+"
begin

text \<open>A predecessor is placed strictly before the node.\<close>

lemma pred_before:
  assumes "distinct (ids ns)" "build ns = Inr g" "isPred g n m"
  shows "\<exists>i j. i < j \<and> j < length (order g) \<and> order g ! i = m \<and> order g ! j = n"
proof -
  have nodes: "distinct (order g)" "set (order g) = set (ids ns)" using build_nodes [OF assms(1,2)] by auto
  have before: "\<exists>i<j. order g ! i = d"
    if "j < length (order g)" "d \<in> set (needs ns (order g ! j))" for d j
  proof -
    have "d \<in> set (take j (order g))" using build_order [OF assms(1,2) that(1)] that(2) by blast
    then show ?thesis using that(1) by (auto simp: in_set_conv_nth)
  qed
  have "(m, n) \<in> {(d, k). k \<in> set (ids ns) \<and> d \<in> set (needs ns k)}\<^sup>+"
    using build_pred [OF assms(1,2)] assms(3) by simp
  then show ?thesis
  proof (induction rule: trancl_induct)
    case (base y)
    then have "y \<in> set (order g)" "m \<in> set (needs ns y)" using nodes by auto
    then obtain j where "j < length (order g)" "order g ! j = y" "m \<in> set (needs ns y)"
      by (metis in_set_conv_nth)
    then show ?case using before [of j m] by blast
  next
    case (step y z)
    then obtain i j where ij: "i < j" "j < length (order g)" "order g ! i = m" "order g ! j = y" by blast
    have "z \<in> set (order g)" "y \<in> set (needs ns z)" using step nodes by auto
    then obtain k where k: "k < length (order g)" "order g ! k = z" "y \<in> set (needs ns z)"
      by (metis in_set_conv_nth)
    then obtain j' where "j' < k" "order g ! j' = y" using before [of k y] by blast
    moreover have "j' = j" using calculation ij k nodes by (metis nth_eq_iff_index_eq order.strict_trans)
    ultimately have "i < k" using ij by simp
    then show ?case using ij k by blast
  qed
qed

lemma pred_irrefl:
  assumes "distinct (ids ns)" "build ns = Inr g"
  shows "\<not> isPred g n n"
  using pred_before [OF assms, of n n] build_nodes [OF assms]
  by (metis nth_eq_iff_index_eq order.strict_trans less_irrefl)

lemma pred_trans:
  "distinct (ids ns) \<Longrightarrow> build ns = Inr g \<Longrightarrow> isPred g n m \<Longrightarrow> isPred g m k \<Longrightarrow> isPred g n k"
  by (auto simp: build_pred)

lemma need_pred:
  "distinct (ids ns) \<Longrightarrow> build ns = Inr g \<Longrightarrow> n \<in> set (ids ns) \<Longrightarrow> m \<in> set (needs ns n) \<Longrightarrow> isPred g n m"
  by (auto simp: build_pred)

end

lemma built_graph_of: "distinct (node_ids nodes) \<Longrightarrow> BuildGraph nodes = Inr g \<Longrightarrow> graph_of nodes g"
  by (erule BuildGraph_outcome) auto

lemma declared_edges:
  assumes "distinct (node_ids nodes)"
  shows "{(d, k). k \<in> set (node_ids nodes) \<and> d \<in> set (declared_needs nodes k)} = needs_edges nodes"
  using declared_needs_node [OF assms [unfolded node_ids_def]]
  by (fastforce simp: needs_edges_def node_ids_def)

interpretation graph: dependency_graph BuildGraph Order IsPredecessor node_ids declared_needs
proof
  fix ns :: "DefinitionNode list" and g :: Graph and i :: nat and n m :: string
  assume ns: "distinct (node_ids ns)" "BuildGraph ns = Inr g"
  note g = built_graph_of [OF ns, unfolded graph_of_def]
  show "distinct (Order g) \<and> set (Order g) = set (node_ids ns)" using g by simp
  show "set (declared_needs ns (Order g ! i)) \<subseteq> set (take i (Order g))" if "i < length (Order g)"
    using g that by (simp add: topological_def)
  show "IsPredecessor g n m \<longleftrightarrow>
      (m, n) \<in> {(d, k). k \<in> set (node_ids ns) \<and> d \<in> set (declared_needs ns k)}\<^sup>+"
    using g by (simp add: declared_edges [OF ns(1)])
qed

section \<open>Properties\<close>

text \<open>C12: \<open>BuildGraph\<close> accepts exactly the definitions whose \<open>needs\<close> edges name other nodes of
  the definition, none of them twice, and form no cycle (the ids being unique, which its
  caller checks): Kahn's loop reports a cycle if and only if there is one.\<close>

theorem BuildGraph_accepts_iff:
  assumes "distinct (node_ids nodes)"
  shows "(\<exists>g. BuildGraph nodes = Inr g) \<longleftrightarrow> edges_ok nodes \<and> acyclic (needs_edges nodes)"
  using assms by (rule BuildGraph_outcome) auto

definition ex_node :: "string \<Rightarrow> string list \<Rightarrow> DefinitionNode" where
  "ex_node i ns = \<lparr>dn_ID = i, dn_Type = NodeTypeAgentTask, dn_Needs = ns, dn_Agent = \<lparr>na_ID = ''ag'', na_Revision = 0\<rparr>,
     dn_Input = \<lparr>ni_Instruction = ''do'', ni_Bindings = []\<rparr>, dn_IssueAccess = IssueAccessNone,
     dn_OutputSchema = '''', dn_Policy = None\<rparr>"

text \<open>A diamond listed against its dependencies.\<close>

definition ex_diamond :: "DefinitionNode list" where
  "ex_diamond = [ex_node ''d'' [''b'', ''c''], ex_node ''c'' [''a''], ex_node ''b'' [''a''], ex_node ''a'' []]"

lemma ex_diamond_ids: "node_ids ex_diamond = [''d'', ''c'', ''b'', ''a'']"
  by (simp add: node_ids_def ex_diamond_def ex_node_def)

lemma ex_diamond_order: "\<exists>g. BuildGraph ex_diamond = Inr g \<and> Order g = [''a'', ''c'', ''b'', ''d'']"
  by (simp add: BuildGraph_def ex_diamond_def ex_node_def topoSort_def topo_loop.simps Order_def Let_def)

theorem BuildGraph_accepts_iff_witness:
  "edges_ok ex_diamond \<and> acyclic (needs_edges ex_diamond)"
  using BuildGraph_accepts_iff [of ex_diamond] ex_diamond_order ex_diamond_ids by auto

text \<open>C11: A built graph is the graph of its definition: \<open>Order\<close> lists every node once, each after
  all its needs, taking at each place the available node that comes first in the definition,
  and \<open>IsPredecessor\<close> is the transitive closure of the \<open>needs\<close> edges.\<close>

theorem BuildGraph_meets_spec:
  assumes "distinct (node_ids nodes)" "BuildGraph nodes = Inr g"
  shows "graph_of nodes g"
  using assms by (rule built_graph_of)

theorem BuildGraph_meets_spec_witness:
  "\<exists>g. BuildGraph ex_diamond = Inr g \<and> graph_of ex_diamond g \<and> Order g = [''a'', ''c'', ''b'', ''d'']"
  using BuildGraph_meets_spec [of ex_diamond] ex_diamond_order ex_diamond_ids by auto

end
