(* ===== verification/Store.thy ===== *)
theory Store
  imports Task_Core Workflow_Definition
begin

text \<open>
  The database and the world around a server process. A table is a map from public ids to rows
  together with the order of insertion where a query depends on it; row keys
  (\<open>uint64\<close>) never leave the package \<open>internal/infra/db\<close> and are identified with the public ids they
  stand for, which are never reassigned. A call of a store method is one database action: it happens
  at a tick of the process, before it any number of transactions of other processes may have
  committed (\<open>w_env\<close>), and it may be lost before it takes effect or after it (\<open>w_fault\<close>), in both
  cases the caller sees an error. The clock and the random source are read at the tick too.
  A failed transaction leaves the database as it was.
\<close>

section \<open>Public ids, internal/util/id.go\<close>

definition PublicIDLen :: nat where "PublicIDLen = 20"

definition base32_alphabet :: string where "base32_alphabet = ''abcdefghijklmnopqrstuvwxyz234567''"

definition base32_digit :: "nat \<Rightarrow> char" where
  "base32_digit v = base32_alphabet ! (v mod 32)"

text \<open>The unpadded encoding of 12 bytes, read as the number \<open>n\<close> they denote: 96 bits and four zero
  bits, five bits per character, most significant first, lowercased.\<close>

definition encode_public_id :: "nat \<Rightarrow> string" where
  "encode_public_id n = map (\<lambda>j. base32_digit (n * 16 div 32 ^ (19 - j))) [0..<20]"

definition NewPublicID :: "nat option \<Rightarrow> err + string" where
  "NewPublicID r =
     (case r of None \<Rightarrow> Inl (ErrText ''generate public id'') | Some n \<Rightarrow> Inr (encode_public_id (n mod 2 ^ 96)))"

definition to_lower :: "char \<Rightarrow> char" where
  "to_lower c = (let n = of_char c :: nat in if 65 \<le> n \<and> n \<le> 90 then char_of (n + 32) else c)"

text \<open>Decoding and re-encoding returns the text, up to case, exactly if every character is of the
  alphabet and the four spare bits of the last are zero.\<close>

definition CanonicalPublicID :: "string \<Rightarrow> string option" where
  "CanonicalPublicID s =
     (if length s \<noteq> PublicIDLen then None
      else let l = map to_lower s
           in if list_all (\<lambda>c. c \<in> set base32_alphabet) l \<and> (last l = CHR ''a'' \<or> last l = CHR ''q'')
              then Some l else None)"

lemma to_lower_base32: "c \<in> set base32_alphabet \<Longrightarrow> to_lower c = c"
  by (auto simp: base32_alphabet_def to_lower_def Let_def)

lemma CanonicalPublicID_fixed: "CanonicalPublicID s = Some l \<Longrightarrow> CanonicalPublicID l = Some l"
proof -
  assume a: "CanonicalPublicID s = Some l"
  have l: "length l = PublicIDLen" "list_all (\<lambda>c. c \<in> set base32_alphabet) l"
    "last l = CHR ''a'' \<or> last l = CHR ''q''"
    using a by (auto simp: CanonicalPublicID_def Let_def split: if_splits)
  have "map to_lower l = l"
    using l(2) by (intro map_idI) (auto simp: list_all_iff to_lower_base32)
  then show ?thesis using l by (simp add: CanonicalPublicID_def)
qed

lemma base32_digit_in: "base32_digit v \<in> set base32_alphabet"
proof -
  have "v mod 32 < length base32_alphabet" by (simp add: base32_alphabet_def)
  then show ?thesis unfolding base32_digit_def by (rule nth_mem)
qed

lemma encode_public_id_canonical: "CanonicalPublicID (encode_public_id n) = Some (encode_public_id n)"
proof -
  have len: "length (encode_public_id n) = 20" by (simp only: encode_public_id_def length_map length_upt)
  have al: "list_all (\<lambda>c. c \<in> set base32_alphabet) (encode_public_id n)"
    by (auto simp: encode_public_id_def list_all_iff base32_digit_in)
  have low: "map to_lower (encode_public_id n) = encode_public_id n"
    by (auto simp: encode_public_id_def to_lower_base32 base32_digit_in)
  have "last (encode_public_id n) = (\<lambda>j. base32_digit (n * 16 div 32 ^ (19 - j))) (last [0..<20])"
    unfolding encode_public_id_def by (rule last_map) simp
  moreover have "last [0..<20::nat] = 19" by (subst last_upt) simp_all
  ultimately have "last (encode_public_id n) = base32_digit (n * 16)" by (simp only: diff_self_eq_0 power_0 div_by_1)
  moreover have "n * 16 mod 32 = (n mod 2) * 16" using mod_mult_mult2 [of n 16 2] by simp
  moreover have "n mod 2 = 0 \<or> n mod 2 = 1" by (simp only: mod2_eq_if split: if_splits) simp
  ultimately have "last (encode_public_id n) = CHR ''a'' \<or> last (encode_public_id n) = CHR ''q''"
    by (auto simp: base32_digit_def base32_alphabet_def)
  then show ?thesis
    using al low len by (simp only: CanonicalPublicID_def PublicIDLen_def Let_def if_False if_True simp_thms)
qed

lemma NewPublicID_canonical: "NewPublicID r = Inr i \<Longrightarrow> CanonicalPublicID i = Some i"
  by (auto simp: NewPublicID_def encode_public_id_canonical split: option.splits)

section \<open>Tables\<close>

record Agent =
  ag_ID :: string
  ag_SpaceID :: string
  ag_Name :: string
  ag_Description :: string
  ag_Instructions :: string
  ag_Revision :: int
  ag_SandboxNetworkTier :: string
  ag_SandboxFilesystemTier :: string
  ag_Deleted :: bool

record AgentRevision =
  ar_Name :: string
  ar_Description :: string
  ar_Instructions :: string
  ar_Revision :: int

record Issue =
  is_SpaceID :: string
  is_ExecutorKind :: "string option"
  is_ExecutorID :: "string option"

record db =
  db_spaces :: "string set"
  db_users :: "string set"
  db_assistants :: "string set"
  db_messages :: "string set"
  db_conversations :: "string \<rightharpoonup> string"
  db_agents :: "string \<rightharpoonup> Agent"
  db_agent_revs :: "string \<times> int \<rightharpoonup> AgentRevision"
  db_issues :: "string \<rightharpoonup> Issue"
  db_schedules :: "string \<rightharpoonup> int"
  db_workflows :: "string \<rightharpoonup> Workflow"
  db_wf_order :: "string list"
  db_wf_revs :: "string \<times> int \<rightharpoonup> Revision"
  db_runs :: "string \<rightharpoonup> Run"
  db_run_order :: "string list"
  db_nodes :: "string \<rightharpoonup> NodeRun"
  db_node_order :: "string list"
  db_reqs :: "string \<rightharpoonup> Request"
  db_req_order :: "string list"
  db_tasks :: "string \<rightharpoonup> Task"
  db_task_order :: "string list"
  db_truns :: "string \<rightharpoonup> TaskRun"
  db_trun_order :: "string list"

text \<open>The rows of a table in the order of insertion.\<close>

definition rows :: "(string \<rightharpoonup> 'a) \<Rightarrow> string list \<Rightarrow> 'a list" where
  "rows t order = List.map_filter t order"

lemma in_rows_iff: "x \<in> set (rows t order) \<longleftrightarrow> (\<exists>i\<in>set order. t i = Some x)"
  by (force simp: rows_def List.map_filter_def)

section \<open>The world\<close>

datatype fault = NoFault | LostBefore | LostAfter

record world =
  w_fault :: "nat \<Rightarrow> fault"
  w_clock :: "nat \<Rightarrow> time"
  w_rand :: "nat \<Rightarrow> nat \<Rightarrow> nat option"
  w_env :: "nat \<Rightarrow> db \<Rightarrow> db"

record sys =
  sy_db :: db
  sy_tick :: nat
  sy_world :: world

type_synonym 'a action = "time \<Rightarrow> (nat \<Rightarrow> nat option) \<Rightarrow> db \<Rightarrow> (err + 'a) \<times> db"
type_synonym 'a serv = "(err, sys, 'a) prog"

definition db_op :: "'a action \<Rightarrow> 'a serv" where
  "db_op f = (\<lambda>s.
     let n = sy_tick s; w = sy_world s; d = w_env w n (sy_db s); out = f (w_clock w n) (w_rand w n) d
     in case w_fault w n of
          NoFault \<Rightarrow> (fst out, s\<lparr>sy_db := snd out, sy_tick := Suc n\<rparr>)
        | LostBefore \<Rightarrow> (Inl ErrDB, s\<lparr>sy_db := d, sy_tick := Suc n\<rparr>)
        | LostAfter \<Rightarrow> (Inl ErrDB, s\<lparr>sy_db := snd out, sy_tick := Suc n\<rparr>))"

definition now_op :: "time serv" where
  "now_op = (\<lambda>s. (Inr (w_clock (sy_world s) (sy_tick s)), s\<lparr>sy_tick := Suc (sy_tick s)\<rparr>))"

definition newPublicID_op :: "string serv" where
  "newPublicID_op = (\<lambda>s. (NewPublicID (w_rand (sy_world s) (sy_tick s) 0), s\<lparr>sy_tick := Suc (sy_tick s)\<rparr>))"

text \<open>A read that cannot fail otherwise, and a transaction with rollback.\<close>

definition read_op :: "(db \<Rightarrow> 'a) \<Rightarrow> 'a serv" where
  "read_op f = db_op (\<lambda>now rnd d. (Inr (f d), d))"

text \<open>The body of a transaction either fails or gives a result and the new database; \<open>commit\<close> is
  \<open>gorm\<close>'s \<open>Transaction\<close>.\<close>

definition commit :: "(db \<Rightarrow> err + 'a \<times> db) \<Rightarrow> (err, db, 'a) prog" where
  "commit body = (\<lambda>d. case body d of Inl e \<Rightarrow> (Inl e, d) | Inr (x, d') \<Rightarrow> (Inr x, d'))"

section \<open>internal/infra/db/publicid.go\<close>

definition publicIDAttempts :: nat where "publicIDAttempts = 3"

definition lookupKey :: "(string \<Rightarrow> bool) \<Rightarrow> string \<Rightarrow> err + string" where
  "lookupKey present publicID =
     (case CanonicalPublicID publicID of
        None \<Rightarrow> Inl ErrNotFound
      | Some i \<Rightarrow> if present i then Inr i else Inl ErrNotFound)"

definition optionalKey :: "(string \<Rightarrow> bool) \<Rightarrow> string option \<Rightarrow> err + string option" where
  "optionalKey present publicID =
     (case publicID of
        None \<Rightarrow> Inr None
      | Some p \<Rightarrow>
          if p = '''' then Inr None
          else case lookupKey present p of Inl e \<Rightarrow> Inl e | Inr k \<Rightarrow> Inr (Some k))"

text \<open>A lookup outside a transaction is a query of its own; a malformed id asks nothing. \<open>if_key\<close> is
  the reading method that treats an unknown id as absence, \<open>get_by_id\<close> the one that reads a row by its
  id.\<close>

definition lookupKey_op :: "(db \<Rightarrow> string \<Rightarrow> bool) \<Rightarrow> string \<Rightarrow> string serv" where
  "lookupKey_op present p =
     (case CanonicalPublicID p of
        None \<Rightarrow> throwP ErrNotFound
      | Some i \<Rightarrow> db_op (\<lambda>now rnd d. (if present d i then Inr i else Inl ErrNotFound, d)))"

definition if_key :: "(db \<Rightarrow> string \<Rightarrow> bool) \<Rightarrow> string \<Rightarrow> 'a \<Rightarrow> (string \<Rightarrow> 'a serv) \<Rightarrow> 'a serv" where
  "if_key present p absent f =
     bindP (tryP (lookupKey_op present p)) (\<lambda>r.
     case r of
       Inr i \<Rightarrow> f i
     | Inl e \<Rightarrow> if e = ErrNotFound then retP absent else throwP e)"

definition get_by_id :: "(db \<Rightarrow> string \<rightharpoonup> 'a) \<Rightarrow> string \<Rightarrow> 'a option serv" where
  "get_by_id table p = (case CanonicalPublicID p of None \<Rightarrow> retP None | Some i \<Rightarrow> read_op (\<lambda>d. table d i))"

text \<open>The insert loop: \<open>taken\<close> is the unique index on the public id; the second component counts the
  random numbers drawn.\<close>

fun create_attempts :: "nat \<Rightarrow> (string \<Rightarrow> bool) \<Rightarrow> (nat \<Rightarrow> nat option) \<Rightarrow> nat \<Rightarrow> err + string \<times> nat" where
  "create_attempts 0 taken rnd k = Inl ErrPublicIDExhausted"
| "create_attempts (Suc m) taken rnd k =
     (case NewPublicID (rnd k) of
        Inl e \<Rightarrow> Inl e
      | Inr i \<Rightarrow> if taken i then create_attempts m taken rnd (Suc k) else Inr (i, Suc k))"

definition createWithPublicID :: "(string \<Rightarrow> bool) \<Rightarrow> (nat \<Rightarrow> nat option) \<Rightarrow> nat \<Rightarrow> err + string \<times> nat" where
  "createWithPublicID taken rnd k = create_attempts publicIDAttempts taken rnd k"

definition canonicalPublicID :: "string \<Rightarrow> string" where
  "canonicalPublicID p = (case CanonicalPublicID p of Some i \<Rightarrow> i | None \<Rightarrow> '''')"

definition optionalCanonicalPublicID :: "string option \<Rightarrow> string option" where
  "optionalCanonicalPublicID p = map_option canonicalPublicID p"

lemma create_attempts_fresh:
  "create_attempts m taken rnd k = Inr (i, k') \<Longrightarrow> \<not> taken i \<and> CanonicalPublicID i = Some i \<and> k < k'"
  by (induction m arbitrary: k) (auto split: sum.splits if_splits dest: NewPublicID_canonical Suc_lessD)

lemmas createWithPublicID_fresh = create_attempts_fresh [where m = publicIDAttempts, folded createWithPublicID_def]

lemma lookupKey_Inr: "lookupKey present p = Inr k \<Longrightarrow> CanonicalPublicID p = Some k \<and> present k"
  by (auto simp: lookupKey_def split: option.splits if_splits)



end
