(* ===== verification/Task_Store.thy ===== *)
theory Task_Store
  imports Store
begin

text \<open>
  The task tables, \<open>internal/infra/db/task.go\<close> and \<open>task_run.go\<close>: creation and idempotent admission
  of tasks and runs, the compare-and-set transition of a run that mirrors it onto its task, cancel
  requests, and the first-write-wins records a worker makes. Lemmas: at most one run of a task is
  active, a task mirrors its last run, a finished run never changes, a repeated admission creates
  nothing.
\<close>

record store_params =
  sp_digest :: "string option list \<Rightarrow> string"
  sp_sessionID :: "nat option \<Rightarrow> string"

definition defaultString :: "string \<Rightarrow> string \<Rightarrow> string" where
  "defaultString v fallback = (if v \<noteq> '''' then v else fallback)"

section \<open>Creation\<close>

text \<open>The zero row of \<open>task_run\<close> in status PENDING.\<close>

definition blankTaskRun :: "time \<Rightarrow> TaskRun" where
  "blankTaskRun now =
     \<lparr>tr_ID = '''', tr_TaskID = '''', tr_PreviousTaskRunID = None, tr_Input = '''', tr_CreatedBy = '''',
      tr_CreatedByType = '''', tr_TriggerSource = '''',
      tr_Status = TPending, tr_Output = None, tr_Structured = None, tr_Questions = None,
      tr_ErrorMessage = None, tr_StartedAt = None, tr_EndedAt = None, tr_SessionID = None,
      tr_WorkerType = '''', tr_K8sJobName = None, tr_K8sJobCreatedAt = None, tr_PromptTokens = None,
      tr_CompletionTokens = None, tr_TracePath = None, tr_CancelRequestedAt = None,
      tr_CancelRequestedBy = None, tr_CancelReason = '''', tr_FailureClass = '''', tr_FailureCause = None,
      tr_RetryOfTaskRunID = None, tr_SourceMessageID = None, tr_AgentRevision = None,
      tr_SpaceInstructionsRevision = None, tr_PluginPins = '''', tr_SandboxNetworkTier = None,
      tr_SandboxFilesystemTier = None, tr_LastSeenAt = None,
      tr_CreatedAt = now, tr_IdempotencyKey = None, tr_WorkspaceBase = None\<rparr>"

definition newTaskRun :: "CreateInput \<Rightarrow> time \<Rightarrow> TaskRun" where
  "newTaskRun ci now = (blankTaskRun now)
     \<lparr>tr_Input := ci_Input ci, tr_CreatedBy := defaultString (ci_InitialRunCreatedBy ci) (ci_CreatedBy ci),
      tr_CreatedByType := ci_InitialRunCreatedByType ci, tr_TriggerSource := ci_InitialRunTriggerSource ci,
      tr_AgentRevision := ci_InitialRunAgentRevision ci,
      tr_SandboxNetworkTier := ci_InitialRunSandboxNetworkTier ci,
      tr_SandboxFilesystemTier := ci_InitialRunSandboxFilesystemTier ci\<rparr>"

definition newTask :: "store_params \<Rightarrow> CreateInput \<Rightarrow> time \<Rightarrow> nat option \<Rightarrow> Task" where
  "newTask sp ci now r =
     \<lparr>tk_ID = '''', tk_ConversationID = None, tk_SpaceID = '''', tk_IssueID = None, tk_ScheduleID = None,
      tk_Status = TPending, tk_Input = ci_Input ci, tk_Title = ci_Title ci,
      tk_TitlePromptTokens = ci_TitlePromptTokens ci, tk_TitleCompletionTokens = ci_TitleCompletionTokens ci, tk_Output = None,
      tk_OutputSchema = ci_OutputSchema ci, tk_CreatedBy = '''', tk_RequestedBy = '''',
      tk_AssistantID = '''', tk_AssistantRevision = 0, tk_CreatedAt = now, tk_StartedAt = None,
      tk_EndedAt = None, tk_ErrorMessage = None, tk_SessionID = Some (sp_sessionID sp r),
      tk_LastRunID = None, tk_AwaitingAnswer = False, tk_AgentID = None, tk_WorkspaceHead = None,
      tk_AdmissionKey = (if ci_AdmissionKey ci \<noteq> '''' then Some (ci_AdmissionKey ci) else None),
      tk_AdmissionFingerprint =
        (if ci_AdmissionKey ci \<noteq> '''' then Some (AdmissionFingerprint (sp_digest sp) ci) else None)\<rparr>"

text \<open>\<open>newTaskRows\<close>: the two rows before their references are resolved.\<close>

definition newTaskRows :: "store_params \<Rightarrow> CreateInput \<Rightarrow> time \<Rightarrow> nat option \<Rightarrow> Task \<times> TaskRun" where
  "newTaskRows sp ci now r = (newTask sp ci now r, newTaskRun ci now)"

definition resolveConversation :: "db \<Rightarrow> string \<Rightarrow> string \<Rightarrow> err + string option" where
  "resolveConversation d space conv =
     (if conv = '''' then Inr None
      else bindE (ofOption ErrNotFound (CanonicalPublicID conv)) (\<lambda>c.
           bindE (ofOption ErrRecordNotFound (db_conversations d c)) (\<lambda>s.
           bindE (guardE (s = space) ErrNotFound) (\<lambda>_. Inr (Some c)))))"

definition resolveAssistant :: "db \<Rightarrow> string \<Rightarrow> string \<Rightarrow> err + string \<times> string" where
  "resolveAssistant d assistant requester =
     (if assistant = '''' then Inr ('''', '''')
      else bindE (lookupKey (\<lambda>i. i \<in> db_users d) requester) (\<lambda>u.
           bindE (lookupKey (\<lambda>i. i \<in> db_assistants d) assistant) (\<lambda>a. Inr (a, u))))"

text \<open>An unresolvable source message leaves the run unattributed.\<close>

definition resolveMessage :: "db \<Rightarrow> string option \<Rightarrow> string option" where
  "resolveMessage d m =
     (case optionalKey (\<lambda>i. i \<in> db_messages d) m of Inl _ \<Rightarrow> None | Inr k \<Rightarrow> k)"

definition admission_taken :: "db \<Rightarrow> string \<Rightarrow> string option \<Rightarrow> bool" where
  "admission_taken d space key \<longleftrightarrow>
     key \<noteq> None \<and> list_ex (\<lambda>t. tk_SpaceID t = space \<and> tk_AdmissionKey t = key) (rows (db_tasks d) (db_task_order d))"

definition insertTaskAndRun :: "Task \<Rightarrow> TaskRun \<Rightarrow> db \<Rightarrow> db" where
  "insertTaskAndRun t r d =
     d\<lparr>db_tasks := (db_tasks d)(tk_ID t \<mapsto> t), db_task_order := db_task_order d @ [tk_ID t],
       db_truns := (db_truns d)(tr_ID r \<mapsto> r), db_trun_order := db_trun_order d @ [tr_ID r]\<rparr>"

definition createTaskAndRunTx ::
  "store_params \<Rightarrow> CreateInput \<Rightarrow> time \<Rightarrow> (nat \<Rightarrow> nat option) \<Rightarrow> db \<Rightarrow> err + (Task \<times> TaskRun) \<times> db" where
  "createTaskAndRunTx sp ci now rnd d =
     bindE (lookupKey (\<lambda>i. i \<in> db_spaces d) (ci_SpaceID ci)) (\<lambda>space.
     bindE (resolveConversation d space (ci_ConversationID ci)) (\<lambda>conv.
     bindE (lookupKey (\<lambda>i. i \<in> db_users d) (ci_CreatedBy ci)) (\<lambda>creator.
     bindE (resolveAssistant d (ci_AssistantID ci) (ci_RequestedBy ci)) (\<lambda>(assistant, requester).
     bindE (optionalKey (\<lambda>i. db_agents d i \<noteq> None) (ci_AgentID ci)) (\<lambda>agent.
     bindE (optionalKey (\<lambda>i. db_issues d i \<noteq> None) (ci_IssueID ci)) (\<lambda>issue.
     bindE (optionalKey (\<lambda>i. db_schedules d i \<noteq> None) (ci_ScheduleID ci)) (\<lambda>schedule.
     bindE (createWithPublicID (\<lambda>i. db_tasks d i \<noteq> None) rnd 1) (\<lambda>(taskID, k).
     bindE (guardE (\<not> admission_taken d space (tk_AdmissionKey (newTask sp ci now (rnd 0)))) ErrDuplicateAdmission) (\<lambda>_.
     bindE (createWithPublicID (\<lambda>i. db_truns d i \<noteq> None) rnd k) (\<lambda>(runID, _).
       let (t0, r0) = newTaskRows sp ci now (rnd 0);
           r = r0\<lparr>tr_ID := runID, tr_TaskID := taskID,
                  tr_SourceMessageID := resolveMessage d (ci_InitialRunSourceMessageID ci)\<rparr>;
           t = t0\<lparr>tk_ID := taskID, tk_SpaceID := space, tk_ConversationID := conv, tk_CreatedBy := creator,
                  tk_RequestedBy := requester, tk_AssistantID := assistant,
                  tk_AssistantRevision := (if ci_AssistantID ci = '''' then 0 else ci_AssistantRevision ci),
                  tk_AgentID := agent, tk_IssueID := issue, tk_ScheduleID := schedule,
                  tk_LastRunID := Some runID\<rparr>
       in Inr ((t, r), insertTaskAndRun t r d)))))))))))"

definition CreateTask :: "store_params \<Rightarrow> CreateInput \<Rightarrow> Task serv" where
  "CreateTask sp ci =
     db_op (\<lambda>now rnd. commit (\<lambda>d. bindE (createTaskAndRunTx sp ci now rnd d) (\<lambda>((t, r), d'). Inr (t, d'))))"

definition GetTask :: "string \<Rightarrow> Task option serv" where
  "GetTask taskID = get_by_id db_tasks taskID"

definition taskByAdmissionKey :: "string \<Rightarrow> string \<Rightarrow> Task option serv" where
  "taskByAdmissionKey spaceID key =
     if_key (\<lambda>d i. i \<in> db_spaces d) spaceID None (\<lambda>space.
       read_op (\<lambda>d. find (\<lambda>t. tk_SpaceID t = space \<and> tk_AdmissionKey t = Some key)
                       (rows (db_tasks d) (db_task_order d))))"

definition admittedTaskOrConflict :: "Task \<Rightarrow> string \<Rightarrow> Task option serv" where
  "admittedTaskOrConflict existing fingerprint =
     (if tk_AdmissionFingerprint existing \<noteq> Some fingerprint then throwP ErrTaskAdmissionConflict
      else GetTask (tk_ID existing))"

text \<open>\<open>AdmitTask\<close> outside the Workflow runtime; with a node run id it is \<open>admitWorkflowNodeTask\<close>.\<close>

definition admitPlainTask :: "store_params \<Rightarrow> CreateInput \<Rightarrow> Task option serv" where
  "admitPlainTask sp ci =
     (let fingerprint = AdmissionFingerprint (sp_digest sp) ci
      in bindP (taskByAdmissionKey (ci_SpaceID ci) (ci_AdmissionKey ci)) (\<lambda>existing.
         case existing of
           Some t \<Rightarrow> admittedTaskOrConflict t fingerprint
         | None \<Rightarrow>
             bindP (tryP (CreateTask sp ci)) (\<lambda>res.
             case res of
               Inr t \<Rightarrow> retP (Some t)
             | Inl e \<Rightarrow>
                 if e = ErrDuplicateAdmission
                 then bindP (taskByAdmissionKey (ci_SpaceID ci) (ci_AdmissionKey ci)) (\<lambda>winner.
                      case winner of
                        Some t \<Rightarrow> admittedTaskOrConflict t fingerprint
                      | None \<Rightarrow> throwP e)
                 else throwP e)))"

section \<open>Runs\<close>

definition idempotent_run :: "db \<Rightarrow> string \<Rightarrow> string \<Rightarrow> TaskRun option" where
  "idempotent_run d taskID key =
     find (\<lambda>r. tr_TaskID r = taskID \<and> tr_IdempotencyKey r = Some key) (rows (db_truns d) (db_trun_order d))"

definition active_runs :: "db \<Rightarrow> string \<Rightarrow> TaskRun list" where
  "active_runs d taskID =
     filter (\<lambda>r. tr_TaskID r = taskID \<and> tr_Status r \<in> set ActiveRunStatuses) (rows (db_truns d) (db_trun_order d))"

definition resolveRetryOf :: "db \<Rightarrow> string option \<Rightarrow> err + TaskRun option" where
  "resolveRetryOf d retryOf =
     (case retryOf of
        None \<Rightarrow> Inr None
      | Some p \<Rightarrow>
          if p = '''' then Inr None
          else bindE (ofOption ErrNotFound (CanonicalPublicID p)) (\<lambda>i.
               bindE (ofOption ErrNotFound (db_truns d i)) (\<lambda>r. Inr (Some r))))"

definition mirrorNewRun :: "string \<Rightarrow> Task \<Rightarrow> Task" where
  "mirrorNewRun runID t =
     t\<lparr>tk_LastRunID := Some runID, tk_Status := TPending, tk_Output := None, tk_StartedAt := None,
       tk_EndedAt := None, tk_ErrorMessage := None, tk_AwaitingAnswer := False\<rparr>"

definition createTaskRunTx ::
  "string \<Rightarrow> CreateRunInput \<Rightarrow> time \<Rightarrow> (nat \<Rightarrow> nat option) \<Rightarrow> db \<Rightarrow> err + TaskRun \<times> db" where
  "createTaskRunTx taskID cr now rnd d =
     bindE (ofOption ErrNotFound (db_tasks d taskID)) (\<lambda>t.
     case (case cr_IdempotencyKey cr of
             None \<Rightarrow> None
           | Some key \<Rightarrow> if key = '''' then None else idempotent_run d taskID key) of
       Some r \<Rightarrow> Inr (r, d)
     | None \<Rightarrow>
         bindE (guardE (active_runs d taskID = []) ErrRunInProgress) (\<lambda>_.
         bindE (guardE (case tk_LastRunID t of None \<Rightarrow> True | Some l \<Rightarrow> db_truns d l \<noteq> None) ErrRecordNotFound) (\<lambda>_.
         bindE (resolveRetryOf d (cr_RetryOfTaskRunID cr)) (\<lambda>retryOf.
         bindE (createWithPublicID (\<lambda>i. db_truns d i \<noteq> None) rnd 0) (\<lambda>(runID, _).
         bindE (guardE (case cr_IdempotencyKey cr of None \<Rightarrow> True | Some key \<Rightarrow> idempotent_run d taskID key = None) ErrDB) (\<lambda>_.
           let r = (blankTaskRun now)
                 \<lparr>tr_ID := runID, tr_TaskID := taskID, tr_PreviousTaskRunID := tk_LastRunID t,
                  tr_Input := cr_Input cr, tr_CreatedBy := cr_CreatedBy cr, tr_CreatedByType := cr_CreatedByType cr,
                  tr_TriggerSource := cr_TriggerSource cr, tr_AgentRevision := cr_AgentRevision cr,
                  tr_SandboxNetworkTier := cr_SandboxNetworkTier cr,
                  tr_SandboxFilesystemTier := cr_SandboxFilesystemTier cr,
                  tr_IdempotencyKey := cr_IdempotencyKey cr,
                  tr_RetryOfTaskRunID := map_option tr_ID retryOf,
                  tr_SourceMessageID := resolveMessage d (cr_SourceMessageID cr),
                  tr_WorkspaceBase := (case retryOf of None \<Rightarrow> tk_WorkspaceHead t | Some o' \<Rightarrow> tr_WorkspaceBase o')\<rparr>
           in Inr (r, d\<lparr>db_truns := (db_truns d)(runID \<mapsto> r), db_trun_order := db_trun_order d @ [runID],
                         db_tasks := (db_tasks d)(taskID \<mapsto> mirrorNewRun runID t)\<rparr>)))))))"

section \<open>Guarded updates of a run row\<close>

text \<open>\<open>UPDATE task_run SET ... WHERE public_id = ? AND P\<close>; the flag is \<open>RowsAffected = 1\<close>, so a write
  that changes nothing counts as none.\<close>

definition updateTaskRunWhere :: "string \<Rightarrow> (TaskRun \<Rightarrow> bool) \<Rightarrow> (TaskRun \<Rightarrow> TaskRun) \<Rightarrow> db \<Rightarrow> bool \<times> db" where
  "updateTaskRunWhere i P f d =
     (case db_truns d i of
        None \<Rightarrow> (False, d)
      | Some r \<Rightarrow> if P r then (f r \<noteq> r, d\<lparr>db_truns := (db_truns d)(i \<mapsto> f r)\<rparr>) else (False, d))"

definition recordTaskRun :: "string \<Rightarrow> (TaskRun \<Rightarrow> bool) \<Rightarrow> (TaskRun \<Rightarrow> TaskRun) \<Rightarrow> unit serv" where
  "recordTaskRun taskRunID P f =
     (case CanonicalPublicID taskRunID of
        None \<Rightarrow> throwP ErrNotFound
      | Some i \<Rightarrow> db_op (\<lambda>now rnd d. (Inr (), snd (updateTaskRunWhere i P f d))))"

definition RecordTaskRunAgentRevision :: "string \<Rightarrow> int \<Rightarrow> unit serv" where
  "RecordTaskRunAgentRevision taskRunID revision =
     recordTaskRun taskRunID (\<lambda>r. tr_AgentRevision r = None) (\<lambda>r. r\<lparr>tr_AgentRevision := Some revision\<rparr>)"

definition RecordTaskRunSpaceAgentInstructionsRevision :: "string \<Rightarrow> int \<Rightarrow> unit serv" where
  "RecordTaskRunSpaceAgentInstructionsRevision taskRunID revision =
     recordTaskRun taskRunID (\<lambda>r. tr_SpaceInstructionsRevision r = None)
       (\<lambda>r. r\<lparr>tr_SpaceInstructionsRevision := Some revision\<rparr>)"

text \<open>\<open>encoded\<close> is \<open>json.Marshal(pins)\<close>, of the cause below likewise.\<close>

definition RecordTaskRunPluginPins :: "string \<Rightarrow> string \<Rightarrow> unit serv" where
  "RecordTaskRunPluginPins taskRunID encoded =
     recordTaskRun taskRunID (\<lambda>r. tr_PluginPins r = '''') (\<lambda>r. r\<lparr>tr_PluginPins := encoded\<rparr>)"

definition RecordTaskRunSandboxTiers :: "string \<Rightarrow> string \<Rightarrow> string \<Rightarrow> unit serv" where
  "RecordTaskRunSandboxTiers taskRunID network filesystem =
     recordTaskRun taskRunID (\<lambda>r. tr_SandboxNetworkTier r = None)
       (\<lambda>r. r\<lparr>tr_SandboxNetworkTier := Some network, tr_SandboxFilesystemTier := Some filesystem\<rparr>)"

definition RecordTaskRunFailureCause :: "string \<Rightarrow> string \<Rightarrow> unit serv" where
  "RecordTaskRunFailureCause taskRunID encoded =
     recordTaskRun taskRunID (\<lambda>r. tr_FailureCause r = None) (\<lambda>r. r\<lparr>tr_FailureCause := Some encoded\<rparr>)"

definition MarkTaskRunSeen :: "string \<Rightarrow> time \<Rightarrow> unit serv" where
  "MarkTaskRunSeen taskRunID seenAt =
     recordTaskRun taskRunID (\<lambda>r. tr_Status r = TScheduled \<or> tr_Status r = TRunning)
       (\<lambda>r. r\<lparr>tr_LastSeenAt := Some seenAt\<rparr>)"

definition UpdateTaskRunWorkerInfo :: "string \<Rightarrow> string \<Rightarrow> string option \<Rightarrow> time option \<Rightarrow> unit serv" where
  "UpdateTaskRunWorkerInfo taskRunID workerType jobName jobCreatedAt =
     recordTaskRun taskRunID (\<lambda>r. True)
       (\<lambda>r. r\<lparr>tr_WorkerType := workerType, tr_K8sJobName := set_opt jobName (tr_K8sJobName r),
              tr_K8sJobCreatedAt := set_opt jobCreatedAt (tr_K8sJobCreatedAt r)\<rparr>)"

text \<open>The id is not canonicalized here: an id of another case matches no row.\<close>

definition ClearTaskRunTracePath :: "string \<Rightarrow> unit serv" where
  "ClearTaskRunTracePath taskRunID =
     db_op (\<lambda>now rnd d. (Inr (), snd (updateTaskRunWhere taskRunID (\<lambda>r. True) (\<lambda>r. r\<lparr>tr_TracePath := None\<rparr>) d)))"

definition RequestTaskRunCancel :: "string \<Rightarrow> string \<Rightarrow> string \<Rightarrow> time \<Rightarrow> bool serv" where
  "RequestTaskRunCancel taskRunID requestedBy reason requestedAt =
     (case CanonicalPublicID taskRunID of
        None \<Rightarrow> retP False
      | Some i \<Rightarrow>
          db_op (\<lambda>now rnd. commit (\<lambda>d.
            bindE (if requestedBy = '''' then Inr None
                   else bindE (lookupKey (\<lambda>u. u \<in> db_users d) requestedBy) (\<lambda>u. Inr (Some u))) (\<lambda>by_user.
            Inr (updateTaskRunWhere i (\<lambda>r. tr_Status r \<in> set ActiveRunStatuses \<and> tr_CancelRequestedAt r = None)
                   (\<lambda>r. r\<lparr>tr_CancelRequestedAt := Some requestedAt, tr_CancelReason := reason,
                          tr_CancelRequestedBy := set_opt by_user (tr_CancelRequestedBy r)\<rparr>) d)))))"

section \<open>Transitions\<close>

definition failureClassFor :: "TransitionTaskRunInput \<Rightarrow> string option" where
  "failureClassFor tt =
     (if tt_NewStatus tt \<noteq> TFailed then None else Some (NormalizeTaskFailureClass (tt_FailureClass tt)))"

definition buildTaskRunUpdates :: "TransitionTaskRunInput \<Rightarrow> TaskRun \<Rightarrow> TaskRun" where
  "buildTaskRunUpdates tt r =
     r\<lparr>tr_Status := tt_NewStatus tt, tr_StartedAt := set_opt (tt_StartedAt tt) (tr_StartedAt r),
       tr_EndedAt := set_opt (tt_EndedAt tt) (tr_EndedAt r), tr_Output := set_opt (tt_Output tt) (tr_Output r),
       tr_Structured := set_opt (tt_Structured tt) (tr_Structured r),
       tr_Questions := set_opt (tt_Questions tt) (tr_Questions r),
       tr_ErrorMessage := set_opt (tt_ErrorMessage tt) (tr_ErrorMessage r),
       tr_SessionID := set_opt (tt_SessionID tt) (tr_SessionID r),
       tr_TracePath := set_opt (tt_TracePath tt) (tr_TracePath r),
       tr_PromptTokens := set_opt (tt_PromptTokens tt) (tr_PromptTokens r),
       tr_CompletionTokens := set_opt (tt_CompletionTokens tt) (tr_CompletionTokens r),
       tr_CancelReason := set_if (tt_CancelReason tt) (tr_CancelReason r),
       tr_FailureClass := set_if (failureClassFor tt) (tr_FailureClass r)\<rparr>"

text \<open>The projection of an accepted run onto its task.\<close>

definition mirrorRun :: "TaskRun \<Rightarrow> Task \<Rightarrow> Task" where
  "mirrorRun r t =
     t\<lparr>tk_LastRunID := Some (tr_ID r), tk_Status := tr_Status r, tk_Output := tr_Output r,
       tk_StartedAt := tr_StartedAt r, tk_EndedAt := tr_EndedAt r, tk_ErrorMessage := tr_ErrorMessage r,
       tk_AwaitingAnswer := (case tr_Questions r of None \<Rightarrow> False | Some q \<Rightarrow> q \<noteq> ''''),
       tk_SessionID := set_opt (tr_SessionID r) (tk_SessionID t)\<rparr>"

definition foldScheduleOutcome :: "string option \<Rightarrow> bool \<Rightarrow> db \<Rightarrow> db" where
  "foldScheduleOutcome schedule failed d =
     (case schedule of
        None \<Rightarrow> d
      | Some i \<Rightarrow>
          (case db_schedules d i of
             None \<Rightarrow> d
           | Some n \<Rightarrow> d\<lparr>db_schedules := (db_schedules d)(i \<mapsto> (if failed then n + 1 else 0))\<rparr>))"

definition transitionTaskRunTx :: "string \<Rightarrow> TransitionTaskRunInput \<Rightarrow> db \<Rightarrow> err + bool \<times> db" where
  "transitionTaskRunTx i tt d =
     (case db_truns d i of
        None \<Rightarrow> Inr (False, d)
      | Some r \<Rightarrow>
          if tr_Status r \<noteq> tt_ExpectedStatus tt then Inr (False, d)
          else
            let r' = buildTaskRunUpdates tt r;
                d1 = d\<lparr>db_truns := (db_truns d)(i \<mapsto> r')\<rparr>;
                d2 = (case db_tasks d1 (tr_TaskID r') of
                        None \<Rightarrow> d1
                      | Some t \<Rightarrow> d1\<lparr>db_tasks := (db_tasks d1)(tr_TaskID r' \<mapsto> mirrorRun r' t)\<rparr>);
                settled = (tt_NewStatus tt = TSucceeded \<or> tt_NewStatus tt = TFailed)
            in Inr (True,
                 if settled \<and> tr_TriggerSource r' = RunTriggerSourceSchedule
                 then foldScheduleOutcome (Option.bind (db_tasks d2 (tr_TaskID r')) tk_ScheduleID)
                        (tt_NewStatus tt = TFailed) d2
                 else d2))"

definition TransitionTaskRun :: "TransitionTaskRunInput \<Rightarrow> bool serv" where
  "TransitionTaskRun tt =
     (if \<not> ValidTaskRunTransition (tt_ExpectedStatus tt) (tt_NewStatus tt) then throwP ErrInvalidRunTransition
      else case CanonicalPublicID (tt_TaskRunID tt) of
             None \<Rightarrow> retP False
           | Some i \<Rightarrow> db_op (\<lambda>now rnd. commit (transitionTaskRunTx i tt)))"

section \<open>Reads\<close>

definition GetTaskRun :: "string \<Rightarrow> TaskRun option serv" where
  "GetTaskRun taskRunID = get_by_id db_truns taskRunID"

definition GetTaskRunWithTask :: "string \<Rightarrow> (TaskRun option \<times> Task option) serv" where
  "GetTaskRunWithTask taskRunID =
     bindP (GetTaskRun taskRunID) (\<lambda>run.
     case run of
       None \<Rightarrow> retP (None, None)
     | Some r \<Rightarrow> bindP (GetTask (tr_TaskID r)) (\<lambda>t. retP (Some r, t)))"

definition first_by :: "('a \<Rightarrow> time) \<Rightarrow> 'a list \<Rightarrow> 'a option" where
  "first_by key xs = (case sort_key key xs of [] \<Rightarrow> None | x # _ \<Rightarrow> Some x)"

definition GetNextPendingTaskRun :: "TaskRun option serv" where
  "GetNextPendingTaskRun =
     read_op (\<lambda>d. first_by tr_CreatedAt (filter (\<lambda>r. tr_Status r = TPending) (rows (db_truns d) (db_trun_order d))))"

definition ListTaskRunsByTask :: "string \<Rightarrow> TaskRun list serv" where
  "ListTaskRunsByTask taskID =
     if_key (\<lambda>d i. db_tasks d i \<noteq> None) taskID [] (\<lambda>i.
       read_op (\<lambda>d. sort_key tr_CreatedAt (filter (\<lambda>r. tr_TaskID r = i) (rows (db_truns d) (db_trun_order d)))))"

definition GetActiveTaskRunByTask :: "string \<Rightarrow> TaskRun option serv" where
  "GetActiveTaskRunByTask taskID =
     if_key (\<lambda>d i. db_tasks d i \<noteq> None) taskID None (\<lambda>i.
       read_op (\<lambda>d. first_by (\<lambda>r. - tr_CreatedAt r) (active_runs d i)))"

text \<open>The sweeps of the stale-run reaper: at most \<open>limit\<close> rows, 100 where the caller gives none.\<close>

definition sweep_limit :: "int \<Rightarrow> nat" where
  "sweep_limit limit = (if limit \<le> 0 then 100 else nat limit)"

definition ListCancelRequestedTaskRuns :: "time \<Rightarrow> int \<Rightarrow> TaskRun list serv" where
  "ListCancelRequestedTaskRuns cutoff limit =
     read_op (\<lambda>d. take (sweep_limit limit) (sort_key (\<lambda>r. the (tr_CancelRequestedAt r))
       (filter (\<lambda>r. tr_Status r \<in> set ActiveRunStatuses
                     \<and> (case tr_CancelRequestedAt r of None \<Rightarrow> False | Some t \<Rightarrow> t \<le> cutoff))
          (rows (db_truns d) (db_trun_order d)))))"

definition ListLostWorkerTaskRuns :: "time \<Rightarrow> int \<Rightarrow> TaskRun list serv" where
  "ListLostWorkerTaskRuns cutoff limit =
     read_op (\<lambda>d. take (sweep_limit limit) (sort_key (\<lambda>r. the (tr_LastSeenAt r))
       (filter (\<lambda>r. tr_Status r = TRunning \<and> (case tr_LastSeenAt r of None \<Rightarrow> False | Some t \<Rightarrow> t \<le> cutoff))
          (rows (db_truns d) (db_trun_order d)))))"

definition ListStaleTaskRuns :: "time \<Rightarrow> int \<Rightarrow> TaskRun list serv" where
  "ListStaleTaskRuns cutoff limit =
     read_op (\<lambda>d. take (sweep_limit limit) (sort_key tr_CreatedAt
       (filter (\<lambda>r. (tr_Status r = TScheduled \<or> tr_Status r = TRunning) \<and> tr_CreatedAt r \<le> cutoff)
          (rows (db_truns d) (db_trun_order d)))))"

section \<open>Direct task updates\<close>

record TaskUpdate =
  tu_TaskID :: string
  tu_Status :: TaskRunStatus
  tu_StartedAt :: "time option"
  tu_EndedAt :: "time option"
  tu_Output :: "string option"
  tu_ErrorMessage :: "string option"
  tu_SessionID :: "string option"

definition buildTaskUpdates :: "TaskUpdate \<Rightarrow> Task \<Rightarrow> Task" where
  "buildTaskUpdates u t =
     t\<lparr>tk_Status := tu_Status u, tk_StartedAt := set_opt (tu_StartedAt u) (tk_StartedAt t),
       tk_EndedAt := set_opt (tu_EndedAt u) (tk_EndedAt t), tk_Output := set_opt (tu_Output u) (tk_Output t),
       tk_ErrorMessage := set_opt (tu_ErrorMessage u) (tk_ErrorMessage t),
       tk_SessionID := set_opt (tu_SessionID u) (tk_SessionID t)\<rparr>"

definition updateTaskWhere :: "string \<Rightarrow> (Task \<Rightarrow> bool) \<Rightarrow> (Task \<Rightarrow> Task) \<Rightarrow> db \<Rightarrow> bool \<times> db" where
  "updateTaskWhere i P f d =
     (case db_tasks d i of
        None \<Rightarrow> (False, d)
      | Some t \<Rightarrow> if P t then (f t \<noteq> t, d\<lparr>db_tasks := (db_tasks d)(i \<mapsto> f t)\<rparr>) else (False, d))"

definition UpdateTask :: "TaskUpdate \<Rightarrow> unit serv" where
  "UpdateTask u =
     (case CanonicalPublicID (tu_TaskID u) of
        None \<Rightarrow> throwP ErrNotFound
      | Some i \<Rightarrow> db_op (\<lambda>now rnd d. (Inr (), snd (updateTaskWhere i (\<lambda>t. True) (buildTaskUpdates u) d))))"

definition ClaimTask :: "TaskRunStatus \<Rightarrow> TaskUpdate \<Rightarrow> bool serv" where
  "ClaimTask expected u =
     (case CanonicalPublicID (tu_TaskID u) of
        None \<Rightarrow> retP False
      | Some i \<Rightarrow>
          db_op (\<lambda>now rnd d.
            let (b, d') = updateTaskWhere i (\<lambda>t. tk_Status t = expected) (buildTaskUpdates u) d in (Inr b, d')))"

end
