(* ===== verification/Workflow_Store.thy ===== *)
theory Workflow_Store
  imports Task_Store
begin

text \<open>
  The workflow tables, \<open>internal/infra/db/workflow.go\<close>, \<open>workflow_request.go\<close> and
  \<open>workflow_admission.go\<close>: workflows and their append-only revisions, runs with their reconciliation
  lease, node runs, requests, and the admission of a node's task and task runs under the run lock.
  One definition per store method; a transaction body is a function of the database that either fails
  or gives a result and the new database. Row keys are public ids, so the joins that turn keys into
  ids are the identity; the JSON columns for dependency edges and bindings are their decoded lists
  (\<open>encodeNodeNeeds\<close>, \<open>decodeNodeNeeds\<close> and the pair for bindings are inverse on what the service writes).
\<close>

section \<open>Inputs\<close>

record UpdateInput =
  ui_Name :: "string option"
  ui_Description :: "string option"
  ui_Definition :: "string option"
  ui_Status :: "string option"
  ui_ExpectedRevision :: int
  ui_UpdatedBy :: string

record CreateWorkflowRunInput =
  cw_WorkflowID :: string
  cw_WorkflowRevision :: int
  cw_IssueID :: "string option"
  cw_ScheduleID :: "string option"
  cw_ConversationID :: "string option"
  cw_RequestedBy :: string
  cw_AssistantID :: string
  cw_AssistantRevision :: int
  cw_ReportStatus :: ReportStatus
  cw_Input :: "string option"
  cw_Status :: RunStatus
  cw_CreatedBy :: string
  cw_StartedAt :: "time option"
  cw_DeadlineAt :: "time option"

record CreateNodeRunInput =
  cn_NodeID :: string
  cn_NodeIndex :: int
  cn_NodeType :: string
  cn_Needs :: "string list"
  cn_IssueAccess :: string
  cn_TargetAgentID :: "string option"
  cn_AgentName :: string
  cn_AgentDescription :: string
  cn_AgentInstructions :: string
  cn_AgentRevision :: int
  cn_Prompt :: string
  cn_Bindings :: "StepBinding list"
  cn_OutputSchema :: "string option"
  cn_MaxAttempts :: int
  cn_TimeoutSeconds :: int
  cn_Status :: NodeRunStatus

record TransitionRunInput =
  ti_WorkflowRunID :: string
  ti_ExpectedStatus :: RunStatus
  ti_NewStatus :: RunStatus
  ti_StartedAt :: "time option"
  ti_EndedAt :: "time option"
  ti_ErrorMessage :: "string option"
  ti_Result :: "string option"

record TransitionNodeRunInput =
  tn_NodeRunID :: string
  tn_ExpectedStatus :: NodeRunStatus
  tn_NewStatus :: NodeRunStatus
  tn_TaskID :: "string option"
  tn_TaskRunID :: "string option"
  tn_ResolvedInput :: "string option"
  tn_Output :: "string option"
  tn_Structured :: "string option"
  tn_ErrorMessage :: "string option"
  tn_StartedAt :: "time option"
  tn_EndedAt :: "time option"
  tn_Attempt :: "int option"
  tn_DeadlineAt :: "time option"
  tn_NextAttemptAt :: "time option"

record StopRunInput =
  sr_WorkflowRunID :: string
  sr_RunExpected :: RunStatus
  sr_RunStatus :: RunStatus
  sr_ErrorMessage :: "string option"
  sr_FailureClass :: string

record BeginRunDrainInput =
  bd_WorkflowRunID :: string
  bd_NodeRunID :: string
  bd_NodeExpected :: NodeRunStatus
  bd_NodeStatus :: NodeRunStatus
  bd_RunExpected :: RunStatus
  bd_RunStatus :: RunStatus
  bd_TaskRunID :: "string option"
  bd_Output :: "string option"
  bd_Structured :: "string option"
  bd_ErrorMessage :: "string option"
  bd_FailureClass :: string
  bd_StartedAt :: "time option"
  bd_EndedAt :: "time option"

record OpenRequestInput =
  oi_WorkflowRunID :: string
  oi_NodeRunID :: string
  oi_NodeExpected :: NodeRunStatus
  oi_Key :: string
  oi_Kind :: RequestKind
  oi_Prompt :: string
  oi_Questions :: "string option"
  oi_ResponseSchema :: "string option"
  oi_TaskRunID :: "string option"
  oi_ExpiresAt :: "time option"
  oi_ResolvedInput :: "string option"
  oi_Now :: time

record ResolveRequestInput =
  ri_RequestID :: string
  ri_Status :: RequestStatus
  ri_Response :: "string option"
  ri_RespondedBy :: "string option"
  ri_Now :: time

section \<open>Reads\<close>

definition maxUnboundedPage :: int where "maxUnboundedPage = 1000"

definition capPage :: "int \<Rightarrow> int \<Rightarrow> int \<times> int" where
  "capPage limit offset =
     (if limit \<le> 0 \<or> limit > maxUnboundedPage then maxUnboundedPage else limit, if offset < 0 then 0 else offset)"

definition page :: "int \<Rightarrow> int \<Rightarrow> 'a list \<Rightarrow> 'a list" where
  "page limit offset xs = (let (l, off) = capPage limit offset in take (nat l) (drop (nat off) xs))"

definition ListWorkflowsBySpace :: "string \<Rightarrow> Workflow list serv" where
  "ListWorkflowsBySpace spaceID =
     (case CanonicalPublicID spaceID of
        None \<Rightarrow> retP []
      | Some i \<Rightarrow> read_op (\<lambda>d. sort_key wf_CreatedAt
                           (filter (\<lambda>w. wf_SpaceID w = i) (rows (db_workflows d) (db_wf_order d)))))"

definition GetWorkflow :: "string \<Rightarrow> Workflow option serv" where
  "GetWorkflow workflowID = get_by_id db_workflows workflowID"

definition GetWorkflowRun :: "string \<Rightarrow> Run option serv" where
  "GetWorkflowRun workflowRunID = get_by_id db_runs workflowRunID"

definition GetWorkflowRequest :: "string \<Rightarrow> Request option serv" where
  "GetWorkflowRequest requestID = get_by_id db_reqs requestID"

definition GetWorkflowRevision :: "string \<Rightarrow> int \<Rightarrow> Revision option serv" where
  "GetWorkflowRevision workflowID revision =
     if_key (\<lambda>d i. db_workflows d i \<noteq> None) workflowID None (\<lambda>i. read_op (\<lambda>d. db_wf_revs d (i, revision)))"

text \<open>The revisions of a workflow are numbered 1 to its current one.\<close>

definition revision_rows :: "db \<Rightarrow> string \<Rightarrow> Revision list" where
  "revision_rows d i =
     (case db_workflows d i of
        None \<Rightarrow> []
      | Some w \<Rightarrow> List.map_filter (\<lambda>k. db_wf_revs d (i, k)) (rev [1..wf_Revision w]))"

definition ListWorkflowRevisions :: "string \<Rightarrow> int \<Rightarrow> int \<Rightarrow> (Revision list \<times> nat) serv" where
  "ListWorkflowRevisions workflowID limit offset =
     if_key (\<lambda>d i. db_workflows d i \<noteq> None) workflowID ([], 0) (\<lambda>i.
     bindP (read_op (\<lambda>d. length (revision_rows d i))) (\<lambda>total.
     bindP (read_op (\<lambda>d. page limit offset (revision_rows d i))) (\<lambda>list. retP (list, total))))"

definition node_rows :: "db \<Rightarrow> string \<Rightarrow> NodeRun list" where
  "node_rows d runID =
     sort_key n_NodeIndex (sort_key n_CreatedAt
       (filter (\<lambda>n. n_WorkflowRunID n = runID) (rows (db_nodes d) (db_node_order d))))"

definition ListWorkflowNodeRuns :: "string \<Rightarrow> NodeRun list serv" where
  "ListWorkflowNodeRuns workflowRunID =
     if_key (\<lambda>d i. db_runs d i \<noteq> None) workflowRunID [] (\<lambda>i. read_op (\<lambda>d. node_rows d i))"

definition list_runs :: "(db \<Rightarrow> string \<Rightarrow> bool) \<Rightarrow> (Run \<Rightarrow> string \<Rightarrow> bool) \<Rightarrow> string \<Rightarrow> int \<Rightarrow> int \<Rightarrow> (Run list \<times> nat) serv" where
  "list_runs present belongs owner limit offset =
     if_key present owner ([], 0) (\<lambda>i.
     bindP (read_op (\<lambda>d. length (filter (\<lambda>r. belongs r i) (rows (db_runs d) (db_run_order d))))) (\<lambda>total.
     bindP (read_op (\<lambda>d. page limit offset (sort_key (\<lambda>r. - r_CreatedAt r)
              (filter (\<lambda>r. belongs r i) (rows (db_runs d) (db_run_order d)))))) (\<lambda>list.
     retP (list, total))))"

definition ListWorkflowRunsByWorkflow :: "string \<Rightarrow> int \<Rightarrow> int \<Rightarrow> (Run list \<times> nat) serv" where
  "ListWorkflowRunsByWorkflow =
     list_runs (\<lambda>d i. db_workflows d i \<noteq> None) (\<lambda>r i. r_WorkflowID r = i)"

definition ListWorkflowRunsByIssue :: "string \<Rightarrow> int \<Rightarrow> int \<Rightarrow> (Run list \<times> nat) serv" where
  "ListWorkflowRunsByIssue = list_runs (\<lambda>d i. db_issues d i \<noteq> None) (\<lambda>r i. r_IssueID r = Some i)"

definition ListWorkflowRunsBySchedule :: "string \<Rightarrow> int \<Rightarrow> int \<Rightarrow> (Run list \<times> nat) serv" where
  "ListWorkflowRunsBySchedule = list_runs (\<lambda>d i. db_schedules d i \<noteq> None) (\<lambda>r i. r_ScheduleID r = Some i)"

definition ListPendingWorkflowReports :: "int \<Rightarrow> Run list serv" where
  "ListPendingWorkflowReports limit =
     read_op (\<lambda>d. page limit 0
       (filter (\<lambda>r. r_ReportStatus r = ReportPending \<and> r_Status r \<in> set TerminalRunStatuses)
          (rows (db_runs d) (db_run_order d))))"

definition defaultDueRunLimit :: int where "defaultDueRunLimit = 100"

definition run_due :: "time \<Rightarrow> Run \<Rightarrow> bool" where
  "run_due now r \<longleftrightarrow>
     r_Status r \<notin> set TerminalRunStatuses
     \<and> ((case r_NextReconcileAt r of None \<Rightarrow> True | Some t \<Rightarrow> t \<le> now)
        \<or> (case r_LeaseExpiresAt r of None \<Rightarrow> False | Some t \<Rightarrow> t \<le> now))"

text \<open>\<open>NULL\<close> sorts first in MySQL.\<close>

definition ListDueWorkflowRuns :: "time \<Rightarrow> int \<Rightarrow> Run list serv" where
  "ListDueWorkflowRuns now limit =
     read_op (\<lambda>d. let due = filter (run_due now) (rows (db_runs d) (db_run_order d));
                      never = filter (\<lambda>r. r_NextReconcileAt r = None) due;
                      timed = sort_key (\<lambda>r. the (r_NextReconcileAt r)) (filter (\<lambda>r. r_NextReconcileAt r \<noteq> None) due)
                  in take (nat (if limit \<le> 0 then defaultDueRunLimit else limit)) (never @ timed))"

definition getWorkflowNodeRunByOwner ::
  "(db \<Rightarrow> string \<Rightarrow> bool) \<Rightarrow> (NodeRun \<Rightarrow> string option) \<Rightarrow> string \<Rightarrow> NodeRun option serv" where
  "getWorkflowNodeRunByOwner present col publicID =
     if_key present publicID None (\<lambda>i.
       read_op (\<lambda>d. find (\<lambda>n. col n = Some i) (rows (db_nodes d) (db_node_order d))))"

definition GetWorkflowNodeRunByTaskID :: "string \<Rightarrow> NodeRun option serv" where
  "GetWorkflowNodeRunByTaskID = getWorkflowNodeRunByOwner (\<lambda>d i. db_tasks d i \<noteq> None) n_TaskID"

definition GetWorkflowNodeRunByTaskRunID :: "string \<Rightarrow> NodeRun option serv" where
  "GetWorkflowNodeRunByTaskRunID = getWorkflowNodeRunByOwner (\<lambda>d i. db_truns d i \<noteq> None) n_TaskRunID"

definition ListWorkflowRequestsByRun :: "string \<Rightarrow> Request list serv" where
  "ListWorkflowRequestsByRun workflowRunID =
     (case CanonicalPublicID workflowRunID of
        None \<Rightarrow> retP []
      | Some i \<Rightarrow> read_op (\<lambda>d. filter (\<lambda>q. rq_WorkflowRunID q = i) (rows (db_reqs d) (db_req_order d))))"

definition pending_in_space :: "db \<Rightarrow> string \<Rightarrow> Request list" where
  "pending_in_space d i =
     filter (\<lambda>q. rq_Status q = RequestStatusPending
               \<and> (case db_workflows d (rq_WorkflowID q) of None \<Rightarrow> False | Some w \<Rightarrow> wf_SpaceID w = i))
       (rows (db_reqs d) (db_req_order d))"

definition ListPendingWorkflowRequestsBySpace :: "string \<Rightarrow> int \<Rightarrow> int \<Rightarrow> (Request list \<times> nat) serv" where
  "ListPendingWorkflowRequestsBySpace spaceID limit offset =
     (case CanonicalPublicID spaceID of
        None \<Rightarrow> retP ([], 0)
      | Some i \<Rightarrow>
          bindP (read_op (\<lambda>d. length (pending_in_space d i))) (\<lambda>total.
          bindP (read_op (\<lambda>d. page limit offset (pending_in_space d i))) (\<lambda>list. retP (list, total))))"

section \<open>Workflows and revisions\<close>

definition nextRevision :: "int \<Rightarrow> int" where
  "nextRevision current = (if current < 1 then 2 else current + 1)"

text \<open>The unique index on workflow and revision makes a second append under one number fail.\<close>

definition appendWorkflowRevision :: "string \<Rightarrow> string \<Rightarrow> Workflow \<Rightarrow> time \<Rightarrow> db \<Rightarrow> err + db" where
  "appendWorkflowRevision i createdBy w now d =
     (if db_wf_revs d (i, wf_Revision w) \<noteq> None then Inl ErrDB
      else Inr (d\<lparr>db_wf_revs := (db_wf_revs d)((i, wf_Revision w) \<mapsto>
             \<lparr>rv_WorkflowID = i, rv_Revision = wf_Revision w, rv_Name = wf_Name w, rv_Description = wf_Description w,
              rv_Definition = wf_Definition w, rv_Status = wf_Status w, rv_CreatedBy = createdBy, rv_CreatedAt = now\<rparr>)\<rparr>))"

definition createWorkflowTx ::
  "string \<Rightarrow> string \<Rightarrow> string \<Rightarrow> string \<Rightarrow> string \<Rightarrow> time \<Rightarrow> (nat \<Rightarrow> nat option) \<Rightarrow> db \<Rightarrow> err + Workflow \<times> db" where
  "createWorkflowTx spaceID createdBy name description definition now rnd d =
     bindE (lookupKey (\<lambda>i. i \<in> db_spaces d) spaceID) (\<lambda>space.
     bindE (lookupKey (\<lambda>i. i \<in> db_users d) createdBy) (\<lambda>creator.
     bindE (createWithPublicID (\<lambda>i. db_workflows d i \<noteq> None) rnd 0) (\<lambda>(i, _).
       let w = \<lparr>wf_ID = i, wf_SpaceID = space, wf_Name = name, wf_Description = description, wf_Definition = definition,
                wf_Status = StatusDraft, wf_Revision = 1, wf_CreatedBy = creator, wf_CreatedAt = now, wf_UpdatedAt = now\<rparr>
       in bindE (appendWorkflowRevision i creator w now
                   (d\<lparr>db_workflows := (db_workflows d)(i \<mapsto> w), db_wf_order := db_wf_order d @ [i]\<rparr>)) (\<lambda>d'.
          Inr (w\<lparr>wf_SpaceID := spaceID, wf_CreatedBy := createdBy\<rparr>, d')))))"

definition CreateWorkflow :: "string \<Rightarrow> string \<Rightarrow> string \<Rightarrow> string \<Rightarrow> string \<Rightarrow> Workflow serv" where
  "CreateWorkflow spaceID createdBy name description definition =
     db_op (\<lambda>now rnd. commit (createWorkflowTx spaceID createdBy name description definition now rnd))"

definition applyUpdate :: "UpdateInput \<Rightarrow> Workflow \<Rightarrow> Workflow" where
  "applyUpdate ui w =
     w\<lparr>wf_Name := set_if (ui_Name ui) (wf_Name w), wf_Description := set_if (ui_Description ui) (wf_Description w),
       wf_Definition := set_if (ui_Definition ui) (wf_Definition w), wf_Status := set_if (ui_Status ui) (wf_Status w)\<rparr>"

definition updateWorkflowTx :: "string \<Rightarrow> UpdateInput \<Rightarrow> Workflow \<Rightarrow> time \<Rightarrow> db \<Rightarrow> err + bool \<times> db" where
  "updateWorkflowTx workflowID ui updated now d =
     bindE (lookupKey (\<lambda>i. db_workflows d i \<noteq> None) workflowID) (\<lambda>i.
     case db_workflows d i of
       None \<Rightarrow> Inr (False, d)
     | Some row \<Rightarrow>
         if wf_Revision row \<noteq> ui_ExpectedRevision ui then Inr (False, d)
         else
           let row' = row\<lparr>wf_Name := wf_Name updated, wf_Description := wf_Description updated,
                          wf_Definition := wf_Definition updated, wf_Status := wf_Status updated,
                          wf_Revision := wf_Revision updated, wf_UpdatedAt := wf_UpdatedAt updated\<rparr>
           in bindE (lookupKey (\<lambda>u. u \<in> db_users d) (ui_UpdatedBy ui)) (\<lambda>by_user.
              bindE (appendWorkflowRevision i by_user updated now (d\<lparr>db_workflows := (db_workflows d)(i \<mapsto> row')\<rparr>)) (\<lambda>d'.
              Inr (True, d'))))"

definition UpdateWorkflow :: "string \<Rightarrow> string \<Rightarrow> UpdateInput \<Rightarrow> Workflow option serv" where
  "UpdateWorkflow workflowID spaceID ui =
     bindP (GetWorkflow workflowID) (\<lambda>found.
     case found of
       None \<Rightarrow> retP None
     | Some w \<Rightarrow>
         if wf_SpaceID w \<noteq> spaceID then retP None
         else let updated = applyUpdate ui w
              in if wf_Name updated = wf_Name w \<and> wf_Description updated = wf_Description w
                    \<and> wf_Definition updated = wf_Definition w \<and> wf_Status updated = wf_Status w
                 then retP (Some w)
                 else
                   bindP now_op (\<lambda>t.
                   let next = updated\<lparr>wf_Revision := nextRevision (ui_ExpectedRevision ui), wf_UpdatedAt := t\<rparr>
                   in bindP (db_op (\<lambda>now rnd. commit (updateWorkflowTx workflowID ui next now))) (\<lambda>applied.
                      if \<not> applied then throwP ErrRevisionConflict else GetWorkflow workflowID)))"

section \<open>Runs\<close>

definition updateRunWhere :: "string \<Rightarrow> (Run \<Rightarrow> bool) \<Rightarrow> (Run \<Rightarrow> Run) \<Rightarrow> db \<Rightarrow> bool \<times> db" where
  "updateRunWhere i P f d =
     (case db_runs d i of
        None \<Rightarrow> (False, d)
      | Some r \<Rightarrow> if P r then (f r \<noteq> r, d\<lparr>db_runs := (db_runs d)(i \<mapsto> f r)\<rparr>) else (False, d))"

definition updateRun_op :: "string \<Rightarrow> (Run \<Rightarrow> bool) \<Rightarrow> (Run \<Rightarrow> Run) \<Rightarrow> bool serv" where
  "updateRun_op workflowRunID P f =
     (case CanonicalPublicID workflowRunID of
        None \<Rightarrow> retP False
      | Some i \<Rightarrow> db_op (\<lambda>now rnd d. let (b, d') = updateRunWhere i P f d in (Inr b, d')))"

definition updateNodeWhere :: "string \<Rightarrow> (NodeRun \<Rightarrow> bool) \<Rightarrow> (NodeRun \<Rightarrow> NodeRun) \<Rightarrow> db \<Rightarrow> bool \<times> db" where
  "updateNodeWhere i P f d =
     (case db_nodes d i of
        None \<Rightarrow> (False, d)
      | Some n \<Rightarrow> if P n then (f n \<noteq> n, d\<lparr>db_nodes := (db_nodes d)(i \<mapsto> f n)\<rparr>) else (False, d))"

text \<open>The row a create inserts, and the value it returns: the caller's own handles instead of the
  resolved ones.\<close>

definition newWorkflowRun ::
  "CreateWorkflowRunInput \<Rightarrow> string \<Rightarrow> string \<Rightarrow> string \<Rightarrow> string option \<Rightarrow> string option \<Rightarrow> string option \<Rightarrow>
   string \<times> string \<Rightarrow> time \<Rightarrow> Run" where
  "newWorkflowRun cw i flow creator issue schedule conv who now =
     \<lparr>r_ID = i, r_WorkflowID = flow, r_WorkflowRevision = cw_WorkflowRevision cw, r_IssueID = issue,
      r_ScheduleID = schedule, r_ConversationID = conv, r_RequestedBy = snd who, r_AssistantID = fst who,
      r_AssistantRevision = (if cw_AssistantID cw = [] then 0 else cw_AssistantRevision cw),
      r_ReportStatus = cw_ReportStatus cw, r_Input = cw_Input cw, r_Status = cw_Status cw,
      r_CreatedBy = creator, r_Result = None, r_CreatedAt = now, r_StartedAt = cw_StartedAt cw,
      r_EndedAt = None, r_ErrorMessage = None, r_FailureClass = [], r_DeadlineAt = cw_DeadlineAt cw,
      r_ReconcileOwner = None, r_LeaseExpiresAt = None, r_NextReconcileAt = None\<rparr>"

definition createdRun :: "CreateWorkflowRunInput \<Rightarrow> Run \<Rightarrow> Run" where
  "createdRun cw row =
     row\<lparr>r_WorkflowID := cw_WorkflowID cw, r_IssueID := cw_IssueID cw, r_ScheduleID := cw_ScheduleID cw,
         r_ConversationID := cw_ConversationID cw, r_RequestedBy := cw_RequestedBy cw,
         r_AssistantID := cw_AssistantID cw, r_AssistantRevision := cw_AssistantRevision cw,
         r_CreatedBy := cw_CreatedBy cw\<rparr>"

definition createWorkflowRunTx ::
  "CreateWorkflowRunInput \<Rightarrow> time \<Rightarrow> (nat \<Rightarrow> nat option) \<Rightarrow> db \<Rightarrow> err + Run \<times> db" where
  "createWorkflowRunTx cw now rnd d =
     bindE (lookupKey (\<lambda>i. db_workflows d i \<noteq> None) (cw_WorkflowID cw)) (\<lambda>flow.
     bindE (lookupKey (\<lambda>i. i \<in> db_users d) (cw_CreatedBy cw)) (\<lambda>creator.
     bindE (optionalKey (\<lambda>i. db_issues d i \<noteq> None) (cw_IssueID cw)) (\<lambda>issue.
     bindE (optionalKey (\<lambda>i. db_schedules d i \<noteq> None) (cw_ScheduleID cw)) (\<lambda>schedule.
     bindE (optionalKey (\<lambda>i. db_conversations d i \<noteq> None) (cw_ConversationID cw)) (\<lambda>conv.
     bindE (resolveAssistant d (cw_AssistantID cw) (cw_RequestedBy cw)) (\<lambda>who.
     bindE (createWithPublicID (\<lambda>i. db_runs d i \<noteq> None) rnd 0) (\<lambda>(i, _).
       let row = newWorkflowRun cw i flow creator issue schedule conv who now
       in Inr (createdRun cw row, d\<lparr>db_runs := (db_runs d)(i \<mapsto> row), db_run_order := db_run_order d @ [i]\<rparr>))))))))"

definition CreateWorkflowRun :: "CreateWorkflowRunInput \<Rightarrow> Run serv" where
  "CreateWorkflowRun cw = db_op (\<lambda>now rnd. commit (createWorkflowRunTx cw now rnd))"

definition SettleWorkflowReport :: "string \<Rightarrow> ReportStatus \<Rightarrow> ReportStatus \<Rightarrow> bool serv" where
  "SettleWorkflowReport workflowRunID from_status to_status =
     updateRun_op workflowRunID (\<lambda>r. r_ReportStatus r = from_status) (\<lambda>r. r\<lparr>r_ReportStatus := to_status\<rparr>)"

definition newNodeRun :: "string \<Rightarrow> CreateNodeRunInput \<Rightarrow> string \<Rightarrow> string option \<Rightarrow> time \<Rightarrow> NodeRun" where
  "newNodeRun runID cn i agent now =
     \<lparr>n_ID = i, n_WorkflowRunID = runID, n_NodeID = cn_NodeID cn, n_NodeIndex = cn_NodeIndex cn,
      n_NodeType = cn_NodeType cn, n_Needs = cn_Needs cn, n_IssueAccess = cn_IssueAccess cn, n_TargetAgentID = agent,
      n_AgentName = cn_AgentName cn, n_AgentDescription = cn_AgentDescription cn,
      n_AgentInstructions = cn_AgentInstructions cn, n_AgentRevision = cn_AgentRevision cn, n_Prompt = cn_Prompt cn,
      n_Bindings = cn_Bindings cn, n_OutputSchema = cn_OutputSchema cn, n_MaxAttempts = max (cn_MaxAttempts cn) 1,
      n_TimeoutSeconds = cn_TimeoutSeconds cn, n_Attempt = 0, n_DeadlineAt = None, n_NextAttemptAt = None,
      n_Status = cn_Status cn, n_TaskID = None, n_TaskRunID = None, n_ResolvedInput = None, n_Output = None,
      n_Structured = None, n_ErrorMessage = None, n_CreatedAt = now, n_StartedAt = None, n_EndedAt = None\<rparr>"

fun insertNodeRuns ::
  "string \<Rightarrow> time \<Rightarrow> (nat \<Rightarrow> nat option) \<Rightarrow> nat \<Rightarrow> CreateNodeRunInput list \<Rightarrow> db \<Rightarrow> err + NodeRun list \<times> db" where
  "insertNodeRuns runID now rnd k [] d = Inr ([], d)"
| "insertNodeRuns runID now rnd k (cn # cns) d =
     bindE (optionalKey (\<lambda>i. db_agents d i \<noteq> None) (cn_TargetAgentID cn)) (\<lambda>agent.
     bindE (createWithPublicID (\<lambda>i. db_nodes d i \<noteq> None) rnd k) (\<lambda>(i, k').
       let n = newNodeRun runID cn i agent now
       in bindE (insertNodeRuns runID now rnd k' cns
                   (d\<lparr>db_nodes := (db_nodes d)(i \<mapsto> n), db_node_order := db_node_order d @ [i]\<rparr>)) (\<lambda>(ns, d').
          Inr (n # ns, d'))))"

definition CreateWorkflowNodeRuns :: "string \<Rightarrow> CreateNodeRunInput list \<Rightarrow> NodeRun list serv" where
  "CreateWorkflowNodeRuns workflowRunID steps =
     (if steps = [] then retP []
      else bindP now_op (\<lambda>created.
           bindP (lookupKey_op (\<lambda>d i. db_runs d i \<noteq> None) workflowRunID) (\<lambda>runID.
           db_op (\<lambda>now rnd. commit (insertNodeRuns runID created rnd 0 steps)))))"

section \<open>Transitions\<close>

text \<open>A terminal status clears the reconciliation lease and schedule.\<close>

definition runStatusUpdates ::
  "RunStatus \<Rightarrow> time option \<Rightarrow> time option \<Rightarrow> string option \<Rightarrow> string option \<Rightarrow> Run \<Rightarrow> Run" where
  "runStatusUpdates status startedAt endedAt errorMessage res r =
     (let r1 = r\<lparr>r_Status := status, r_StartedAt := set_opt startedAt (r_StartedAt r),
                 r_EndedAt := set_opt endedAt (r_EndedAt r), r_ErrorMessage := set_opt errorMessage (r_ErrorMessage r),
                 r_Result := set_opt res (r_Result r)\<rparr>
      in if RunStatusTerminal status
         then r1\<lparr>r_ReconcileOwner := None, r_LeaseExpiresAt := None, r_NextReconcileAt := None\<rparr> else r1)"

definition stopRunUpdates :: "RunStatus \<Rightarrow> string option \<Rightarrow> string \<Rightarrow> Run \<Rightarrow> Run" where
  "stopRunUpdates status errorMessage class r =
     (let r1 = runStatusUpdates status None None errorMessage None r
      in if status = RunStatusFailing then r1\<lparr>r_FailureClass := NormalizeFailureClass class\<rparr> else r1)"

text \<open>\<open>""\<close> clears a handle; another value must name a row.\<close>

definition resolveHandle :: "(string \<Rightarrow> bool) \<Rightarrow> string option \<Rightarrow> err + string option" where
  "resolveHandle present v =
     (case v of
        None \<Rightarrow> Inr None
      | Some p \<Rightarrow> if p = '''' then Inr (Some '''') else bindE (lookupKey present p) (\<lambda>k. Inr (Some k)))"

definition stepTransitionUpdates :: "db \<Rightarrow> TransitionNodeRunInput \<Rightarrow> err + (NodeRun \<Rightarrow> NodeRun)" where
  "stepTransitionUpdates d tn =
     bindE (resolveHandle (\<lambda>i. db_tasks d i \<noteq> None) (tn_TaskID tn)) (\<lambda>task.
     bindE (resolveHandle (\<lambda>i. db_truns d i \<noteq> None) (tn_TaskRunID tn)) (\<lambda>run.
     Inr (\<lambda>n. n\<lparr>n_Status := tn_NewStatus tn, n_TaskID := set_clear task (n_TaskID n),
               n_TaskRunID := set_clear run (n_TaskRunID n),
               n_ResolvedInput := set_clear (tn_ResolvedInput tn) (n_ResolvedInput n),
               n_Output := set_clear (tn_Output tn) (n_Output n),
               n_Structured := set_clear (tn_Structured tn) (n_Structured n),
               n_ErrorMessage := set_clear (tn_ErrorMessage tn) (n_ErrorMessage n),
               n_StartedAt := set_opt (tn_StartedAt tn) (n_StartedAt n),
               n_EndedAt := set_opt (tn_EndedAt tn) (n_EndedAt n),
               n_Attempt := set_if (tn_Attempt tn) (n_Attempt n),
               n_DeadlineAt := set_opt (tn_DeadlineAt tn)
                 (if tn_ExpectedStatus tn = NodeRunStatusRunning then None else n_DeadlineAt n),
               n_NextAttemptAt := set_opt (tn_NextAttemptAt tn)
                 (if tn_ExpectedStatus tn = NodeRunStatusRetryWait then None else n_NextAttemptAt n)\<rparr>)))"

definition transitionUpdates :: "TransitionRunInput \<Rightarrow> Run \<Rightarrow> Run" where
  "transitionUpdates ti r =
     (let r1 = runStatusUpdates (ti_NewStatus ti) (ti_StartedAt ti) (ti_EndedAt ti) (ti_ErrorMessage ti) (ti_Result ti) r
      in if ti_NewStatus ti = RunStatusFailed \<and> ti_ExpectedStatus ti \<noteq> RunStatusFailing
         then r1\<lparr>r_FailureClass := FailureUnclassified\<rparr> else r1)"

definition transitionWorkflowRunTx :: "string \<Rightarrow> TransitionRunInput \<Rightarrow> db \<Rightarrow> err + bool \<times> db" where
  "transitionWorkflowRunTx i ti d =
     (let (changed, d1) = updateRunWhere i (\<lambda>r. r_Status r = ti_ExpectedStatus ti) (transitionUpdates ti) d
      in if \<not> changed then Inr (False, d1)
         else Inr (True,
                if ti_NewStatus ti = RunStatusSucceeded \<or> ti_NewStatus ti = RunStatusFailed
                then foldScheduleOutcome (Option.bind (db_runs d1 i) r_ScheduleID) (ti_NewStatus ti = RunStatusFailed) d1
                else d1))"

definition TransitionWorkflowRun :: "TransitionRunInput \<Rightarrow> bool serv" where
  "TransitionWorkflowRun ti =
     (if \<not> ValidRunStatusTransition (ti_ExpectedStatus ti) (ti_NewStatus ti) then throwP ErrInvalidWorkflowRunTransition
      else case CanonicalPublicID (ti_WorkflowRunID ti) of
             None \<Rightarrow> retP False
           | Some i \<Rightarrow> db_op (\<lambda>now rnd. commit (transitionWorkflowRunTx i ti)))"

definition transitionNodeRunTx :: "string \<Rightarrow> TransitionNodeRunInput \<Rightarrow> db \<Rightarrow> err + bool \<times> db" where
  "transitionNodeRunTx i tn d =
     bindE (stepTransitionUpdates d tn) (\<lambda>f.
     Inr (updateNodeWhere i (\<lambda>n. n_Status n = tn_ExpectedStatus tn) f d))"

definition TransitionWorkflowNodeRun :: "TransitionNodeRunInput \<Rightarrow> bool serv" where
  "TransitionWorkflowNodeRun tn =
     (if \<not> ValidNodeRunTransition (tn_ExpectedStatus tn) (tn_NewStatus tn) then throwP ErrInvalidNodeRunTransition
      else case CanonicalPublicID (tn_NodeRunID tn) of
             None \<Rightarrow> retP False
           | Some i \<Rightarrow> db_op (\<lambda>now rnd. commit (transitionNodeRunTx i tn)))"

section \<open>Stop intent\<close>

definition stop_node :: "string \<Rightarrow> time \<Rightarrow> NodeRun \<Rightarrow> NodeRun" where
  "stop_node runID now n =
     (if n_WorkflowRunID n \<noteq> runID then n
      else if n_Status n = NodeRunStatusPending then n\<lparr>n_Status := NodeRunStatusBlocked\<rparr>
      else if n_Status n = NodeRunStatusRetryWait \<or> n_Status n = NodeRunStatusWaiting
      then n\<lparr>n_Status := NodeRunStatusCanceled, n_NextAttemptAt := None, n_EndedAt := Some now\<rparr>
      else n)"

definition stop_request :: "string \<Rightarrow> Request \<Rightarrow> Request" where
  "stop_request runID q =
     (if rq_WorkflowRunID q = runID \<and> rq_Status q = RequestStatusPending
      then q\<lparr>rq_Status := RequestStatusCanceled\<rparr> else q)"

definition stopPendingNodesTx :: "string \<Rightarrow> time \<Rightarrow> db \<Rightarrow> db" where
  "stopPendingNodesTx runID now d =
     d\<lparr>db_nodes := (\<lambda>i. map_option (stop_node runID now) (db_nodes d i)),
       db_reqs := (\<lambda>i. map_option (stop_request runID) (db_reqs d i))\<rparr>"

definition drainNodeUpdates :: "BeginRunDrainInput \<Rightarrow> string option \<Rightarrow> NodeRun \<Rightarrow> NodeRun" where
  "drainNodeUpdates bd taskRun n =
     n\<lparr>n_Status := bd_NodeStatus bd, n_DeadlineAt := None, n_NextAttemptAt := None,
       n_Output := set_opt (bd_Output bd) (n_Output n), n_Structured := set_opt (bd_Structured bd) (n_Structured n),
       n_TaskRunID := set_opt taskRun (n_TaskRunID n),
       n_ErrorMessage := set_opt (bd_ErrorMessage bd) (n_ErrorMessage n),
       n_StartedAt := set_opt (bd_StartedAt bd) (n_StartedAt n), n_EndedAt := set_opt (bd_EndedAt bd) (n_EndedAt n)\<rparr>"

definition beginDrainTx :: "string \<Rightarrow> string \<Rightarrow> BeginRunDrainInput \<Rightarrow> time \<Rightarrow> db \<Rightarrow> err + bool \<times> db" where
  "beginDrainTx runID stepID bd now d =
     bindE (ofOption ErrRecordNotFound (db_runs d runID)) (\<lambda>run.
     if r_Status run \<noteq> bd_RunExpected bd then Inr (False, d)
     else
       bindE (optionalKey (\<lambda>i. db_truns d i \<noteq> None) (bd_TaskRunID bd)) (\<lambda>taskRun.
       let (changed, d1) = updateNodeWhere stepID
             (\<lambda>n. n_WorkflowRunID n = runID \<and> n_Status n = bd_NodeExpected bd) (drainNodeUpdates bd taskRun) d
       in if \<not> changed then Inr (False, d1)
          else let d2 = stopPendingNodesTx runID now d1
               in Inr (True, snd (updateRunWhere runID (\<lambda>r. r_Status r = bd_RunExpected bd)
                               (stopRunUpdates (bd_RunStatus bd) (bd_ErrorMessage bd) (bd_FailureClass bd)) d2))))"

definition BeginWorkflowRunDrain :: "BeginRunDrainInput \<Rightarrow> bool serv" where
  "BeginWorkflowRunDrain bd =
     (if bd_RunStatus bd \<noteq> RunStatusFailing \<and> bd_RunStatus bd \<noteq> RunStatusCanceling
      then throwP ErrInvalidWorkflowRunTransition
      else if \<not> ValidNodeRunTransition (bd_NodeExpected bd) (bd_NodeStatus bd) then throwP ErrInvalidNodeRunTransition
      else if \<not> ValidRunStatusTransition (bd_RunExpected bd) (bd_RunStatus bd) then throwP ErrInvalidWorkflowRunTransition
      else case CanonicalPublicID (bd_NodeRunID bd) of
             None \<Rightarrow> retP False
           | Some stepID \<Rightarrow>
               (case CanonicalPublicID (bd_WorkflowRunID bd) of
                  None \<Rightarrow> retP False
                | Some runID \<Rightarrow> db_op (\<lambda>now rnd. commit (beginDrainTx runID stepID bd now))))"

definition stopRunTx :: "string \<Rightarrow> StopRunInput \<Rightarrow> time \<Rightarrow> db \<Rightarrow> err + bool \<times> db" where
  "stopRunTx runID sr now d =
     (case db_runs d runID of
        None \<Rightarrow> Inr (False, d)
      | Some run \<Rightarrow>
          if r_Status run \<noteq> sr_RunExpected sr then Inr (False, d)
          else Inr (True, snd (updateRunWhere runID (\<lambda>r. True)
                 (stopRunUpdates (sr_RunStatus sr) (sr_ErrorMessage sr) (sr_FailureClass sr))
                 (stopPendingNodesTx runID now d))))"

definition StopWorkflowRun :: "StopRunInput \<Rightarrow> bool serv" where
  "StopWorkflowRun sr =
     (if sr_RunStatus sr \<noteq> RunStatusFailing \<and> sr_RunStatus sr \<noteq> RunStatusCanceling
      then throwP ErrInvalidWorkflowRunTransition
      else if \<not> ValidRunStatusTransition (sr_RunExpected sr) (sr_RunStatus sr) then throwP ErrInvalidWorkflowRunTransition
      else case CanonicalPublicID (sr_WorkflowRunID sr) of
             None \<Rightarrow> retP False
           | Some runID \<Rightarrow> db_op (\<lambda>now rnd. commit (stopRunTx runID sr now)))"

section \<open>Reconciliation leases\<close>

text \<open>A \<open>NULL\<close> expiry compares as unknown, so an owned run without one is not claimable.\<close>

definition ClaimWorkflowRunLease :: "string \<Rightarrow> string \<Rightarrow> time \<Rightarrow> time \<Rightarrow> bool serv" where
  "ClaimWorkflowRunLease workflowRunID owner now leaseExpiresAt =
     updateRun_op workflowRunID
       (\<lambda>r. r_Status r \<notin> set TerminalRunStatuses
            \<and> (r_ReconcileOwner r = None \<or> (case r_LeaseExpiresAt r of None \<Rightarrow> False | Some t \<Rightarrow> t \<le> now)))
       (\<lambda>r. r\<lparr>r_ReconcileOwner := Some owner, r_LeaseExpiresAt := Some leaseExpiresAt\<rparr>)"

definition RenewWorkflowRunLease :: "string \<Rightarrow> string \<Rightarrow> time \<Rightarrow> bool serv" where
  "RenewWorkflowRunLease workflowRunID owner leaseExpiresAt =
     updateRun_op workflowRunID (\<lambda>r. r_ReconcileOwner r = Some owner) (\<lambda>r. r\<lparr>r_LeaseExpiresAt := Some leaseExpiresAt\<rparr>)"

definition ReleaseWorkflowRunLease :: "string \<Rightarrow> string \<Rightarrow> time option \<Rightarrow> bool serv" where
  "ReleaseWorkflowRunLease workflowRunID owner nextReconcileAt =
     updateRun_op workflowRunID (\<lambda>r. r_ReconcileOwner r = Some owner)
       (\<lambda>r. r\<lparr>r_ReconcileOwner := None, r_LeaseExpiresAt := None, r_NextReconcileAt := nextReconcileAt\<rparr>)"

section \<open>Requests\<close>

definition updateReqWhere :: "string \<Rightarrow> (Request \<Rightarrow> bool) \<Rightarrow> (Request \<Rightarrow> Request) \<Rightarrow> db \<Rightarrow> bool \<times> db" where
  "updateReqWhere i P f d =
     (case db_reqs d i of
        None \<Rightarrow> (False, d)
      | Some q \<Rightarrow> if P q then (f q \<noteq> q, d\<lparr>db_reqs := (db_reqs d)(i \<mapsto> f q)\<rparr>) else (False, d))"

definition request_by_key :: "db \<Rightarrow> string \<Rightarrow> string \<Rightarrow> Request option" where
  "request_by_key d runID key =
     find (\<lambda>q. rq_WorkflowRunID q = runID \<and> rq_Key q = key) (rows (db_reqs d) (db_req_order d))"

definition newRequest :: "Run \<Rightarrow> NodeRun \<Rightarrow> OpenRequestInput \<Rightarrow> string \<Rightarrow> string option \<Rightarrow> Request" where
  "newRequest run node oi i taskRun =
     \<lparr>rq_ID = i, rq_WorkflowRunID = r_ID run, rq_Key = oi_Key oi, rq_WorkflowID = r_WorkflowID run,
      rq_NodeRunID = n_ID node, rq_NodeID = n_NodeID node, rq_Kind = oi_Kind oi, rq_Prompt = oi_Prompt oi,
      rq_Questions = oi_Questions oi, rq_ResponseSchema = oi_ResponseSchema oi, rq_TaskRunID = taskRun,
      rq_Status = RequestStatusPending, rq_ExpiresAt = oi_ExpiresAt oi, rq_Response = None, rq_RespondedBy = None,
      rq_RespondedAt = None, rq_CreatedAt = oi_Now oi\<rparr>"

definition waitNode :: "OpenRequestInput \<Rightarrow> NodeRun \<Rightarrow> NodeRun" where
  "waitNode oi n =
     n\<lparr>n_Status := NodeRunStatusWaiting, n_DeadlineAt := None,
       n_ResolvedInput := set_opt (oi_ResolvedInput oi) (n_ResolvedInput n),
       n_StartedAt := (case n_StartedAt n of None \<Rightarrow> Some (oi_Now oi) | Some t \<Rightarrow> Some t)\<rparr>"

text \<open>The result is the id of the open request, \<open>None\<close> when nothing was opened.\<close>

definition openRequestTx ::
  "string \<Rightarrow> string \<Rightarrow> OpenRequestInput \<Rightarrow> (nat \<Rightarrow> nat option) \<Rightarrow> db \<Rightarrow> err + string option \<times> db" where
  "openRequestTx runID nodeID oi rnd d =
     bindE (ofOption ErrRecordNotFound (db_runs d runID)) (\<lambda>run.
     case request_by_key d runID (oi_Key oi) of
       Some q \<Rightarrow> Inr (Some (rq_ID q), d)
     | None \<Rightarrow>
         if r_Status run \<noteq> RunStatusRunning then Inr (None, d)
         else
           bindE (ofOption ErrRecordNotFound (db_nodes d nodeID)) (\<lambda>node.
           bindE (guardE (n_WorkflowRunID node = runID) ErrRecordNotFound) (\<lambda>_.
           if n_Status node \<noteq> oi_NodeExpected oi then Inr (None, d)
           else
             bindE (optionalKey (\<lambda>i. db_truns d i \<noteq> None) (oi_TaskRunID oi)) (\<lambda>taskRun.
             bindE (createWithPublicID (\<lambda>i. db_reqs d i \<noteq> None) rnd 0) (\<lambda>(i, _).
             Inr (Some i, d\<lparr>db_reqs := (db_reqs d)(i \<mapsto> newRequest run node oi i taskRun),
                           db_req_order := db_req_order d @ [i],
                           db_nodes := (db_nodes d)(nodeID \<mapsto> waitNode oi node)\<rparr>))))))"

definition notFound :: "err \<Rightarrow> err" where
  "notFound e = (if e = ErrRecordNotFound then ErrNotFound else e)"

definition OpenWorkflowRequest :: "OpenRequestInput \<Rightarrow> (Request option \<times> bool) serv" where
  "OpenWorkflowRequest oi =
     (if \<not> ValidNodeRunTransition (oi_NodeExpected oi) NodeRunStatusWaiting then throwP ErrInvalidNodeRunTransition
      else case CanonicalPublicID (oi_WorkflowRunID oi) of
             None \<Rightarrow> retP (None, False)
           | Some runID \<Rightarrow>
               (case CanonicalPublicID (oi_NodeRunID oi) of
                  None \<Rightarrow> retP (None, False)
                | Some nodeID \<Rightarrow>
                    bindP (tryP (db_op (\<lambda>now rnd. commit (openRequestTx runID nodeID oi rnd)))) (\<lambda>res.
                    case res of
                      Inl e \<Rightarrow> throwP (notFound e)
                    | Inr None \<Rightarrow> retP (None, False)
                    | Inr (Some i) \<Rightarrow> bindP (GetWorkflowRequest i) (\<lambda>q. retP (q, q \<noteq> None)))))"

definition resolveUpdates :: "ResolveRequestInput \<Rightarrow> string option \<Rightarrow> Request \<Rightarrow> Request" where
  "resolveUpdates ri responder q =
     (if ri_Status ri = RequestStatusExpired then q\<lparr>rq_Status := RequestStatusExpired\<rparr>
      else q\<lparr>rq_Status := ri_Status ri, rq_RespondedAt := Some (ri_Now ri),
             rq_Response := set_opt (ri_Response ri) (rq_Response q), rq_RespondedBy := responder\<rparr>)"

definition resolvable :: "ResolveRequestInput \<Rightarrow> Request \<Rightarrow> bool" where
  "resolvable ri q \<longleftrightarrow>
     rq_Status q = RequestStatusPending
     \<and> (if ri_Status ri = RequestStatusExpired
        then (case rq_ExpiresAt q of None \<Rightarrow> False | Some t \<Rightarrow> t \<le> ri_Now ri)
        else (case rq_ExpiresAt q of None \<Rightarrow> True | Some t \<Rightarrow> ri_Now ri < t))"

definition responder_key :: "ResolveRequestInput \<Rightarrow> string option serv" where
  "responder_key ri =
     (if ri_Status ri = RequestStatusExpired then retP None
      else case ri_RespondedBy ri of
             None \<Rightarrow> retP None
           | Some u \<Rightarrow> if u = '''' then retP None
                        else bindP (lookupKey_op (\<lambda>d i. i \<in> db_users d) u) (\<lambda>k. retP (Some k)))"

definition ResolveWorkflowRequest :: "ResolveRequestInput \<Rightarrow> bool serv" where
  "ResolveWorkflowRequest ri =
     (if ri_Status ri \<noteq> RequestStatusAnswered \<and> ri_Status ri \<noteq> RequestStatusDeclined \<and> ri_Status ri \<noteq> RequestStatusExpired
      then throwP (ErrText ''a request resolves only to answered, declined, or expired'')
      else case CanonicalPublicID (ri_RequestID ri) of
             None \<Rightarrow> retP False
           | Some i \<Rightarrow>
               bindP (responder_key ri) (\<lambda>responder.
               db_op (\<lambda>now rnd d.
                 let (b, d') = updateReqWhere i (resolvable ri) (resolveUpdates ri responder) d in (Inr b, d'))))"

section \<open>Admission of a node's work\<close>

definition admitNode :: "string \<Rightarrow> TaskRun \<Rightarrow> string \<Rightarrow> time \<Rightarrow> NodeRun \<Rightarrow> NodeRun" where
  "admitNode taskID run input now n =
     n\<lparr>n_Status := NodeRunStatusRunning, n_TaskID := Some taskID, n_TaskRunID := Some (tr_ID run),
       n_ResolvedInput := Some input, n_StartedAt := Some now, n_Attempt := 1,
       n_DeadlineAt := Deadline now (n_TimeoutSeconds n)\<rparr>"

definition admitWorkflowNodeTaskTx ::
  "store_params \<Rightarrow> CreateInput \<Rightarrow> time \<Rightarrow> (nat \<Rightarrow> nat option) \<Rightarrow> db \<Rightarrow> err + Task option \<times> db" where
  "admitWorkflowNodeTaskTx sp ci now rnd d =
     bindE (ofOption ErrRecordNotFound (db_nodes d (ci_WorkflowNodeRunID ci))) (\<lambda>node.
     bindE (ofOption ErrRecordNotFound (db_runs d (n_WorkflowRunID node))) (\<lambda>run.
     bindE (ofOption ErrRecordNotFound (db_workflows d (r_WorkflowID run))) (\<lambda>wf.
     bindE (guardE (ci_SpaceID ci = wf_SpaceID wf
                    \<and> ci_AdmissionKey ci = TaskAdmissionKey (r_ID run) (n_NodeID node)) ErrNotFound) (\<lambda>_.
     case n_TaskID node of
       Some taskID \<Rightarrow>
         bindE (ofOption ErrRecordNotFound (db_tasks d taskID)) (\<lambda>existing.
         bindE (guardE (tk_AdmissionFingerprint existing = Some (AdmissionFingerprint (sp_digest sp) ci))
                  ErrTaskAdmissionConflict) (\<lambda>_.
         Inr (Some existing, d)))
     | None \<Rightarrow>
         bindE (guardE (r_Status run = RunStatusRunning \<and> n_Status node = NodeRunStatusPending)
                  (ErrConflict ''workflow is stopping or node is no longer pending'')) (\<lambda>_.
         bindE (createTaskAndRunTx sp ci now rnd d) (\<lambda>((t, r), d').
         Inr (Some t, d'\<lparr>db_nodes := (db_nodes d')(ci_WorkflowNodeRunID ci \<mapsto>
                                      admitNode (tk_ID t) r (ci_Input ci) now node)\<rparr>)))))))"

definition mapErr :: "(err \<Rightarrow> err) \<Rightarrow> 'a serv \<Rightarrow> 'a serv" where
  "mapErr f m = bindP (tryP m) (\<lambda>r. case r of Inl e \<Rightarrow> throwP (f e) | Inr x \<Rightarrow> retP x)"

definition admitWorkflowNodeTask :: "store_params \<Rightarrow> CreateInput \<Rightarrow> Task option serv" where
  "admitWorkflowNodeTask sp ci =
     mapErr notFound (db_op (\<lambda>now rnd. commit (admitWorkflowNodeTaskTx sp ci now rnd)))"

definition AdmitTask :: "store_params \<Rightarrow> CreateInput \<Rightarrow> Task option serv" where
  "AdmitTask sp ci =
     (if ci_AdmissionKey ci = '''' then throwP (ErrText ''AdmitTask requires an admission key'')
      else if ci_WorkflowNodeRunID ci \<noteq> '''' then admitWorkflowNodeTask sp ci
      else admitPlainTask sp ci)"

definition retryNode :: "TaskRun \<Rightarrow> int \<Rightarrow> time \<Rightarrow> NodeRun \<Rightarrow> NodeRun" where
  "retryNode run attempt now n =
     n\<lparr>n_Status := NodeRunStatusRunning, n_TaskRunID := Some (tr_ID run), n_Attempt := attempt,
       n_DeadlineAt := Deadline now (n_TimeoutSeconds n), n_NextAttemptAt := None, n_ErrorMessage := None\<rparr>"

definition linked_run :: "db \<Rightarrow> NodeRun \<Rightarrow> string option \<Rightarrow> err + TaskRun option" where
  "linked_run d node key =
     (case n_TaskRunID node of
        None \<Rightarrow> Inr None
      | Some i \<Rightarrow>
          bindE (ofOption ErrRecordNotFound (db_truns d i)) (\<lambda>r.
          Inr (if tr_IdempotencyKey r = key then Some r else None)))"

definition admitWorkflowNodeRetryRunTx ::
  "string \<Rightarrow> CreateRunInput \<Rightarrow> time \<Rightarrow> (nat \<Rightarrow> nat option) \<Rightarrow> db \<Rightarrow> err + TaskRun \<times> db" where
  "admitWorkflowNodeRetryRunTx taskID cr now rnd d =
     bindE (ofOption ErrRecordNotFound (db_nodes d (cr_WorkflowNodeRunID cr))) (\<lambda>node.
     bindE (ofOption ErrRecordNotFound (db_runs d (n_WorkflowRunID node))) (\<lambda>run.
     bindE (lookupKey (\<lambda>i. db_tasks d i \<noteq> None) taskID) (\<lambda>task.
     case cr_IdempotencyKey cr of
       None \<Rightarrow> Inl ErrNotFound
     | Some key \<Rightarrow>
         bindE (guardE (n_TaskID node = Some task
                        \<and> has_prefix (TaskAdmissionKey (r_ID run) (n_NodeID node) @ ''/'') key) ErrNotFound) (\<lambda>_.
         bindE (linked_run d node (Some key)) (\<lambda>linked.
         case linked of
           Some r \<Rightarrow> Inr (r, d)
         | None \<Rightarrow>
             let want = (if cr_WorkflowNodeFrom cr = Some NodeRunStatusRetryWait
                         then cr_WorkflowAttempt cr - 1 else cr_WorkflowAttempt cr)
             in bindE (guardE (r_Status run = RunStatusRunning \<and> Some (n_Status node) = cr_WorkflowNodeFrom cr
                               \<and> n_Attempt node = want)
                         (ErrConflict ''workflow is stopping or node is not waiting for this run'')) (\<lambda>_.
                bindE (createTaskRunTx taskID cr now rnd d) (\<lambda>(r, d').
                Inr (r, d'\<lparr>db_nodes := (db_nodes d')(cr_WorkflowNodeRunID cr \<mapsto>
                                   retryNode r (cr_WorkflowAttempt cr) now node)\<rparr>))))))))"

definition CreateTaskRun :: "CreateRunInput \<Rightarrow> TaskRun serv" where
  "CreateTaskRun cr =
     (case CanonicalPublicID (cr_TaskID cr) of
        None \<Rightarrow> throwP ErrNotFound
      | Some taskID \<Rightarrow>
          if cr_WorkflowNodeRunID cr \<noteq> ''''
          then mapErr notFound (db_op (\<lambda>now rnd. commit (admitWorkflowNodeRetryRunTx taskID cr now rnd)))
          else db_op (\<lambda>now rnd. commit (createTaskRunTx taskID cr now rnd)))"

end
