(* ===== verification/Store_Logic.thy ===== *)
theory Store_Logic
  imports Store
begin

text \<open>
  Rely and guarantee for store calls. A relation \<open>R\<close> on databases says what one transaction may do;
  \<open>sys_step R\<close> lifts it to a process, \<open>env_ok R\<close> says that the other processes obey it too, and
  \<open>holds R P\<close> that they do and the database satisfies \<open>P\<close>. What is proved in the locale holds for every
  interleaving with transactions of other processes and every pattern of lost calls.
\<close>

definition sys_step :: "(db \<Rightarrow> db \<Rightarrow> bool) \<Rightarrow> sys \<Rightarrow> sys \<Rightarrow> bool" where
  "sys_step R s s' \<longleftrightarrow> sy_world s' = sy_world s \<and> R (sy_db s) (sy_db s')"

definition env_ok :: "(db \<Rightarrow> db \<Rightarrow> bool) \<Rightarrow> world \<Rightarrow> bool" where
  "env_ok R w \<longleftrightarrow> (\<forall>n d. R d (w_env w n d))"

definition holds :: "(db \<Rightarrow> db \<Rightarrow> bool) \<Rightarrow> (db \<Rightarrow> bool) \<Rightarrow> sys \<Rightarrow> bool" where
  "holds R P s \<longleftrightarrow> env_ok R (sy_world s) \<and> P (sy_db s)"

definition obeys :: "(db \<Rightarrow> db \<Rightarrow> bool) \<Rightarrow> (db \<Rightarrow> bool) \<Rightarrow> 'a serv \<Rightarrow> ('a \<Rightarrow> db \<Rightarrow> bool) \<Rightarrow> bool" where
  "obeys R P m Q \<longleftrightarrow> runs (sys_step R) (holds R P) m (\<lambda>x. holds R (Q x))"

lemma holds_mono: "holds R P s \<Longrightarrow> (\<And>d. P d \<Longrightarrow> Q d) \<Longrightarrow> holds R Q s"
  by (simp add: holds_def)

lemma obeys_conseq:
  "obeys R P m Q \<Longrightarrow> (\<And>d. P' d \<Longrightarrow> P d) \<Longrightarrow> (\<And>x d. Q x d \<Longrightarrow> Q' x d) \<Longrightarrow> obeys R P' m Q'"
  unfolding obeys_def by (erule runs_conseq) (auto simp: holds_def)

lemmas obeys_pre = obeys_conseq [where Q' = Q and Q = Q for Q, simplified]

lemma obeys_post: "obeys R P m Q \<Longrightarrow> (\<And>x d. Q x d \<Longrightarrow> Q' x d) \<Longrightarrow> obeys R P m Q'"
  by (erule obeys_conseq)

lemma stable_holds: "stable R P \<Longrightarrow> stable (sys_step R) (holds R P)"
  by (auto simp: stable_def holds_def sys_step_def)

lemma obeys_frame:
  assumes "obeys R P m Q" "stable R F"
  shows "obeys R (\<lambda>d. P d \<and> F d) m (\<lambda>x d. Q x d \<and> F d)"
proof -
  have "runs (sys_step R) (\<lambda>s. holds R P s \<and> holds R F s) m (\<lambda>x s. holds R (Q x) s \<and> holds R F s)"
    using runs_frame [OF assms(1) [unfolded obeys_def] stable_holds [OF assms(2)]] .
  then show ?thesis
    unfolding obeys_def by (rule runs_conseq) (auto simp: holds_def)
qed

lemma obeys_db:
  assumes "obeys R P m Q" "env_ok R (sy_world s)" "P (sy_db s)"
  shows "R (sy_db s) (sy_db (snd (m s)))" "fst (m s) = Inr x \<Longrightarrow> Q x (sy_db (snd (m s)))"
  using runsD [OF assms(1) [unfolded obeys_def], of s] runs_result [OF assms(1) [unfolded obeys_def], of s x] assms
  by (auto simp: holds_def sys_step_def)

locale db_relation =
  fixes R :: "db \<Rightarrow> db \<Rightarrow> bool"
  assumes db_refl: "R d d"
    and db_trans: "R a b \<Longrightarrow> R b c \<Longrightarrow> R a c"
begin

lemma sys_relation: "step_relation (sys_step R)"
  by unfold_locales (auto simp: sys_step_def db_refl intro: db_trans)

lemma obeys_ret: "(\<And>d. P d \<Longrightarrow> Q x d) \<Longrightarrow> obeys R P (retP x) Q"
  unfolding obeys_def by (rule step_relation.runs_retP [OF sys_relation]) (auto simp: holds_def)

lemma obeys_throw: "obeys R P (throwP e) Q"
  unfolding obeys_def by (rule step_relation.runs_throwP [OF sys_relation])

lemma obeys_lift: "(\<And>x d. r = Inr x \<Longrightarrow> P d \<Longrightarrow> Q x d) \<Longrightarrow> obeys R P (liftE r) Q"
  unfolding obeys_def by (rule step_relation.runs_liftE [OF sys_relation]) (auto simp: holds_def)

lemma obeys_bind:
  "obeys R P m Q \<Longrightarrow> (\<And>x. obeys R (Q x) (f x) S) \<Longrightarrow> obeys R P (bindP m f) S"
  unfolding obeys_def by (rule step_relation.runs_bindP [OF sys_relation])

lemma obeys_try:
  assumes "obeys R P m Q" "stable R F" "\<And>d. P d \<Longrightarrow> F d"
  shows "obeys R P (tryP m) (\<lambda>r d. F d \<and> (\<forall>x. r = Inr x \<longrightarrow> Q x d))"
proof -
  have "runs (sys_step R) (holds R P) (tryP m) (\<lambda>r s. holds R F s \<and> (\<forall>x. r = Inr x \<longrightarrow> holds R (Q x) s))"
    by (rule step_relation.runs_tryP [OF sys_relation assms(1) [unfolded obeys_def] stable_holds [OF assms(2)]])
      (auto simp: holds_def assms(3))
  then show ?thesis unfolding obeys_def by (rule runs_post) (auto simp: holds_def)
qed

lemma obeys_db_op:
  assumes st: "stable R P"
    and f: "\<And>now rnd d. P d \<Longrightarrow> R d (snd (f now rnd d))"
    and res: "\<And>now rnd d x. P d \<Longrightarrow> fst (f now rnd d) = Inr x \<Longrightarrow> Q x (snd (f now rnd d))"
  shows "obeys R P (db_op f) Q"
  unfolding obeys_def
proof (rule runsI)
  fix s assume "holds R P s"
  then have env: "env_ok R (sy_world s)" and P: "P (sy_db s)" by (auto simp: holds_def)
  let ?d = "w_env (sy_world s) (sy_tick s) (sy_db s)"
  have e: "R (sy_db s) ?d" using env by (simp add: env_ok_def)
  have Pd: "P ?d" using stableD [OF st P e] .
  have step: "R (sy_db s) (snd (f now rnd ?d))" for now rnd using db_trans [OF e f [OF Pd]] .
  show "sys_step R s (snd (db_op f s))"
    using e step by (auto simp: sys_step_def db_op_def Let_def split: fault.splits)
  fix x assume "fst (db_op f s) = Inr x"
  then show "holds R (Q x) (snd (db_op f s))"
    using env res [OF Pd] by (auto simp: holds_def db_op_def Let_def split: fault.splits)
qed

lemma obeys_tx:
  assumes st: "stable R P"
    and body: "\<And>now rnd d x d'. P d \<Longrightarrow> body now rnd d = Inr (x, d') \<Longrightarrow> R d d' \<and> Q x d'"
  shows "obeys R P (db_op (\<lambda>now rnd. commit (body now rnd))) Q"
proof (rule obeys_db_op [OF st])
  fix now rnd d x assume P: "P d"
  show "R d (snd (commit (body now rnd) d))"
    using body [OF P, of now rnd] by (auto simp: commit_def db_refl split: sum.splits)
  show "Q x (snd (commit (body now rnd) d))" if "fst (commit (body now rnd) d) = Inr x"
    using body [OF P, of now rnd] that by (auto simp: commit_def split: sum.splits)
qed

lemma obeys_read:
  "stable R P \<Longrightarrow> (\<And>d. P d \<Longrightarrow> Q (f d) d) \<Longrightarrow> obeys R P (read_op f) Q"
  unfolding read_op_def by (rule obeys_db_op) (auto simp: db_refl)

lemma obeys_now: "(\<And>x d. P d \<Longrightarrow> Q x d) \<Longrightarrow> obeys R P now_op Q"
  unfolding obeys_def by (rule runsI) (auto simp: now_op_def sys_step_def holds_def db_refl)

lemma obeys_newPublicID: "(\<And>x d. P d \<Longrightarrow> Q x d) \<Longrightarrow> obeys R P newPublicID_op Q"
  unfolding obeys_def by (rule runsI) (auto simp: newPublicID_op_def sys_step_def holds_def db_refl)

lemma obeys_if: "(b \<Longrightarrow> obeys R P m Q) \<Longrightarrow> (\<not> b \<Longrightarrow> obeys R P n Q) \<Longrightarrow> obeys R P (if b then m else n) Q"
  by simp

lemma obeys_option:
  "(x = None \<Longrightarrow> obeys R P m Q) \<Longrightarrow> (\<And>y. x = Some y \<Longrightarrow> obeys R P (f y) Q) \<Longrightarrow>
     obeys R P (case x of None \<Rightarrow> m | Some y \<Rightarrow> f y) Q"
  by (cases x) simp_all

lemma obeys_sum:
  "(\<And>e. x = Inl e \<Longrightarrow> obeys R P (f e) Q) \<Longrightarrow> (\<And>y. x = Inr y \<Longrightarrow> obeys R P (g y) Q) \<Longrightarrow>
     obeys R P (case x of Inl e \<Rightarrow> f e | Inr y \<Rightarrow> g y) Q"
  by (cases x) simp_all

text \<open>A precondition that no transition of a process can invalidate stays true to the end.\<close>

lemma obeys_keep: "obeys R P m Q \<Longrightarrow> stable R P \<Longrightarrow> obeys R P m (\<lambda>x d. Q x d \<and> P d)"
  by (drule obeys_frame, assumption) (erule obeys_conseq, auto)

end

text \<open>
  \<open>tells R F m Q\<close>: in a context \<open>F\<close> that no transition of \<open>R\<close> can end, \<open>m\<close> moves along \<open>R\<close> and its
  result satisfies \<open>Q\<close>; \<open>F\<close> still holds then. \<open>safe R F m\<close> asks nothing of the result. The rules carry the
  context through a program unchanged, a read adds what it saw.
\<close>

definition tells :: "(db \<Rightarrow> db \<Rightarrow> bool) \<Rightarrow> (db \<Rightarrow> bool) \<Rightarrow> 'a serv \<Rightarrow> ('a \<Rightarrow> db \<Rightarrow> bool) \<Rightarrow> bool" where
  "tells R F m Q \<longleftrightarrow> (stable R F \<longrightarrow> obeys R F m (\<lambda>x d. F d \<and> Q x d))"

abbreviation safe :: "(db \<Rightarrow> db \<Rightarrow> bool) \<Rightarrow> (db \<Rightarrow> bool) \<Rightarrow> 'a serv \<Rightarrow> bool" where
  "safe R F m \<equiv> tells R F m (\<lambda>_ _. True)"

lemma tells_weaken: "tells R F m Q \<Longrightarrow> (\<And>x d. F d \<Longrightarrow> Q x d \<Longrightarrow> Q' x d) \<Longrightarrow> tells R F m Q'"
  unfolding tells_def by (blast intro: obeys_post)

lemma tells_safe: "tells R F m Q \<Longrightarrow> safe R F m"
  by (erule tells_weaken) simp

lemma tells_obeys: "tells R F m Q \<Longrightarrow> stable R F \<Longrightarrow> obeys R F m (\<lambda>x d. F d \<and> Q x d)"
  by (simp add: tells_def)

lemma tells_stable: "(stable R F \<Longrightarrow> tells R F m Q) \<Longrightarrow> tells R F m Q"
  by (simp add: tells_def)

lemma tells_cases:
  "(b \<Longrightarrow> tells R F m Q) \<Longrightarrow> (\<not> b \<Longrightarrow> tells R F n Q) \<Longrightarrow> tells R F (if b then m else n) Q"
  "(x = None \<Longrightarrow> tells R F m Q) \<Longrightarrow> (\<And>y. x = Some y \<Longrightarrow> tells R F (f y) Q) \<Longrightarrow>
     tells R F (case x of None \<Rightarrow> m | Some y \<Rightarrow> f y) Q"
  "(\<And>e. z = Inl e \<Longrightarrow> tells R F (g e) Q) \<Longrightarrow> (\<And>y. z = Inr y \<Longrightarrow> tells R F (h y) Q) \<Longrightarrow>
     tells R F (case z of Inl e \<Rightarrow> g e | Inr y \<Rightarrow> h y) Q"
  "(\<And>u v. p = (u, v) \<Longrightarrow> tells R F (k u v) Q) \<Longrightarrow> tells R F (case p of (u, v) \<Rightarrow> k u v) Q"
  "(\<And>y. y = e \<Longrightarrow> tells R F (l y) Q) \<Longrightarrow> tells R F (Let e l) Q"
  by (auto split: option.splits sum.splits prod.splits)

context db_relation
begin

lemma tells_ret: "(\<And>d. F d \<Longrightarrow> Q x d) \<Longrightarrow> tells R F (retP x) Q"
  unfolding tells_def by (intro impI obeys_ret) simp

lemma tells_throw: "tells R F (throwP e) Q"
  unfolding tells_def by (intro impI obeys_throw)

lemma tells_lift: "(\<And>x d. r = Inr x \<Longrightarrow> F d \<Longrightarrow> Q x d) \<Longrightarrow> tells R F (liftE r) Q"
  unfolding tells_def by (intro impI obeys_lift) simp

lemma tells_now: "safe R F now_op"
  unfolding tells_def by (intro impI obeys_now) simp

lemma tells_get: "safe R F (getP f)"
  unfolding tells_def obeys_def by (intro impI step_relation.runs_getP [OF sys_relation]) (simp add: holds_def)

lemma tells_newPublicID: "safe R F newPublicID_op"
  unfolding tells_def by (intro impI obeys_newPublicID) simp

text \<open>Sequencing: with what the first part saw, with a fact about its result only, with nothing.\<close>

lemma tells_bind:
  assumes "tells R F m P" "\<And>x. stable R F \<Longrightarrow> stable R (\<lambda>d. F d \<and> P x d)" "\<And>x. tells R (\<lambda>d. F d \<and> P x d) (f x) Q"
  shows "tells R F (bindP m f) Q"
  unfolding tells_def
proof
  assume st: "stable R F"
  show "obeys R F (bindP m f) (\<lambda>x d. F d \<and> Q x d)"
    by (rule obeys_bind [OF tells_obeys [OF assms(1) st]])
      (rule obeys_post [OF tells_obeys [OF assms(3) assms(2) [OF st]]], simp)
qed

lemma tells_bind_pure:
  assumes "tells R F m (\<lambda>x d. P x)" "\<And>x. P x \<Longrightarrow> tells R F (f x) Q"
  shows "tells R F (bindP m f) Q"
proof (rule tells_bind [OF assms(1)])
  show "stable R (\<lambda>d. F d \<and> P x)" if "stable R F" for x using that by (auto simp: stable_def)
  show "tells R (\<lambda>d. F d \<and> P x) (f x) Q" for x
    using assms(2) [of x] by (cases "P x") (auto simp: tells_def obeys_def runs_def holds_def)
qed

lemma tells_bind_any: "safe R F m \<Longrightarrow> (\<And>x. tells R F (f x) Q) \<Longrightarrow> tells R F (bindP m f) Q"
  by (rule tells_bind_pure)

lemma tells_try: assumes "tells R F m Q" shows "tells R F (tryP m) (\<lambda>r d. \<forall>x. r = Inr x \<longrightarrow> Q x d)"
  unfolding tells_def
proof
  assume st: "stable R F"
  show "obeys R F (tryP m) (\<lambda>r d. F d \<and> (\<forall>x. r = Inr x \<longrightarrow> Q x d))"
    by (rule obeys_post [OF obeys_try [OF tells_obeys [OF assms st] st]]) auto
qed

lemma tells_db_op:
  assumes "\<And>now rnd d. stable R F \<Longrightarrow> F d \<Longrightarrow> R d (snd (f now rnd d))"
    and "\<And>now rnd d x. stable R F \<Longrightarrow> F d \<Longrightarrow> fst (f now rnd d) = Inr x \<Longrightarrow> Q x (snd (f now rnd d))"
  shows "tells R F (db_op f) Q"
  unfolding tells_def
proof
  assume st: "stable R F"
  have "obeys R F (db_op f) Q" by (rule obeys_db_op [OF st]) (use assms [OF st] in auto)
  then show "obeys R F (db_op f) (\<lambda>x d. F d \<and> Q x d)" using obeys_keep [OF _ st] obeys_post by (metis (no_types, lifting))
qed

lemma tells_tx:
  assumes "\<And>now rnd d x d'. stable R F \<Longrightarrow> F d \<Longrightarrow> body now rnd d = Inr (x, d') \<Longrightarrow> R d d' \<and> Q x d'"
  shows "tells R F (db_op (\<lambda>now rnd. commit (body now rnd))) Q"
  unfolding tells_def
proof
  assume st: "stable R F"
  have "obeys R F (db_op (\<lambda>now rnd. commit (body now rnd))) Q" by (rule obeys_tx [OF st assms]) (use st in auto)
  then show "obeys R F (db_op (\<lambda>now rnd. commit (body now rnd))) (\<lambda>x d. F d \<and> Q x d)"
    using obeys_keep [OF _ st] obeys_post by (metis (no_types, lifting))
qed

lemma tells_read: "(\<And>d. F d \<Longrightarrow> Q (f d) d) \<Longrightarrow> tells R F (read_op f) Q"
  unfolding read_op_def by (rule tells_db_op) (auto simp: db_refl)

lemma tells_get_by_id:
  "(\<And>d i x. F d \<Longrightarrow> CanonicalPublicID p = Some i \<Longrightarrow> table d i = Some x \<Longrightarrow> Q x d) \<Longrightarrow>
     tells R F (get_by_id table p) (\<lambda>r d. \<forall>x. r = Some x \<longrightarrow> Q x d)"
  unfolding get_by_id_def by (intro tells_cases tells_ret tells_read) auto

lemma tells_lookup: "tells R F (lookupKey_op present p) (\<lambda>i d. CanonicalPublicID p = Some i)"
  unfolding lookupKey_op_def
  by (intro tells_cases tells_throw tells_db_op) (auto simp: db_refl split: if_splits)

lemma tells_if_key:
  assumes "\<And>d. F d \<Longrightarrow> Q absent d" "\<And>i. CanonicalPublicID p = Some i \<Longrightarrow> tells R F (f i) Q"
  shows "tells R F (if_key present p absent f) Q"
  unfolding if_key_def
proof (rule tells_bind_pure)
  show "tells R F (tryP (lookupKey_op present p)) (\<lambda>r d. \<forall>i. r = Inr i \<longrightarrow> CanonicalPublicID p = Some i)"
    by (rule tells_try [OF tells_lookup])
qed (intro tells_cases tells_ret tells_throw, use assms in auto)

end

sublocale db_relation \<subseteq> sys: step_relation "sys_step R"
  by (rule sys_relation)

text \<open>Invariants as relations: a transaction that starts in \<open>I\<close> ends in \<open>I\<close> and moves along \<open>E\<close>.\<close>

definition keeps :: "(db \<Rightarrow> bool) \<Rightarrow> (db \<Rightarrow> db \<Rightarrow> bool) \<Rightarrow> db \<Rightarrow> db \<Rightarrow> bool" where
  "keeps I E d d' \<longleftrightarrow> (I d \<longrightarrow> I d' \<and> E d d')"

lemma keeps_relation:
  assumes "\<And>d. E d d" "\<And>a b c. E a b \<Longrightarrow> E b c \<Longrightarrow> E a c"
  shows "db_relation (keeps I E)"
  using assms by unfold_locales (auto simp: keeps_def)

lemma stable_keeps_inv: "stable (keeps I E) I"
  by (auto simp: stable_def keeps_def)

lemma stable_keeps:
  assumes "\<And>d d'. P d \<Longrightarrow> E d d' \<Longrightarrow> I d' \<Longrightarrow> P d'"
  shows "stable (keeps I E) (\<lambda>d. I d \<and> P d)"
  using assms by (auto simp: stable_def keeps_def)

end
