(* ===== verification/Task_Plane.thy ===== *)
theory Task_Plane
  imports Task_Store Store_Logic
begin

text \<open>
  What the task tables promise. \<open>task_inv\<close> is the invariant of the tables, \<open>task_evolves\<close> how rows may
  change over time; every transaction of \<open>Task_Store\<close> that the server uses keeps the one and moves along
  the other. The consequences: a task has at most one active run and it is the last one, a task
  mirrors its last run, a finished run never changes its outcome, the first cancel request and the
  first recorded pins win, and an admission key or an idempotency key names one task or run.
  (\<open>UpdateTask\<close> and \<open>ClaimTask\<close> write task rows directly; nothing outside the tests calls them and they
  are not part of the contract.)
\<close>

section \<open>The invariant\<close>

definition mirrors :: "TaskRun \<Rightarrow> Task \<Rightarrow> bool" where
  "mirrors r t \<longleftrightarrow>
     tk_Status t = tr_Status r \<and> tk_Output t = tr_Output r \<and> tk_StartedAt t = tr_StartedAt r
     \<and> tk_EndedAt t = tr_EndedAt r \<and> tk_ErrorMessage t = tr_ErrorMessage r
     \<and> tk_AwaitingAnswer t = (case tr_Questions r of None \<Rightarrow> False | Some q \<Rightarrow> q \<noteq> '''')"

definition tables_keyed :: "db \<Rightarrow> bool" where
  "tables_keyed d \<longleftrightarrow>
     (\<forall>i t. db_tasks d i = Some t \<longrightarrow> tk_ID t = i) \<and> (\<forall>i r. db_truns d i = Some r \<longrightarrow> tr_ID r = i)
     \<and> set (db_task_order d) = dom (db_tasks d) \<and> set (db_trun_order d) = dom (db_truns d)
     \<and> (\<forall>i. db_tasks d i \<noteq> None \<or> db_truns d i \<noteq> None \<longrightarrow> CanonicalPublicID i = Some i)"

definition last_run_mirrored :: "db \<Rightarrow> bool" where
  "last_run_mirrored d \<longleftrightarrow>
     (\<forall>i t. db_tasks d i = Some t \<longrightarrow>
        (\<exists>l r. tk_LastRunID t = Some l \<and> db_truns d l = Some r \<and> tr_TaskID r = i \<and> mirrors r t))"

definition active_is_last :: "db \<Rightarrow> bool" where
  "active_is_last d \<longleftrightarrow>
     (\<forall>i r. db_truns d i = Some r \<longrightarrow>
        (\<exists>t. db_tasks d (tr_TaskID r) = Some t
             \<and> (\<not> TaskRunStatusTerminal (tr_Status r) \<longrightarrow> tk_LastRunID t = Some i)))"

definition run_keys_unique :: "db \<Rightarrow> bool" where
  "run_keys_unique d \<longleftrightarrow>
     (\<forall>i j r s k. db_truns d i = Some r \<longrightarrow> db_truns d j = Some s \<longrightarrow> tr_TaskID r = tr_TaskID s \<longrightarrow>
        tr_IdempotencyKey r = Some k \<longrightarrow> tr_IdempotencyKey s = Some k \<longrightarrow> i = j)"

definition admission_keys_unique :: "db \<Rightarrow> bool" where
  "admission_keys_unique d \<longleftrightarrow>
     (\<forall>i j t u k. db_tasks d i = Some t \<longrightarrow> db_tasks d j = Some u \<longrightarrow> tk_SpaceID t = tk_SpaceID u \<longrightarrow>
        tk_AdmissionKey t = Some k \<longrightarrow> tk_AdmissionKey u = Some k \<longrightarrow> i = j)"

definition task_inv :: "db \<Rightarrow> bool" where
  "task_inv d \<longleftrightarrow>
     tables_keyed d \<and> last_run_mirrored d \<and> active_is_last d \<and> run_keys_unique d \<and> admission_keys_unique d"

section \<open>How rows evolve\<close>

text \<open>The outcome of a run, frozen once it is terminal.\<close>

definition run_outcome where
  "run_outcome r =
     (tr_Status r, tr_Output r, tr_Structured r, tr_Questions r, tr_ErrorMessage r, tr_StartedAt r, tr_EndedAt r,
      tr_SessionID r, tr_PromptTokens r, tr_CompletionTokens r, tr_FailureClass r, tr_CancelReason r)"

definition run_identity where
  "run_identity r =
     (tr_ID r, tr_TaskID r, tr_PreviousTaskRunID r, tr_Input r, tr_CreatedBy r, tr_TriggerSource r,
      tr_RetryOfTaskRunID r, tr_IdempotencyKey r, tr_WorkspaceBase r, tr_CreatedAt r)"

definition once :: "'a option \<Rightarrow> 'a option \<Rightarrow> bool" where
  "once a b \<longleftrightarrow> (a \<noteq> None \<longrightarrow> b = a)"

definition run_evolves :: "TaskRun \<Rightarrow> TaskRun \<Rightarrow> bool" where
  "run_evolves r r' \<longleftrightarrow>
     run_identity r' = run_identity r
     \<and> ValidTaskRunTransition\<^sup>*\<^sup>* (tr_Status r) (tr_Status r')
     \<and> (TaskRunStatusTerminal (tr_Status r) \<longrightarrow> run_outcome r' = run_outcome r)
     \<and> once (tr_CancelRequestedAt r) (tr_CancelRequestedAt r')
     \<and> once (tr_AgentRevision r) (tr_AgentRevision r')
     \<and> once (tr_SpaceInstructionsRevision r) (tr_SpaceInstructionsRevision r')
     \<and> once (tr_SandboxNetworkTier r) (tr_SandboxNetworkTier r')
     \<and> once (tr_FailureCause r) (tr_FailureCause r')
     \<and> (tr_PluginPins r \<noteq> '''' \<longrightarrow> tr_PluginPins r' = tr_PluginPins r)"

definition task_identity where
  "task_identity t =
     (tk_ID t, tk_SpaceID t, tk_Input t, tk_AgentID t, tk_CreatedBy t, tk_OutputSchema t, tk_AdmissionKey t,
      tk_AdmissionFingerprint t, tk_CreatedAt t)"

definition task_evolves :: "db \<Rightarrow> db \<Rightarrow> bool" where
  "task_evolves d d' \<longleftrightarrow>
     (\<forall>i t. db_tasks d i = Some t \<longrightarrow> (\<exists>t'. db_tasks d' i = Some t' \<and> task_identity t' = task_identity t))
     \<and> (\<forall>i r. db_truns d i = Some r \<longrightarrow> (\<exists>r'. db_truns d' i = Some r' \<and> run_evolves r r'))"

lemma terminal_taskrun_stuck: "TaskRunStatusTerminal a \<Longrightarrow> ValidTaskRunTransition\<^sup>*\<^sup>* a b \<Longrightarrow> b = a"
  by (erule converse_rtranclpE) auto

lemma once_refl [simp]: "once a a"
  by (simp add: once_def)

lemma once_trans: "once a b \<Longrightarrow> once b c \<Longrightarrow> once a c"
  by (auto simp: once_def)

lemma once_None [simp]: "once None b"
  by (simp add: once_def)

lemma run_evolves_refl [simp]: "run_evolves r r"
  by (simp add: run_evolves_def)

lemma run_outcome_status: "run_outcome r' = run_outcome r \<Longrightarrow> tr_Status r' = tr_Status r"
  by (simp add: run_outcome_def)

lemma run_evolves_trans: assumes "run_evolves r s" "run_evolves s t" shows "run_evolves r t"
proof -
  note r = assms(1) [unfolded run_evolves_def] and s = assms(2) [unfolded run_evolves_def]
  have "run_outcome t = run_outcome r" if "TaskRunStatusTerminal (tr_Status r)"
    using r s that run_outcome_status [of s r] by simp
  moreover have "ValidTaskRunTransition\<^sup>*\<^sup>* (tr_Status r) (tr_Status t)"
    using r s by (blast intro: rtranclp_trans)
  ultimately show ?thesis
    unfolding run_evolves_def using r s by (simp, blast intro: once_trans)
qed

lemma task_evolves_refl: "task_evolves d d"
  by (simp add: task_evolves_def)

lemma task_evolves_trans: "task_evolves a b \<Longrightarrow> task_evolves b c \<Longrightarrow> task_evolves a c"
  unfolding task_evolves_def by (fastforce intro: run_evolves_trans)

definition task_rel :: "db \<Rightarrow> db \<Rightarrow> bool" where
  "task_rel = keeps task_inv task_evolves"

interpretation task: db_relation task_rel
  unfolding task_rel_def by (rule keeps_relation) (rule task_evolves_refl, erule (1) task_evolves_trans)

section \<open>Steps\<close>

text \<open>A transaction that leaves the four task tables alone.\<close>

definition same_tasks :: "db \<Rightarrow> db \<Rightarrow> bool" where
  "same_tasks d d' \<longleftrightarrow>
     db_tasks d' = db_tasks d \<and> db_task_order d' = db_task_order d
     \<and> db_truns d' = db_truns d \<and> db_trun_order d' = db_trun_order d"

lemmas task_inv_defs =
  task_inv_def tables_keyed_def last_run_mirrored_def active_is_last_def run_keys_unique_def admission_keys_unique_def

lemma same_tasks_rel: "same_tasks d d' \<Longrightarrow> task_rel d d'"
  by (simp add: task_rel_def keeps_def same_tasks_def task_inv_defs task_evolves_def)

lemma task_invD:
  assumes "task_inv d"
  shows "db_tasks d i = Some t \<Longrightarrow> tk_ID t = i"
    "db_truns d i = Some r \<Longrightarrow> tr_ID r = i"
    "db_tasks d i = Some t \<Longrightarrow> \<exists>l r. tk_LastRunID t = Some l \<and> db_truns d l = Some r \<and> tr_TaskID r = i \<and> mirrors r t"
    "db_truns d i = Some r \<Longrightarrow> \<exists>t. db_tasks d (tr_TaskID r) = Some t
        \<and> (\<not> TaskRunStatusTerminal (tr_Status r) \<longrightarrow> tk_LastRunID t = Some i)"
  using assms unfolding task_inv_defs by - (elim conjE, blast)+

lemma identity_fields:
  "run_identity r' = run_identity r \<Longrightarrow>
     tr_ID r' = tr_ID r \<and> tr_TaskID r' = tr_TaskID r \<and> tr_IdempotencyKey r' = tr_IdempotencyKey r"
  "task_identity t' = task_identity t \<Longrightarrow>
     tk_ID t' = tk_ID t \<and> tk_SpaceID t' = tk_SpaceID t \<and> tk_AdmissionKey t' = tk_AdmissionKey t"
  by (simp_all add: run_identity_def task_identity_def)

text \<open>One run and its task are rewritten together.\<close>

lemma replace_run_step:
  assumes inv: "task_inv d" and r: "db_truns d i = Some r" and t: "db_tasks d (tr_TaskID r) = Some t"
    and ev: "run_evolves r r'" and idt: "task_identity t' = task_identity t" "tk_LastRunID t' = tk_LastRunID t"
    and m: "tk_LastRunID t = Some i \<Longrightarrow> mirrors r' t'"
      "\<And>s. tk_LastRunID t \<noteq> Some i \<Longrightarrow> mirrors s t \<Longrightarrow> mirrors s t'"
    and d': "db_truns d' = (db_truns d)(i \<mapsto> r')" "db_tasks d' = (db_tasks d)(tr_TaskID r \<mapsto> t')"
      "db_task_order d' = db_task_order d" "db_trun_order d' = db_trun_order d"
  shows "task_inv d' \<and> task_evolves d d'"
proof -
  have idr: "tr_ID r' = tr_ID r" "tr_TaskID r' = tr_TaskID r" "tr_IdempotencyKey r' = tr_IdempotencyKey r"
    using ev identity_fields(1) [of r' r] by (auto simp: run_evolves_def)
  have fields: "tk_ID t' = tk_ID t" "tk_SpaceID t' = tk_SpaceID t" "tk_AdmissionKey t' = tk_AdmissionKey t"
    using identity_fields(2) [OF idt(1)] by auto
  have fin: "TaskRunStatusTerminal (tr_Status r')" if "TaskRunStatusTerminal (tr_Status r)"
    using ev that run_outcome_status [of r' r] by (simp add: run_evolves_def)
  have k: "tables_keyed d'"
    using inv r t idr(1) fields(1) unfolding task_inv_def tables_keyed_def d' by auto
  have "\<exists>l s. tk_LastRunID u = Some l \<and> db_truns d' l = Some s \<and> tr_TaskID s = j \<and> mirrors s u"
    if "db_tasks d' j = Some u" for j u
  proof (cases "j = tr_TaskID r")
    case True
    then have u: "u = t'" using that d' by simp
    obtain l s where l: "tk_LastRunID t = Some l" "db_truns d l = Some s" "tr_TaskID s = j" "mirrors s t"
      using task_invD(3) [OF inv t] True by blast
    show ?thesis
    proof (cases "l = i")
      case True
      then show ?thesis using l m(1) r d' u idr idt(2) by auto
    next
      case False
      then show ?thesis using l m(2) d' u idt(2) by auto
    qed
  next
    case False
    then have "db_tasks d j = Some u" using that d' by simp
    then obtain l s where l: "tk_LastRunID u = Some l" "db_truns d l = Some s" "tr_TaskID s = j" "mirrors s u"
      using task_invD(3) [OF inv] by blast
    then show ?thesis using False r d' by auto
  qed
  then have mir: "last_run_mirrored d'" by (simp add: last_run_mirrored_def)
  have "\<exists>u. db_tasks d' (tr_TaskID s) = Some u \<and> (\<not> TaskRunStatusTerminal (tr_Status s) \<longrightarrow> tk_LastRunID u = Some j)"
    if "db_truns d' j = Some s" for j s
  proof (cases "j = i")
    case True
    then have "s = r'" using that d' by simp
    then show ?thesis using True task_invD(4) [OF inv r] t idr(2) idt(2) fin d' by auto
  next
    case False
    then have "db_truns d j = Some s" using that d' by simp
    then show ?thesis using task_invD(4) [OF inv, of j s] t idt(2) d' by auto
  qed
  then have act: "active_is_last d'" by (simp add: active_is_last_def)
  have rk: "run_keys_unique d'"
    using inv r idr unfolding task_inv_def run_keys_unique_def d' by (auto split: if_splits)
  have ak: "admission_keys_unique d'"
    using inv t fields unfolding task_inv_def admission_keys_unique_def d' by (auto split: if_splits)
  have "task_evolves d d'"
    using r t ev idt(1) unfolding task_evolves_def d' by auto
  with k mir act rk ak show ?thesis by (simp add: task_inv_def)
qed

text \<open>Guarded updates of one run that touch no mirrored column.\<close>

definition mirror_view where
  "mirror_view r = (tr_Status r, tr_Output r, tr_StartedAt r, tr_EndedAt r, tr_ErrorMessage r, tr_Questions r)"

lemma mirrors_view: "mirror_view r' = mirror_view r \<Longrightarrow> mirrors r t \<Longrightarrow> mirrors r' t"
  by (simp add: mirror_view_def mirrors_def)

lemma update_run_step:
  assumes f: "\<And>r. P r \<Longrightarrow> run_evolves r (f r) \<and> mirror_view (f r) = mirror_view r"
  shows "task_rel d (snd (updateTaskRunWhere i P f d))"
proof (cases "\<exists>r. db_truns d i = Some r \<and> P r")
  case True
  then obtain r where r: "db_truns d i = Some r" "P r" by blast
  define d' where "d' = d\<lparr>db_truns := (db_truns d)(i \<mapsto> f r)\<rparr>"
  have "task_inv d' \<and> task_evolves d d'" if inv: "task_inv d"
  proof -
    obtain t where t: "db_tasks d (tr_TaskID r) = Some t" using task_invD(4) [OF inv r(1)] by blast
    obtain l s where l: "tk_LastRunID t = Some l" "db_truns d l = Some s" "mirrors s t"
      using task_invD(3) [OF inv t] by blast
    show ?thesis
    proof (rule replace_run_step [OF inv r(1) t, where t' = t and r' = "f r"])
      show "mirrors (f r) t" if "tk_LastRunID t = Some i"
        using that l r f mirrors_view [of "f r" r] by auto
    qed (use f r t in \<open>auto simp: d'_def fun_upd_idem\<close>)
  qed
  then show ?thesis
    using r by (simp add: updateTaskRunWhere_def task_rel_def keeps_def d'_def)
next
  case False
  then have "snd (updateTaskRunWhere i P f d) = d"
    by (auto simp: updateTaskRunWhere_def split: option.splits)
  then show ?thesis by (simp add: task.db_refl)
qed

text \<open>The guarded transition of a run and its projection onto the task.\<close>

lemma transition_evolves:
  assumes "ValidTaskRunTransition (tt_ExpectedStatus tt) (tt_NewStatus tt)" "tr_Status r = tt_ExpectedStatus tt"
  shows "run_evolves r (buildTaskRunUpdates tt r)"
  using assms by (auto simp: run_evolves_def buildTaskRunUpdates_def run_identity_def)

lemma mirrorRun_mirrors: "mirrors r (mirrorRun r t)"
  by (simp add: mirrors_def mirrorRun_def)

lemma foldScheduleOutcome_tables [simp]:
  "db_tasks (foldScheduleOutcome s b d) = db_tasks d" "db_truns (foldScheduleOutcome s b d) = db_truns d"
  "db_task_order (foldScheduleOutcome s b d) = db_task_order d"
  "db_trun_order (foldScheduleOutcome s b d) = db_trun_order d"
  by (simp_all add: foldScheduleOutcome_def split: option.splits)

lemma transition_step:
  assumes v: "ValidTaskRunTransition (tt_ExpectedStatus tt) (tt_NewStatus tt)"
    and res: "transitionTaskRunTx i tt d = Inr (b, d')"
  shows "task_rel d d'"
proof (cases "\<exists>r. db_truns d i = Some r \<and> tr_Status r = tt_ExpectedStatus tt")
  case True
  then obtain r where r: "db_truns d i = Some r" "tr_Status r = tt_ExpectedStatus tt" by blast
  let ?r = "buildTaskRunUpdates tt r"
  have idr: "tr_TaskID ?r = tr_TaskID r" "tr_ID ?r = tr_ID r" by (simp_all add: buildTaskRunUpdates_def)
  have "task_inv d' \<and> task_evolves d d'" if inv: "task_inv d"
  proof -
    have act: "\<not> TaskRunStatusTerminal (tr_Status r)" using v r(2) by auto
    obtain t where t: "db_tasks d (tr_TaskID r) = Some t" "tk_LastRunID t = Some i"
      using task_invD(4) [OF inv r(1)] act by blast
    have rid: "tr_ID r = i" using task_invD(2) [OF inv r(1)] .
    have d': "db_truns d' = (db_truns d)(i \<mapsto> ?r)" "db_tasks d' = (db_tasks d)(tr_TaskID r \<mapsto> mirrorRun ?r t)"
      "db_task_order d' = db_task_order d" "db_trun_order d' = db_trun_order d"
      using res r t(1) idr(1) by (auto simp: transitionTaskRunTx_def Let_def)
    show ?thesis
      by (rule replace_run_step [OF inv r(1) t(1) transition_evolves [OF v r(2)], where t' = "mirrorRun ?r t"])
        (simp_all add: d' mirrorRun_mirrors t(2) rid idr, simp_all add: task_identity_def mirrorRun_def rid idr)
  qed
  then show ?thesis by (simp add: task_rel_def keeps_def)
next
  case False
  then have "d' = d" using res by (auto simp: transitionTaskRunTx_def split: option.splits if_splits)
  then show ?thesis by (simp add: task.db_refl)
qed

text \<open>Creation of a task with its first run.\<close>

lemma createTaskAndRunTx_Inr:
  assumes "createTaskAndRunTx sp ci now rnd d = Inr ((t, r), d')"
  shows "d' = insertTaskAndRun t r d" "db_tasks d (tk_ID t) = None" "db_truns d (tr_ID r) = None"
    "tr_TaskID r = tk_ID t" "tk_LastRunID t = Some (tr_ID r)" "mirrors r t" "tr_IdempotencyKey r = None"
    "tr_Status r = TPending" "\<not> admission_taken d (tk_SpaceID t) (tk_AdmissionKey t)"
    "tk_AdmissionKey t = (if ci_AdmissionKey ci \<noteq> '''' then Some (ci_AdmissionKey ci) else None)"
    "tk_AdmissionFingerprint t =
       (if ci_AdmissionKey ci \<noteq> '''' then Some (AdmissionFingerprint (sp_digest sp) ci) else None)"
    "CanonicalPublicID (ci_SpaceID ci) = Some (tk_SpaceID t)" "tk_SpaceID t \<in> db_spaces d"
    "tk_Input t = ci_Input ci" "tr_Input r = ci_Input ci"
    "CanonicalPublicID (tk_ID t) = Some (tk_ID t)" "CanonicalPublicID (tr_ID r) = Some (tr_ID r)"
  using assms
  by (auto simp: createTaskAndRunTx_def newTaskRows_def newTask_def newTaskRun_def blankTaskRun_def mirrors_def
        Let_def dest!: createWithPublicID_fresh lookupKey_Inr)

lemma admission_not_taken:
  assumes "tables_keyed d" "\<not> admission_taken d sp k" "db_tasks d i = Some u" "tk_SpaceID u = sp"
  shows "k = None \<or> tk_AdmissionKey u \<noteq> k"
proof -
  have "u \<in> set (rows (db_tasks d) (db_task_order d))"
    using assms(1,3) by (auto simp: in_rows_iff tables_keyed_def)
  then show ?thesis using assms(2,4) by (auto simp: admission_taken_def list_ex_iff)
qed

lemma insert_step:
  assumes inv: "task_inv d" and new: "db_tasks d (tk_ID t) = None" "db_truns d (tr_ID r) = None"
    and link: "tr_TaskID r = tk_ID t" "tk_LastRunID t = Some (tr_ID r)" "mirrors r t" "tr_IdempotencyKey r = None"
    and key: "\<not> admission_taken d (tk_SpaceID t) (tk_AdmissionKey t)"
    and canon: "CanonicalPublicID (tk_ID t) = Some (tk_ID t)" "CanonicalPublicID (tr_ID r) = Some (tr_ID r)"
  shows "task_inv (insertTaskAndRun t r d) \<and> task_evolves d (insertTaskAndRun t r d)"
proof -
  let ?d = "insertTaskAndRun t r d"
  have k: "tables_keyed d" using inv by (simp add: task_inv_def)
  have tabs: "db_tasks ?d = (db_tasks d)(tk_ID t \<mapsto> t)" "db_truns ?d = (db_truns d)(tr_ID r \<mapsto> r)"
    "db_task_order ?d = db_task_order d @ [tk_ID t]" "db_trun_order ?d = db_trun_order d @ [tr_ID r]"
    by (simp_all add: insertTaskAndRun_def)
  have "tables_keyed ?d" using k canon by (auto simp: tables_keyed_def tabs)
  moreover have "last_run_mirrored ?d"
    using inv new link unfolding task_inv_def last_run_mirrored_def tabs by (auto split: if_splits) (metis option.distinct(1))+
  moreover have "active_is_last ?d"
    using inv new link unfolding task_inv_def active_is_last_def tabs by (auto split: if_splits) (metis option.distinct(1))+
  moreover have "run_keys_unique ?d"
    using inv link(4) unfolding task_inv_def run_keys_unique_def tabs by (auto split: if_splits)
  moreover have "admission_keys_unique ?d"
    using inv admission_not_taken [OF k key] unfolding task_inv_def admission_keys_unique_def tabs
    by (auto split: if_splits)
  moreover have "task_evolves d ?d" using new by (auto simp: task_evolves_def tabs)
  ultimately show ?thesis by (simp add: task_inv_def)
qed

lemma createTaskAndRun_step:
  "createTaskAndRunTx sp ci now rnd d = Inr ((t, r), d') \<Longrightarrow> task_rel d d'"
  using createTaskAndRunTx_Inr [of sp ci now rnd d t r d'] insert_step [of d t r]
  by (simp add: task_rel_def keeps_def)

text \<open>A further run of a task.\<close>

lemma idempotent_runD:
  assumes "idempotent_run d taskID key = Some r" "tables_keyed d"
  shows "db_truns d (tr_ID r) = Some r" "tr_TaskID r = taskID" "tr_IdempotencyKey r = Some key"
proof -
  have "r \<in> set (rows (db_truns d) (db_trun_order d))" "tr_TaskID r = taskID" "tr_IdempotencyKey r = Some key"
    using assms(1) by (auto simp: idempotent_run_def find_Some_iff)
  then show "db_truns d (tr_ID r) = Some r" "tr_TaskID r = taskID" "tr_IdempotencyKey r = Some key"
    using assms(2) by (auto simp: in_rows_iff tables_keyed_def)
qed

lemma no_idempotent_run:
  "idempotent_run d taskID key = None \<Longrightarrow> tables_keyed d \<Longrightarrow> db_truns d i = Some r \<Longrightarrow> tr_TaskID r = taskID \<Longrightarrow>
     tr_IdempotencyKey r \<noteq> Some key"
  by (auto simp: idempotent_run_def find_None_iff in_rows_iff tables_keyed_def)

lemma run_in_rows: "tables_keyed d \<Longrightarrow> db_truns d i = Some r \<Longrightarrow> r \<in> set (rows (db_truns d) (db_trun_order d))"
  by (auto simp: in_rows_iff tables_keyed_def)

lemma no_active_run:
  "active_runs d taskID = [] \<Longrightarrow> tables_keyed d \<Longrightarrow> db_truns d i = Some r \<Longrightarrow> tr_TaskID r = taskID \<Longrightarrow>
     TaskRunStatusTerminal (tr_Status r)"
  by (drule (1) run_in_rows) (auto simp: active_runs_def filter_empty_conv active_iff)

lemma createTaskRunTx_Inr:
  assumes "createTaskRunTx taskID cr now rnd d = Inr (r, d')"
  obtains (existing) key where "d' = d" "cr_IdempotencyKey cr = Some key" "idempotent_run d taskID key = Some r"
  | (new) t where "db_tasks d taskID = Some t" "db_truns d (tr_ID r) = None" "active_runs d taskID = []"
      "tr_TaskID r = taskID" "tr_Status r = TPending" "mirrors r (mirrorNewRun (tr_ID r) t)"
      "tr_IdempotencyKey r = cr_IdempotencyKey cr" "tr_Input r = cr_Input cr" "CanonicalPublicID (tr_ID r) = Some (tr_ID r)"
      "\<And>key. tr_IdempotencyKey r = Some key \<Longrightarrow> idempotent_run d taskID key = None"
      "d' = d\<lparr>db_truns := (db_truns d)(tr_ID r \<mapsto> r), db_trun_order := db_trun_order d @ [tr_ID r],
               db_tasks := (db_tasks d)(taskID \<mapsto> mirrorNewRun (tr_ID r) t)\<rparr>"
proof -
  obtain t where t: "db_tasks d taskID = Some t" using assms by (auto simp: createTaskRunTx_def)
  define hit where "hit = (case cr_IdempotencyKey cr of None \<Rightarrow> None
      | Some key \<Rightarrow> if key = '''' then None else idempotent_run d taskID key)"
  show thesis
  proof (cases hit)
    case (Some x)
    then obtain key where key: "cr_IdempotencyKey cr = Some key" "idempotent_run d taskID key = Some x" "key \<noteq> ''''"
      by (auto simp: hit_def split: option.splits if_splits)
    then have "x = r" "d' = d" using assms t by (auto simp: createTaskRunTx_def)
    then show thesis using key by (intro existing) auto
  next
    case None
    then show thesis
      using assms t
      by (intro new [OF t]) (auto simp: createTaskRunTx_def hit_def [symmetric] Let_def blankTaskRun_def mirrors_def
          mirrorNewRun_def guardE_def dest!: createWithPublicID_fresh split: option.splits if_splits)
  qed
qed

lemma new_run_step:
  assumes inv: "task_inv d" and t: "db_tasks d taskID = Some t" and new: "db_truns d (tr_ID r) = None"
    and idle: "active_runs d taskID = []" and r: "tr_TaskID r = taskID" "mirrors r (mirrorNewRun (tr_ID r) t)"
    and canon: "CanonicalPublicID (tr_ID r) = Some (tr_ID r)"
    and key: "\<And>key. tr_IdempotencyKey r = Some key \<Longrightarrow> idempotent_run d taskID key = None"
    and d': "d' = d\<lparr>db_truns := (db_truns d)(tr_ID r \<mapsto> r), db_trun_order := db_trun_order d @ [tr_ID r],
                     db_tasks := (db_tasks d)(taskID \<mapsto> mirrorNewRun (tr_ID r) t)\<rparr>"
  shows "task_inv d' \<and> task_evolves d d'"
proof -
  have k: "tables_keyed d" using inv by (simp add: task_inv_def)
  have m: "tk_LastRunID (mirrorNewRun (tr_ID r) t) = Some (tr_ID r)"
    "task_identity (mirrorNewRun (tr_ID r) t) = task_identity t"
    by (simp_all add: mirrorNewRun_def task_identity_def)
  note f = identity_fields(2) [OF m(2)]
  have "tables_keyed d'" using k t f canon by (auto simp: tables_keyed_def d')
  moreover have "last_run_mirrored d'"
    using inv t new m(1) r unfolding task_inv_def last_run_mirrored_def d'
    by (auto split: if_splits) (metis option.distinct(1))+
  moreover have "active_is_last d'"
    using inv m(1) r(1) no_active_run [OF idle k] unfolding task_inv_def active_is_last_def d'
    by (auto split: if_splits)
  moreover have "run_keys_unique d'"
    using inv no_idempotent_run [OF key k] r(1) unfolding task_inv_def run_keys_unique_def d'
    by (auto split: if_splits)
  moreover have "admission_keys_unique d'"
    using inv t f unfolding task_inv_def admission_keys_unique_def d' by (auto split: if_splits)
  moreover have "task_evolves d d'" using t new m(2) by (auto simp: task_evolves_def d')
  ultimately show ?thesis by (simp add: task_inv_def)
qed

lemma createTaskRun_step:
  assumes "createTaskRunTx taskID cr now rnd d = Inr (r, d')"
  shows "task_rel d d'"
  using assms
proof (cases rule: createTaskRunTx_Inr)
  case existing
  then show ?thesis by (simp add: task.db_refl)
next
  case (new t)
  then show ?thesis
    using new_run_step [OF _ new(1,2,3,4,6,9,10,11)] by (simp add: task_rel_def keeps_def)
qed

end
