(* ===== verification/Workflow_Plane.thy ===== *)
theory Workflow_Plane
  imports Workflow_Store Task_Plane
begin

text \<open>
  What the workflow tables promise about one run \<open>rid\<close> whose nodes have been created. \<open>wf_inv rid\<close> ties
  the status of the run, its nodes and its requests together, \<open>wf_evolves rid\<close> says how the rows may
  change: statuses follow the transition tables, a finished run or node and a resolved request are
  frozen, no node of the run appears or disappears. Every transaction of \<open>Workflow_Store\<close> keeps both, for
  any interleaving; the side conditions (a node starts only when its needs have succeeded, a run
  succeeds only when all its nodes have finished) are what the reconciler guarantees.
\<close>

section \<open>Rows over time\<close>

definition node_of :: "string \<Rightarrow> db \<Rightarrow> string \<Rightarrow> NodeRun \<Rightarrow> bool" where
  "node_of rid d i n \<longleftrightarrow> db_nodes d i = Some n \<and> n_WorkflowRunID n = rid"

definition node_identity where
  "node_identity n =
     (n_ID n, n_WorkflowRunID n, n_NodeID n, n_NodeIndex n, n_NodeType n, n_Needs n, n_IssueAccess n, n_TargetAgentID n,
      n_AgentName n, n_AgentDescription n, n_AgentInstructions n, n_AgentRevision n, n_Prompt n, n_Bindings n,
      n_OutputSchema n, n_MaxAttempts n, n_TimeoutSeconds n, n_CreatedAt n)"

definition wnode_evolves :: "NodeRun \<Rightarrow> NodeRun \<Rightarrow> bool" where
  "wnode_evolves n n' \<longleftrightarrow>
     node_identity n' = node_identity n \<and> ValidNodeRunTransition\<^sup>*\<^sup>* (n_Status n) (n_Status n')
     \<and> (NodeRunStatusTerminal (n_Status n) \<longrightarrow> n' = n)"

definition run_identity_wf where
  "run_identity_wf r =
     (r_ID r, r_WorkflowID r, r_WorkflowRevision r, r_IssueID r, r_ScheduleID r, r_ConversationID r, r_RequestedBy r,
      r_AssistantID r, r_AssistantRevision r, r_Input r, r_CreatedBy r, r_CreatedAt r, r_DeadlineAt r)"

definition wrun_evolves :: "Run \<Rightarrow> Run \<Rightarrow> bool" where
  "wrun_evolves r r' \<longleftrightarrow>
     run_identity_wf r' = run_identity_wf r \<and> ValidRunStatusTransition\<^sup>*\<^sup>* (r_Status r) (r_Status r')
     \<and> (RunStatusTerminal (r_Status r) \<longrightarrow> r' = r\<lparr>r_ReportStatus := r_ReportStatus r'\<rparr>)"

definition req_identity where
  "req_identity q =
     (rq_ID q, rq_WorkflowRunID q, rq_Key q, rq_WorkflowID q, rq_NodeRunID q, rq_NodeID q, rq_Kind q, rq_Prompt q,
      rq_Questions q, rq_ResponseSchema q, rq_TaskRunID q, rq_ExpiresAt q, rq_CreatedAt q)"

definition req_evolves :: "Request \<Rightarrow> Request \<Rightarrow> bool" where
  "req_evolves q q' \<longleftrightarrow> req_identity q' = req_identity q \<and> (rq_Status q \<noteq> RequestStatusPending \<longrightarrow> q' = q)"

definition wf_evolves :: "string \<Rightarrow> db \<Rightarrow> db \<Rightarrow> bool" where
  "wf_evolves rid d d' \<longleftrightarrow>
     (\<forall>r. db_runs d rid = Some r \<longrightarrow> (\<exists>r'. db_runs d' rid = Some r' \<and> wrun_evolves r r'))
     \<and> (\<forall>i n. node_of rid d i n \<longrightarrow> (\<exists>n'. node_of rid d' i n' \<and> wnode_evolves n n'))
     \<and> (\<forall>i n'. node_of rid d' i n' \<longrightarrow> (\<exists>n. node_of rid d i n))
     \<and> (\<forall>i q. db_reqs d i = Some q \<longrightarrow> rq_WorkflowRunID q = rid \<longrightarrow> (\<exists>q'. db_reqs d' i = Some q' \<and> req_evolves q q'))"

lemma wnode_evolves_refl [simp]: "wnode_evolves n n"
  by (simp add: wnode_evolves_def)

lemma wnode_evolves_trans: "wnode_evolves a b \<Longrightarrow> wnode_evolves b c \<Longrightarrow> wnode_evolves a c"
  by (auto simp: wnode_evolves_def)

lemma wrun_evolves_refl [simp]: "wrun_evolves r r"
  by (simp add: wrun_evolves_def)

lemma wrun_evolves_trans: assumes "wrun_evolves a b" "wrun_evolves b c" shows "wrun_evolves a c"
proof -
  note a = assms(1) [unfolded wrun_evolves_def] and b = assms(2) [unfolded wrun_evolves_def]
  have "c = a\<lparr>r_ReportStatus := r_ReportStatus c\<rparr>" if t: "RunStatusTerminal (r_Status a)"
  proof -
    have ab: "b = a\<lparr>r_ReportStatus := r_ReportStatus b\<rparr>" using a t by blast
    then have "r_Status b = r_Status a" by (metis Run.select_convs(12) Run.surjective Run.update_convs(10))
    then have "c = b\<lparr>r_ReportStatus := r_ReportStatus c\<rparr>" using b t by simp
    then show ?thesis using ab by (metis Run.surjective Run.update_convs(10))
  qed
  then show ?thesis using a b unfolding wrun_evolves_def by (simp, blast intro: rtranclp_trans)
qed

lemma req_evolves_refl [simp]: "req_evolves q q"
  by (simp add: req_evolves_def)

lemma req_evolves_trans: "req_evolves a b \<Longrightarrow> req_evolves b c \<Longrightarrow> req_evolves a c"
  by (auto simp: req_evolves_def)

lemma req_evolves_run: "req_evolves q q' \<Longrightarrow> rq_WorkflowRunID q' = rq_WorkflowRunID q"
  by (auto simp: req_evolves_def req_identity_def)

lemma wf_evolves_refl: "wf_evolves rid d d"
  by (auto simp: wf_evolves_def)

lemma wf_evolves_trans: assumes "wf_evolves rid a b" "wf_evolves rid b c" shows "wf_evolves rid a c"
  unfolding wf_evolves_def
proof (intro conjI allI impI)
  fix r assume "db_runs a rid = Some r"
  then show "\<exists>r'. db_runs c rid = Some r' \<and> wrun_evolves r r'"
    using assms unfolding wf_evolves_def by (meson wrun_evolves_trans)
next
  fix i n assume "node_of rid a i n"
  then show "\<exists>n'. node_of rid c i n' \<and> wnode_evolves n n'"
    using assms unfolding wf_evolves_def by (meson wnode_evolves_trans)
next
  fix i n assume "node_of rid c i n"
  then show "\<exists>n. node_of rid a i n" using assms unfolding wf_evolves_def by meson
next
  fix i q assume q: "db_reqs a i = Some q" "rq_WorkflowRunID q = rid"
  then obtain q' where q': "db_reqs b i = Some q'" "req_evolves q q'" using assms(1) unfolding wf_evolves_def by blast
  then have "rq_WorkflowRunID q' = rid" using q(2) req_evolves_run by simp
  then obtain q'' where "db_reqs c i = Some q''" "req_evolves q' q''"
    using assms(2) q'(1) unfolding wf_evolves_def by blast
  then show "\<exists>q'. db_reqs c i = Some q' \<and> req_evolves q q'" using q'(2) req_evolves_trans by blast
qed

section \<open>The invariant of a run\<close>

definition wf_keyed :: "db \<Rightarrow> bool" where
  "wf_keyed d \<longleftrightarrow>
     (\<forall>i r. db_runs d i = Some r \<longrightarrow> r_ID r = i) \<and> (\<forall>i n. db_nodes d i = Some n \<longrightarrow> n_ID n = i)
     \<and> (\<forall>i q. db_reqs d i = Some q \<longrightarrow> rq_ID q = i)
     \<and> (\<forall>i. db_runs d i \<noteq> None \<or> db_nodes d i \<noteq> None \<or> db_reqs d i \<noteq> None \<longrightarrow> CanonicalPublicID i = Some i)
     \<and> dom (db_nodes d) \<subseteq> set (db_node_order d) \<and> dom (db_reqs d) \<subseteq> set (db_req_order d)"

definition nodes_distinct :: "string \<Rightarrow> db \<Rightarrow> bool" where
  "nodes_distinct rid d \<longleftrightarrow>
     (\<forall>i j n m. node_of rid d i n \<longrightarrow> node_of rid d j m \<longrightarrow> n_NodeID n = n_NodeID m \<longrightarrow> i = j)"

definition needs_met :: "string \<Rightarrow> db \<Rightarrow> NodeRun \<Rightarrow> bool" where
  "needs_met rid d n \<longleftrightarrow>
     (\<forall>k\<in>set (n_Needs n). \<exists>j m. node_of rid d j m \<and> n_NodeID m = k \<and> n_Status m = NodeRunStatusSucceeded)"

definition started_needs :: "string \<Rightarrow> db \<Rightarrow> bool" where
  "started_needs rid d \<longleftrightarrow>
     (\<forall>i n. node_of rid d i n \<longrightarrow> n_Status n \<noteq> NodeRunStatusPending \<longrightarrow> n_Status n \<noteq> NodeRunStatusBlocked \<longrightarrow>
        needs_met rid d n)"

definition node_linked :: "string \<Rightarrow> db \<Rightarrow> string \<Rightarrow> NodeRun \<Rightarrow> bool" where
  "node_linked rid d i n \<longleftrightarrow>
     (n_Status n = NodeRunStatusPending \<longrightarrow> n_TaskID n = None)
     \<and> (n_Status n = NodeRunStatusRunning \<or> n_Status n = NodeRunStatusRetryWait \<longrightarrow> n_TaskRunID n \<noteq> None)
     \<and> (n_Status n = NodeRunStatusWaiting \<longrightarrow> (\<exists>j q. db_reqs d j = Some q \<and> rq_NodeRunID q = i \<and> rq_WorkflowRunID q = rid))"

definition node_links :: "string \<Rightarrow> db \<Rightarrow> bool" where
  "node_links rid d \<longleftrightarrow> (\<forall>i n. node_of rid d i n \<longrightarrow> node_linked rid d i n)"

text \<open>What the status of the run says about its nodes and requests.\<close>

fun node_allowed :: "RunStatus \<Rightarrow> NodeRunStatus \<Rightarrow> bool" where
  "node_allowed RunStatusPending s = False"
| "node_allowed RunStatusRunning s =
     (s \<noteq> NodeRunStatusFailed \<and> s \<noteq> NodeRunStatusCanceled \<and> s \<noteq> NodeRunStatusBlocked)"
| "node_allowed RunStatusSucceeded s = (s = NodeRunStatusSucceeded)"
| "node_allowed _ s = (s \<noteq> NodeRunStatusPending \<and> s \<noteq> NodeRunStatusWaiting)"

definition status_agrees :: "string \<Rightarrow> db \<Rightarrow> bool" where
  "status_agrees rid d \<longleftrightarrow>
     (\<exists>r. db_runs d rid = Some r \<and> r_Status r \<noteq> RunStatusPending
        \<and> (\<forall>i n. node_of rid d i n \<longrightarrow> node_allowed (r_Status r) (n_Status n))
        \<and> (r_Status r \<noteq> RunStatusRunning \<longrightarrow> r_Status r \<noteq> RunStatusSucceeded \<longrightarrow>
             (\<forall>i q. db_reqs d i = Some q \<longrightarrow> rq_WorkflowRunID q = rid \<longrightarrow> rq_Status q \<noteq> RequestStatusPending))
        \<and> (RunStatusTerminal (r_Status r) \<longrightarrow>
             r_ReconcileOwner r = None \<and> r_LeaseExpiresAt r = None \<and> r_NextReconcileAt r = None))"

definition wf_inv :: "string \<Rightarrow> db \<Rightarrow> bool" where
  "wf_inv rid d \<longleftrightarrow>
     wf_keyed d \<and> nodes_distinct rid d \<and> started_needs rid d \<and> node_links rid d \<and> status_agrees rid d"

definition wf_rel :: "string \<Rightarrow> db \<Rightarrow> db \<Rightarrow> bool" where
  "wf_rel rid = keeps (wf_inv rid) (wf_evolves rid)"

interpretation wf: db_relation "wf_rel rid" for rid
  unfolding wf_rel_def by (rule keeps_relation) (rule wf_evolves_refl, erule (1) wf_evolves_trans)

section \<open>Rules for steps\<close>

lemma terminal_node_stuck: "NodeRunStatusTerminal a \<Longrightarrow> ValidNodeRunTransition\<^sup>*\<^sup>* a b \<Longrightarrow> b = a"
  by (erule converse_rtranclpE) auto

lemma wnode_identity:
  "wnode_evolves n n' \<Longrightarrow>
     n_ID n' = n_ID n \<and> n_WorkflowRunID n' = n_WorkflowRunID n \<and> n_NodeID n' = n_NodeID n \<and> n_Needs n' = n_Needs n"
  by (auto simp: wnode_evolves_def node_identity_def)

lemma wnode_evolvesI:
  "node_identity n' = node_identity n \<Longrightarrow> ValidNodeRunTransition (n_Status n) (n_Status n') \<Longrightarrow> wnode_evolves n n'"
  by (auto simp: wnode_evolves_def)

lemma wrun_evolvesI:
  "run_identity_wf r' = run_identity_wf r \<Longrightarrow> ValidRunStatusTransition (r_Status r) (r_Status r') \<Longrightarrow> wrun_evolves r r'"
  by (auto simp: wrun_evolves_def)

lemma wf_evolves_node: "wf_evolves rid d d' \<Longrightarrow> node_of rid d i n \<Longrightarrow> \<exists>n'. node_of rid d' i n' \<and> wnode_evolves n n'"
  by (simp add: wf_evolves_def)

lemma wf_evolves_back:
  "wf_evolves rid d d' \<Longrightarrow> node_of rid d' i n' \<Longrightarrow> \<exists>n. node_of rid d i n \<and> wnode_evolves n n'"
  unfolding wf_evolves_def node_of_def by (metis option.inject)

lemma needs_met_stable:
  assumes ev: "wf_evolves rid d d'" and met: "needs_met rid d n" and same: "n_Needs n' = n_Needs n"
  shows "needs_met rid d' n'"
  unfolding needs_met_def
proof
  fix k assume "k \<in> set (n_Needs n')"
  then obtain j m where m: "node_of rid d j m" "n_NodeID m = k" "n_Status m = NodeRunStatusSucceeded"
    using met same unfolding needs_met_def by metis
  then obtain m' where "node_of rid d' j m'" "wnode_evolves m m'" using wf_evolves_node [OF ev] by blast
  then show "\<exists>j m. node_of rid d' j m \<and> n_NodeID m = k \<and> n_Status m = NodeRunStatusSucceeded"
    using m by (auto simp: wnode_evolves_def)
qed

lemma wf_step_intro:
  assumes inv: "wf_inv rid d" and ev: "wf_evolves rid d d'" and keyed: "wf_keyed d'"
    and started: "\<And>i n n'. node_of rid d i n \<Longrightarrow> node_of rid d' i n' \<Longrightarrow>
      n_Status n = NodeRunStatusPending \<or> n_Status n = NodeRunStatusBlocked \<Longrightarrow>
      n_Status n' \<noteq> NodeRunStatusPending \<Longrightarrow> n_Status n' \<noteq> NodeRunStatusBlocked \<Longrightarrow> needs_met rid d n"
    and links: "node_links rid d'" and agrees: "status_agrees rid d'"
  shows "wf_inv rid d'"
proof -
  have "nodes_distinct rid d'"
    unfolding nodes_distinct_def
  proof (intro allI impI)
    fix i j n m assume "node_of rid d' i n" "node_of rid d' j m" "n_NodeID n = n_NodeID m"
    moreover then obtain n0 m0 where "node_of rid d i n0" "wnode_evolves n0 n" "node_of rid d j m0" "wnode_evolves m0 m"
      using wf_evolves_back [OF ev] by meson
    ultimately show "i = j"
      using inv wnode_identity [of n0 n] wnode_identity [of m0 m] unfolding wf_inv_def nodes_distinct_def by metis
  qed
  moreover have "started_needs rid d'"
    unfolding started_needs_def
  proof (intro allI impI)
    fix i n' assume n': "node_of rid d' i n'" "n_Status n' \<noteq> NodeRunStatusPending" "n_Status n' \<noteq> NodeRunStatusBlocked"
    then obtain n where n: "node_of rid d i n" "wnode_evolves n n'" using wf_evolves_back [OF ev] by blast
    have "needs_met rid d n"
      using started [OF n(1) n'(1)] n' inv n(1) unfolding wf_inv_def started_needs_def by blast
    then show "needs_met rid d' n'" using needs_met_stable [OF ev] wnode_identity [OF n(2)] by simp
  qed
  ultimately show ?thesis using keyed links agrees by (simp add: wf_inv_def)
qed

lemma wf_invD:
  assumes "wf_inv rid d"
  shows "wf_keyed d" "node_of rid d i n \<Longrightarrow> n_ID n = i"
    "\<exists>r. db_runs d rid = Some r"
    "node_links rid d" "status_agrees rid d"
  using assms by (auto simp: wf_inv_def wf_keyed_def node_of_def status_agrees_def)

lemma status_agreesD:
  assumes "status_agrees rid d" "db_runs d rid = Some r"
  shows "r_Status r \<noteq> RunStatusPending" "node_of rid d i n \<Longrightarrow> node_allowed (r_Status r) (n_Status n)"
  using assms by (auto simp: status_agrees_def)

text \<open>Nothing of the run is touched.\<close>

definition same_wf :: "db \<Rightarrow> db \<Rightarrow> bool" where
  "same_wf d d' \<longleftrightarrow>
     db_runs d' = db_runs d \<and> db_nodes d' = db_nodes d \<and> db_reqs d' = db_reqs d
     \<and> db_node_order d' = db_node_order d \<and> db_req_order d' = db_req_order d"

lemma same_wf_rel: assumes "same_wf d d'" shows "wf_rel rid d d'"
proof -
  have nd: "node_of rid d' = node_of rid d" using assms by (intro ext) (simp add: node_of_def same_wf_def)
  have "wf_inv rid d' = wf_inv rid d"
    using assms by (simp add: wf_inv_def wf_keyed_def nodes_distinct_def started_needs_def needs_met_def
        node_links_def node_linked_def status_agrees_def nd same_wf_def)
  moreover have "wf_evolves rid d d'" using assms by (auto simp: wf_evolves_def nd same_wf_def)
  ultimately show ?thesis by (simp add: wf_rel_def keeps_def)
qed

text \<open>One node is rewritten.\<close>

lemma node_step:
  assumes inv: "wf_inv rid d" and n: "db_nodes d i = Some n" and ev: "wnode_evolves n n'"
    and d': "db_nodes d' = (db_nodes d)(i \<mapsto> n')" "db_runs d' = db_runs d" "db_reqs d' = db_reqs d"
      "db_node_order d' = db_node_order d" "db_req_order d' = db_req_order d"
    and started: "n_WorkflowRunID n = rid \<Longrightarrow> n_Status n = NodeRunStatusPending \<or> n_Status n = NodeRunStatusBlocked \<Longrightarrow>
      n_Status n' \<noteq> NodeRunStatusPending \<Longrightarrow> n_Status n' \<noteq> NodeRunStatusBlocked \<Longrightarrow> needs_met rid d n"
    and links: "n_WorkflowRunID n = rid \<Longrightarrow> node_linked rid d i n'"
    and allowed: "\<And>r. n_WorkflowRunID n = rid \<Longrightarrow> db_runs d rid = Some r \<Longrightarrow> node_allowed (r_Status r) (n_Status n')"
  shows "wf_inv rid d' \<and> wf_evolves rid d d'"
proof -
  have idn: "n_ID n' = n_ID n" "n_WorkflowRunID n' = n_WorkflowRunID n" using wnode_identity [OF ev] by auto
  have nd: "node_of rid d' j m \<longleftrightarrow> (if j = i then m = n' \<and> n_WorkflowRunID n = rid else node_of rid d j m)" for j m
    using idn(2) by (auto simp: node_of_def d')
  have "\<exists>m'. node_of rid d' j m' \<and> wnode_evolves m m'" if "node_of rid d j m" for j m
    using that n ev unfolding nd by (cases "j = i") (auto simp: node_of_def)
  moreover have "\<exists>m. node_of rid d j m" if "node_of rid d' j m'" for j m'
    using that n unfolding nd by (cases "j = i") (auto simp: node_of_def)
  ultimately have ev': "wf_evolves rid d d'" by (auto simp: wf_evolves_def d'(2,3))
  have "wf_inv rid d'"
  proof (rule wf_step_intro [OF inv ev'])
    show "wf_keyed d'" using inv n idn(1) by (auto simp: wf_inv_def wf_keyed_def d')
    show "needs_met rid d m" if "node_of rid d j m" "node_of rid d' j m'"
      "n_Status m = NodeRunStatusPending \<or> n_Status m = NodeRunStatusBlocked"
      "n_Status m' \<noteq> NodeRunStatusPending" "n_Status m' \<noteq> NodeRunStatusBlocked" for j m m'
    proof (cases "j = i")
      case True
      then show ?thesis using that started n by (auto simp: d'(1) node_of_def)
    next
      case False
      then show ?thesis using that by (auto simp: d'(1) node_of_def)
    qed
    show "node_links rid d'"
      using inv links unfolding wf_inv_def node_links_def node_linked_def nd d'(3) by (auto split: if_splits)
    show "status_agrees rid d'"
      using inv allowed unfolding wf_inv_def status_agrees_def nd d'(2,3) by auto
  qed
  then show ?thesis using ev' by simp
qed

text \<open>One run row is rewritten.\<close>

lemma run_step:
  assumes inv: "wf_inv rid d" and r: "db_runs d i = Some r" and ev: "i = rid \<Longrightarrow> wrun_evolves r r'"
    and rid': "r_ID r' = r_ID r"
    and d': "db_runs d' = (db_runs d)(i \<mapsto> r')" "db_nodes d' = db_nodes d" "db_reqs d' = db_reqs d"
      "db_node_order d' = db_node_order d" "db_req_order d' = db_req_order d"
    and agrees: "i = rid \<Longrightarrow> status_agrees rid d'"
  shows "wf_inv rid d' \<and> wf_evolves rid d d'"
proof -
  have nd: "node_of rid d' = node_of rid d" by (intro ext) (simp add: node_of_def d')
  have "\<exists>s'. db_runs d' rid = Some s' \<and> wrun_evolves s s'" if "db_runs d rid = Some s" for s
    using that r ev by (cases "rid = i") (auto simp: d')
  then have ev': "wf_evolves rid d d'" by (auto simp: wf_evolves_def nd d'(3))
  have k: "wf_keyed d'" using inv r rid' by (auto simp: wf_inv_def wf_keyed_def d')
  have a: "status_agrees rid d'"
  proof (cases "i = rid")
    case False
    then show ?thesis using inv by (simp add: wf_inv_def status_agrees_def nd d'(1,3))
  qed (rule agrees)
  have l: "node_links rid d'" using inv by (simp add: wf_inv_def node_links_def node_linked_def nd d'(3))
  have "wf_inv rid d'"
    by (rule wf_step_intro [OF inv ev' k _ l a]) (auto simp: nd node_of_def)
  then show ?thesis using ev' by simp
qed

text \<open>A request row is added or rewritten.\<close>

lemma req_step:
  assumes inv: "wf_inv rid d"
    and d': "db_reqs d' = (db_reqs d)(i \<mapsto> q')" "db_nodes d' = db_nodes d" "db_runs d' = db_runs d"
      "db_node_order d' = db_node_order d" "set (db_req_order d') = insert i (set (db_req_order d))"
    and q': "rq_ID q' = i" "\<And>q. db_reqs d i = Some q \<Longrightarrow> req_evolves q q'" "CanonicalPublicID i = Some i"
    and pend: "\<And>r. rq_WorkflowRunID q' = rid \<Longrightarrow> db_runs d rid = Some r \<Longrightarrow> rq_Status q' = RequestStatusPending \<Longrightarrow>
      r_Status r = RunStatusRunning"
  shows "wf_inv rid d' \<and> wf_evolves rid d d'"
proof -
  have nd: "node_of rid d' = node_of rid d" by (intro ext) (simp add: node_of_def d')
  have old: "\<exists>q''. db_reqs d' j = Some q'' \<and> req_evolves q q''" if "db_reqs d j = Some q" for j q
    using that q'(2) by (cases "j = i") (auto simp: d')
  have ev': "wf_evolves rid d d'" using old by (auto simp: wf_evolves_def nd d'(3))
  have k: "wf_keyed d'" using inv q'(1,3) d'(5) by (auto simp: wf_inv_def wf_keyed_def d'(1,2,3,4))
  have l: "node_links rid d'"
    unfolding node_links_def nd
  proof (intro allI impI)
    fix j n assume "node_of rid d j n"
    then have n: "node_linked rid d j n" using inv by (simp add: wf_inv_def node_links_def)
    have "\<exists>k q. db_reqs d' k = Some q \<and> rq_NodeRunID q = j \<and> rq_WorkflowRunID q = rid"
      if "db_reqs d k = Some q" "rq_NodeRunID q = j" "rq_WorkflowRunID q = rid" for k q
      using old [OF that(1)] that(2,3) by (force simp: req_evolves_def req_identity_def)
    then show "node_linked rid d' j n" using n unfolding node_linked_def by blast
  qed
  have a: "status_agrees rid d'"
    using inv pend unfolding wf_inv_def status_agrees_def nd d'(3) by (auto simp: d'(1))
  have "wf_inv rid d'"
    by (rule wf_step_intro [OF inv ev' k _ l a]) (auto simp: nd node_of_def)
  then show ?thesis using ev' by simp
qed

text \<open>A stop: pending and waiting nodes end, pending requests close, the run starts draining.\<close>

lemma stop_node_evolves: "wnode_evolves n (stop_node rid now n)"
  by (cases "n_Status n") (simp_all add: stop_node_def wnode_evolvesI node_identity_def)

lemma stop_request_evolves: "req_evolves q (stop_request rid q)"
  by (auto simp: stop_request_def req_evolves_def req_identity_def)

lemma stop_node_run [simp]: "n_WorkflowRunID (stop_node x now n) = n_WorkflowRunID n"
  by (simp add: stop_node_def)

lemma stop_ids [simp]: "n_ID (stop_node x now n) = n_ID n" "rq_ID (stop_request x q) = rq_ID q"
  by (simp_all add: stop_node_def stop_request_def)

lemma stop_node_running: assumes "n_Status (stop_node x now n) = NodeRunStatusRunning" shows "stop_node x now n = n"
proof -
  have "n_Status n = NodeRunStatusRunning"
    using assms by (cases "n_WorkflowRunID n = x"; cases "n_Status n") (simp_all add: stop_node_def)
  then show ?thesis by (simp add: stop_node_def)
qed

lemma stop_node_started:
  "n_Status n = NodeRunStatusPending \<or> n_Status n = NodeRunStatusBlocked \<Longrightarrow>
     n_Status (stop_node x now n) = NodeRunStatusPending \<or> n_Status (stop_node x now n) = NodeRunStatusBlocked"
  by (auto simp: stop_node_def)

lemma stop_node_other: "n_WorkflowRunID n \<noteq> x \<Longrightarrow> stop_node x now n = n"
  by (simp add: stop_node_def)

lemma stop_node_status:
  "n_WorkflowRunID n = x \<Longrightarrow> n_Status (stop_node x now n) \<noteq> NodeRunStatusPending
     \<and> n_Status (stop_node x now n) \<noteq> NodeRunStatusWaiting \<and> n_Status (stop_node x now n) \<noteq> NodeRunStatusRetryWait"
  by (simp add: stop_node_def)

lemma stop_request_run [simp]: "rq_WorkflowRunID (stop_request x q) = rq_WorkflowRunID q"
  by (simp add: stop_request_def)

lemma stop_request_other: "rq_WorkflowRunID q \<noteq> x \<Longrightarrow> stop_request x q = q"
  by (simp add: stop_request_def)

lemma stop_request_status:
  "rq_WorkflowRunID q = x \<Longrightarrow> rq_Status (stop_request x q) \<noteq> RequestStatusPending"
  by (simp add: stop_request_def)

lemma stop_step:
  assumes inv: "wf_inv rid d" and r: "db_runs d x = Some r" and ev: "wrun_evolves r r'"
    and drains: "r_Status r' = RunStatusFailing \<or> r_Status r' = RunStatusCanceling"
    and d': "db_runs d' = (db_runs d)(x \<mapsto> r')" "\<And>j. db_nodes d' j = map_option (g j) (db_nodes d j)"
      "\<And>j. db_reqs d' j = map_option (stop_request x) (db_reqs d j)"
      "db_node_order d' = db_node_order d" "db_req_order d' = db_req_order d"
    and g: "\<And>j n. db_nodes d j = Some n \<Longrightarrow> wnode_evolves n (g j n)"
      "\<And>j n. db_nodes d j = Some n \<Longrightarrow> n_WorkflowRunID n \<noteq> x \<Longrightarrow> g j n = n"
      "\<And>j n. db_nodes d j = Some n \<Longrightarrow> n_WorkflowRunID n = x \<Longrightarrow>
         NodeRunStatusTerminal (n_Status (g j n)) \<or> g j n = n \<and> n_Status n = NodeRunStatusRunning"
      "\<And>j n. node_of rid d j n \<Longrightarrow> n_Status n = NodeRunStatusPending \<or> n_Status n = NodeRunStatusBlocked \<Longrightarrow>
         n_Status (g j n) \<noteq> NodeRunStatusPending \<Longrightarrow> n_Status (g j n) \<noteq> NodeRunStatusBlocked \<Longrightarrow> needs_met rid d n"
  shows "wf_inv rid d' \<and> wf_evolves rid d d'"
proof -
  note nodes = d'(2) and reqs = d'(3)
  have gid: "n_ID (g j n) = n_ID n" "n_WorkflowRunID (g j n) = n_WorkflowRunID n" if "db_nodes d j = Some n" for j n
    using wnode_identity [OF g(1) [OF that]] by simp_all
  have nd: "node_of rid d' j m \<longleftrightarrow> (\<exists>n. node_of rid d j n \<and> m = g j n)" for j m
    using gid(2) by (auto simp: node_of_def nodes)
  have run: "\<exists>s'. db_runs d' rid = Some s' \<and> wrun_evolves s s'" if "db_runs d rid = Some s" for s
    using that r ev by (cases "rid = x") (auto simp: d')
  have ev': "wf_evolves rid d d'"
    unfolding wf_evolves_def nd using run g(1) stop_request_evolves by (auto simp: reqs node_of_def)
  have "r_ID r' = r_ID r" using ev by (simp add: wrun_evolves_def run_identity_wf_def)
  then have k: "wf_keyed d'"
    using inv r gid(1) by (auto simp: wf_inv_def wf_keyed_def nodes reqs d'(1,4,5) dom_def)
  have lk: "node_linked rid d j n" if "node_of rid d j n" for j n using inv that by (simp add: wf_inv_def node_links_def)
  have "node_linked rid d' j (g j n)" if n: "node_of rid d j n" for j n
  proof (cases "x = rid")
    case True
    then show ?thesis using g(3) [of j n] lk [OF n] n by (auto simp: node_linked_def node_of_def)
  next
    case False
    have "stop_request x q = q" if "rq_WorkflowRunID q = rid" for q using that False by (simp add: stop_request_def)
    then have "db_reqs d' k = Some q" if "db_reqs d k = Some q" "rq_WorkflowRunID q = rid" for k q
      using that by (simp add: reqs)
    moreover have "g j n = n" using n False g(2) by (simp add: node_of_def)
    ultimately show ?thesis using lk [OF n] unfolding node_linked_def by metis
  qed
  then have l: "node_links rid d'" by (auto simp: node_links_def nd)
  have a: "status_agrees rid d'"
  proof (cases "x = rid")
    case True
    have "n_Status (g j n) \<noteq> NodeRunStatusPending" "n_Status (g j n) \<noteq> NodeRunStatusWaiting" if "node_of rid d j n" for j n
      using g(3) [of j n] that True by (auto simp: node_of_def)
    moreover have "rq_Status q \<noteq> RequestStatusPending" if q: "db_reqs d' j = Some q" "rq_WorkflowRunID q = rid" for j q
    proof -
      obtain z where "q = stop_request x z" using q(1) by (auto simp: reqs)
      then show ?thesis using stop_request_status [of z x] q(2) True by simp
    qed
    ultimately show ?thesis using drains True unfolding status_agrees_def nd by (auto simp: d'(1))
  next
    case False
    have same: "node_of rid d' j n = node_of rid d j n" for j n
      unfolding nd using False g(2) by (auto simp: node_of_def)
    have req: "db_reqs d j = Some q" if "db_reqs d' j = Some q" "rq_WorkflowRunID q = rid" for j q
      using that False stop_request_other by (auto simp: reqs)
    have "db_runs d' rid = db_runs d rid" using False by (simp add: d'(1))
    then show ?thesis using inv req unfolding wf_inv_def status_agrees_def same by metis
  qed
  have "wf_inv rid d'"
  proof (rule wf_step_intro [OF inv ev' k _ l a])
    fix j n n' assume n: "node_of rid d j n" "node_of rid d' j n'"
      and st: "n_Status n = NodeRunStatusPending \<or> n_Status n = NodeRunStatusBlocked"
      "n_Status n' \<noteq> NodeRunStatusPending" "n_Status n' \<noteq> NodeRunStatusBlocked"
    have "n' = g j n" using n by (simp add: node_of_def nodes)
    then show "needs_met rid d n" using g(4) [OF n(1)] st by blast
  qed
  then show ?thesis using ev' by simp
qed

section \<open>The transactions\<close>

lemma update_miss:
  "\<not> (\<exists>r. db_runs d i = Some r \<and> P r) \<Longrightarrow> updateRunWhere i P f d = (False, d)"
  "\<not> (\<exists>n. db_nodes d i = Some n \<and> Q n) \<Longrightarrow> updateNodeWhere i Q g d = (False, d)"
  "\<not> (\<exists>q. db_reqs d i = Some q \<and> S q) \<Longrightarrow> updateReqWhere i S h d = (False, d)"
  by (auto simp: updateRunWhere_def updateNodeWhere_def updateReqWhere_def split: option.split)

lemma run_effects:
  "run_identity_wf (stopRunUpdates st em fc r) = run_identity_wf r" "r_Status (stopRunUpdates st em fc r) = st"
  "run_identity_wf (transitionUpdates ti r) = run_identity_wf r" "r_Status (transitionUpdates ti r) = ti_NewStatus ti"
  by (simp_all add: stopRunUpdates_def transitionUpdates_def runStatusUpdates_def run_identity_wf_def Let_def)

lemma stop_node_ends:
  "n_WorkflowRunID n = x \<Longrightarrow> NodeRunStatusTerminal (n_Status (stop_node x now n))
     \<or> stop_node x now n = n \<and> n_Status n = NodeRunStatusRunning"
  by (cases "n_Status n") (simp_all add: stop_node_def)

lemma stopRunTx_step:
  assumes v: "ValidRunStatusTransition (sr_RunExpected sr) (sr_RunStatus sr)"
      "sr_RunStatus sr = RunStatusFailing \<or> sr_RunStatus sr = RunStatusCanceling"
    and res: "stopRunTx x sr now d = Inr (b, d')"
  shows "wf_rel rid d d'"
proof (cases "\<exists>r. db_runs d x = Some r \<and> r_Status r = sr_RunExpected sr")
  case True
  then obtain r where r: "db_runs d x = Some r" "r_Status r = sr_RunExpected sr" by blast
  let ?r = "stopRunUpdates (sr_RunStatus sr) (sr_ErrorMessage sr) (sr_FailureClass sr) r"
  have d': "d' = (stopPendingNodesTx x now d)\<lparr>db_runs := (db_runs d)(x \<mapsto> ?r)\<rparr>"
    using res r by (simp add: stopRunTx_def updateRunWhere_def stopPendingNodesTx_def)
  have "wf_inv rid d' \<and> wf_evolves rid d d'" if inv: "wf_inv rid d"
  proof (rule stop_step [OF inv r(1), where r' = ?r and g = "\<lambda>j. stop_node x now"])
    show "wrun_evolves r ?r" using v r by (intro wrun_evolvesI) (simp_all add: run_effects)
    show "needs_met rid d n" if "n_Status n = NodeRunStatusPending \<or> n_Status n = NodeRunStatusBlocked"
      "n_Status (stop_node x now n) \<noteq> NodeRunStatusPending" "n_Status (stop_node x now n) \<noteq> NodeRunStatusBlocked" for n
      using stop_node_started [OF that(1)] that(2,3) by blast
  qed (use v in \<open>auto simp: run_effects d' stopPendingNodesTx_def stop_node_evolves stop_node_other stop_node_ends\<close>)
  then show ?thesis by (simp add: wf_rel_def keeps_def)
next
  case False
  then have "d' = d" using res by (auto simp: stopRunTx_def split: option.splits if_splits)
  then show ?thesis by (simp add: wf.db_refl)
qed

text \<open>A node that has left the pending state never starts again; a ready node is one whose needs are met.
  \<open>may_start rid d i\<close> is the licence to start node \<open>i\<close>.\<close>

definition may_start :: "string \<Rightarrow> db \<Rightarrow> string \<Rightarrow> bool" where
  "may_start rid d i \<longleftrightarrow> (\<forall>n. node_of rid d i n \<longrightarrow> needs_met rid d n)"

lemma drainNode_effects:
  "node_identity (drainNodeUpdates bd t n) = node_identity n" "n_Status (drainNodeUpdates bd t n) = bd_NodeStatus bd"
  "n_WorkflowRunID (drainNodeUpdates bd t n) = n_WorkflowRunID n"
  by (simp_all add: drainNodeUpdates_def node_identity_def)

lemma stop_node_terminal: "NodeRunStatusTerminal (n_Status n) \<Longrightarrow> stop_node x now n = n"
  by (cases "n_Status n") (simp_all add: stop_node_def)

lemma beginDrainTx_step:
  assumes v: "ValidNodeRunTransition (bd_NodeExpected bd) (bd_NodeStatus bd)"
      "ValidRunStatusTransition (bd_RunExpected bd) (bd_RunStatus bd)"
      "bd_RunStatus bd = RunStatusFailing \<or> bd_RunStatus bd = RunStatusCanceling"
      "NodeRunStatusTerminal (bd_NodeStatus bd)"
    and start: "bd_NodeExpected bd = NodeRunStatusPending \<Longrightarrow> may_start rid d sid"
    and res: "beginDrainTx x sid bd now d = Inr (b, d')"
  shows "wf_rel rid d d'"
proof (cases "d' = d")
  case True
  then show ?thesis by (simp add: wf.db_refl)
next
  case False
  obtain r where r: "db_runs d x = Some r" using res by (auto simp: beginDrainTx_def)
  have rs: "r_Status r = bd_RunExpected bd" using res r False by (auto simp: beginDrainTx_def split: if_splits)
  obtain t where t: "optionalKey (\<lambda>i. db_truns d i \<noteq> None) (bd_TaskRunID bd) = Inr t"
    using res r rs by (auto simp: beginDrainTx_def)
  let ?f = "drainNodeUpdates bd t"
  let ?r = "stopRunUpdates (bd_RunStatus bd) (bd_ErrorMessage bd) (bd_FailureClass bd) r"
  obtain n where n: "db_nodes d sid = Some n" "n_WorkflowRunID n = x" "n_Status n = bd_NodeExpected bd"
    using res r rs t False
    by (auto simp: beginDrainTx_def updateNodeWhere_def split: option.splits if_splits)
  have ne: "?f n \<noteq> n" using n(3) v(1) drainNode_effects(2) [of bd t n] by auto
  have d': "d' = (stopPendingNodesTx x now (d\<lparr>db_nodes := (db_nodes d)(sid \<mapsto> ?f n)\<rparr>))\<lparr>db_runs := (db_runs d)(x \<mapsto> ?r)\<rparr>"
    using res r rs t n ne by (simp add: beginDrainTx_def updateNodeWhere_def updateRunWhere_def stopPendingNodesTx_def Let_def)
  have fin: "stop_node x now (?f n) = ?f n" by (rule stop_node_terminal) (simp add: drainNode_effects v(4))
  define g where "g = (\<lambda>j m. if j = sid then ?f m else stop_node x now m)"
  have "wf_inv rid d' \<and> wf_evolves rid d d'" if inv: "wf_inv rid d"
  proof (rule stop_step [OF inv r(1), where r' = ?r and g = g])
    show "wrun_evolves r ?r" using v rs by (intro wrun_evolvesI) (simp_all add: run_effects)
    show "db_nodes d' j = map_option (g j) (db_nodes d j)" for j
      using n fin by (simp add: d' stopPendingNodesTx_def g_def)
    show "wnode_evolves m (g j m)" if "db_nodes d j = Some m" for j m
      using that n v(1) by (auto simp: g_def stop_node_evolves drainNode_effects intro!: wnode_evolvesI)
    show "g j m = m" if "db_nodes d j = Some m" "n_WorkflowRunID m \<noteq> x" for j m
      using that n by (auto simp: g_def stop_node_other)
    show "NodeRunStatusTerminal (n_Status (g j m)) \<or> g j m = m \<and> n_Status m = NodeRunStatusRunning"
      if "n_WorkflowRunID m = x" for j m
      using stop_node_ends [OF that] v(4) by (simp add: g_def drainNode_effects)
    show "needs_met rid d m" if m: "node_of rid d j m"
      and st: "n_Status m = NodeRunStatusPending \<or> n_Status m = NodeRunStatusBlocked"
        "n_Status (g j m) \<noteq> NodeRunStatusPending" "n_Status (g j m) \<noteq> NodeRunStatusBlocked" for j m
    proof (cases "j = sid")
      case True
      then have "m = n" using m n(1) by (simp add: node_of_def)
      then have "bd_NodeExpected bd = NodeRunStatusPending" using st(1) n(3) v(1) by auto
      then show ?thesis using start m True by (simp add: may_start_def)
    next
      case False
      then show ?thesis using stop_node_started [OF st(1)] st(2,3) by (auto simp: g_def)
    qed
  qed (use v in \<open>auto simp: run_effects d' stopPendingNodesTx_def\<close>)
  then show ?thesis by (simp add: wf_rel_def keeps_def)
qed

text \<open>Guarded transitions of a run and of a node.\<close>

lemma node_allowed_finished:
  "node_allowed s a \<Longrightarrow> NodeRunStatusTerminal a \<Longrightarrow> s = RunStatusRunning \<Longrightarrow> a = NodeRunStatusSucceeded"
  by (cases a) simp_all

lemma transitionWorkflowRunTx_step:
  assumes v: "ValidRunStatusTransition (ti_ExpectedStatus ti) (ti_NewStatus ti)"
    and ok: "ti_ExpectedStatus ti = RunStatusRunning \<Longrightarrow> ti_NewStatus ti = RunStatusSucceeded"
      "ti_ExpectedStatus ti \<noteq> RunStatusPending"
    and all: "x = rid \<Longrightarrow> ti_NewStatus ti = RunStatusSucceeded \<Longrightarrow> \<forall>i n. node_of rid d i n \<longrightarrow> NodeRunStatusTerminal (n_Status n)"
    and res: "transitionWorkflowRunTx x ti d = Inr (b, d')"
  shows "wf_rel rid d d'"
proof (cases "\<exists>r. db_runs d x = Some r \<and> r_Status r = ti_ExpectedStatus ti")
  case True
  then obtain r where r: "db_runs d x = Some r" "r_Status r = ti_ExpectedStatus ti" by blast
  let ?r = "transitionUpdates ti r"
  have ne: "?r \<noteq> r" using v r(2) run_effects(4) [of ti r] by auto
  have d': "db_runs d' = (db_runs d)(x \<mapsto> ?r)" "db_nodes d' = db_nodes d" "db_reqs d' = db_reqs d"
    "db_node_order d' = db_node_order d" "db_req_order d' = db_req_order d"
    using res r ne by (auto simp: transitionWorkflowRunTx_def updateRunWhere_def foldScheduleOutcome_def Let_def
        split: option.splits if_splits)
  have nd: "node_of rid d' = node_of rid d" by (intro ext) (simp add: node_of_def d')
  have "wf_inv rid d' \<and> wf_evolves rid d d'" if inv: "wf_inv rid d"
  proof (rule run_step [OF inv r(1), where r' = ?r])
    show "wrun_evolves r ?r" using v r by (intro wrun_evolvesI) (simp_all add: run_effects)
    show "status_agrees rid d'" if x: "x = rid"
    proof -
      have ag: "status_agrees rid d" using inv by (simp add: wf_inv_def)
      note al = status_agreesD(2) [OF ag r(1) [unfolded x]]
      have "node_allowed (ti_NewStatus ti) (n_Status n)" if "node_of rid d i n" for i n
      proof (cases "ti_ExpectedStatus ti = RunStatusRunning")
        case True
        then have "NodeRunStatusTerminal (n_Status n)" using all [OF x ok(1)] that by blast
        then show ?thesis using node_allowed_finished [OF al [OF that]] r(2) True ok(1) by simp
      next
        case False
        then show ?thesis using al [OF that] v ok(2) r(2) by (cases "ti_ExpectedStatus ti") auto
      qed
      moreover have "ti_NewStatus ti \<noteq> RunStatusRunning" "ti_NewStatus ti \<noteq> RunStatusPending"
        using v ok by (cases "ti_ExpectedStatus ti"; auto)+
      moreover have "ti_NewStatus ti \<noteq> RunStatusSucceeded \<Longrightarrow> r_Status r \<noteq> RunStatusRunning \<and> r_Status r \<noteq> RunStatusSucceeded"
        using v ok r(2) by auto
      moreover have "r_ReconcileOwner ?r = None \<and> r_LeaseExpiresAt ?r = None \<and> r_NextReconcileAt ?r = None"
        if "RunStatusTerminal (ti_NewStatus ti)"
        using that by (simp add: transitionUpdates_def runStatusUpdates_def Let_def)
      ultimately show ?thesis
        using ag r(1) x unfolding status_agrees_def nd by (auto simp: d' run_effects)
    qed
  qed (use d' run_effects(3) [of ti r] in \<open>simp_all add: run_identity_wf_def\<close>)
  then show ?thesis by (simp add: wf_rel_def keeps_def)
next
  case False
  then have "d' = d" using res by (simp add: transitionWorkflowRunTx_def update_miss)
  then show ?thesis by (simp add: wf.db_refl)
qed

lemma Canonical_nonempty: "CanonicalPublicID p = Some k \<Longrightarrow> k \<noteq> ''''"
  by (auto simp: CanonicalPublicID_def PublicIDLen_def Let_def split: if_splits)

lemma lookupKey_nonempty: "lookupKey present p = Inr k \<Longrightarrow> k \<noteq> ''''"
  using lookupKey_Inr Canonical_nonempty by metis

lemma resolveHandle_Inr:
  "resolveHandle present v = Inr w \<Longrightarrow> (v = None \<longrightarrow> w = None) \<and> (\<forall>p. v = Some p \<longrightarrow> p \<noteq> '''' \<longrightarrow> (\<exists>k. w = Some k \<and> k \<noteq> ''''))"
  using lookupKey_nonempty by (cases v) (auto simp: resolveHandle_def split: if_splits)

lemma node_allowed_moves:
  "node_allowed s a \<Longrightarrow> a \<noteq> NodeRunStatusSucceeded \<Longrightarrow> b \<noteq> NodeRunStatusPending \<Longrightarrow> b \<noteq> NodeRunStatusWaiting \<Longrightarrow>
     b \<noteq> NodeRunStatusBlocked \<Longrightarrow> (b = NodeRunStatusFailed \<or> b = NodeRunStatusCanceled \<Longrightarrow> s \<noteq> RunStatusRunning) \<Longrightarrow>
     node_allowed s b"
  by (cases s) auto

text \<open>The conditions under which the reconciler moves a node of \<open>rid\<close> with a plain transition.\<close>

definition node_move_ok :: "string \<Rightarrow> db \<Rightarrow> string \<Rightarrow> TransitionNodeRunInput \<Rightarrow> bool" where
  "node_move_ok rid d i tn \<longleftrightarrow>
     tn_NewStatus tn \<noteq> NodeRunStatusWaiting \<and> tn_NewStatus tn \<noteq> NodeRunStatusBlocked
     \<and> (tn_ExpectedStatus tn = NodeRunStatusPending \<longrightarrow> (\<forall>n. node_of rid d i n \<longrightarrow> n_Status n \<noteq> NodeRunStatusPending))
     \<and> (tn_NewStatus tn = NodeRunStatusFailed \<or> tn_NewStatus tn = NodeRunStatusCanceled \<longrightarrow>
          (\<forall>n r. node_of rid d i n \<longrightarrow> db_runs d rid = Some r \<longrightarrow> r_Status r \<noteq> RunStatusRunning))
     \<and> (tn_NewStatus tn = NodeRunStatusRunning \<longrightarrow> tn_ExpectedStatus tn \<noteq> NodeRunStatusPending \<longrightarrow> (\<exists>k. tn_TaskRunID tn = Some k \<and> k \<noteq> ''''))
     \<and> (tn_NewStatus tn = NodeRunStatusRetryWait \<longrightarrow> tn_TaskRunID tn = None)"

lemma stepTransition_effects:
  assumes "stepTransitionUpdates d tn = Inr f"
  shows "node_identity (f n) = node_identity n" "n_Status (f n) = tn_NewStatus tn"
    "tn_TaskRunID tn = None \<Longrightarrow> n_TaskRunID (f n) = n_TaskRunID n"
    "tn_TaskRunID tn = Some k \<Longrightarrow> k \<noteq> '''' \<Longrightarrow> n_TaskRunID (f n) \<noteq> None"
  using assms by (auto simp: stepTransitionUpdates_def node_identity_def dest!: resolveHandle_Inr)

lemma transition_sources:
  assumes "ValidNodeRunTransition a b"
  shows "b \<noteq> NodeRunStatusPending" "b = NodeRunStatusRetryWait \<Longrightarrow> a = NodeRunStatusRunning"
    "a \<noteq> NodeRunStatusSucceeded"
  using assms by (cases a; auto)+

lemma transitionNodeRunTx_step:
  assumes v: "ValidNodeRunTransition (tn_ExpectedStatus tn) (tn_NewStatus tn)"
    and ok: "node_move_ok rid d i tn"
    and res: "transitionNodeRunTx i tn d = Inr (b, d')"
  shows "wf_rel rid d d'"
proof (cases "\<exists>n. db_nodes d i = Some n \<and> n_Status n = tn_ExpectedStatus tn")
  case True
  then obtain n where n: "db_nodes d i = Some n" "n_Status n = tn_ExpectedStatus tn" by blast
  obtain f where f: "stepTransitionUpdates d tn = Inr f" using res by (auto simp: transitionNodeRunTx_def)
  note eff = stepTransition_effects [OF f, where n = n]
  have d': "d' = d\<lparr>db_nodes := (db_nodes d)(i \<mapsto> f n)\<rparr>"
    using res n f by (simp add: transitionNodeRunTx_def updateNodeWhere_def)
  have "wf_inv rid d' \<and> wf_evolves rid d d'" if inv: "wf_inv rid d"
  proof (rule node_step [OF inv n(1), where n' = "f n"])
    show "wnode_evolves n (f n)" using v n(2) by (intro wnode_evolvesI) (simp_all add: eff)
    show "needs_met rid d n" if "n_WorkflowRunID n = rid"
      "n_Status n = NodeRunStatusPending \<or> n_Status n = NodeRunStatusBlocked"
      using that ok v n by (auto simp: node_move_ok_def node_of_def)
    show "node_linked rid d i (f n)" if "n_WorkflowRunID n = rid"
    proof -
      have "node_linked rid d i n" using inv n(1) that by (simp add: wf_inv_def node_links_def node_of_def)
      moreover have "tn_ExpectedStatus tn \<noteq> NodeRunStatusPending"
        using ok n that by (auto simp: node_move_ok_def node_of_def)
      then have "tn_NewStatus tn = NodeRunStatusRunning \<longrightarrow> (\<exists>k. tn_TaskRunID tn = Some k \<and> k \<noteq> '''')"
        "tn_NewStatus tn \<noteq> NodeRunStatusWaiting" "tn_NewStatus tn = NodeRunStatusRetryWait \<longrightarrow> tn_TaskRunID tn = None"
        using ok by (simp_all add: node_move_ok_def)
      ultimately show ?thesis
        using eff(3,4) n(2) transition_sources [OF v] unfolding node_linked_def eff(2) by auto
    qed
    show "node_allowed (r_Status r) (n_Status (f n))" if own: "n_WorkflowRunID n = rid" and r: "db_runs d rid = Some r" for r
    proof -
      have nn: "node_of rid d i n" using n own by (simp add: node_of_def)
      have al: "node_allowed (r_Status r) (n_Status n)" using status_agreesD(2) [OF wf_invD(5) [OF inv] r nn] .
      show ?thesis
        unfolding eff(2)
      proof (rule node_allowed_moves [OF al])
        show "n_Status n \<noteq> NodeRunStatusSucceeded" "tn_NewStatus tn \<noteq> NodeRunStatusPending"
          using transition_sources [OF v] n(2) by auto
      qed (use ok r nn in \<open>auto simp: node_move_ok_def\<close>)
    qed
  qed (simp_all add: d')
  then show ?thesis by (simp add: wf_rel_def keeps_def)
next
  case False
  then have "d' = d" using res by (auto simp: transitionNodeRunTx_def update_miss)
  then show ?thesis by (simp add: wf.db_refl)
qed

text \<open>Requests.\<close>

lemma waitNode_effects:
  "node_identity (waitNode oi n) = node_identity n" "n_Status (waitNode oi n) = NodeRunStatusWaiting"
  by (simp_all add: waitNode_def node_identity_def)

lemma openRequestTx_cases:
  assumes "openRequestTx x i oi rnd d = Inr (res, d')"
  obtains "d' = d"
  | run n j tr where "db_runs d x = Some run" "r_Status run = RunStatusRunning" "db_nodes d i = Some n"
      "n_WorkflowRunID n = x" "n_Status n = oi_NodeExpected oi" "db_reqs d j = None" "CanonicalPublicID j = Some j"
      "d' = d\<lparr>db_reqs := (db_reqs d)(j \<mapsto> newRequest run n oi j tr), db_req_order := db_req_order d @ [j],
              db_nodes := (db_nodes d)(i \<mapsto> waitNode oi n)\<rparr>"
  using assms
  by (auto simp: openRequestTx_def dest!: createWithPublicID_fresh split: option.splits if_splits)

lemma openRequestTx_step:
  assumes v: "ValidNodeRunTransition (oi_NodeExpected oi) NodeRunStatusWaiting"
    and start: "oi_NodeExpected oi = NodeRunStatusPending \<Longrightarrow> may_start rid d i"
    and res: "openRequestTx x i oi rnd d = Inr (b, d')"
  shows "wf_rel rid d d'"
  using res
proof (cases rule: openRequestTx_cases)
  case 1
  then show ?thesis by (simp add: wf.db_refl)
next
  case (2 run n j tr)
  let ?q = "newRequest run n oi j tr"
  define d1 where "d1 = d\<lparr>db_reqs := (db_reqs d)(j \<mapsto> ?q), db_req_order := db_req_order d @ [j]\<rparr>"
  have nd: "node_of rid d1 = node_of rid d" by (intro ext) (simp add: node_of_def d1_def)
  have "wf_inv rid d' \<and> wf_evolves rid d d'" if inv: "wf_inv rid d"
  proof -
    have ids: "r_ID run = x" "n_ID n = i" using wf_invD(1) [OF inv] 2(1,3) by (auto simp: wf_keyed_def)
    have q: "rq_ID ?q = j" "rq_WorkflowRunID ?q = x" "rq_NodeRunID ?q = i" using ids by (simp_all add: newRequest_def)
    have 1: "wf_inv rid d1 \<and> wf_evolves rid d d1"
      by (rule req_step [OF inv, where q' = ?q and i = j]) (use 2 q in \<open>auto simp: d1_def\<close>)
    have "wf_inv rid d' \<and> wf_evolves rid d1 d'"
    proof (rule node_step [OF conjunct1 [OF 1], where i = i and n' = "waitNode oi n"])
      show "wnode_evolves n (waitNode oi n)" using v 2(5) by (intro wnode_evolvesI) (simp_all add: waitNode_effects)
      show "needs_met rid d1 n" if "n_WorkflowRunID n = rid"
        "n_Status n = NodeRunStatusPending \<or> n_Status n = NodeRunStatusBlocked"
        using that start v 2(3,5) by (auto simp: may_start_def node_of_def needs_met_def nd)
      show "node_linked rid d1 i (waitNode oi n)" if "n_WorkflowRunID n = rid"
        using that q 2(4) by (auto simp: node_linked_def waitNode_effects d1_def)
      show "node_allowed (r_Status r) (n_Status (waitNode oi n))" if "n_WorkflowRunID n = rid" "db_runs d1 rid = Some r" for r
        using that 2(1,2,4) by (simp add: waitNode_effects d1_def)
    qed (simp_all add: d1_def 2(3,8))
    then show ?thesis using 1 wf_evolves_trans by blast
  qed
  then show ?thesis by (simp add: wf_rel_def keeps_def)
qed

lemma resolve_step:
  assumes "ri_Status ri \<noteq> RequestStatusPending"
  shows "wf_rel rid d (snd (updateReqWhere i (resolvable ri) (resolveUpdates ri u) d))"
proof (cases "\<exists>q. db_reqs d i = Some q \<and> resolvable ri q")
  case True
  then obtain q where q: "db_reqs d i = Some q" "resolvable ri q" by blast
  let ?q = "resolveUpdates ri u q"
  let ?d = "d\<lparr>db_reqs := (db_reqs d)(i \<mapsto> ?q)\<rparr>"
  have eff: "req_identity ?q = req_identity q" "rq_Status ?q = ri_Status ri" "rq_ID ?q = rq_ID q"
    by (simp_all add: resolveUpdates_def req_identity_def)
  have "wf_inv rid ?d \<and> wf_evolves rid d ?d" if inv: "wf_inv rid d"
  proof (rule req_step [OF inv, where i = i and q' = ?q])
    show "rq_ID ?q = i" "CanonicalPublicID i = Some i"
      using wf_invD(1) [OF inv] q(1) eff(3) by (auto simp: wf_keyed_def)
    show "req_evolves p ?q" if "db_reqs d i = Some p" for p
      using that q eff by (auto simp: req_evolves_def resolvable_def)
    show "set (db_req_order ?d) = insert i (set (db_req_order d))"
      using wf_invD(1) [OF inv] q(1) by (auto simp: wf_keyed_def)
  qed (use eff assms in auto)
  then show ?thesis using q by (simp add: updateReqWhere_def wf_rel_def keeps_def)
next
  case False
  then show ?thesis by (simp add: update_miss wf.db_refl)
qed

text \<open>Leases and reports.\<close>

lemma run_bookkeeping_step:
  assumes P: "\<And>r. P r \<Longrightarrow> run_identity_wf (f r) = run_identity_wf r \<and> r_Status (f r) = r_Status r"
    and fin: "\<And>r. P r \<Longrightarrow> RunStatusTerminal (r_Status r) \<Longrightarrow> r_ReconcileOwner r = None \<Longrightarrow>
      f r = r\<lparr>r_ReportStatus := r_ReportStatus (f r)\<rparr>"
  shows "wf_rel rid d (snd (updateRunWhere i P f d))"
proof (cases "\<exists>r. db_runs d i = Some r \<and> P r")
  case True
  then obtain r where r: "db_runs d i = Some r" "P r" by blast
  let ?d = "d\<lparr>db_runs := (db_runs d)(i \<mapsto> f r)\<rparr>"
  have nd: "node_of rid ?d = node_of rid d" by (intro ext) (simp add: node_of_def)
  have "wf_inv rid ?d \<and> wf_evolves rid d ?d" if inv: "wf_inv rid d"
  proof (rule run_step [OF inv r(1), where r' = "f r"])
    have own: "r_ReconcileOwner r = None \<and> r_LeaseExpiresAt r = None \<and> r_NextReconcileAt r = None"
      if "RunStatusTerminal (r_Status r)" "i = rid"
      using that wf_invD(5) [OF inv] r(1) by (auto simp: status_agrees_def)
    then show "wrun_evolves r (f r)" if "i = rid" using that P [OF r(2)] fin [OF r(2)] by (auto simp: wrun_evolves_def)
    have own': "r_ReconcileOwner (f r) = None \<and> r_LeaseExpiresAt (f r) = None \<and> r_NextReconcileAt (f r) = None"
      if t: "RunStatusTerminal (r_Status r)" "i = rid"
    proof -
      define v where "v = r_ReportStatus (f r)"
      have "f r = r\<lparr>r_ReportStatus := v\<rparr>" using fin [OF r(2) t(1)] own [OF t] by (simp add: v_def)
      then show ?thesis using own [OF t] by simp
    qed
    show "status_agrees rid ?d" if "i = rid"
    proof -
      have "db_runs ?d rid = Some (f r)" "db_reqs ?d = db_reqs d" using that by simp_all
      moreover note wf_invD(5) [OF inv, unfolded status_agrees_def]
      ultimately show ?thesis using r(1) that P [OF r(2)] own' unfolding status_agrees_def nd by auto
    qed
  qed (use P [OF r(2)] in \<open>simp_all add: run_identity_wf_def\<close>)
  then show ?thesis using r by (simp add: updateRunWhere_def wf_rel_def keeps_def)
next
  case False
  then show ?thesis by (simp add: update_miss wf.db_refl)
qed

text \<open>Creation of runs and of the nodes of another run.\<close>

lemma createWorkflowRunTx_step:
  assumes res: "createWorkflowRunTx cw now rnd d = Inr (run, d')"
  shows "wf_rel rid d d'" "same_tasks d d'" "db_runs d (r_ID run) = None"
proof -
  obtain row i k where i: "createWithPublicID (\<lambda>i. db_runs d i \<noteq> None) rnd 0 = Inr (i, k)" "r_ID row = i" "r_ID run = i"
    and d': "d' = d\<lparr>db_runs := (db_runs d)(i \<mapsto> row), db_run_order := db_run_order d @ [i]\<rparr>"
  proof -
    obtain i k flow creator issue schedule conv who
      where i: "createWithPublicID (\<lambda>i. db_runs d i \<noteq> None) rnd 0 = Inr (i, k)"
        and row: "run = createdRun cw (newWorkflowRun cw i flow creator issue schedule conv who now)"
          "d' = d\<lparr>db_runs := (db_runs d)(i \<mapsto> newWorkflowRun cw i flow creator issue schedule conv who now),
                 db_run_order := db_run_order d @ [i]\<rparr>"
      using res by (auto simp: createWorkflowRunTx_def Let_def)
    show thesis by (rule that [OF i _ _ row(2)]) (simp_all add: row(1) createdRun_def newWorkflowRun_def)
  qed
  have new: "db_runs d i = None" using createWithPublicID_fresh [OF i(1)] by simp
  then show "db_runs d (r_ID run) = None" using i by simp
  show "same_tasks d d'" by (simp add: same_tasks_def d')
  have nd: "node_of rid d' = node_of rid d" by (intro ext) (simp add: node_of_def d')
  have "wf_inv rid d' \<and> wf_evolves rid d d'" if inv: "wf_inv rid d"
  proof -
    obtain r where "db_runs d rid = Some r" using wf_invD(3) [OF inv] by blast
    then have same: "db_runs d' rid = db_runs d rid" using new by (auto simp: d')
    have ev: "wf_evolves rid d d'" by (auto simp: wf_evolves_def nd same) (simp add: d')
    have rest: "db_reqs d' = db_reqs d" by (simp add: d')
    have "wf_inv rid d'"
    proof (rule wf_step_intro [OF inv ev])
      show "wf_keyed d'" using inv i(2) createWithPublicID_fresh [OF i(1)] by (auto simp: wf_inv_def wf_keyed_def d')
      show "node_links rid d'" using inv by (simp add: wf_inv_def node_links_def node_linked_def nd rest)
      show "status_agrees rid d'" using inv by (simp add: wf_inv_def status_agrees_def nd same rest)
    qed (auto simp: nd node_of_def)
    then show ?thesis using ev by simp
  qed
  then show "wf_rel rid d d'" by (simp add: wf_rel_def keeps_def)
qed

lemma insert_node_step:
  assumes inv: "wf_inv rid d" and new: "db_nodes d i = None" "CanonicalPublicID i = Some i"
    and n: "n_ID n = i" "n_WorkflowRunID n \<noteq> rid"
    and d': "d' = d\<lparr>db_nodes := (db_nodes d)(i \<mapsto> n), db_node_order := db_node_order d @ [i]\<rparr>"
  shows "wf_inv rid d' \<and> wf_evolves rid d d'"
proof -
  have nd: "node_of rid d' = node_of rid d" using new n(2) by (intro ext) (auto simp: node_of_def d')
  have ev: "wf_evolves rid d d'" by (auto simp: wf_evolves_def nd) (simp_all add: d')
  have "wf_inv rid d'"
  proof (rule wf_step_intro [OF inv ev])
    show "wf_keyed d'" using inv n(1) new(2) by (auto simp: wf_inv_def wf_keyed_def d')
    show "node_links rid d'" using inv by (simp add: wf_inv_def node_links_def node_linked_def nd) (simp add: d')
    show "status_agrees rid d'" using inv by (simp add: wf_inv_def status_agrees_def nd) (simp add: d')
  qed (auto simp: nd node_of_def)
  then show ?thesis using ev by simp
qed

lemma insertNodeRuns_step:
  "insertNodeRuns x now rnd k cns d = Inr (ns, d') \<Longrightarrow> x \<noteq> rid \<Longrightarrow> wf_rel rid d d' \<and> same_tasks d d'"
proof (induction cns arbitrary: k d ns d')
  case Nil
  then show ?case by (simp add: wf.db_refl same_tasks_def)
next
  case (Cons cn cns)
  obtain agent i k' ns1 d1 where
    i: "createWithPublicID (\<lambda>i. db_nodes d i \<noteq> None) rnd k = Inr (i, k')"
    and d1: "d1 = d\<lparr>db_nodes := (db_nodes d)(i \<mapsto> newNodeRun x cn i agent now), db_node_order := db_node_order d @ [i]\<rparr>"
    and rest: "insertNodeRuns x now rnd k' cns d1 = Inr (ns1, d')"
    using Cons.prems(1) by (auto simp: Let_def)
  have "wf_rel rid d d1"
    using insert_node_step [of rid d i "newNodeRun x cn i agent now" d1] createWithPublicID_fresh [OF i] Cons.prems(2) d1
    by (simp add: wf_rel_def keeps_def newNodeRun_def)
  moreover have "same_tasks d d1" by (simp add: same_tasks_def d1)
  moreover have "wf_rel rid d1 d' \<and> same_tasks d1 d'" using Cons.IH [OF rest Cons.prems(2)] .
  ultimately show ?case using wf.db_trans by (auto simp: same_tasks_def)
qed

text \<open>Admission: the node runs exactly when its task and task run exist and are linked.\<close>

lemma createTaskAndRun_wf: "createTaskAndRunTx sp ci now rnd d = Inr ((t, r), d') \<Longrightarrow> same_wf d d'"
  by (drule createTaskAndRunTx_Inr(1)) (simp add: same_wf_def insertTaskAndRun_def)

lemma createTaskRun_wf: assumes "createTaskRunTx taskID cr now rnd d = Inr (r, d')" shows "same_wf d d'"
  using assms by (cases rule: createTaskRunTx_Inr) (simp_all add: same_wf_def)

lemma wf_inv_same: "same_wf d d' \<Longrightarrow> wf_inv rid d \<Longrightarrow> wf_inv rid d' \<and> wf_evolves rid d d'"
  using same_wf_rel [of d d' rid] by (simp add: wf_rel_def keeps_def)

lemma admit_step:
  assumes res: "admitWorkflowNodeTaskTx sp ci now rnd d = Inr (t, d')"
    and start: "may_start rid d (ci_WorkflowNodeRunID ci)"
  shows "wf_rel rid d d'" "task_rel d d'"
    "\<And>n. db_nodes d' (ci_WorkflowNodeRunID ci) = Some n \<Longrightarrow> n_TaskID n \<noteq> None"
proof -
  let ?i = "ci_WorkflowNodeRunID ci"
  obtain n run where n: "db_nodes d ?i = Some n" and run: "db_runs d (n_WorkflowRunID n) = Some run"
    using res by (auto simp: admitWorkflowNodeTaskTx_def)
  have "wf_rel rid d d' \<and> task_rel d d' \<and> (\<forall>m. db_nodes d' ?i = Some m \<longrightarrow> n_TaskID m \<noteq> None)"
  proof (cases "n_TaskID n")
    case (Some taskID)
    then have "d' = d" using res n run by (auto simp: admitWorkflowNodeTaskTx_def)
    then show ?thesis using n Some by (simp add: wf.db_refl task.db_refl)
  next
    case None
    have st: "r_Status run = RunStatusRunning" "n_Status n = NodeRunStatusPending"
      using res n run None by (auto simp: admitWorkflowNodeTaskTx_def)
    obtain t0 r0 d1 where c: "createTaskAndRunTx sp ci now rnd d = Inr ((t0, r0), d1)"
      and d': "d' = d1\<lparr>db_nodes := (db_nodes d1)(?i \<mapsto> admitNode (tk_ID t0) r0 (ci_Input ci) now n)\<rparr>"
      using res n run None by (auto simp: admitWorkflowNodeTaskTx_def)
    let ?n = "admitNode (tk_ID t0) r0 (ci_Input ci) now n"
    have eff: "node_identity ?n = node_identity n" "n_Status ?n = NodeRunStatusRunning" "n_TaskRunID ?n = Some (tr_ID r0)"
      "n_TaskID ?n = Some (tk_ID t0)"
      by (simp_all add: admitNode_def node_identity_def)
    have same: "same_wf d d1" using createTaskAndRun_wf [OF c] .
    have "wf_inv rid d' \<and> wf_evolves rid d d'" if inv: "wf_inv rid d"
    proof -
      have inv1: "wf_inv rid d1" and ev1: "wf_evolves rid d d1" using wf_inv_same [OF same inv] by auto
      have nd: "node_of rid d1 = node_of rid d" using same by (intro ext) (simp add: node_of_def same_wf_def)
      have "wf_inv rid d' \<and> wf_evolves rid d1 d'"
      proof (rule node_step [OF inv1, where i = ?i and n' = ?n])
        show "db_nodes d1 ?i = Some n" using same n by (simp add: same_wf_def)
        show "wnode_evolves n ?n" by (rule wnode_evolvesI) (simp_all add: eff st)
        show "needs_met rid d1 n" if "n_WorkflowRunID n = rid"
          using that start n by (simp add: may_start_def node_of_def needs_met_def nd)
        show "node_linked rid d1 ?i ?n" by (simp add: node_linked_def eff)
        show "node_allowed (r_Status r) (n_Status ?n)" if "n_WorkflowRunID n = rid" "db_runs d1 rid = Some r" for r
          using that run st same by (simp add: same_wf_def eff)
      qed (simp_all add: d')
      then show ?thesis using ev1 wf_evolves_trans by blast
    qed
    moreover have "task_rel d d'"
      using createTaskAndRun_step [OF c] same_tasks_rel [of d1 d'] task.db_trans by (simp add: same_tasks_def d')
    ultimately show ?thesis by (simp add: wf_rel_def keeps_def d' eff)
  qed
  then show "wf_rel rid d d'" "task_rel d d'" "\<And>n. db_nodes d' ?i = Some n \<Longrightarrow> n_TaskID n \<noteq> None" by blast+
qed

lemma admit_retry_step:
  assumes res: "admitWorkflowNodeRetryRunTx taskID cr now rnd d = Inr (r, d')"
    and waits: "cr_WorkflowNodeFrom cr = Some NodeRunStatusRetryWait \<or> cr_WorkflowNodeFrom cr = Some NodeRunStatusWaiting"
  shows "wf_rel rid d d'" "task_rel d d'"
proof -
  let ?i = "cr_WorkflowNodeRunID cr"
  obtain n run key linked where n: "db_nodes d ?i = Some n" and run: "db_runs d (n_WorkflowRunID n) = Some run"
    and key: "cr_IdempotencyKey cr = Some key" and l: "linked_run d n (Some key) = Inr linked"
    using res by (auto simp: admitWorkflowNodeRetryRunTx_def split: option.splits)
  have "wf_rel rid d d' \<and> task_rel d d'"
  proof (cases linked)
    case (Some x)
    then have "d' = d" using res n run key l by (auto simp: admitWorkflowNodeRetryRunTx_def)
    then show ?thesis by (simp add: wf.db_refl task.db_refl)
  next
    case None
    have st: "r_Status run = RunStatusRunning" "cr_WorkflowNodeFrom cr = Some (n_Status n)"
      using res n run key l None by (auto simp: admitWorkflowNodeRetryRunTx_def Let_def)
    obtain d1 where c: "createTaskRunTx taskID cr now rnd d = Inr (r, d1)"
      and d': "d' = d1\<lparr>db_nodes := (db_nodes d1)(?i \<mapsto> retryNode r (cr_WorkflowAttempt cr) now n)\<rparr>"
      using res n run key l None by (auto simp: admitWorkflowNodeRetryRunTx_def Let_def)
    let ?n = "retryNode r (cr_WorkflowAttempt cr) now n"
    have eff: "node_identity ?n = node_identity n" "n_Status ?n = NodeRunStatusRunning" "n_TaskRunID ?n = Some (tr_ID r)"
      by (simp_all add: retryNode_def node_identity_def)
    have same: "same_wf d d1" using createTaskRun_wf [OF c] .
    have "wf_inv rid d' \<and> wf_evolves rid d d'" if inv: "wf_inv rid d"
    proof -
      have inv1: "wf_inv rid d1" and ev1: "wf_evolves rid d d1" using wf_inv_same [OF same inv] by auto
      have "wf_inv rid d' \<and> wf_evolves rid d1 d'"
      proof (rule node_step [OF inv1, where i = ?i and n' = ?n])
        show "db_nodes d1 ?i = Some n" using same n by (simp add: same_wf_def)
        show "wnode_evolves n ?n" using waits st by (intro wnode_evolvesI) (auto simp: eff)
        show "needs_met rid d1 n" if "n_Status n = NodeRunStatusPending \<or> n_Status n = NodeRunStatusBlocked"
          using that waits st by auto
        show "node_linked rid d1 ?i ?n" by (simp add: node_linked_def eff)
        show "node_allowed (r_Status s) (n_Status ?n)" if "n_WorkflowRunID n = rid" "db_runs d1 rid = Some s" for s
          using that run st same by (simp add: same_wf_def eff)
      qed (simp_all add: d')
      then show ?thesis using ev1 wf_evolves_trans by blast
    qed
    moreover have "task_rel d d'"
      using createTaskRun_step [OF c] same_tasks_rel [of d1 d'] task.db_trans by (simp add: same_tasks_def d')
    ultimately show ?thesis by (simp add: wf_rel_def keeps_def)
  qed
  then show "wf_rel rid d d'" "task_rel d d'" by blast+
qed

end
