(* ===== verification/Runtime_Store.thy ===== *)
theory Runtime_Store
  imports Workflow_Plane
begin

text \<open>
  The store methods under interference. \<open>runtime rid\<close> is what one transaction may do to the task tables
  and to the run \<open>rid\<close>; it is the rely and the guarantee of every process. Each lemma says that a store
  method, called with other processes committing transactions before it and with the call possibly
  lost, moves along \<open>runtime rid\<close>; those that the reconciler calls have the side conditions that the
  services discharge in \<open>Runtime_Services\<close>.
\<close>

section \<open>The relation\<close>

definition runtime :: "string \<Rightarrow> db \<Rightarrow> db \<Rightarrow> bool" where
  "runtime rid d d' \<longleftrightarrow> task_rel d d' \<and> wf_rel rid d d'"

definition good :: "string \<Rightarrow> db \<Rightarrow> bool" where
  "good rid d \<longleftrightarrow> task_inv d \<and> wf_inv rid d"

interpretation rt: db_relation "runtime rid" for rid
  by unfold_locales (auto simp: runtime_def task.db_refl wf.db_refl intro: task.db_trans wf.db_trans)

lemma runtime_task: "task_rel d d' \<Longrightarrow> same_wf d d' \<Longrightarrow> runtime rid d d'"
  by (simp add: runtime_def same_wf_rel)

lemma runtime_wf: "wf_rel rid d d' \<Longrightarrow> same_tasks d d' \<Longrightarrow> runtime rid d d'"
  by (simp add: runtime_def same_tasks_rel)

lemma runtime_same: "same_wf d d' \<Longrightarrow> same_tasks d d' \<Longrightarrow> runtime rid d d'"
  by (simp add: runtime_def same_wf_rel same_tasks_rel)

lemma runtime_good: "runtime rid d d' \<Longrightarrow> good rid d \<Longrightarrow> good rid d' \<and> task_evolves d d' \<and> wf_evolves rid d d'"
  by (simp add: runtime_def good_def task_rel_def wf_rel_def keeps_def)

lemma stable_good: "stable (runtime rid) (good rid)"
  by (auto simp: stable_def dest: runtime_good)

lemma stable_fact:
  assumes "\<And>d d'. good rid d \<Longrightarrow> good rid d' \<Longrightarrow> task_evolves d d' \<Longrightarrow> wf_evolves rid d d' \<Longrightarrow> P d \<Longrightarrow> P d'"
    and "\<And>d. F d \<Longrightarrow> good rid d" and "stable (runtime rid) F"
  shows "stable (runtime rid) (\<lambda>d. F d \<and> P d)"
  using assms unfolding stable_def by (metis runtime_good)

section \<open>Reads\<close>

text \<open>A method that changes nothing.\<close>

lemmas read_defs =
  GetTask_def GetTaskRun_def GetWorkflow_def GetWorkflowRun_def GetWorkflowRequest_def GetWorkflowRevision_def
  ListWorkflowsBySpace_def ListWorkflowRevisions_def ListWorkflowNodeRuns_def list_runs_def ListWorkflowRunsByWorkflow_def
  ListWorkflowRunsByIssue_def ListWorkflowRunsBySchedule_def ListPendingWorkflowReports_def ListDueWorkflowRuns_def
  getWorkflowNodeRunByOwner_def GetWorkflowNodeRunByTaskID_def GetWorkflowNodeRunByTaskRunID_def
  ListWorkflowRequestsByRun_def ListPendingWorkflowRequestsBySpace_def taskByAdmissionKey_def GetActiveTaskRunByTask_def
  ListTaskRunsByTask_def GetNextPendingTaskRun_def ListCancelRequestedTaskRuns_def ListLostWorkerTaskRuns_def
  ListStaleTaskRuns_def

lemma safe_get_by_id: "safe (runtime rid) F (get_by_id t p)"
  by (rule tells_safe [OF rt.tells_get_by_id [where Q = "\<lambda>_ _. True"]]) simp

lemma safe_read: "safe (runtime rid) F (read_op f)"
  by (rule rt.tells_read) simp

lemma safe_lookup: "safe (runtime rid) F (lookupKey_op present p)"
  by (rule tells_safe [OF rt.tells_lookup])

lemma safe_reads:
  "safe (runtime rid) F (GetTask i)" "safe (runtime rid) F (GetTaskRun i)" "safe (runtime rid) F (GetWorkflow i)"
  "safe (runtime rid) F (GetWorkflowRun i)" "safe (runtime rid) F (GetWorkflowRequest i)"
  "safe (runtime rid) F (GetWorkflowRevision i n)" "safe (runtime rid) F (ListWorkflowsBySpace i)"
  "safe (runtime rid) F (ListWorkflowRevisions i a b)" "safe (runtime rid) F (ListWorkflowNodeRuns i)"
  "safe (runtime rid) F (ListWorkflowRunsByWorkflow i a b)" "safe (runtime rid) F (ListWorkflowRunsByIssue i a b)"
  "safe (runtime rid) F (ListWorkflowRunsBySchedule i a b)" "safe (runtime rid) F (ListPendingWorkflowReports k)"
  "safe (runtime rid) F (ListDueWorkflowRuns t k)" "safe (runtime rid) F (GetWorkflowNodeRunByTaskID i)"
  "safe (runtime rid) F (GetWorkflowNodeRunByTaskRunID i)" "safe (runtime rid) F (ListWorkflowRequestsByRun i)"
  "safe (runtime rid) F (ListPendingWorkflowRequestsBySpace i a b)" "safe (runtime rid) F (taskByAdmissionKey i j)"
  "safe (runtime rid) F (GetActiveTaskRunByTask i)" "safe (runtime rid) F (ListTaskRunsByTask i)"
  "safe (runtime rid) F GetNextPendingTaskRun" "safe (runtime rid) F (ListCancelRequestedTaskRuns t k)"
  "safe (runtime rid) F (ListLostWorkerTaskRuns t k)" "safe (runtime rid) F (ListStaleTaskRuns t k)"
  unfolding read_defs
  by (intro safe_get_by_id rt.tells_if_key rt.tells_bind_any tells_cases safe_read rt.tells_ret; simp)+

section \<open>The task tables\<close>

lemma safe_update_run:
  assumes "\<And>r. P r \<Longrightarrow> run_evolves r (f r) \<and> mirror_view (f r) = mirror_view r"
  shows "runtime rid d (snd (updateTaskRunWhere i P f d))"
  by (rule runtime_task [OF update_run_step [OF assms]], assumption)
    (auto simp: same_wf_def updateTaskRunWhere_def split: option.splits)

lemma safe_recordTaskRun:
  "(\<And>r. P r \<Longrightarrow> run_evolves r (f r) \<and> mirror_view (f r) = mirror_view r) \<Longrightarrow> safe (runtime rid) F (recordTaskRun i P f)"
  unfolding recordTaskRun_def by (intro tells_cases rt.tells_throw rt.tells_db_op) (simp_all add: safe_update_run)

lemma safe_records:
  "safe (runtime rid) F (RecordTaskRunAgentRevision i n)" "safe (runtime rid) F (RecordTaskRunSpaceAgentInstructionsRevision i n)"
  "safe (runtime rid) F (RecordTaskRunPluginPins i s)" "safe (runtime rid) F (RecordTaskRunSandboxTiers i s t)"
  "safe (runtime rid) F (RecordTaskRunFailureCause i s)" "safe (runtime rid) F (MarkTaskRunSeen i now)"
  "safe (runtime rid) F (UpdateTaskRunWorkerInfo i s jn jt)"
  unfolding RecordTaskRunAgentRevision_def RecordTaskRunSpaceAgentInstructionsRevision_def RecordTaskRunPluginPins_def
    RecordTaskRunSandboxTiers_def RecordTaskRunFailureCause_def MarkTaskRunSeen_def UpdateTaskRunWorkerInfo_def
  by (rule safe_recordTaskRun; simp add: run_evolves_def run_identity_def run_outcome_def mirror_view_def)+

lemma safe_ClearTaskRunTracePath: "safe (runtime rid) F (ClearTaskRunTracePath i)"
  unfolding ClearTaskRunTracePath_def
  by (rule rt.tells_db_op)
    (simp_all add: safe_update_run run_evolves_def run_identity_def run_outcome_def mirror_view_def)

lemma safe_RequestTaskRunCancel: "safe (runtime rid) F (RequestTaskRunCancel i u reason now)"
  unfolding RequestTaskRunCancel_def
proof (intro tells_cases rt.tells_ret rt.tells_tx)
  fix k t rnd d x d'
  let ?P = "\<lambda>r. tr_Status r \<in> set ActiveRunStatuses \<and> tr_CancelRequestedAt r = None"
  let ?f = "\<lambda>w r. r\<lparr>tr_CancelRequestedAt := Some now, tr_CancelReason := reason,
      tr_CancelRequestedBy := set_opt w (tr_CancelRequestedBy r)\<rparr>"
  assume "bindE (if u = '''' then Inr None else bindE (lookupKey (\<lambda>u. u \<in> db_users d) u) (\<lambda>u. Inr (Some u)))
    (\<lambda>w. Inr (updateTaskRunWhere k ?P (?f w) d)) = Inr (x, d')"
  then obtain w where "updateTaskRunWhere k ?P (?f w) d = (x, d')"
    by (simp only: bindE_Inr_iff sum.inject) blast
  then have d': "d' = snd (updateTaskRunWhere k ?P (?f w) d)" by simp
  have "run_evolves r (?f w r) \<and> mirror_view (?f w r) = mirror_view r" if "?P r" for r
    using that by (auto simp: run_evolves_def run_identity_def mirror_view_def active_iff)
  then show "runtime rid d d' \<and> True" unfolding d' by (simp add: safe_update_run)
qed simp

lemma same_wf_fold [simp]: "same_wf d (foldScheduleOutcome s b e) = same_wf d e"
  by (simp add: same_wf_def foldScheduleOutcome_def split: option.splits)

lemma transition_wf: "transitionTaskRunTx i tt d = Inr (b, d') \<Longrightarrow> same_wf d d'"
  by (auto simp: transitionTaskRunTx_def Let_def split: option.splits if_splits) (auto simp: same_wf_def)

lemma safe_TransitionTaskRun: "safe (runtime rid) F (TransitionTaskRun tt)"
  unfolding TransitionTaskRun_def
  by (intro tells_cases rt.tells_throw rt.tells_ret rt.tells_tx)
    (auto intro: runtime_task transition_step transition_wf)

lemma createTaskAndRun_runtime: "createTaskAndRunTx sp ci now rnd d = Inr ((t, r), d') \<Longrightarrow> runtime rid d d'"
  by (rule runtime_task [OF createTaskAndRun_step createTaskAndRun_wf])

lemma safe_CreateTask: "safe (runtime rid) F (CreateTask sp ci)"
  unfolding CreateTask_def by (rule rt.tells_tx) (auto simp: createTaskAndRun_runtime)

lemma safe_admitPlainTask: "safe (runtime rid) F (admitPlainTask sp ci)"
  unfolding admitPlainTask_def admittedTaskOrConflict_def
  by (intro tells_cases rt.tells_bind_any rt.tells_throw rt.tells_ret safe_reads tells_safe [OF rt.tells_try [OF safe_CreateTask]])
    simp_all

text \<open>The run a create returns has a canonical id.\<close>

lemma run_id_canonical: "task_inv d \<Longrightarrow> db_truns d i = Some r \<Longrightarrow> tr_ID r = i \<and> CanonicalPublicID i = Some i"
  by (auto simp: task_inv_def tables_keyed_def)

lemma createTaskRun_result:
  assumes "createTaskRunTx taskID cr now rnd d = Inr (r, d')" "task_inv d"
  shows "CanonicalPublicID (tr_ID r) = Some (tr_ID r)"
  using assms(1)
proof (cases rule: createTaskRunTx_Inr)
  case (existing key)
  then have "db_truns d (tr_ID r) = Some r" using idempotent_runD(1) assms(2) by (auto simp: task_inv_def)
  then show ?thesis using run_id_canonical [OF assms(2)] by blast
qed

lemma admit_retry_result:
  assumes "admitWorkflowNodeRetryRunTx taskID cr now rnd d = Inr (r, d')" "task_inv d"
  shows "CanonicalPublicID (tr_ID r) = Some (tr_ID r)"
proof -
  obtain n run key l where n: "db_nodes d (cr_WorkflowNodeRunID cr) = Some n" "db_runs d (n_WorkflowRunID n) = Some run"
    "cr_IdempotencyKey cr = Some key" "linked_run d n (Some key) = Inr l"
    using assms(1) by (auto simp: admitWorkflowNodeRetryRunTx_def split: option.splits)
  show ?thesis
  proof (cases l)
    case (Some x)
    then have "x = r" using assms(1) n by (auto simp: admitWorkflowNodeRetryRunTx_def)
    then obtain i where "db_truns d i = Some r"
      using n(4) Some by (auto simp: linked_run_def split: option.splits if_splits)
    then show ?thesis using run_id_canonical [OF assms(2)] by blast
  next
    case None
    then obtain d1 where "createTaskRunTx taskID cr now rnd d = Inr (r, d1)"
      using assms(1) n by (auto simp: admitWorkflowNodeRetryRunTx_def Let_def)
    then show ?thesis using createTaskRun_result assms(2) by blast
  qed
qed

lemma tells_mapErr: assumes "tells (runtime rid) F m Q" shows "tells (runtime rid) F (mapErr f m) Q"
  unfolding mapErr_def tells_def
proof
  assume st: "stable (runtime rid) F"
  show "obeys (runtime rid) F (bindP (tryP m) (\<lambda>r. case r of Inl e \<Rightarrow> throwP (f e) | Inr x \<Rightarrow> retP x)) (\<lambda>x d. F d \<and> Q x d)"
    by (rule rt.obeys_bind [OF tells_obeys [OF rt.tells_try [OF assms] st]])
      (intro rt.obeys_sum rt.obeys_throw rt.obeys_ret, auto)
qed

lemma tells_CreateTaskRun:
  assumes F: "\<And>d. F d \<Longrightarrow> good rid d"
    and waits: "cr_WorkflowNodeRunID cr \<noteq> '''' \<Longrightarrow>
      cr_WorkflowNodeFrom cr = Some NodeRunStatusRetryWait \<or> cr_WorkflowNodeFrom cr = Some NodeRunStatusWaiting"
  shows "tells (runtime rid) F (CreateTaskRun cr) (\<lambda>r d. CanonicalPublicID (tr_ID r) = Some (tr_ID r))"
  unfolding CreateTaskRun_def
  by (intro tells_cases rt.tells_throw tells_mapErr rt.tells_tx conjI)
    (use F waits in \<open>auto simp: good_def runtime_def createTaskRun_result admit_retry_result createTaskRun_step
       intro: same_wf_rel createTaskRun_wf admit_retry_step\<close>)

section \<open>Workflows and runs\<close>

lemma createWorkflowTx_same: "createWorkflowTx sp u n ds df now rnd d = Inr (w, d') \<Longrightarrow> same_wf d d' \<and> same_tasks d d'"
  by (auto simp: createWorkflowTx_def appendWorkflowRevision_def Let_def same_wf_def same_tasks_def split: if_splits)

lemma updateWorkflowTx_same: "updateWorkflowTx i ui w now d = Inr (b, d') \<Longrightarrow> same_wf d d' \<and> same_tasks d d'"
  by (auto simp: updateWorkflowTx_def appendWorkflowRevision_def Let_def same_wf_def same_tasks_def
      split: if_splits option.splits)

lemma safe_CreateWorkflow: "safe (runtime rid) F (CreateWorkflow sp u n ds df)"
  unfolding CreateWorkflow_def by (rule rt.tells_tx) (auto simp: runtime_same dest!: createWorkflowTx_same)

lemma safe_UpdateWorkflow: "safe (runtime rid) F (UpdateWorkflow i sp ui)"
  unfolding UpdateWorkflow_def
  by (intro tells_cases rt.tells_bind_any rt.tells_throw rt.tells_ret rt.tells_now safe_reads rt.tells_tx)
    (auto simp: runtime_same dest!: updateWorkflowTx_same)

lemma createWorkflowRunTx_id:
  "createWorkflowRunTx cw now rnd d = Inr (run, d') \<Longrightarrow> CanonicalPublicID (r_ID run) = Some (r_ID run)"
  by (auto simp: createWorkflowRunTx_def createdRun_def newWorkflowRun_def Let_def dest!: createWithPublicID_fresh)

lemma tells_CreateWorkflowRun:
  assumes "\<And>d. F d \<Longrightarrow> good rid d"
  shows "tells (runtime rid) F (CreateWorkflowRun cw) (\<lambda>run d. CanonicalPublicID (r_ID run) \<noteq> Some rid)"
  unfolding CreateWorkflowRun_def
proof (rule rt.tells_tx, intro conjI)
  fix now rnd d run d' assume d: "F d" and res: "createWorkflowRunTx cw now rnd d = Inr (run, d')"
  show "runtime rid d d'" using createWorkflowRunTx_step(1,2) [OF res] by (rule runtime_wf)
  show "CanonicalPublicID (r_ID run) \<noteq> Some rid"
    using createWorkflowRunTx_step(3) [OF res] createWorkflowRunTx_id [OF res] wf_invD(3) [of rid d] assms [OF d]
    by (auto simp: good_def)
qed

lemma good_run_canonical: "good rid d \<Longrightarrow> CanonicalPublicID rid = Some rid"
  using wf_invD(1,3) [of rid d] by (auto simp: good_def wf_keyed_def)

lemma safe_CreateWorkflowNodeRuns:
  assumes "CanonicalPublicID x \<noteq> Some rid"
  shows "safe (runtime rid) F (CreateWorkflowNodeRuns x ns)"
  unfolding CreateWorkflowNodeRuns_def
proof (intro tells_cases rt.tells_ret rt.tells_bind_any [OF rt.tells_now] rt.tells_bind_pure [OF rt.tells_lookup] rt.tells_tx)
  show "runtime rid d d' \<and> True"
    if "CanonicalPublicID x = Some i" "insertNodeRuns i c rnd 0 ns d = Inr (b, d')" for i c rnd d b d'
    using insertNodeRuns_step [OF that(2), of rid] that(1) assms by (auto intro: runtime_wf)
qed simp

lemma updateRun_tasks: "same_tasks d (snd (updateRunWhere i P f d))"
  by (auto simp: same_tasks_def updateRunWhere_def split: option.splits)

lemma safe_updateRun:
  assumes "\<And>r. P r \<Longrightarrow> run_identity_wf (f r) = run_identity_wf r \<and> r_Status (f r) = r_Status r"
    and "\<And>r. P r \<Longrightarrow> RunStatusTerminal (r_Status r) \<Longrightarrow> r_ReconcileOwner r = None \<Longrightarrow>
      f r = r\<lparr>r_ReportStatus := r_ReportStatus (f r)\<rparr>"
  shows "safe (runtime rid) F (updateRun_op i P f)"
  unfolding updateRun_op_def
proof (intro tells_cases rt.tells_ret rt.tells_db_op)
  fix k now rnd d
  have "runtime rid d (snd (updateRunWhere k P f d))"
    by (rule runtime_wf [OF run_bookkeeping_step [OF assms] updateRun_tasks])
  then show "runtime rid d (snd (let (b, d') = updateRunWhere k P f d in (Inr b, d')))"
    by (simp add: split_beta)
qed simp_all

lemma safe_leases:
  "safe (runtime rid) F (ClaimWorkflowRunLease i w now t)" "safe (runtime rid) F (RenewWorkflowRunLease i w t)"
  "safe (runtime rid) F (ReleaseWorkflowRunLease i w nx)" "safe (runtime rid) F (SettleWorkflowReport i a b)"
  unfolding ClaimWorkflowRunLease_def RenewWorkflowRunLease_def ReleaseWorkflowRunLease_def SettleWorkflowReport_def
  by (rule safe_updateRun; auto simp: run_identity_wf_def run_terminal_iff)+

section \<open>Runs that stop, nodes that move\<close>

lemma stopRunTx_tasks: "stopRunTx x sr now d = Inr (b, d') \<Longrightarrow> same_tasks d d'"
  by (auto simp: stopRunTx_def same_tasks_def updateRunWhere_def stopPendingNodesTx_def split: option.splits if_splits)

lemma safe_StopWorkflowRun: "safe (runtime rid) F (StopWorkflowRun sr)"
  unfolding StopWorkflowRun_def
  by (intro tells_cases rt.tells_throw rt.tells_ret rt.tells_tx)
    (auto intro!: runtime_wf intro: stopRunTx_step stopRunTx_tasks)

lemma same_tasks_updates:
  "same_tasks d (snd (updateRunWhere i P f e)) = same_tasks d e"
  "same_tasks d (snd (updateNodeWhere i Q g e)) = same_tasks d e"
  "same_tasks d (stopPendingNodesTx x now e) = same_tasks d e"
  "same_tasks d d"
  by (auto simp: same_tasks_def updateRunWhere_def updateNodeWhere_def stopPendingNodesTx_def split: option.splits)

lemma beginDrainTx_tasks: "beginDrainTx x sid bd now d = Inr (b, d') \<Longrightarrow> same_tasks d d'"
  by (auto simp: beginDrainTx_def Let_def split_beta same_tasks_updates split: if_splits)

lemma safe_BeginWorkflowRunDrain:
  assumes "NodeRunStatusTerminal (bd_NodeStatus bd)"
    and "\<And>d i. F d \<Longrightarrow> CanonicalPublicID (bd_NodeRunID bd) = Some i \<Longrightarrow> bd_NodeExpected bd = NodeRunStatusPending \<Longrightarrow>
      may_start rid d i"
  shows "safe (runtime rid) F (BeginWorkflowRunDrain bd)"
  unfolding BeginWorkflowRunDrain_def
  by (intro tells_cases rt.tells_throw rt.tells_ret rt.tells_tx)
    (use assms in \<open>auto intro!: runtime_wf intro: beginDrainTx_step beginDrainTx_tasks\<close>)

lemma transitionRunTx_tasks: "transitionWorkflowRunTx x ti d = Inr (b, d') \<Longrightarrow> same_tasks d d'"
  by (auto simp: transitionWorkflowRunTx_def same_tasks_def updateRunWhere_def Let_def
      split: option.splits if_splits prod.splits)

lemma safe_TransitionWorkflowRun:
  assumes "ti_ExpectedStatus ti = RunStatusRunning \<Longrightarrow> ti_NewStatus ti = RunStatusSucceeded"
    and "ti_ExpectedStatus ti \<noteq> RunStatusPending"
    and "\<And>d i n. F d \<Longrightarrow> CanonicalPublicID (ti_WorkflowRunID ti) = Some rid \<Longrightarrow> ti_NewStatus ti = RunStatusSucceeded \<Longrightarrow>
      node_of rid d i n \<Longrightarrow> NodeRunStatusTerminal (n_Status n)"
  shows "safe (runtime rid) F (TransitionWorkflowRun ti)"
  unfolding TransitionWorkflowRun_def
proof (intro tells_cases rt.tells_throw rt.tells_ret rt.tells_tx)
  fix x now rnd d b d'
  assume "\<not> \<not> ValidRunStatusTransition (ti_ExpectedStatus ti) (ti_NewStatus ti)" "CanonicalPublicID (ti_WorkflowRunID ti) = Some x"
    "F d" and res: "transitionWorkflowRunTx x ti d = Inr (b, d')"
  then have "wf_rel rid d d'" using assms by (intro transitionWorkflowRunTx_step [OF _ _ _ _ res]) auto
  then show "runtime rid d d' \<and> True" using transitionRunTx_tasks [OF res] by (simp add: runtime_wf)
qed simp

lemma transitionNodeTx_tasks: "transitionNodeRunTx i tn d = Inr (b, d') \<Longrightarrow> same_tasks d d'"
  by (auto simp: transitionNodeRunTx_def same_tasks_def updateNodeWhere_def split: option.splits if_splits)

lemma safe_TransitionWorkflowNodeRun:
  assumes "\<And>d i. F d \<Longrightarrow> CanonicalPublicID (tn_NodeRunID tn) = Some i \<Longrightarrow> node_move_ok rid d i tn"
  shows "safe (runtime rid) F (TransitionWorkflowNodeRun tn)"
  unfolding TransitionWorkflowNodeRun_def
proof (intro tells_cases rt.tells_throw rt.tells_ret rt.tells_tx)
  fix x now rnd d b d'
  assume "\<not> \<not> ValidNodeRunTransition (tn_ExpectedStatus tn) (tn_NewStatus tn)" "CanonicalPublicID (tn_NodeRunID tn) = Some x"
    "F d" and res: "transitionNodeRunTx x tn d = Inr (b, d')"
  then have "wf_rel rid d d'" using assms by (intro transitionNodeRunTx_step [OF _ _ res]) auto
  then show "runtime rid d d' \<and> True" using transitionNodeTx_tasks [OF res] by (simp add: runtime_wf)
qed simp

section \<open>Requests\<close>

lemma openRequestTx_tasks: assumes "openRequestTx x i oi rnd d = Inr (res, d')" shows "same_tasks d d'"
  using assms by (cases rule: openRequestTx_cases) (simp_all add: same_tasks_def)

lemma safe_OpenWorkflowRequest:
  assumes "\<And>d i. F d \<Longrightarrow> CanonicalPublicID (oi_NodeRunID oi) = Some i \<Longrightarrow> oi_NodeExpected oi = NodeRunStatusPending \<Longrightarrow>
      may_start rid d i"
  shows "safe (runtime rid) F (OpenWorkflowRequest oi)"
proof -
  have tx: "safe (runtime rid) F (db_op (\<lambda>now rnd. commit (openRequestTx x i oi rnd)))"
    if "ValidNodeRunTransition (oi_NodeExpected oi) NodeRunStatusWaiting" "CanonicalPublicID (oi_NodeRunID oi) = Some i" for x i
    by (rule rt.tells_tx) (use assms that in \<open>auto intro!: runtime_wf intro: openRequestTx_step openRequestTx_tasks\<close>)
  show ?thesis
    unfolding OpenWorkflowRequest_def
    by (intro tells_cases rt.tells_throw rt.tells_ret rt.tells_bind_any safe_reads tells_safe [OF rt.tells_try [OF tx]])
      simp_all
qed

lemma safe_ResolveWorkflowRequest: "safe (runtime rid) F (ResolveWorkflowRequest ri)"
  unfolding ResolveWorkflowRequest_def responder_key_def
proof (intro tells_cases rt.tells_throw rt.tells_ret rt.tells_bind_any safe_lookup rt.tells_db_op)
  fix i u now rnd d
  assume "\<not> (ri_Status ri \<noteq> RequestStatusAnswered \<and> ri_Status ri \<noteq> RequestStatusDeclined \<and> ri_Status ri \<noteq> RequestStatusExpired)"
  then have "ri_Status ri \<noteq> RequestStatusPending" by auto
  then have "runtime rid d (snd (updateReqWhere i (resolvable ri) (resolveUpdates ri u) d))"
    by (rule runtime_wf [OF resolve_step]) (auto simp: same_tasks_def updateReqWhere_def split: option.splits)
  then show "runtime rid d (snd (let (b, d') = updateReqWhere i (resolvable ri) (resolveUpdates ri u) d in (Inr b, d')))"
    by (simp add: split_beta)
qed simp_all

section \<open>Admission\<close>

text \<open>After its task was admitted, a node has left the pending state for good.\<close>

definition left_pending :: "string \<Rightarrow> string \<Rightarrow> db \<Rightarrow> bool" where
  "left_pending rid i d \<longleftrightarrow> (\<forall>n. node_of rid d i n \<longrightarrow> n_Status n \<noteq> NodeRunStatusPending)"

lemma not_pending_again: "ValidNodeRunTransition\<^sup>*\<^sup>* a b \<Longrightarrow> b = NodeRunStatusPending \<Longrightarrow> a = NodeRunStatusPending"
  by (induction rule: rtranclp_induct) (use transition_sources(1) in auto)

lemma stable_left_pending:
  assumes "\<And>d. F d \<Longrightarrow> good rid d" "stable (runtime rid) F"
  shows "stable (runtime rid) (\<lambda>d. F d \<and> left_pending rid i d)"
proof (rule stable_fact [OF _ assms])
  fix d d' assume ev: "wf_evolves rid d d'" and l: "left_pending rid i d"
  show "left_pending rid i d'"
    unfolding left_pending_def
  proof (intro allI impI notI)
    fix n' assume n': "node_of rid d' i n'" "n_Status n' = NodeRunStatusPending"
    then obtain n where "node_of rid d i n" "wnode_evolves n n'" using wf_evolves_back [OF ev] by blast
    then show False using l not_pending_again n'(2) by (auto simp: left_pending_def wnode_evolves_def)
  qed
qed

lemma tells_AdmitNodeTask:
  assumes F: "\<And>d. F d \<Longrightarrow> good rid d \<and> may_start rid d (ci_WorkflowNodeRunID ci)"
    and node: "ci_WorkflowNodeRunID ci \<noteq> ''''"
  shows "tells (runtime rid) F (AdmitTask sp ci) (\<lambda>t d. left_pending rid (ci_WorkflowNodeRunID ci) d)"
proof -
  have "tells (runtime rid) F (admitWorkflowNodeTask sp ci) (\<lambda>t d. left_pending rid (ci_WorkflowNodeRunID ci) d)"
    unfolding admitWorkflowNodeTask_def
  proof (rule tells_mapErr, rule rt.tells_tx, intro conjI)
    fix now rnd d t d' assume d: "F d" and res: "admitWorkflowNodeTaskTx sp ci now rnd d = Inr (t, d')"
    note st = admit_step [OF res conjunct2 [OF F [OF d]]]
    show r: "runtime rid d d'" using st(1,2) by (simp add: runtime_def)
    have "node_links rid d'" using runtime_good [OF r] F [OF d] by (simp add: good_def wf_inv_def)
    then show "left_pending rid (ci_WorkflowNodeRunID ci) d'"
      using st(3) by (auto simp: left_pending_def node_links_def node_linked_def node_of_def)
  qed
  then show ?thesis using node by (simp add: AdmitTask_def rt.tells_throw)
qed

lemma safe_AdmitPlain: "ci_WorkflowNodeRunID ci = '''' \<Longrightarrow> safe (runtime rid) F (AdmitTask sp ci)"
  by (simp add: AdmitTask_def rt.tells_throw safe_admitPlainTask)

end
