(* ===== verification/Utf8.thy ===== *)
theory Utf8
  imports Prelude
begin

text \<open>
  Go strings are byte strings; the length limits of the services count runes
  (\<open>internal/util/helpers.go\<close>). \<open>rune_width\<close> is the decoding of \<open>unicode/utf8\<close>: the number of
  bytes of the well-formed encoding the bytes begin with, or none, in which case one byte is read as
  the replacement character. Converting to \<open>[]rune\<close> and back replaces every such byte by the three
  bytes of U+FFFD.
\<close>

section \<open>Decoding\<close>

abbreviation byte :: "char \<Rightarrow> nat" where "byte c \<equiv> of_char c"

definition cont :: "char \<Rightarrow> bool" where
  "cont c \<longleftrightarrow> 128 \<le> byte c \<and> byte c \<le> 191"

text \<open>The bounds on the second byte exclude overlong encodings, surrogates and code points above
  U+10FFFF.\<close>

definition second_ok :: "nat \<Rightarrow> char \<Rightarrow> bool" where
  "second_ok b c \<longleftrightarrow>
     cont c \<and> (b = 224 \<longrightarrow> 160 \<le> byte c) \<and> (b = 237 \<longrightarrow> byte c \<le> 159) \<and> (b = 240 \<longrightarrow> 144 \<le> byte c) \<and> (b = 244 \<longrightarrow> byte c \<le> 143)"

fun rune_width :: "string \<Rightarrow> nat option" where
  "rune_width [] = None"
| "rune_width (a # s) =
     (let b = byte a
      in if b < 128 then Some 1
         else if 194 \<le> b \<and> b \<le> 223
         then (case s of c # _ \<Rightarrow> if second_ok b c then Some 2 else None | _ \<Rightarrow> None)
         else if 224 \<le> b \<and> b \<le> 239
         then (case s of c # e # _ \<Rightarrow> if second_ok b c \<and> cont e then Some 3 else None | _ \<Rightarrow> None)
         else if 240 \<le> b \<and> b \<le> 244
         then (case s of c # e # f # _ \<Rightarrow> if second_ok b c \<and> cont e \<and> cont f then Some 4 else None | _ \<Rightarrow> None)
         else None)"

definition RuneError :: string where
  "RuneError = [CHR 0xEF, CHR 0xBF, CHR 0xBD]"

lemma rune_width_bounds: "rune_width s = Some k \<Longrightarrow> 1 \<le> k \<and> k \<le> 4 \<and> k \<le> length s"
  by (cases s) (auto simp: Let_def split: if_splits list.splits)

text \<open>\<open>[]rune(s)\<close>, every rune as its encoding.\<close>

function runes :: "string \<Rightarrow> string list" where
  "runes [] = []"
| "runes (a # s) =
     (case rune_width (a # s) of
        Some k \<Rightarrow> take k (a # s) # runes (drop k (a # s))
      | None \<Rightarrow> RuneError # runes s)"
  by pat_completeness auto
termination
  by (relation "measure length") (auto dest!: rune_width_bounds simp del: rune_width.simps)

declare runes.simps(2) [simp del]

definition RuneCountInString :: "string \<Rightarrow> int" where
  "RuneCountInString s = int (length (runes s))"

section \<open>internal/util/helpers.go\<close>

definition ExceedsByteLimit :: "string \<Rightarrow> int \<Rightarrow> bool" where
  "ExceedsByteLimit s maxBytes \<longleftrightarrow> int (length s) > maxBytes"

definition ExceedsRuneLimit :: "string \<Rightarrow> int \<Rightarrow> bool" where
  "ExceedsRuneLimit s maxRunes \<longleftrightarrow> RuneCountInString s > maxRunes"

definition ellipsis :: string where
  "ellipsis = [CHR 0xE2, CHR 0x80, CHR 0xA6]"

definition TruncateRunes :: "string \<Rightarrow> int \<Rightarrow> string" where
  "TruncateRunes s maxRunes =
     (if maxRunes \<le> 0 then ''''
      else if RuneCountInString s \<le> maxRunes then s
      else concat (take (nat maxRunes) (runes s)) @ ellipsis)"

definition ClipRunes :: "string \<Rightarrow> int \<Rightarrow> string" where
  "ClipRunes s maxRunes =
     (if maxRunes \<le> 0 then ''''
      else if RuneCountInString s \<le> maxRunes then s
      else concat (take (nat maxRunes) (runes s)))"

section \<open>Lemmas\<close>

text \<open>A rune is the encoding of one code point: decoding the concatenation of runes gives the runes
  back, whatever follows a complete encoding.\<close>

definition is_rune :: "string \<Rightarrow> bool" where
  "is_rune r \<longleftrightarrow> rune_width r = Some (length r)"

lemma is_rune_RuneError [simp]: "is_rune RuneError"
  by (simp add: is_rune_def RuneError_def Let_def second_ok_def cont_def)

lemma is_rune_ellipsis [simp]: "is_rune ellipsis"
  by (simp add: is_rune_def ellipsis_def Let_def second_ok_def cont_def)

lemma rune_width_take: "rune_width s = Some k \<Longrightarrow> rune_width (take k s) = Some k"
  by (cases s) (auto simp: Let_def split: if_splits list.splits)

lemma rune_width_append: "rune_width r = Some k \<Longrightarrow> rune_width (r @ s) = Some k"
  by (cases r) (auto simp: Let_def split: if_splits list.splits)

lemma runes_are_runes: "r \<in> set (runes s) \<Longrightarrow> is_rune r"
proof (induction s rule: runes.induct)
  case 1
  then show ?case by simp
next
  case (2 a s)
  show ?case
  proof (cases "rune_width (a # s)")
    case None
    then show ?thesis using 2 by (auto simp: runes.simps(2))
  next
    case (Some k)
    have "is_rune (take k (a # s))"
      using rune_width_take [OF Some] rune_width_bounds [OF Some] by (simp add: is_rune_def)
    then show ?thesis using 2 Some by (auto simp: runes.simps(2))
  qed
qed

lemma runes_append: "is_rune r \<Longrightarrow> runes (r @ s) = r # runes s"
proof -
  assume r: "is_rune r"
  then obtain a t where at: "r = a # t" by (cases r) (auto simp: is_rune_def)
  have "rune_width (r @ s) = Some (length r)" using r rune_width_append by (simp add: is_rune_def)
  then show ?thesis by (simp add: at runes.simps(2))
qed

lemma runes_concat: "\<forall>r\<in>set rs. is_rune r \<Longrightarrow> runes (concat rs @ s) = rs @ runes s"
  by (induction rs) (simp_all add: runes_append)

lemma runes_ellipsis: "runes ellipsis = [ellipsis]"
  using runes_append [of ellipsis "''''"] by simp

text \<open>A valid string is the concatenation of its runes.\<close>

definition ValidString :: "string \<Rightarrow> bool" where
  "ValidString s \<longleftrightarrow> concat (runes s) = s"



end
