(* ===== verification/Task_Service.thy ===== *)
theory Task_Service
  imports Workflow_Store Utf8
begin

text \<open>
  The task service, \<open>internal/service/task/service.go\<close> and \<open>cancel.go\<close>, with the agent reads of
  \<open>internal/infra/db/agent.go\<close> it uses. A collaborator that may be nil is a flag or an option of the
  service record; the quota checker is a query of the database and the title generator a function of
  the moment and the input, both given.
\<close>

section \<open>Agents, internal/infra/db/agent.go\<close>

definition GetAgent :: "string \<Rightarrow> Agent option serv" where
  "GetAgent agentID =
     get_by_id (\<lambda>d i. case db_agents d i of None \<Rightarrow> None | Some a \<Rightarrow> if ag_Deleted a then None else Some a) agentID"

definition GetAgentIncludingDeleted :: "string \<Rightarrow> Agent option serv" where
  "GetAgentIncludingDeleted agentID = get_by_id db_agents agentID"

definition GetAgentRevision :: "string \<Rightarrow> int \<Rightarrow> AgentRevision option serv" where
  "GetAgentRevision agentID revision =
     if_key (\<lambda>d i. db_agents d i \<noteq> None) agentID None (\<lambda>i. read_op (\<lambda>d. db_agent_revs d (i, revision)))"

section \<open>The service\<close>

record TaskService =
  ts_Agents :: bool
  ts_Tasks :: bool
  ts_TaskRuns :: bool
  ts_WorkflowSteps :: bool
  ts_QuotaChecker :: "(db \<Rightarrow> string \<Rightarrow> int \<Rightarrow> int \<Rightarrow> string option) option"
  ts_TitleGenerator :: "(nat \<Rightarrow> string \<Rightarrow> (string \<times> int \<times> int) option) option"
  ts_params :: store_params

record CreateTaskCmd =
  ct_ConversationID :: string
  ct_UserID :: string
  ct_SpaceID :: string
  ct_Input :: string
  ct_AgentID :: "string option"
  ct_IssueID :: "string option"
  ct_ScheduleID :: "string option"
  ct_CreatedByType :: string
  ct_TriggerSource :: string
  ct_SourceMessageID :: "string option"
  ct_AdmissionKey :: string
  ct_WorkflowNodeRunID :: string
  ct_OutputSchema :: "string option"
  ct_RequestedBy :: string
  ct_AssistantID :: string
  ct_AssistantRevision :: int

record CreateRunCmd =
  rc_UserID :: string
  rc_TaskID :: string
  rc_Input :: string
  rc_CreatedByType :: string
  rc_TriggerSource :: string
  rc_RetryOfTaskRunID :: "string option"
  rc_SourceMessageID :: "string option"
  rc_IdempotencyKey :: "string option"

record WorkflowRetryCmd =
  wr_UserID :: string
  wr_WorkflowRunID :: string
  wr_WorkflowNodeRunID :: string
  wr_NodeID :: string
  wr_Attempt :: int
  wr_Previous :: TaskRun

record WorkflowAnswerCmd =
  wa_UserID :: string
  wa_WorkflowRunID :: string
  wa_WorkflowNodeRunID :: string
  wa_NodeID :: string
  wa_RequestID :: string
  wa_Attempt :: int
  wa_Asked :: TaskRun
  wa_Answer :: string

definition guardP :: "bool \<Rightarrow> 'e \<Rightarrow> ('e, 's, unit) prog" where
  "guardP b e = (if b then retP () else throwP e)"

section \<open>Inputs and titles\<close>

definition maxTaskInputBytes :: int where "maxTaskInputBytes = 65535"

definition defaultTitleRunes :: int where "defaultTitleRunes = 50"

definition blankInput :: "string \<Rightarrow> bool" where
  "blankInput input \<longleftrightarrow> TrimSpace input = ''''"

definition buildTaskInputFromAgent :: "Agent \<Rightarrow> string \<Rightarrow> string" where
  "buildTaskInputFromAgent agent userInput =
     (let out = ''Agent: '' @ ag_Name agent @ nl @ ''Description: '' @ ag_Description agent @ nl @ ''Instructions:'' @ nl
                @ ag_Instructions agent
      in if userInput \<noteq> '''' then out @ nl @ nl @ userInput else out)"

definition truncateTaskTitle :: "string \<Rightarrow> int \<Rightarrow> string" where
  "truncateTaskTitle input maxRunes = TruncateRunes input maxRunes"

definition resolveTitle :: "TaskService \<Rightarrow> string \<Rightarrow> string \<Rightarrow> (string \<times> int \<times> int) serv" where
  "resolveTitle ts input fallback =
     (let title = truncateTaskTitle fallback defaultTitleRunes
      in case ts_TitleGenerator ts of
           None \<Rightarrow> retP (title, 0, 0)
         | Some gen \<Rightarrow>
             bindP (getP (\<lambda>s. gen (sy_tick s) input)) (\<lambda>r.
             case r of
               None \<Rightarrow> retP (title, 0, 0)
             | Some (genTitle, promptTokens, completionTokens) \<Rightarrow>
                 if genTitle = '''' then retP (title, 0, 0)
                 else retP (genTitle, promptTokens, completionTokens)))"

definition checkQuota :: "TaskService \<Rightarrow> string \<Rightarrow> int \<Rightarrow> unit serv" where
  "checkQuota ts spaceID tokens =
     (case ts_QuotaChecker ts of
        None \<Rightarrow> retP ()
      | Some check \<Rightarrow>
          if spaceID = '''' then retP ()
          else bindP (read_op (\<lambda>d. check d spaceID 1 tokens)) (\<lambda>refusal.
               case refusal of None \<Rightarrow> retP () | Some reason \<Rightarrow> throwP ErrQuota))"

definition Admits :: "TaskService \<Rightarrow> string \<Rightarrow> unit serv" where
  "Admits ts spaceID = checkQuota ts spaceID 0"

definition resolveInput ::
  "TaskService \<Rightarrow> string \<Rightarrow> string \<Rightarrow> string option \<Rightarrow> (string \<times> string option \<times> Agent option) serv" where
  "resolveInput ts spaceID input agentID =
     bindP (guardP (\<not> ExceedsByteLimit input maxTaskInputBytes) ErrInputTooLong) (\<lambda>_.
     case agentID of
       None \<Rightarrow> bindP (guardP (\<not> blankInput input) ErrInputRequired) (\<lambda>_. retP (input, None, None))
     | Some a \<Rightarrow>
         if a = '''' then bindP (guardP (\<not> blankInput input) ErrInputRequired) (\<lambda>_. retP (input, None, None))
         else
           bindP (guardP (ts_Agents ts) ErrAgentsNotConfigured) (\<lambda>_.
           bindP (GetAgent a) (\<lambda>found.
           case found of
             None \<Rightarrow> throwP ErrAgentNotFound
           | Some agent \<Rightarrow>
               if ag_SpaceID agent \<noteq> spaceID then throwP ErrAgentNotFound
               else if \<not> blankInput input then retP (input, agentID, Some agent)
               else retP (buildTaskInputFromAgent agent '''', agentID, Some agent))))"

definition normalizeCreateTaskProvenance :: "string \<Rightarrow> string \<Rightarrow> string \<times> string" where
  "normalizeCreateTaskProvenance createdByType triggerSource =
     (if createdByType = '''' then RunCreatedByTypeUser else createdByType,
      if triggerSource = '''' then RunTriggerSourceTaskCreate else triggerSource)"

definition normalizeCreateRunProvenance :: "string \<Rightarrow> string \<Rightarrow> string \<times> string" where
  "normalizeCreateRunProvenance createdByType triggerSource =
     (if createdByType = '''' then RunCreatedByTypeUser else createdByType,
      if triggerSource = '''' then RunTriggerSourceTaskRerun else triggerSource)"

section \<open>Creation and admission\<close>

definition buildCreateInput :: "TaskService \<Rightarrow> CreateTaskCmd \<Rightarrow> CreateInput serv" where
  "buildCreateInput ts cmd =
     bindP (resolveInput ts (ct_SpaceID cmd) (ct_Input cmd) (ct_AgentID cmd)) (\<lambda>(input, agentID, selectedAgent).
     bindP (checkQuota ts (ct_SpaceID cmd) 0) (\<lambda>_.
     let (createdByType, triggerSource) = normalizeCreateTaskProvenance (ct_CreatedByType cmd) (ct_TriggerSource cmd);
         fallbackTitle = (case selectedAgent of
                            Some agent \<Rightarrow> if blankInput (ct_Input cmd) then ag_Name agent else input
                          | None \<Rightarrow> input)
     in bindP (resolveTitle ts input fallbackTitle) (\<lambda>(title, promptTokens, completionTokens).
        retP \<lparr>ci_ConversationID = ct_ConversationID cmd, ci_SpaceID = ct_SpaceID cmd, ci_Input = input,
              ci_Title = title, ci_CreatedBy = ct_UserID cmd, ci_InitialRunCreatedBy = ct_UserID cmd,
              ci_InitialRunCreatedByType = createdByType, ci_InitialRunTriggerSource = triggerSource,
              ci_InitialRunSourceMessageID = ct_SourceMessageID cmd, ci_TitlePromptTokens = promptTokens,
              ci_TitleCompletionTokens = completionTokens, ci_AgentID = agentID,
              ci_InitialRunAgentRevision = map_option ag_Revision selectedAgent,
              ci_InitialRunSandboxNetworkTier = map_option ag_SandboxNetworkTier selectedAgent,
              ci_InitialRunSandboxFilesystemTier = map_option ag_SandboxFilesystemTier selectedAgent,
              ci_IssueID = ct_IssueID cmd, ci_ScheduleID = ct_ScheduleID cmd, ci_AdmissionKey = ct_AdmissionKey cmd,
              ci_WorkflowNodeRunID = ct_WorkflowNodeRunID cmd, ci_OutputSchema = ct_OutputSchema cmd,
              ci_RequestedBy = ct_RequestedBy cmd, ci_AssistantID = ct_AssistantID cmd,
              ci_AssistantRevision = ct_AssistantRevision cmd\<rparr>)))"

definition svc_CreateTask :: "TaskService \<Rightarrow> CreateTaskCmd \<Rightarrow> Task serv" where
  "svc_CreateTask ts cmd =
     bindP (guardP (ts_Tasks ts) ErrTasksNotConfigured) (\<lambda>_.
     bindP (buildCreateInput ts cmd) (\<lambda>create. CreateTask (ts_params ts) create))"

text \<open>The store returns \<open>(nil, nil)\<close> only when the admitted task vanished between two reads of
  \<open>AdmitTask\<close>; no operation deletes a task.\<close>

definition AdmitWorkflowTask :: "TaskService \<Rightarrow> CreateTaskCmd \<Rightarrow> Task option serv" where
  "AdmitWorkflowTask ts cmd =
     bindP (guardP (ts_Tasks ts) ErrTasksNotConfigured) (\<lambda>_.
     bindP (guardP (ct_AdmissionKey cmd \<noteq> '''') ErrAdmissionKeyRequired) (\<lambda>_.
     bindP (buildCreateInput ts cmd) (\<lambda>create. AdmitTask (ts_params ts) create)))"

definition GetTaskInConversation :: "TaskService \<Rightarrow> string \<Rightarrow> string \<Rightarrow> Task serv" where
  "GetTaskInConversation ts conversationID taskID =
     bindP (guardP (ts_Tasks ts) (ErrText ''tasks not configured'')) (\<lambda>_.
     bindP (GetTask taskID) (\<lambda>t.
     case t of
       None \<Rightarrow> throwP (ErrText ''task not found or not in this conversation'')
     | Some x \<Rightarrow>
         if (case tk_ConversationID x of None \<Rightarrow> '''' | Some c \<Rightarrow> c) \<noteq> conversationID
         then throwP (ErrText ''task not found or not in this conversation'')
         else retP x))"

definition StartBackgroundTask :: "TaskService \<Rightarrow> CreateTaskCmd \<Rightarrow> (string \<times> string) serv" where
  "StartBackgroundTask ts cmd =
     bindP (svc_CreateTask ts cmd) (\<lambda>task.
     retP (tk_ID task, case tk_LastRunID task of None \<Rightarrow> '''' | Some r \<Rightarrow> r))"

section \<open>Runs\<close>

definition refuseWorkflowStep :: "TaskService \<Rightarrow> string \<Rightarrow> err \<Rightarrow> unit serv" where
  "refuseWorkflowStep ts taskID refusal =
     (if \<not> ts_WorkflowSteps ts then retP ()
      else bindP (GetWorkflowNodeRunByTaskID taskID) (\<lambda>step.
           case step of None \<Rightarrow> retP () | Some n \<Rightarrow> throwP refusal))"

definition run_agent :: "TaskService \<Rightarrow> Task \<Rightarrow> Agent option serv" where
  "run_agent ts target =
     (case tk_AgentID target of
        None \<Rightarrow> retP None
      | Some a \<Rightarrow>
          if a = '''' then retP None
          else
            bindP (guardP (ts_Agents ts) ErrAgentsNotConfigured) (\<lambda>_.
            bindP (GetAgent a) (\<lambda>found.
            case found of
              None \<Rightarrow> throwP ErrAgentNotFound
            | Some agent \<Rightarrow>
                if ag_SpaceID agent \<noteq> tk_SpaceID target then throwP ErrAgentNotFound else retP (Some agent))))"

definition CreateRun :: "TaskService \<Rightarrow> CreateRunCmd \<Rightarrow> TaskRun serv" where
  "CreateRun ts cmd =
     bindP (guardP (ts_TaskRuns ts) ErrTaskRunsNotConfigured) (\<lambda>_.
     bindP (guardP (\<not> blankInput (rc_Input cmd)) ErrInputRequired) (\<lambda>_.
     bindP (guardP (\<not> ExceedsByteLimit (rc_Input cmd) maxTaskInputBytes) ErrInputTooLong) (\<lambda>_.
     bindP (guardP (ts_Tasks ts) ErrTasksNotConfigured) (\<lambda>_.
     bindP (GetTask (rc_TaskID cmd)) (\<lambda>found.
     case found of
       None \<Rightarrow> throwP ErrTaskNotFound
     | Some target \<Rightarrow>
         bindP (refuseWorkflowStep ts (rc_TaskID cmd) ErrContinueOfWorkflowStep) (\<lambda>_.
         bindP (checkQuota ts (tk_SpaceID target) 0) (\<lambda>_.
         bindP (run_agent ts target) (\<lambda>agent.
         let (createdByType, triggerSource) = normalizeCreateRunProvenance (rc_CreatedByType cmd) (rc_TriggerSource cmd)
         in CreateTaskRun \<lparr>cr_TaskID = rc_TaskID cmd, cr_Input = rc_Input cmd, cr_CreatedBy = rc_UserID cmd,
              cr_CreatedByType = createdByType, cr_TriggerSource = triggerSource,
              cr_RetryOfTaskRunID = rc_RetryOfTaskRunID cmd, cr_SourceMessageID = rc_SourceMessageID cmd,
              cr_AgentRevision = map_option ag_Revision agent,
              cr_SandboxNetworkTier = map_option ag_SandboxNetworkTier agent,
              cr_SandboxFilesystemTier = map_option ag_SandboxFilesystemTier agent,
              cr_IdempotencyKey = rc_IdempotencyKey cmd, cr_WorkflowNodeRunID = '''', cr_WorkflowNodeFrom = None,
              cr_WorkflowAttempt = 0\<rparr>))))))))"

definition RetryRun :: "TaskService \<Rightarrow> string \<Rightarrow> string \<Rightarrow> (TaskRun \<times> TaskRun) serv" where
  "RetryRun ts userID taskID =
     bindP (guardP (ts_TaskRuns ts) ErrTaskRunsNotConfigured) (\<lambda>_.
     bindP (guardP (ts_Tasks ts) ErrTasksNotConfigured) (\<lambda>_.
     bindP (GetTask taskID) (\<lambda>found.
     case found of
       None \<Rightarrow> throwP ErrTaskNotFound
     | Some target \<Rightarrow>
         bindP (refuseWorkflowStep ts taskID ErrRetryOfWorkflowStep) (\<lambda>_.
         bindP (GetActiveTaskRunByTask taskID) (\<lambda>active.
         bindP (guardP (active = None) ErrRunInProgress) (\<lambda>_.
         case tk_LastRunID target of
           None \<Rightarrow> throwP ErrNoRunToRetry
         | Some l \<Rightarrow>
             bindP (GetTaskRun l) (\<lambda>prev.
             case prev of
               None \<Rightarrow> throwP ErrNoRunToRetry
             | Some previous \<Rightarrow>
                 if \<not> TaskRunStatusTerminal (tr_Status previous) then throwP ErrNoRunToRetry
                 else
                   bindP (CreateRun ts \<lparr>rc_UserID = userID, rc_TaskID = taskID, rc_Input = tr_Input previous,
                            rc_CreatedByType = RunCreatedByTypeUser, rc_TriggerSource = RunTriggerSourceTaskRetry,
                            rc_RetryOfTaskRunID = Some (tr_ID previous), rc_SourceMessageID = None,
                            rc_IdempotencyKey = None\<rparr>) (\<lambda>run.
                   retP (run, previous)))))))))"

definition admitWorkflowNodeRun :: "TaskService \<Rightarrow> string \<Rightarrow> TaskRun \<Rightarrow> CreateRunInput \<Rightarrow> TaskRun serv" where
  "admitWorkflowNodeRun ts userID previous cr =
     bindP (guardP (ts_TaskRuns ts) ErrTaskRunsNotConfigured) (\<lambda>_.
     bindP (guardP (ts_Tasks ts) ErrTasksNotConfigured) (\<lambda>_.
     bindP (GetTask (tr_TaskID previous)) (\<lambda>found.
     case found of
       None \<Rightarrow> throwP ErrTaskNotFound
     | Some target \<Rightarrow>
         bindP (checkQuota ts (tk_SpaceID target) 0) (\<lambda>_.
         CreateTaskRun (cr\<lparr>cr_TaskID := tr_TaskID previous, cr_CreatedBy := userID,
           cr_CreatedByType := RunCreatedByTypeUser, cr_TriggerSource := RunTriggerSourceWorkflowStep,
           cr_AgentRevision := tr_AgentRevision previous, cr_SandboxNetworkTier := tr_SandboxNetworkTier previous,
           cr_SandboxFilesystemTier := tr_SandboxFilesystemTier previous\<rparr>)))))"

definition blankRunInput :: CreateRunInput where
  "blankRunInput =
     \<lparr>cr_TaskID = '''', cr_Input = '''', cr_CreatedBy = '''', cr_CreatedByType = '''', cr_TriggerSource = '''',
      cr_RetryOfTaskRunID = None, cr_SourceMessageID = None, cr_AgentRevision = None, cr_SandboxNetworkTier = None,
      cr_SandboxFilesystemTier = None, cr_IdempotencyKey = None, cr_WorkflowNodeRunID = '''',
      cr_WorkflowNodeFrom = None, cr_WorkflowAttempt = 0\<rparr>"

definition retry_input :: "WorkflowRetryCmd \<Rightarrow> CreateRunInput" where
  "retry_input cmd = blankRunInput
     \<lparr>cr_Input := tr_Input (wr_Previous cmd), cr_RetryOfTaskRunID := Some (tr_ID (wr_Previous cmd)),
      cr_IdempotencyKey := Some (TaskRunAdmissionKey (wr_WorkflowRunID cmd) (wr_NodeID cmd) (wr_Attempt cmd)),
      cr_WorkflowNodeRunID := wr_WorkflowNodeRunID cmd, cr_WorkflowNodeFrom := Some NodeRunStatusRetryWait,
      cr_WorkflowAttempt := wr_Attempt cmd\<rparr>"

definition AdmitWorkflowRetryRun :: "TaskService \<Rightarrow> WorkflowRetryCmd \<Rightarrow> TaskRun serv" where
  "AdmitWorkflowRetryRun ts cmd = admitWorkflowNodeRun ts (wr_UserID cmd) (wr_Previous cmd) (retry_input cmd)"

definition answer_input :: "WorkflowAnswerCmd \<Rightarrow> CreateRunInput" where
  "answer_input cmd = blankRunInput
     \<lparr>cr_Input := wa_Answer cmd,
      cr_IdempotencyKey :=
        Some (TaskAdmissionKey (wa_WorkflowRunID cmd) (wa_NodeID cmd) @ ''/request/'' @ wa_RequestID cmd),
      cr_WorkflowNodeRunID := wa_WorkflowNodeRunID cmd, cr_WorkflowNodeFrom := Some NodeRunStatusWaiting,
      cr_WorkflowAttempt := wa_Attempt cmd\<rparr>"

definition AdmitWorkflowAnswerRun :: "TaskService \<Rightarrow> WorkflowAnswerCmd \<Rightarrow> TaskRun serv" where
  "AdmitWorkflowAnswerRun ts cmd = admitWorkflowNodeRun ts (wa_UserID cmd) (wa_Asked cmd) (answer_input cmd)"

section \<open>Cancellation\<close>

definition cancel_message :: string where
  "cancel_message = ''this run was canceled before it started''"

definition RequestRunCancel :: "TaskService \<Rightarrow> string \<Rightarrow> string \<Rightarrow> string \<Rightarrow> time \<Rightarrow> bool serv" where
  "RequestRunCancel ts runID userID reason now =
     bindP (guardP (ts_TaskRuns ts) ErrTaskRunsNotConfigured) (\<lambda>_.
     bindP (RequestTaskRunCancel runID userID reason now) (\<lambda>_.
     TransitionTaskRun \<lparr>tt_TaskRunID = runID, tt_ExpectedStatus = TPending, tt_NewStatus = TCanceled,
       tt_StartedAt = None, tt_EndedAt = Some now, tt_Output = None, tt_Structured = None, tt_Questions = None,
       tt_ErrorMessage = Some cancel_message, tt_SessionID = None, tt_PromptTokens = None, tt_CompletionTokens = None,
       tt_TracePath = None, tt_CancelReason = None, tt_FailureClass = ''''\<rparr>))"

end
