(* ===== verification/Workflow_Reconcile.thy ===== *)
theory Workflow_Reconcile
  imports Task_Service
begin

text \<open>
  The reconciler of workflow runs: \<open>Reconcile\<close> and what it calls, of
  \<open>internal/service/workflow/service.go\<close>, \<open>drain.go\<close> and \<open>request.go\<close>. One pass reads the run and its
  nodes, folds finished attempts, folds answered requests, dispatches ready nodes, and reports when it
  wants to run again; a stopping run is drained instead. A pass that commits stop intent starts over,
  which the source writes as a recursive call: \<open>fuel\<close> bounds these re-entries here, running out is the
  error \<open>OutOfFuel\<close>. A collaborator that may be nil is a flag or an option; calling a nil one is
  \<open>nilP\<close>, the panic. The artifact store is a query of the database, given. Audit events go to a table of
  their own and are left out.
\<close>

section \<open>The service\<close>

record Artifact =
  af_ID :: string
  af_Filename :: string
  af_MediaType :: string

record WorkflowService =
  ws_Workflows :: bool
  ws_Agents :: bool
  ws_Issues :: bool
  ws_TaskService :: "TaskService option"
  ws_TaskRuns :: bool
  ws_Artifacts :: "(db \<Rightarrow> string \<Rightarrow> Artifact list) option"
  ws_codec :: codec
  ws_fuel :: nat

definition nilP :: "'a serv" where
  "nilP = throwP ErrPanic"

text \<open>\<open>x, err := m()\<close> with a branch on the error; a panic passes by.\<close>

definition tryE :: "'a serv \<Rightarrow> (err + 'a) serv" where
  "tryE m =
     bindP (tryP m) (\<lambda>r.
     case r of
       Inl e \<Rightarrow> if e = ErrPanic \<or> e = OutOfFuel then throwP e else retP (Inl e)
     | Inr x \<Rightarrow> retP (Inr x))"

definition reconcileLeaseDuration :: int where "reconcileLeaseDuration = 2 * Minute"
definition reconcileObserveInterval :: int where "reconcileObserveInterval = 30 * Second"
definition requestObserveInterval :: int where "requestObserveInterval = 5 * Minute"

definition earliest :: "time option \<Rightarrow> time option \<Rightarrow> time option" where
  "earliest a b =
     (case a of
        None \<Rightarrow> b
      | Some x \<Rightarrow> (case b of None \<Rightarrow> a | Some y \<Rightarrow> if x < y then a else b))"

definition ptrError :: "codec \<Rightarrow> err \<Rightarrow> string option" where
  "ptrError cd e = Some (cd_errorText cd e)"

definition passed :: "time \<Rightarrow> time option \<Rightarrow> bool" where
  "passed now deadline \<longleftrightarrow> (case deadline of None \<Rightarrow> False | Some t \<Rightarrow> t \<le> now)"

definition decodeJSONString :: "codec \<Rightarrow> string option \<Rightarrow> string" where
  "decodeJSONString cd raw =
     (case raw of
        None \<Rightarrow> ''''
      | Some t \<Rightarrow> (case cd_unmarshalString cd t of None \<Rightarrow> '''' | Some s \<Rightarrow> s))"

section \<open>Classifying a finished attempt\<close>

record attemptOutcome =
  ao_succeeded :: bool
  ao_retryable :: bool
  ao_timedOut :: bool
  ao_asked :: bool
  ao_message :: "string option"
  ao_failure :: string

definition no_outcome :: attemptOutcome where
  "no_outcome = \<lparr>ao_succeeded = False, ao_retryable = False, ao_timedOut = False, ao_asked = False, ao_message = None,
                 ao_failure = ''''\<rparr>"

definition asks :: "TaskRun \<Rightarrow> bool" where
  "asks r \<longleftrightarrow>
     (let q = TrimSpace (case tr_Questions r of None \<Rightarrow> '''' | Some q \<Rightarrow> q) in q \<noteq> '''' \<and> q \<noteq> ''null'')"

definition classifyAttempt :: "NodeRun \<Rightarrow> TaskRun \<Rightarrow> attemptOutcome" where
  "classifyAttempt node r =
     (let schemaUnsatisfied = (n_OutputSchema node \<noteq> None \<and> tr_Structured r = None)
      in if tr_Status r = TSucceeded \<and> asks r then no_outcome\<lparr>ao_asked := True\<rparr>
         else if tr_Status r = TSucceeded \<and> \<not> schemaUnsatisfied then no_outcome\<lparr>ao_succeeded := True\<rparr>
         else if tr_Status r = TSucceeded
         then no_outcome\<lparr>ao_retryable := True, ao_failure := FailureOutputSchema,
                ao_message := Some ''node required structured output but the run did not return a value satisfying its output_schema''\<rparr>
         else if tr_Status r = TCanceled \<and> tr_CancelReason r = CancelReasonWorkflowNodeTimeout
         then no_outcome\<lparr>ao_retryable := True, ao_timedOut := True, ao_failure := FailureNodeTimeout,
                ao_message := Some (''attempt '' @ itoa (max (n_Attempt node) 1) @ '' exceeded the node timeout of ''
                                    @ itoa (n_TimeoutSeconds node) @ ''s'')\<rparr>
         else if tr_Status r = TCanceled then no_outcome\<lparr>ao_message := tr_ErrorMessage r\<rparr>
         else no_outcome\<lparr>ao_retryable := True, ao_failure := FailureNode, ao_message := tr_ErrorMessage r\<rparr>)"

section \<open>Folding an attempt\<close>

definition stepTaskRun :: "WorkflowService \<Rightarrow> NodeRun \<Rightarrow> TaskRun option serv" where
  "stepTaskRun ws node =
     (case n_TaskRunID node of
        None \<Rightarrow> retP None
      | Some i \<Rightarrow>
          if i = '''' then retP None
          else if \<not> ws_TaskRuns ws
          then throwP (ErrText ''workflow: TaskRun reader is not configured, cannot fold a running step'')
          else GetTaskRun i)"

definition cancelTimedOutAttempt :: "WorkflowService \<Rightarrow> TaskRun \<Rightarrow> time \<Rightarrow> TaskRun option serv" where
  "cancelTimedOutAttempt ws r now =
     (case ws_TaskService ws of
        None \<Rightarrow> throwP ErrTasksNotConfigured
      | Some ts \<Rightarrow>
          bindP (RequestRunCancel ts (tr_ID r) '''' CancelReasonWorkflowNodeTimeout now) (\<lambda>_.
          if \<not> ws_TaskRuns ws then nilP else GetTaskRun (tr_ID r)))"

definition node_transition :: "string \<Rightarrow> NodeRunStatus \<Rightarrow> NodeRunStatus \<Rightarrow> TransitionNodeRunInput" where
  "node_transition i expected new =
     \<lparr>tn_NodeRunID = i, tn_ExpectedStatus = expected, tn_NewStatus = new, tn_TaskID = None, tn_TaskRunID = None,
      tn_ResolvedInput = None, tn_Output = None, tn_Structured = None, tn_ErrorMessage = None, tn_StartedAt = None,
      tn_EndedAt = None, tn_Attempt = None, tn_DeadlineAt = None, tn_NextAttemptAt = None\<rparr>"

definition scheduleRetry :: "NodeRun \<Rightarrow> attemptOutcome \<Rightarrow> time \<Rightarrow> unit serv" where
  "scheduleRetry node outcome now =
     bindP (TransitionWorkflowNodeRun ((node_transition (n_ID node) NodeRunStatusRunning NodeRunStatusRetryWait)
       \<lparr>tn_ErrorMessage := ao_message outcome,
        tn_NextAttemptAt := Some (now + RetryBackoff (max (n_Attempt node) 1))\<rparr>)) (\<lambda>_. retP ())"

definition applyNodeSuccess :: "NodeRun \<Rightarrow> TaskRun \<Rightarrow> time \<Rightarrow> unit serv" where
  "applyNodeSuccess node r now =
     bindP (TransitionWorkflowNodeRun ((node_transition (n_ID node) NodeRunStatusRunning NodeRunStatusSucceeded)
       \<lparr>tn_TaskRunID := Some (tr_ID r), tn_Output := tr_Output r, tn_Structured := tr_Structured r,
        tn_EndedAt := Some now\<rparr>)) (\<lambda>_. retP ())"

definition drain_input :: "string \<Rightarrow> string \<Rightarrow> NodeRunStatus \<Rightarrow> BeginRunDrainInput" where
  "drain_input runID nodeRunID expected =
     \<lparr>bd_WorkflowRunID = runID, bd_NodeRunID = nodeRunID, bd_NodeExpected = expected, bd_NodeStatus = NodeRunStatusFailed,
      bd_RunExpected = RunStatusRunning, bd_RunStatus = RunStatusFailing, bd_TaskRunID = None, bd_Output = None,
      bd_Structured = None, bd_ErrorMessage = None, bd_FailureClass = '''', bd_StartedAt = None, bd_EndedAt = None\<rparr>"

definition finalizeFailedFromNode :: "Run \<Rightarrow> NodeRun \<Rightarrow> TaskRun \<Rightarrow> attemptOutcome \<Rightarrow> time \<Rightarrow> unit serv" where
  "finalizeFailedFromNode run node r outcome now =
     (let stopped = (tr_Status r = TCanceled \<and> \<not> ao_timedOut outcome)
      in bindP (BeginWorkflowRunDrain ((drain_input (r_ID run) (n_ID node) NodeRunStatusRunning)
           \<lparr>bd_NodeStatus := (if stopped then NodeRunStatusCanceled else NodeRunStatusFailed),
            bd_RunStatus := (if stopped then RunStatusCanceling else RunStatusFailing),
            bd_TaskRunID := Some (tr_ID r), bd_Output := tr_Output r, bd_Structured := tr_Structured r,
            bd_ErrorMessage := ao_message outcome, bd_FailureClass := ao_failure outcome, bd_EndedAt := Some now\<rparr>))
         (\<lambda>_. retP ()))"

section \<open>Bindings and results\<close>

definition node_by_id :: "NodeRun list \<Rightarrow> string \<Rightarrow> NodeRun option" where
  "node_by_id nodes nodeID = find (\<lambda>n. n_NodeID n = nodeID) (rev nodes)"

definition nodeArtifacts :: "WorkflowService \<Rightarrow> string \<Rightarrow> NodeOutputArtifact list serv" where
  "nodeArtifacts ws taskRunID =
     (case ws_Artifacts ws of
        None \<Rightarrow> retP []
      | Some q \<Rightarrow>
          bindP (read_op (\<lambda>d. q d taskRunID)) (\<lambda>arts.
          retP (map (\<lambda>a. \<lparr>oa_ID = af_ID a, oa_Path = af_Filename a, oa_MediaType = af_MediaType a\<rparr>) arts)))"

definition nodeOutputEnvelope :: "WorkflowService \<Rightarrow> NodeRun \<Rightarrow> string serv" where
  "nodeOutputEnvelope ws node =
     bindP (case n_TaskRunID node of None \<Rightarrow> retP [] | Some i \<Rightarrow> nodeArtifacts ws i) (\<lambda>arts.
     let env = \<lparr>oe_Text = (case n_Output node of None \<Rightarrow> '''' | Some t \<Rightarrow> t), oe_Structured = n_Structured node,
                oe_Artifacts = arts, oe_TaskID = (case n_TaskID node of None \<Rightarrow> '''' | Some t \<Rightarrow> t),
                oe_TaskRunID = (case n_TaskRunID node of None \<Rightarrow> '''' | Some t \<Rightarrow> t)\<rparr>
     in case cd_marshalEnvelope (ws_codec ws) env of
          None \<Rightarrow> throwP (ErrText ''json: error calling MarshalJSON'')
        | Some out \<Rightarrow> retP out)"

definition bindingSourceDocument :: "WorkflowService \<Rightarrow> Run \<Rightarrow> string \<Rightarrow> NodeRun list \<Rightarrow> string serv" where
  "bindingSourceDocument ws run source nodes =
     (if source = BindingSourceWorkflowInput
      then retP (case r_Input run of None \<Rightarrow> ''null'' | Some t \<Rightarrow> t)
      else case ParseNodeOutputSource source of
             None \<Rightarrow> throwP ErrInvalidBinding
           | Some nodeID \<Rightarrow>
               (case node_by_id nodes nodeID of
                  None \<Rightarrow> throwP ErrInvalidBinding
                | Some src \<Rightarrow> nodeOutputEnvelope ws src))"

fun resolve_bindings :: "WorkflowService \<Rightarrow> Run \<Rightarrow> NodeRun list \<Rightarrow> StepBinding list \<Rightarrow> boundValue list serv" where
  "resolve_bindings ws run nodes [] = retP []"
| "resolve_bindings ws run nodes (b # bs) =
     bindP (bindingSourceDocument ws run (b_Source b) nodes) (\<lambda>doc.
     case ResolvePointer (cd_unmarshal (ws_codec ws)) (cd_marshal (ws_codec ws)) doc (b_Pointer b) of
       Inl e \<Rightarrow> throwP ErrInvalidBinding
     | Inr selected \<Rightarrow>
         bindP (resolve_bindings ws run nodes bs) (\<lambda>bound.
         retP (\<lparr>bv_Name = b_Name b, bv_Source = b_Source b, bv_Pointer = b_Pointer b,
                bv_Value = renderBoundValue (ws_codec ws) selected\<rparr> # bound)))"

definition resolveStepBindings :: "WorkflowService \<Rightarrow> Run \<Rightarrow> NodeRun \<Rightarrow> NodeRun list \<Rightarrow> boundValue list serv" where
  "resolveStepBindings ws run node siblings = resolve_bindings ws run siblings (n_Bindings node)"

definition runDefinition :: "WorkflowService \<Rightarrow> Run \<Rightarrow> Definition serv" where
  "runDefinition ws run =
     bindP (if r_WorkflowRevision run > 0
            then bindP (GetWorkflowRevision (r_WorkflowID run) (r_WorkflowRevision run)) (\<lambda>rev.
                 retP (case rev of None \<Rightarrow> '''' | Some v \<Rightarrow> rv_Definition v))
            else retP '''') (\<lambda>raw.
     bindP (if raw = ''''
            then bindP (GetWorkflow (r_WorkflowID run)) (\<lambda>wf.
                 case wf of None \<Rightarrow> throwP ErrWorkflowNotFound | Some w \<Rightarrow> retP (wf_Definition w))
            else retP raw) (\<lambda>raw'.
     liftE (parseDefinition (ws_codec ws) raw')))"

definition resolveRunResult :: "WorkflowService \<Rightarrow> Run \<Rightarrow> NodeRun list \<Rightarrow> string option serv" where
  "resolveRunResult ws run steps =
     bindP (runDefinition ws run) (\<lambda>def.
     case df_Result def of
       None \<Rightarrow> retP None
     | Some sel \<Rightarrow>
         bindP (bindingSourceDocument ws run (rs_Source sel) steps) (\<lambda>doc.
         case ResolvePointer (cd_unmarshal (ws_codec ws)) (cd_marshal (ws_codec ws)) doc (rs_Pointer sel) of
           Inl e \<Rightarrow> throwP ErrInvalidResult
         | Inr selected \<Rightarrow> retP (Some selected)))"

section \<open>Dispatching a node\<close>

definition stepAgent :: "WorkflowService \<Rightarrow> string \<Rightarrow> string \<Rightarrow> NodeRun \<Rightarrow> Agent serv" where
  "stepAgent ws spaceID agentID node =
     (if n_AgentName node \<noteq> '''' \<or> n_AgentInstructions node \<noteq> ''''
      then retP \<lparr>ag_ID = agentID, ag_SpaceID = spaceID, ag_Name = n_AgentName node,
                 ag_Description = n_AgentDescription node, ag_Instructions = n_AgentInstructions node,
                 ag_Revision = n_AgentRevision node, ag_SandboxNetworkTier = '''', ag_SandboxFilesystemTier = '''',
                 ag_Deleted = False\<rparr>
      else if \<not> ws_Agents ws then throwP ErrInvalidTargetAgent
      else bindP (GetAgentIncludingDeleted agentID) (\<lambda>found.
           case found of
             None \<Rightarrow> throwP ErrInvalidTargetAgent
           | Some agent \<Rightarrow> if ag_SpaceID agent \<noteq> spaceID then throwP ErrInvalidTargetAgent else retP agent))"

definition step_task_cmd :: "string \<Rightarrow> string \<Rightarrow> Run \<Rightarrow> NodeRun \<Rightarrow> string \<Rightarrow> string \<Rightarrow> CreateTaskCmd" where
  "step_task_cmd spaceID userID run node agentID input =
     \<lparr>ct_ConversationID = '''', ct_UserID = userID, ct_SpaceID = spaceID, ct_Input = input, ct_AgentID = Some agentID,
      ct_IssueID = (if n_IssueAccess node = IssueAccessIfBound \<or> n_IssueAccess node = IssueAccessRequired
                    then r_IssueID run else None),
      ct_ScheduleID = None, ct_CreatedByType = RunCreatedByTypeUser, ct_TriggerSource = RunTriggerSourceWorkflowStep,
      ct_SourceMessageID = None, ct_AdmissionKey = TaskAdmissionKey (n_WorkflowRunID node) (n_NodeID node),
      ct_WorkflowNodeRunID = n_ID node, ct_OutputSchema = n_OutputSchema node, ct_RequestedBy = r_RequestedBy run,
      ct_AssistantID = r_AssistantID run, ct_AssistantRevision = r_AssistantRevision run\<rparr>"

definition createStepTask ::
  "WorkflowService \<Rightarrow> string \<Rightarrow> string \<Rightarrow> Run \<Rightarrow> NodeRun \<Rightarrow> NodeRun list \<Rightarrow> (Task \<times> string \<times> string) serv" where
  "createStepTask ws spaceID userID run node siblings =
     (let agentID = (case n_TargetAgentID node of None \<Rightarrow> '''' | Some a \<Rightarrow> a)
      in if agentID = '''' then throwP ErrInvalidTargetAgent
         else
           bindP (stepAgent ws spaceID agentID node) (\<lambda>agent.
           bindP (resolveStepBindings ws run node siblings) (\<lambda>bound.
           let input = buildWorkflowTaskInput (ws_codec ws) (ag_Name agent) (ag_Description agent) (ag_Instructions agent)
                         (n_Prompt node) bound
           in case ws_TaskService ws of
                None \<Rightarrow> nilP
              | Some ts \<Rightarrow>
                  bindP (AdmitWorkflowTask ts (step_task_cmd spaceID userID run node agentID input)) (\<lambda>admitted.
                  case admitted of
                    None \<Rightarrow> nilP
                  | Some t \<Rightarrow> retP (t, case tk_LastRunID t of None \<Rightarrow> '''' | Some r \<Rightarrow> r, input)))))"

text \<open>An admission that fails starts the drain; the error of the drain, if any, replaces it.\<close>

definition drain_after :: "BeginRunDrainInput \<Rightarrow> err \<Rightarrow> 'a serv" where
  "drain_after bd e = bindP (BeginWorkflowRunDrain bd) (\<lambda>_. throwP e)"

definition dispatchRetry :: "WorkflowService \<Rightarrow> string \<Rightarrow> Run \<Rightarrow> NodeRun \<Rightarrow> unit serv" where
  "dispatchRetry ws userID run node =
     bindP (stepTaskRun ws node) (\<lambda>previous.
     let attempt = max (n_Attempt node) 1 + 1
     in bindP (tryE (case previous of
                       None \<Rightarrow> throwP (ErrText (''workflow node '' @ n_NodeID node @ '' has no previous attempt to retry''))
                     | Some p \<Rightarrow>
                         (case ws_TaskService ws of
                            None \<Rightarrow> nilP
                          | Some ts \<Rightarrow>
                              AdmitWorkflowRetryRun ts \<lparr>wr_UserID = userID, wr_WorkflowRunID = r_ID run,
                                wr_WorkflowNodeRunID = n_ID node, wr_NodeID = n_NodeID node, wr_Attempt = attempt,
                                wr_Previous = p\<rparr>))) (\<lambda>admitted.
        bindP now_op (\<lambda>now.
        case admitted of
          Inl e \<Rightarrow>
            drain_after ((drain_input (r_ID run) (n_ID node) NodeRunStatusRetryWait)
              \<lparr>bd_ErrorMessage := Some (''attempt '' @ itoa attempt @ '' could not be admitted: ''
                                       @ cd_errorText (ws_codec ws) e),
               bd_FailureClass := FailureAdmission, bd_EndedAt := Some now\<rparr>) e
        | Inr r \<Rightarrow>
            bindP (TransitionWorkflowNodeRun ((node_transition (n_ID node) NodeRunStatusRetryWait NodeRunStatusRunning)
              \<lparr>tn_TaskRunID := Some (tr_ID r), tn_Attempt := Some attempt,
               tn_DeadlineAt := Deadline now (n_TimeoutSeconds node), tn_ErrorMessage := Some ''''\<rparr>)) (\<lambda>_.
            retP ()))))"

definition openInputRequest :: "WorkflowService \<Rightarrow> Run \<Rightarrow> NodeRun \<Rightarrow> NodeRun list \<Rightarrow> time \<Rightarrow> unit serv" where
  "openInputRequest ws run node steps now =
     bindP (tryE (resolveStepBindings ws run node steps)) (\<lambda>res.
     case res of
       Inl e \<Rightarrow>
         drain_after ((drain_input (r_ID run) (n_ID node) NodeRunStatusPending)
           \<lparr>bd_ErrorMessage := ptrError (ws_codec ws) e, bd_FailureClass := FailureAdmission, bd_StartedAt := Some now,
            bd_EndedAt := Some now\<rparr>) e
     | Inr bound \<Rightarrow>
         let prompt = buildHumanInputPrompt (n_Prompt node) bound
         in bindP (OpenWorkflowRequest \<lparr>oi_WorkflowRunID = r_ID run, oi_NodeRunID = n_ID node,
                     oi_NodeExpected = NodeRunStatusPending, oi_Key = ''node/'' @ n_NodeID node, oi_Kind = RequestKindInput,
                     oi_Prompt = prompt, oi_Questions = None, oi_ResponseSchema = n_OutputSchema node,
                     oi_TaskRunID = None, oi_ExpiresAt = Deadline now (n_TimeoutSeconds node),
                     oi_ResolvedInput = Some prompt, oi_Now = now\<rparr>) (\<lambda>_. retP ()))"

definition openQuestionRequest :: "Run \<Rightarrow> NodeRun \<Rightarrow> TaskRun \<Rightarrow> time \<Rightarrow> unit serv" where
  "openQuestionRequest run node r now =
     bindP (OpenWorkflowRequest \<lparr>oi_WorkflowRunID = r_ID run, oi_NodeRunID = n_ID node,
              oi_NodeExpected = NodeRunStatusRunning, oi_Key = ''task_run/'' @ tr_ID r, oi_Kind = RequestKindQuestion,
              oi_Prompt = '''', oi_Questions = Some (case tr_Questions r of None \<Rightarrow> '''' | Some q \<Rightarrow> q),
              oi_ResponseSchema = None, oi_TaskRunID = Some (tr_ID r), oi_ExpiresAt = None,
              oi_ResolvedInput = None, oi_Now = now\<rparr>) (\<lambda>_. retP ())"

definition nodeReady :: "NodeRun \<Rightarrow> (string \<rightharpoonup> NodeRunStatus) \<Rightarrow> bool" where
  "nodeReady node statusByID \<longleftrightarrow> list_all (\<lambda>need. statusByID need = Some NodeRunStatusSucceeded) (n_Needs node)"

definition status_by_id :: "NodeRun list \<Rightarrow> string \<rightharpoonup> NodeRunStatus" where
  "status_by_id steps nodeID = map_option n_Status (node_by_id steps nodeID)"

record dispatch_state =
  ds_spaceID :: string
  ds_dispatched :: nat
  ds_running :: int
  ds_active :: bool
  ds_pendingRemains :: bool
  ds_retryAt :: "time option"

definition space_of_run :: "Run \<Rightarrow> string \<Rightarrow> string serv" where
  "space_of_run run spaceID =
     (if spaceID = ''''
      then bindP (GetWorkflow (r_WorkflowID run)) (\<lambda>wf.
           case wf of None \<Rightarrow> throwP ErrWorkflowNotFound | Some w \<Rightarrow> retP (wf_SpaceID w))
      else retP spaceID)"

text \<open>Admission of a ready agent node: the task, then the link for a store that did not write it.\<close>

definition dispatch_node :: "WorkflowService \<Rightarrow> string \<Rightarrow> string \<Rightarrow> Run \<Rightarrow> NodeRun \<Rightarrow> NodeRun list \<Rightarrow> unit serv" where
  "dispatch_node ws spaceID userID run node steps =
     bindP now_op (\<lambda>startedAt.
     bindP (tryE (createStepTask ws spaceID userID run node steps)) (\<lambda>res.
     case res of
       Inl e \<Rightarrow>
         drain_after ((drain_input (r_ID run) (n_ID node) NodeRunStatusPending)
           \<lparr>bd_ErrorMessage := ptrError (ws_codec ws) e, bd_FailureClass := FailureAdmission,
            bd_StartedAt := Some startedAt, bd_EndedAt := Some startedAt\<rparr>) e
     | Inr (t, runID, input) \<Rightarrow>
         bindP (TransitionWorkflowNodeRun ((node_transition (n_ID node) NodeRunStatusPending NodeRunStatusRunning)
           \<lparr>tn_TaskID := Some (tk_ID t), tn_TaskRunID := Some runID, tn_ResolvedInput := Some input,
            tn_StartedAt := Some startedAt, tn_Attempt := Some 1,
            tn_DeadlineAt := Deadline startedAt (n_TimeoutSeconds node)\<rparr>)) (\<lambda>_. retP ())))"

fun dispatch_loop ::
  "WorkflowService \<Rightarrow> string \<Rightarrow> Run \<Rightarrow> NodeRun list \<Rightarrow> int \<Rightarrow> time \<Rightarrow> NodeRun list \<Rightarrow> dispatch_state \<Rightarrow> dispatch_state serv" where
  "dispatch_loop ws userID run steps limit now [] st = retP st"
| "dispatch_loop ws userID run steps limit now (node # rest) st =
     (let continue = dispatch_loop ws userID run steps limit now rest
      in if n_Status node = NodeRunStatusRetryWait then
           (let st = st\<lparr>ds_pendingRemains := True\<rparr>
            in if (case n_NextAttemptAt node of None \<Rightarrow> False | Some t \<Rightarrow> now < t)
               then continue (st\<lparr>ds_retryAt := earliest (ds_retryAt st) (n_NextAttemptAt node)\<rparr>)
               else if ds_running st \<ge> limit then retP (st\<lparr>ds_active := True\<rparr>)
               else bindP (dispatchRetry ws userID run node) (\<lambda>_.
                    continue (st\<lparr>ds_dispatched := ds_dispatched st + 1, ds_running := ds_running st + 1\<rparr>)))
         else if n_Status node = NodeRunStatusWaiting then continue (st\<lparr>ds_pendingRemains := True\<rparr>)
         else if n_Status node \<noteq> NodeRunStatusPending then continue st
         else
           (let st = st\<lparr>ds_pendingRemains := True\<rparr>
            in if \<not> nodeReady node (status_by_id steps) then continue st
               else if n_NodeType node = NodeTypeHumanInput then
                 bindP (openInputRequest ws run node steps now) (\<lambda>_.
                 continue (st\<lparr>ds_retryAt := earliest (ds_retryAt st)
                   (earliest (Deadline now (n_TimeoutSeconds node)) (Some (now + requestObserveInterval)))\<rparr>))
               else if ds_running st \<ge> limit then retP (st\<lparr>ds_active := True\<rparr>)
               else
                 bindP (space_of_run run (ds_spaceID st)) (\<lambda>spaceID.
                 bindP (dispatch_node ws spaceID userID run node steps) (\<lambda>_.
                 continue (st\<lparr>ds_spaceID := spaceID, ds_dispatched := ds_dispatched st + 1,
                              ds_running := ds_running st + 1\<rparr>)))))"

definition run_transition :: "string \<Rightarrow> RunStatus \<Rightarrow> RunStatus \<Rightarrow> TransitionRunInput" where
  "run_transition i expected new =
     \<lparr>ti_WorkflowRunID = i, ti_ExpectedStatus = expected, ti_NewStatus = new, ti_StartedAt = None, ti_EndedAt = None,
      ti_ErrorMessage = None, ti_Result = None\<rparr>"

definition dispatchReadyNodes ::
  "WorkflowService \<Rightarrow> string \<Rightarrow> string \<Rightarrow> Run \<Rightarrow> NodeRun list \<Rightarrow> int \<Rightarrow> time \<Rightarrow> (nat \<times> bool \<times> time option) serv" where
  "dispatchReadyNodes ws spaceID userID run steps limit now =
     bindP (dispatch_loop ws userID run steps limit now steps
              \<lparr>ds_spaceID = spaceID, ds_dispatched = 0,
               ds_running = int (length (filter (\<lambda>n. n_Status n = NodeRunStatusRunning) steps)),
               ds_active = False, ds_pendingRemains = False, ds_retryAt = None\<rparr>) (\<lambda>st.
     let active = (ds_active st \<or> ds_running st > 0)
     in if ds_pendingRemains st \<or> ds_running st > 0 then retP (ds_dispatched st, active, ds_retryAt st)
        else
          bindP now_op (\<lambda>endedAt.
          bindP (resolveRunResult ws run steps) (\<lambda>result.
          bindP (TransitionWorkflowRun ((run_transition (r_ID run) RunStatusRunning RunStatusSucceeded)
                   \<lparr>ti_EndedAt := Some endedAt, ti_Result := result\<rparr>)) (\<lambda>_.
          retP (ds_dispatched st, False, None)))))"

section \<open>Requests\<close>

definition hasWaitingNode :: "NodeRun list \<Rightarrow> bool" where
  "hasWaitingNode steps \<longleftrightarrow> list_ex (\<lambda>n. n_Status n = NodeRunStatusWaiting) steps"

definition answerOutput :: "codec \<Rightarrow> Request \<Rightarrow> string \<times> string option" where
  "answerOutput cd req =
     (case rq_Response req of
        None \<Rightarrow> ('''', None)
      | Some structured \<Rightarrow>
          (if rq_ResponseSchema req \<noteq> None
           then (let text = decodeJSONString cd (rq_Response req)
                 in if text \<noteq> '''' then (text, Some structured) else (structured, Some structured))
           else (decodeJSONString cd (rq_Response req), None)))"

definition applyAnswer :: "WorkflowService \<Rightarrow> Run \<Rightarrow> NodeRun \<Rightarrow> Request \<Rightarrow> time \<Rightarrow> unit serv" where
  "applyAnswer ws run node req now =
     (if rq_Kind req = RequestKindInput then
        (let (text, structured) = answerOutput (ws_codec ws) req
         in bindP (TransitionWorkflowNodeRun ((node_transition (n_ID node) NodeRunStatusWaiting NodeRunStatusSucceeded)
              \<lparr>tn_Output := Some text, tn_Structured := structured, tn_EndedAt := Some now\<rparr>)) (\<lambda>_. retP ()))
      else
        case rq_TaskRunID req of
          None \<Rightarrow> throwP (ErrText (''question request '' @ rq_ID req @ '' names no attempt''))
        | Some i \<Rightarrow>
            bindP (if \<not> ws_TaskRuns ws then nilP else GetTaskRun i) (\<lambda>found.
            case found of
              None \<Rightarrow> throwP (ErrText (''question request '' @ rq_ID req @ '': attempt '' @ i @ '' not found''))
            | Some asked \<Rightarrow>
                bindP (tryE (case ws_TaskService ws of
                               None \<Rightarrow> nilP
                             | Some ts \<Rightarrow>
                                 AdmitWorkflowAnswerRun ts \<lparr>wa_UserID = r_CreatedBy run, wa_WorkflowRunID = r_ID run,
                                   wa_WorkflowNodeRunID = n_ID node, wa_NodeID = n_NodeID node, wa_RequestID = rq_ID req,
                                   wa_Attempt = max (n_Attempt node) 1, wa_Asked = asked,
                                   wa_Answer = decodeJSONString (ws_codec ws) (rq_Response req)\<rparr>)) (\<lambda>res.
                case res of
                  Inl e \<Rightarrow>
                    drain_after ((drain_input (r_ID run) (n_ID node) NodeRunStatusWaiting)
                      \<lparr>bd_ErrorMessage := Some (''the answer could not resume the step: '' @ cd_errorText (ws_codec ws) e),
                       bd_FailureClass := FailureAdmission, bd_EndedAt := Some now\<rparr>) e
                | Inr nextRun \<Rightarrow>
                    bindP (TransitionWorkflowNodeRun
                             ((node_transition (n_ID node) NodeRunStatusWaiting NodeRunStatusRunning)
                                \<lparr>tn_TaskRunID := Some (tr_ID nextRun),
                                 tn_DeadlineAt := Deadline now (n_TimeoutSeconds node), tn_ErrorMessage := Some ''''\<rparr>))
                      (\<lambda>_. retP ()))))"

text \<open>An expired request is resolved first and read again.\<close>

definition settle_expired :: "Request \<Rightarrow> time \<Rightarrow> Request option serv" where
  "settle_expired req now =
     (if rq_Status req = RequestStatusPending \<and> passed now (rq_ExpiresAt req)
      then bindP (ResolveWorkflowRequest \<lparr>ri_RequestID = rq_ID req, ri_Status = RequestStatusExpired,
                    ri_Response = None, ri_RespondedBy = None, ri_Now = now\<rparr>) (\<lambda>_.
           GetWorkflowRequest (rq_ID req))
      else retP (Some req))"

definition refusal_message :: "codec \<Rightarrow> Request \<Rightarrow> string \<times> string" where
  "refusal_message cd req =
     (if rq_Status req = RequestStatusDeclined
      then (let reason = decodeJSONString cd (rq_Response req)
            in (''the request was declined'' @ (if reason \<noteq> '''' then '': '' @ reason else ''''), FailureRequestDeclined))
      else (''the request was expired'', FailureRequestExpired))"

definition latest_request :: "Request list \<Rightarrow> string \<Rightarrow> Request option" where
  "latest_request requests nodeRunID = find (\<lambda>q. rq_NodeRunID q = nodeRunID) (rev requests)"

fun fold_waiting ::
  "WorkflowService \<Rightarrow> Run \<Rightarrow> time \<Rightarrow> Request list \<Rightarrow> NodeRun list \<Rightarrow> time option \<Rightarrow> (time option \<times> bool) serv" where
  "fold_waiting ws run now requests [] wake = retP (wake, False)"
| "fold_waiting ws run now requests (node # rest) wake =
     (if n_Status node \<noteq> NodeRunStatusWaiting then fold_waiting ws run now requests rest wake
      else
        case latest_request requests (n_ID node) of
          None \<Rightarrow> throwP (ErrText (''waiting node '' @ n_NodeID node @ '' has no request''))
        | Some req0 \<Rightarrow>
            bindP (settle_expired req0 now) (\<lambda>fresh.
            case fresh of
              None \<Rightarrow> retP (None, False)
            | Some req \<Rightarrow>
                (case rq_Status req of
                   RequestStatusPending \<Rightarrow>
                     fold_waiting ws run now requests rest (earliest wake (rq_ExpiresAt req))
                 | RequestStatusAnswered \<Rightarrow>
                     bindP (applyAnswer ws run node req now) (\<lambda>_. fold_waiting ws run now requests rest wake)
                 | RequestStatusCanceled \<Rightarrow> fold_waiting ws run now requests rest wake
                 | _ \<Rightarrow>
                     (let (message, class) = refusal_message (ws_codec ws) req
                      in bindP (BeginWorkflowRunDrain ((drain_input (r_ID run) (n_ID node) NodeRunStatusWaiting)
                           \<lparr>bd_ErrorMessage := Some message, bd_FailureClass := class, bd_EndedAt := Some now\<rparr>)) (\<lambda>_.
                         retP (None, True))))))"

definition foldWaitingNodes :: "WorkflowService \<Rightarrow> Run \<Rightarrow> NodeRun list \<Rightarrow> time \<Rightarrow> (time option \<times> bool) serv" where
  "foldWaitingNodes ws run steps now =
     (if \<not> hasWaitingNode steps then retP (None, False)
      else bindP (ListWorkflowRequestsByRun (r_ID run)) (\<lambda>requests.
           fold_waiting ws run now requests steps None))"

section \<open>Draining\<close>

definition drained_status :: "TaskRun \<Rightarrow> NodeRunStatus" where
  "drained_status r =
     (case tr_Status r of
        TSucceeded \<Rightarrow> NodeRunStatusSucceeded
      | TFailed \<Rightarrow> NodeRunStatusFailed
      | _ \<Rightarrow> NodeRunStatusCanceled)"

fun drain_nodes :: "WorkflowService \<Rightarrow> time \<Rightarrow> NodeRun list \<Rightarrow> bool \<Rightarrow> bool serv" where
  "drain_nodes ws now [] active = retP active"
| "drain_nodes ws now (node # rest) active =
     (if NodeRunStatusTerminal (n_Status node) then drain_nodes ws now rest active
      else
        case n_TaskRunID node of
          None \<Rightarrow> throwP (ErrText (''draining node '' @ n_ID node @ '' has no TaskRun''))
        | Some i \<Rightarrow>
            if i = '''' then throwP (ErrText (''draining node '' @ n_ID node @ '' has no TaskRun''))
            else
              (case ws_TaskService ws of
                 None \<Rightarrow> throwP ErrTasksNotConfigured
               | Some ts \<Rightarrow>
                   bindP (RequestRunCancel ts i '''' CancelReasonWorkflowStopped now) (\<lambda>_.
                   bindP (stepTaskRun ws node) (\<lambda>found.
                   case found of
                     None \<Rightarrow> drain_nodes ws now rest True
                   | Some r \<Rightarrow>
                       if \<not> TaskRunStatusTerminal (tr_Status r) then drain_nodes ws now rest True
                       else
                         bindP (TransitionWorkflowNodeRun ((node_transition (n_ID node) NodeRunStatusRunning (drained_status r))
                           \<lparr>tn_Output := tr_Output r, tn_Structured := tr_Structured r,
                            tn_ErrorMessage := tr_ErrorMessage r, tn_EndedAt := Some now\<rparr>)) (\<lambda>_.
                         drain_nodes ws now rest active)))))"

text \<open>The result is when the run next wants a pass.\<close>

definition drainRun :: "WorkflowService \<Rightarrow> Run \<Rightarrow> NodeRun list \<Rightarrow> time \<Rightarrow> time option serv" where
  "drainRun ws run nodes now =
     bindP (drain_nodes ws now nodes False) (\<lambda>active.
     if active then retP (Some (now + reconcileObserveInterval))
     else
       bindP (TransitionWorkflowRun ((run_transition (r_ID run) (r_Status run)
                (if r_Status run = RunStatusCanceling then RunStatusCanceled else RunStatusFailed))
                \<lparr>ti_EndedAt := Some now\<rparr>)) (\<lambda>_.
       retP None))"

section \<open>A pass\<close>

definition overdue_attempt :: "WorkflowService \<Rightarrow> NodeRun \<Rightarrow> TaskRun option \<Rightarrow> time \<Rightarrow> TaskRun option serv" where
  "overdue_attempt ws node found now =
     (case found of
        None \<Rightarrow> retP None
      | Some r \<Rightarrow>
          if \<not> TaskRunStatusTerminal (tr_Status r) \<and> passed now (n_DeadlineAt node)
          then cancelTimedOutAttempt ws r now else retP (Some r))"

text \<open>The loop over the running nodes: whether one is still active, and whether the pass starts over.\<close>

fun fold_running :: "WorkflowService \<Rightarrow> Run \<Rightarrow> time \<Rightarrow> NodeRun list \<Rightarrow> bool \<Rightarrow> (bool \<times> bool) serv" where
  "fold_running ws run now [] active = retP (active, False)"
| "fold_running ws run now (node # rest) active =
     (if n_Status node \<noteq> NodeRunStatusRunning then fold_running ws run now rest active
      else
        bindP (stepTaskRun ws node) (\<lambda>found.
        bindP (overdue_attempt ws node found now) (\<lambda>current.
        case current of
          None \<Rightarrow> fold_running ws run now rest True
        | Some r \<Rightarrow>
            if \<not> TaskRunStatusTerminal (tr_Status r) then fold_running ws run now rest True
            else
              (let outcome = classifyAttempt node r
               in if ao_asked outcome
                  then bindP (openQuestionRequest run node r now) (\<lambda>_. fold_running ws run now rest active)
                  else if ao_succeeded outcome
                  then bindP (applyNodeSuccess node r now) (\<lambda>_. fold_running ws run now rest active)
                  else if ao_retryable outcome \<and> max (n_Attempt node) 1 < n_MaxAttempts node
                  then bindP (scheduleRetry node outcome now) (\<lambda>_. fold_running ws run now rest active)
                  else bindP (finalizeFailedFromNode run node r outcome now) (\<lambda>_. retP (active, True))))))"

definition deadline_message :: "codec \<Rightarrow> time option \<Rightarrow> string" where
  "deadline_message cd t =
     ''workflow run exceeded its timeout (deadline '' @ (case t of None \<Rightarrow> '''' | Some x \<Rightarrow> cd_rfc3339 cd x) @ '')''"

definition stop_for_deadline :: "WorkflowService \<Rightarrow> Run \<Rightarrow> bool serv" where
  "stop_for_deadline ws run =
     StopWorkflowRun \<lparr>sr_WorkflowRunID = r_ID run, sr_RunExpected = r_Status run, sr_RunStatus = RunStatusFailing,
       sr_ErrorMessage = Some (deadline_message (ws_codec ws) (r_DeadlineAt run)), sr_FailureClass = FailureRunDeadline\<rparr>"

definition next_pass ::
  "Run \<Rightarrow> NodeRun list \<Rightarrow> bool \<Rightarrow> nat \<times> bool \<times> time option \<Rightarrow> time option \<Rightarrow> time \<Rightarrow> time option" where
  "next_pass run steps active out requestWake now =
     (let (dispatched, dispatchActive, retryAt) = out;
          next = (if active \<or> dispatchActive \<or> dispatched > 0 then Some (now + reconcileObserveInterval) else None);
          next = earliest (earliest next retryAt) requestWake;
          next = (if hasWaitingNode steps then earliest next (Some (now + requestObserveInterval)) else next)
      in if next \<noteq> None then earliest next (r_DeadlineAt run) else None)"

text \<open>The part of a pass that is not repeated: dispatch and the time of the next pass.\<close>

definition finish_pass :: "WorkflowService \<Rightarrow> string \<Rightarrow> Run \<Rightarrow> bool \<Rightarrow> time option \<Rightarrow> time \<Rightarrow> time option serv" where
  "finish_pass ws workflowRunID run active requestWake now =
     bindP (ListWorkflowNodeRuns workflowRunID) (\<lambda>steps.
     bindP (runDefinition ws run) (\<lambda>def.
     bindP (dispatchReadyNodes ws '''' (r_CreatedBy run) run steps (MaxParallelNodes def) now) (\<lambda>out.
     retP (next_pass run steps active out requestWake now))))"

fun reconcilePass :: "nat \<Rightarrow> WorkflowService \<Rightarrow> string \<Rightarrow> time \<Rightarrow> time option serv" where
  "reconcilePass 0 ws workflowRunID now = throwP OutOfFuel"
| "reconcilePass (Suc fuel) ws workflowRunID now =
     bindP (GetWorkflowRun workflowRunID) (\<lambda>found.
     case found of
       None \<Rightarrow> retP None
     | Some run \<Rightarrow>
         if RunStatusTerminal (r_Status run) then retP None
         else
           bindP (ListWorkflowNodeRuns workflowRunID) (\<lambda>steps.
           if r_Status run = RunStatusFailing \<or> r_Status run = RunStatusCanceling then drainRun ws run steps now
           else if passed now (r_DeadlineAt run)
           then bindP (stop_for_deadline ws run) (\<lambda>_. reconcilePass fuel ws workflowRunID now)
           else
             bindP (fold_running ws run now steps False) (\<lambda>(active, again).
             if again then reconcilePass fuel ws workflowRunID now
             else
               bindP (foldWaitingNodes ws run steps now) (\<lambda>(requestWake, stopped).
               if stopped then reconcilePass fuel ws workflowRunID now
               else finish_pass ws workflowRunID run active requestWake now))))"

text \<open>The lease is handed back whatever the pass did; its own error is reported only if the pass had
  none.\<close>

definition Reconcile :: "WorkflowService \<Rightarrow> string \<Rightarrow> unit serv" where
  "Reconcile ws workflowRunID =
     (if \<not> ws_Workflows ws then retP ()
      else
        bindP newPublicID_op (\<lambda>owner.
        bindP now_op (\<lambda>now.
        bindP (ClaimWorkflowRunLease workflowRunID owner now (now + reconcileLeaseDuration)) (\<lambda>claimed.
        if \<not> claimed then retP ()
        else
          bindP (tryE (reconcilePass (ws_fuel ws) ws workflowRunID now)) (\<lambda>pass.
          bindP (tryE (ReleaseWorkflowRunLease workflowRunID owner
                         (case pass of Inl _ \<Rightarrow> Some (now + reconcileObserveInterval) | Inr t \<Rightarrow> t))) (\<lambda>rel.
          case pass of
            Inl e \<Rightarrow> throwP e
          | Inr _ \<Rightarrow> (case rel of Inl e \<Rightarrow> throwP e | Inr _ \<Rightarrow> retP ())))))))"

definition HandleTaskRunTerminal :: "WorkflowService \<Rightarrow> string \<Rightarrow> string \<Rightarrow> unit serv" where
  "HandleTaskRunTerminal ws taskRunID taskID =
     (if \<not> ws_Workflows ws then retP ()
      else
        bindP (GetWorkflowNodeRunByTaskRunID taskRunID) (\<lambda>found.
        case found of
          Some node \<Rightarrow> Reconcile ws (n_WorkflowRunID node)
        | None \<Rightarrow>
            bindP (GetWorkflowNodeRunByTaskID taskID) (\<lambda>found'.
            case found' of
              None \<Rightarrow> retP ()
            | Some node \<Rightarrow> Reconcile ws (n_WorkflowRunID node))))"

end
