(* ===== verification/Workflow_Service.thy ===== *)
theory Workflow_Service
  imports Workflow_Reconcile
begin

text \<open>
  The rest of the workflow service, \<open>internal/service/workflow/service.go\<close> and \<open>request.go\<close>: authoring
  and publishing workflows, starting a run, answering its requests, canceling it, and the reads.
\<close>

section \<open>Definitions and their agents\<close>

definition is_human :: "DefinitionNode \<Rightarrow> bool" where
  "is_human n \<longleftrightarrow> dn_Type n = NodeTypeHumanInput"

fun resolve_agents :: "string \<Rightarrow> DefinitionNode list \<Rightarrow> (string \<rightharpoonup> Agent) \<Rightarrow> (string \<rightharpoonup> Agent) serv" where
  "resolve_agents spaceID [] agents = retP agents"
| "resolve_agents spaceID (n # ns) agents =
     (let agentID = na_ID (dn_Agent n)
      in if is_human n \<or> agents agentID \<noteq> None then resolve_agents spaceID ns agents
         else bindP (GetAgent agentID) (\<lambda>found.
              case found of
                None \<Rightarrow> throwP ErrInvalidTargetAgent
              | Some agent \<Rightarrow>
                  if ag_SpaceID agent \<noteq> spaceID then throwP ErrInvalidTargetAgent
                  else resolve_agents spaceID ns (agents(agentID \<mapsto> agent))))"

fun check_pins :: "DefinitionNode list \<Rightarrow> unit serv" where
  "check_pins [] = retP ()"
| "check_pins (n # ns) =
     (let rev = na_Revision (dn_Agent n)
      in if rev \<le> 0 \<or> is_human n then check_pins ns
         else bindP (GetAgentRevision (na_ID (dn_Agent n)) rev) (\<lambda>got.
              if got = None then throwP ErrInvalidAgentRevision else check_pins ns))"

definition resolveDefinitionAgents :: "WorkflowService \<Rightarrow> string \<Rightarrow> Definition \<Rightarrow> (string \<rightharpoonup> Agent) serv" where
  "resolveDefinitionAgents ws spaceID def =
     (if \<not> ws_Agents ws then throwP ErrInvalidTargetAgent
      else bindP (resolve_agents spaceID (df_Nodes def) (\<lambda>_. None)) (\<lambda>agents.
           bindP (check_pins (df_Nodes def)) (\<lambda>_. retP agents)))"

definition parseAndValidateDefinition ::
  "WorkflowService \<Rightarrow> string \<Rightarrow> string \<Rightarrow> (Definition \<times> (string \<rightharpoonup> Agent)) serv" where
  "parseAndValidateDefinition ws spaceID raw =
     bindP (liftE (parseDefinition (ws_codec ws) raw)) (\<lambda>def.
     bindP (resolveDefinitionAgents ws spaceID def) (\<lambda>agents. retP (def, agents)))"

record nodeAgentSnapshot =
  ns_name :: string
  ns_description :: string
  ns_instructions :: string
  ns_revision :: int

text \<open>The zero value of \<open>agentdef.Agent\<close> is what a missing key of the map reads as.\<close>

definition resolveNodeAgentSnapshot :: "DefinitionNode \<Rightarrow> (string \<rightharpoonup> Agent) \<Rightarrow> nodeAgentSnapshot serv" where
  "resolveNodeAgentSnapshot node agents =
     (if na_Revision (dn_Agent node) > 0
      then bindP (GetAgentRevision (na_ID (dn_Agent node)) (na_Revision (dn_Agent node))) (\<lambda>rev.
           case rev of
             None \<Rightarrow> throwP ErrInvalidAgentRevision
           | Some v \<Rightarrow> retP \<lparr>ns_name = ar_Name v, ns_description = ar_Description v, ns_instructions = ar_Instructions v,
                              ns_revision = ar_Revision v\<rparr>)
      else retP (case agents (na_ID (dn_Agent node)) of
                   None \<Rightarrow> \<lparr>ns_name = '''', ns_description = '''', ns_instructions = '''', ns_revision = 0\<rparr>
                 | Some a \<Rightarrow> \<lparr>ns_name = ag_Name a, ns_description = ag_Description a, ns_instructions = ag_Instructions a,
                              ns_revision = ag_Revision a\<rparr>))"

section \<open>Authoring\<close>

definition maxWorkflowNameRunes :: int where "maxWorkflowNameRunes = 255"
definition maxWorkflowDescriptionBytes :: int where "maxWorkflowDescriptionBytes = 65535"

definition svc_ListWorkflows :: "WorkflowService \<Rightarrow> string \<Rightarrow> Workflow list serv" where
  "svc_ListWorkflows ws spaceID =
     bindP (guardP (ws_Workflows ws) ErrWorkflowsNotConfigured) (\<lambda>_. ListWorkflowsBySpace spaceID)"

definition svc_CreateWorkflow ::
  "WorkflowService \<Rightarrow> string \<Rightarrow> string \<Rightarrow> string \<Rightarrow> string \<Rightarrow> string \<Rightarrow> Workflow serv" where
  "svc_CreateWorkflow ws spaceID userID name description definition =
     bindP (guardP (ws_Workflows ws) ErrWorkflowsNotConfigured) (\<lambda>_.
     bindP (guardP (TrimSpace name \<noteq> '''') ErrWorkflowNameRequired) (\<lambda>_.
     bindP (guardP (\<not> ExceedsRuneLimit (TrimSpace name) maxWorkflowNameRunes) ErrWorkflowNameTooLong) (\<lambda>_.
     bindP (guardP (\<not> ExceedsByteLimit (TrimSpace description) maxWorkflowDescriptionBytes)
              ErrWorkflowDescriptionTooLong) (\<lambda>_.
     bindP (guardP (TrimSpace definition \<noteq> '''') ErrWorkflowDefinitionRequired) (\<lambda>_.
     bindP (parseAndValidateDefinition ws spaceID definition) (\<lambda>_.
     CreateWorkflow spaceID userID (TrimSpace name) (TrimSpace description) definition))))))"

definition svc_GetWorkflow :: "WorkflowService \<Rightarrow> string \<Rightarrow> string \<Rightarrow> Workflow serv" where
  "svc_GetWorkflow ws spaceID workflowID =
     bindP (guardP (ws_Workflows ws) ErrWorkflowsNotConfigured) (\<lambda>_.
     bindP (GetWorkflow workflowID) (\<lambda>found.
     case found of
       None \<Rightarrow> throwP ErrWorkflowNotFound
     | Some w \<Rightarrow> if wf_SpaceID w \<noteq> spaceID then throwP ErrWorkflowNotFound else retP w))"

record UpdateWorkflowCmd =
  uw_SpaceID :: string
  uw_UserID :: string
  uw_WorkflowID :: string
  uw_Name :: "string option"
  uw_Description :: "string option"
  uw_Definition :: "string option"
  uw_Status :: "string option"
  uw_ExpectedRevision :: "int option"

text \<open>The definition an update stores: pinned and canonical when it publishes, as given otherwise.\<close>

definition update_definition :: "WorkflowService \<Rightarrow> UpdateWorkflowCmd \<Rightarrow> string option serv" where
  "update_definition ws cmd =
     (if uw_Status cmd = Some StatusPublished
      then
        bindP (case uw_Definition cmd of
                 Some raw \<Rightarrow> retP raw
               | None \<Rightarrow> bindP (svc_GetWorkflow ws (uw_SpaceID cmd) (uw_WorkflowID cmd)) (\<lambda>w. retP (wf_Definition w))) (\<lambda>raw.
        bindP (parseAndValidateDefinition ws (uw_SpaceID cmd) raw) (\<lambda>(def, agents).
        retP (Some (pinDefinitionAgents (ws_codec ws) def
                      (\<lambda>a. case agents a of None \<Rightarrow> 0 | Some agent \<Rightarrow> ag_Revision agent)))))
      else
        case uw_Definition cmd of
          None \<Rightarrow> retP None
        | Some raw \<Rightarrow> bindP (parseAndValidateDefinition ws (uw_SpaceID cmd) raw) (\<lambda>_. retP (Some raw)))"

definition svc_UpdateWorkflow :: "WorkflowService \<Rightarrow> UpdateWorkflowCmd \<Rightarrow> Workflow serv" where
  "svc_UpdateWorkflow ws cmd =
     bindP (guardP (ws_Workflows ws) ErrWorkflowsNotConfigured) (\<lambda>_.
     bindP (guardP (case uw_Definition cmd of None \<Rightarrow> True | Some raw \<Rightarrow> TrimSpace raw \<noteq> '''')
              ErrWorkflowDefinitionRequired) (\<lambda>_.
     bindP (guardP (case uw_Name cmd of None \<Rightarrow> True | Some n \<Rightarrow> \<not> ExceedsRuneLimit (TrimSpace n) maxWorkflowNameRunes)
              ErrWorkflowNameTooLong) (\<lambda>_.
     bindP (guardP (case uw_Description cmd of None \<Rightarrow> True | Some x \<Rightarrow> \<not> ExceedsByteLimit x maxWorkflowDescriptionBytes)
              ErrWorkflowDescriptionTooLong) (\<lambda>_.
     bindP (guardP (case uw_Status cmd of None \<Rightarrow> True | Some st \<Rightarrow> isValidWorkflowStatus st) ErrInvalidWorkflowStatus) (\<lambda>_.
     bindP (update_definition ws cmd) (\<lambda>definition.
     bindP (case uw_ExpectedRevision cmd of
              Some v \<Rightarrow> retP v
            | None \<Rightarrow> bindP (svc_GetWorkflow ws (uw_SpaceID cmd) (uw_WorkflowID cmd)) (\<lambda>w. retP (wf_Revision w))) (\<lambda>expected.
     bindP (UpdateWorkflow (uw_WorkflowID cmd) (uw_SpaceID cmd)
              \<lparr>ui_Name = uw_Name cmd, ui_Description = uw_Description cmd, ui_Definition = definition,
               ui_Status = uw_Status cmd, ui_ExpectedRevision = expected, ui_UpdatedBy = uw_UserID cmd\<rparr>) (\<lambda>found.
     case found of None \<Rightarrow> throwP ErrWorkflowNotFound | Some w \<Rightarrow> retP w))))))))"

definition svc_ListWorkflowRevisions :: "WorkflowService \<Rightarrow> string \<Rightarrow> string \<Rightarrow> int \<Rightarrow> int \<Rightarrow> (Revision list \<times> nat) serv" where
  "svc_ListWorkflowRevisions ws spaceID workflowID limit offset =
     bindP (svc_GetWorkflow ws spaceID workflowID) (\<lambda>w. ListWorkflowRevisions (wf_ID w) limit offset)"

definition RestoreWorkflowRevision :: "WorkflowService \<Rightarrow> string \<Rightarrow> string \<Rightarrow> string \<Rightarrow> int \<Rightarrow> Workflow serv" where
  "RestoreWorkflowRevision ws spaceID userID workflowID revision =
     bindP (guardP (ws_Workflows ws) ErrWorkflowsNotConfigured) (\<lambda>_.
     bindP (svc_GetWorkflow ws spaceID workflowID) (\<lambda>w.
     bindP (GetWorkflowRevision (wf_ID w) revision) (\<lambda>found.
     case found of
       None \<Rightarrow> throwP ErrWorkflowRevisionNotFound
     | Some v \<Rightarrow>
         svc_UpdateWorkflow ws \<lparr>uw_SpaceID = spaceID, uw_UserID = userID, uw_WorkflowID = wf_ID w,
           uw_Name = Some (rv_Name v), uw_Description = Some (rv_Description v), uw_Definition = Some (rv_Definition v),
           uw_Status = None, uw_ExpectedRevision = Some (wf_Revision w)\<rparr>)))"

definition uses_agent :: "codec \<Rightarrow> string \<Rightarrow> Workflow \<Rightarrow> bool" where
  "uses_agent cd agentID w \<longleftrightarrow>
     wf_Status w = StatusPublished \<and>
     (case parseDefinition cd (wf_Definition w) of
        Inl _ \<Rightarrow> False
      | Inr def \<Rightarrow> list_ex (\<lambda>n. na_ID (dn_Agent n) = agentID) (df_Nodes def))"

definition PublishedWorkflowsUsingAgent :: "WorkflowService \<Rightarrow> string \<Rightarrow> string \<Rightarrow> Workflow list serv" where
  "PublishedWorkflowsUsingAgent ws spaceID agentID =
     bindP (guardP (ws_Workflows ws) ErrWorkflowsNotConfigured) (\<lambda>_.
     bindP (ListWorkflowsBySpace spaceID) (\<lambda>workflows.
     retP (filter (uses_agent (ws_codec ws) agentID) workflows)))"

definition svc_ListWorkflowRuns :: "WorkflowService \<Rightarrow> string \<Rightarrow> string \<Rightarrow> int \<Rightarrow> int \<Rightarrow> (Run list \<times> nat) serv" where
  "svc_ListWorkflowRuns ws spaceID workflowID limit offset =
     bindP (svc_GetWorkflow ws spaceID workflowID) (\<lambda>w. ListWorkflowRunsByWorkflow (wf_ID w) limit offset)"

definition GetWorkflowRunDetail :: "WorkflowService \<Rightarrow> string \<Rightarrow> string \<Rightarrow> (Run \<times> NodeRun list) serv" where
  "GetWorkflowRunDetail ws spaceID workflowRunID =
     bindP (guardP (ws_Workflows ws) ErrWorkflowsNotConfigured) (\<lambda>_.
     bindP (GetWorkflowRun workflowRunID) (\<lambda>found.
     case found of
       None \<Rightarrow> throwP ErrWorkflowRunNotFound
     | Some run \<Rightarrow>
         bindP (svc_GetWorkflow ws spaceID (r_WorkflowID run)) (\<lambda>_.
         bindP (ListWorkflowNodeRuns workflowRunID) (\<lambda>steps. retP (run, steps)))))"

definition svc_ListDueWorkflowRuns :: "WorkflowService \<Rightarrow> time \<Rightarrow> int \<Rightarrow> Run list serv" where
  "svc_ListDueWorkflowRuns ws now limit =
     bindP (guardP (ws_Workflows ws) ErrWorkflowsNotConfigured) (\<lambda>_. ListDueWorkflowRuns now limit)"

section \<open>Starting a run\<close>

record StartWorkflowRunCmd =
  sw_SpaceID :: string
  sw_UserID :: string
  sw_WorkflowID :: string
  sw_IssueID :: "string option"
  sw_ScheduleID :: "string option"
  sw_ConversationID :: "string option"
  sw_RequestedBy :: string
  sw_AssistantID :: string
  sw_AssistantRevision :: int
  sw_Input :: string

definition reportStatusFor :: "StartWorkflowRunCmd \<Rightarrow> ReportStatus" where
  "reportStatusFor cmd =
     (if sw_AssistantID cmd = '''' \<or> sw_ConversationID cmd = None \<or> sw_ConversationID cmd = Some ''''
      then ReportNone else ReportPending)"

definition GetIssue :: "string \<Rightarrow> Issue option serv" where
  "GetIssue issueID = get_by_id db_issues issueID"

definition ExecutorWorkflow :: string where "ExecutorWorkflow = ''workflow''"

definition validateIssueForRun :: "WorkflowService \<Rightarrow> string \<Rightarrow> string \<Rightarrow> string option \<Rightarrow> unit serv" where
  "validateIssueForRun ws spaceID workflowID issueID =
     (case issueID of
        None \<Rightarrow> retP ()
      | Some i \<Rightarrow>
          if i = '''' then retP ()
          else
            bindP (guardP (ws_Issues ws) ErrIssuesNotConfigured) (\<lambda>_.
            bindP (GetIssue i) (\<lambda>found.
            case found of
              None \<Rightarrow> throwP ErrIssueNotFound
            | Some issue \<Rightarrow>
                if is_SpaceID issue \<noteq> spaceID then throwP ErrIssueNotFound
                else if is_ExecutorKind issue \<noteq> Some ExecutorWorkflow \<or> is_ExecutorID issue \<noteq> Some workflowID
                then throwP ErrIssueWorkflowMismatch
                else retP ())))"

definition topo_index :: "string list \<Rightarrow> string \<Rightarrow> int" where
  "topo_index order nodeID = int (position_of order nodeID)"

definition node_run_input :: "string list \<Rightarrow> DefinitionNode \<Rightarrow> nodeAgentSnapshot option \<Rightarrow> CreateNodeRunInput" where
  "node_run_input order n snap =
     \<lparr>cn_NodeID = dn_ID n, cn_NodeIndex = topo_index order (dn_ID n), cn_NodeType = dn_Type n, cn_Needs = dn_Needs n,
      cn_IssueAccess = dn_IssueAccess n, cn_TargetAgentID = map_option (\<lambda>_. na_ID (dn_Agent n)) snap,
      cn_AgentName = (case snap of None \<Rightarrow> '''' | Some a \<Rightarrow> ns_name a),
      cn_AgentDescription = (case snap of None \<Rightarrow> '''' | Some a \<Rightarrow> ns_description a),
      cn_AgentInstructions = (case snap of None \<Rightarrow> '''' | Some a \<Rightarrow> ns_instructions a),
      cn_AgentRevision = (case snap of None \<Rightarrow> 0 | Some a \<Rightarrow> ns_revision a),
      cn_Prompt = ni_Instruction (dn_Input n), cn_Bindings = ni_Bindings (dn_Input n),
      cn_OutputSchema = outputSchemaSnapshot (dn_OutputSchema n),
      cn_MaxAttempts = (if is_human n then 1 else MaxAttempts n), cn_TimeoutSeconds = TimeoutSeconds n,
      cn_Status = NodeRunStatusPending\<rparr>"

fun node_run_inputs :: "string list \<Rightarrow> (string \<rightharpoonup> Agent) \<Rightarrow> DefinitionNode list \<Rightarrow> CreateNodeRunInput list serv" where
  "node_run_inputs order agents [] = retP []"
| "node_run_inputs order agents (n # ns) =
     bindP (if is_human n then retP None
            else bindP (resolveNodeAgentSnapshot n agents) (\<lambda>snap. retP (Some snap))) (\<lambda>snap.
     bindP (node_run_inputs order agents ns) (\<lambda>rest. retP (node_run_input order n snap # rest)))"

definition admit_run :: "WorkflowService \<Rightarrow> StartWorkflowRunCmd \<Rightarrow> (Workflow \<times> Definition \<times> (string \<rightharpoonup> Agent) \<times> string option) serv" where
  "admit_run ws cmd =
     bindP (guardP (ws_Workflows ws) ErrWorkflowsNotConfigured) (\<lambda>_.
     bindP (guardP (case ws_TaskService ws of None \<Rightarrow> False | Some ts \<Rightarrow> ts_Tasks ts) ErrTasksNotConfigured) (\<lambda>_.
     bindP (svc_GetWorkflow ws (sw_SpaceID cmd) (sw_WorkflowID cmd)) (\<lambda>w.
     bindP (guardP (wf_Status w \<noteq> StatusArchived) ErrWorkflowArchived) (\<lambda>_.
     bindP (guardP (wf_Status w = StatusPublished) ErrWorkflowNotPublished) (\<lambda>_.
     bindP (parseAndValidateDefinition ws (sw_SpaceID cmd) (wf_Definition w)) (\<lambda>(def, agents).
     bindP (validateIssueForRun ws (sw_SpaceID cmd) (wf_ID w) (sw_IssueID cmd)) (\<lambda>_.
     bindP (guardP (\<not> ((sw_IssueID cmd = None \<or> sw_IssueID cmd = Some '''') \<and> definitionRequiresIssue def)) ErrIssueRequired) (\<lambda>_.
     bindP (liftE (resolveRunInput (ws_codec ws) def (sw_Input cmd))) (\<lambda>runInput.
     retP (w, def, agents, runInput))))))))))"

definition create_run_input :: "StartWorkflowRunCmd \<Rightarrow> Workflow \<Rightarrow> Definition \<Rightarrow> string option \<Rightarrow> time \<Rightarrow> CreateWorkflowRunInput" where
  "create_run_input cmd w def runInput now =
     \<lparr>cw_WorkflowID = wf_ID w, cw_WorkflowRevision = wf_Revision w, cw_IssueID = sw_IssueID cmd,
      cw_ScheduleID = sw_ScheduleID cmd, cw_ConversationID = sw_ConversationID cmd, cw_RequestedBy = sw_RequestedBy cmd,
      cw_AssistantID = sw_AssistantID cmd, cw_AssistantRevision = sw_AssistantRevision cmd,
      cw_ReportStatus = reportStatusFor cmd, cw_Input = runInput, cw_Status = RunStatusRunning, cw_CreatedBy = sw_UserID cmd,
      cw_StartedAt = Some now,
      cw_DeadlineAt = Deadline now (case df_Policy def of None \<Rightarrow> 0 | Some p \<Rightarrow> dp_TimeoutSeconds p)\<rparr>"

definition StartWorkflowRun :: "WorkflowService \<Rightarrow> StartWorkflowRunCmd \<Rightarrow> (Run option \<times> NodeRun list) serv" where
  "StartWorkflowRun ws cmd =
     bindP (admit_run ws cmd) (\<lambda>(w, def, agents, runInput).
     bindP now_op (\<lambda>now.
     bindP (CreateWorkflowRun (create_run_input cmd w def runInput now)) (\<lambda>run.
     case BuildGraph (df_Nodes def) of
       Inl _ \<Rightarrow> throwP ErrInvalidNeeds
     | Inr graph \<Rightarrow>
         bindP (node_run_inputs (Order graph) agents (df_Nodes def)) (\<lambda>stepsIn.
         bindP (CreateWorkflowNodeRuns (r_ID run) stepsIn) (\<lambda>_.
         bindP (Reconcile ws (r_ID run)) (\<lambda>_.
         bindP (ListWorkflowNodeRuns (r_ID run)) (\<lambda>steps.
         bindP (GetWorkflowRun (r_ID run)) (\<lambda>run'. retP (run', steps)))))))))"

section \<open>Requests and cancellation\<close>

definition runInSpace :: "WorkflowService \<Rightarrow> string \<Rightarrow> string \<Rightarrow> (Run \<times> Workflow) serv" where
  "runInSpace ws spaceID workflowRunID =
     bindP (guardP (ws_Workflows ws) ErrWorkflowsNotConfigured) (\<lambda>_.
     bindP (GetWorkflowRun workflowRunID) (\<lambda>found.
     case found of
       None \<Rightarrow> throwP ErrWorkflowRunNotFound
     | Some run \<Rightarrow>
         bindP (svc_GetWorkflow ws spaceID (r_WorkflowID run)) (\<lambda>w. retP (run, w))))"

definition ListWorkflowRunRequests :: "WorkflowService \<Rightarrow> string \<Rightarrow> string \<Rightarrow> Request list serv" where
  "ListWorkflowRunRequests ws spaceID workflowRunID =
     bindP (runInSpace ws spaceID workflowRunID) (\<lambda>_. ListWorkflowRequestsByRun workflowRunID)"

definition ListPendingRequests :: "WorkflowService \<Rightarrow> string \<Rightarrow> int \<Rightarrow> int \<Rightarrow> (Request list \<times> nat) serv" where
  "ListPendingRequests ws spaceID limit offset =
     bindP (guardP (ws_Workflows ws) ErrWorkflowsNotConfigured) (\<lambda>_.
     ListPendingWorkflowRequestsBySpace spaceID limit offset)"

definition validateResponse :: "codec \<Rightarrow> Request \<Rightarrow> string \<Rightarrow> err + string" where
  "validateResponse cd req raw =
     (let trimmed = TrimSpace raw
      in if trimmed = '''' then Inl ErrInvalidRequestResponse
         else case rq_ResponseSchema req of
                Some schemaText \<Rightarrow>
                  (case Compile (cd_unmarshal cd) (cd_integral cd) schemaText of
                     Inl _ \<Rightarrow> Inl ErrInvalidOutputSchema
                   | Inr schema \<Rightarrow>
                       (case Validate (cd_decode cd) (cd_integral cd) schema trimmed of
                          Inl _ \<Rightarrow> Inl ErrInvalidRequestResponse
                        | Inr _ \<Rightarrow> Inr trimmed))
              | None \<Rightarrow>
                  (case cd_unmarshalString cd trimmed of
                     None \<Rightarrow> Inl ErrInvalidRequestResponse
                   | Some text \<Rightarrow> if TrimSpace text = '''' then Inl ErrInvalidRequestResponse else Inr trimmed))"

definition RequestActionAnswer :: string where "RequestActionAnswer = ''answer''"
definition RequestActionDecline :: string where "RequestActionDecline = ''decline''"

record RespondToRequestCmd =
  rr_SpaceID :: string
  rr_UserID :: string
  rr_RequestID :: string
  rr_Action :: string
  rr_Response :: string
  rr_Reason :: string

definition resolution :: "codec \<Rightarrow> Request \<Rightarrow> RespondToRequestCmd \<Rightarrow> err + RequestStatus \<times> string" where
  "resolution cd req cmd =
     (if rr_Action cmd = RequestActionAnswer
      then bindE (validateResponse cd req (rr_Response cmd)) (\<lambda>normalized. Inr (RequestStatusAnswered, normalized))
      else if rr_Action cmd = RequestActionDecline
      then Inr (RequestStatusDeclined, cd_marshalString cd (TrimSpace (rr_Reason cmd)))
      else Inl ErrInvalidRequestAction)"

definition hide_run :: "err \<Rightarrow> err" where
  "hide_run e = (if e = ErrWorkflowRunNotFound \<or> e = ErrWorkflowNotFound \<or> e = ErrNotFound then ErrWorkflowRequestNotFound else e)"

definition RespondToRequest :: "WorkflowService \<Rightarrow> RespondToRequestCmd \<Rightarrow> Request option serv" where
  "RespondToRequest ws cmd =
     bindP (guardP (ws_Workflows ws) ErrWorkflowsNotConfigured) (\<lambda>_.
     bindP (GetWorkflowRequest (rr_RequestID cmd)) (\<lambda>found.
     case found of
       None \<Rightarrow> throwP ErrWorkflowRequestNotFound
     | Some req \<Rightarrow>
         bindP (mapErr hide_run (runInSpace ws (rr_SpaceID cmd) (rq_WorkflowRunID req))) (\<lambda>(run, w).
         bindP (guardP (rq_Status req = RequestStatusPending) ErrWorkflowRequestResolved) (\<lambda>_.
         bindP (liftE (resolution (ws_codec ws) req cmd)) (\<lambda>(status, response).
         bindP now_op (\<lambda>now.
         bindP (ResolveWorkflowRequest \<lparr>ri_RequestID = rq_ID req, ri_Status = status, ri_Response = Some response,
                  ri_RespondedBy = Some (rr_UserID cmd), ri_Now = now\<rparr>) (\<lambda>resolved.
         bindP (guardP resolved ErrWorkflowRequestResolved) (\<lambda>_.
         bindP (Reconcile ws (r_ID run)) (\<lambda>_. GetWorkflowRequest (rq_ID req))))))))))"

definition CancelWorkflowRun :: "WorkflowService \<Rightarrow> string \<Rightarrow> string \<Rightarrow> Run option serv" where
  "CancelWorkflowRun ws spaceID workflowRunID =
     bindP (runInSpace ws spaceID workflowRunID) (\<lambda>(run, w).
     if r_Status run = RunStatusCanceling then retP (Some run)
     else if r_Status run = RunStatusFailing then throwP ErrWorkflowRunStoppingFailed
     else if RunStatusTerminal (r_Status run) then throwP ErrWorkflowRunFinished
     else
       bindP (StopWorkflowRun \<lparr>sr_WorkflowRunID = r_ID run, sr_RunExpected = r_Status run,
                sr_RunStatus = RunStatusCanceling, sr_ErrorMessage = Some ''the run was canceled'',
                sr_FailureClass = ''''\<rparr>) (\<lambda>stopped.
       if \<not> stopped
       then bindP (GetWorkflowRun (r_ID run)) (\<lambda>current.
            case current of
              None \<Rightarrow> nilP
            | Some c \<Rightarrow> if r_Status c \<noteq> RunStatusCanceling then throwP ErrWorkflowRunFinished else retP (Some c))
       else bindP (Reconcile ws (r_ID run)) (\<lambda>_. GetWorkflowRun (r_ID run))))"

end
