(* ===== verification/Runtime_Services.thy ===== *)
theory Runtime_Services
  imports Runtime_Store Workflow_Service
begin

text \<open>
  The services under interference: every operation of the task service and of the workflow service moves
  the database along \<open>runtime rid\<close>, whatever other processes commit between its transactions and
  whichever of its calls are lost. The reconciler acts on rows it read earlier; \<open>read_steps\<close> is what stays
  true of such a reading while the rows change, and it is enough: a node that was ready may still be
  started, a node set that had finished has finished for good.
\<close>

section \<open>What a reading still says later\<close>

definition seen :: "string \<Rightarrow> NodeRun \<Rightarrow> db \<Rightarrow> bool" where
  "seen rid n d \<longleftrightarrow>
     CanonicalPublicID (n_ID n) = Some (n_ID n)
     \<and> (if n_WorkflowRunID n = rid then \<exists>n'. node_of rid d (n_ID n) n' \<and> wnode_evolves n n'
        else \<forall>n'. \<not> node_of rid d (n_ID n) n')"

definition read_steps :: "string \<Rightarrow> string \<Rightarrow> NodeRun list \<Rightarrow> db \<Rightarrow> bool" where
  "read_steps rid x steps d \<longleftrightarrow>
     (\<forall>n\<in>set steps. n_WorkflowRunID n = x \<and> seen rid n d)
     \<and> (x = rid \<longrightarrow> (\<forall>i n'. node_of rid d i n' \<longrightarrow> (\<exists>n\<in>set steps. n_ID n = i)))"

lemma seen_evolves: assumes ev: "wf_evolves rid d d'" and n: "seen rid n d" shows "seen rid n d'"
proof (cases "n_WorkflowRunID n = rid")
  case True
  then obtain m where m: "node_of rid d (n_ID n) m" "wnode_evolves n m" using n by (auto simp: seen_def)
  then obtain m' where "node_of rid d' (n_ID n) m'" "wnode_evolves m m'" using wf_evolves_node [OF ev] by blast
  then show ?thesis using True n m(2) wnode_evolves_trans by (auto simp: seen_def)
next
  case False
  then show ?thesis using n wf_evolves_back [OF ev] by (auto simp: seen_def)
qed

lemma stable_read_steps:
  assumes "\<And>d. F d \<Longrightarrow> good rid d" "stable (runtime rid) F"
  shows "stable (runtime rid) (\<lambda>d. F d \<and> read_steps rid x steps d)"
proof (rule stable_fact [OF _ assms])
  show "read_steps rid x steps d'" if "wf_evolves rid d d'" "read_steps rid x steps d" for d d'
    using that seen_evolves [OF that(1)] wf_evolves_back [OF that(1)] unfolding read_steps_def by blast
qed

lemma node_rows_iff: "n \<in> set (node_rows d x) \<longleftrightarrow> n_WorkflowRunID n = x \<and> (\<exists>i\<in>set (db_node_order d). db_nodes d i = Some n)"
  by (auto simp: node_rows_def in_rows_iff)

lemma node_rows_read: assumes "good rid d" shows "read_steps rid x (node_rows d x) d"
proof -
  have k: "wf_keyed d" using assms by (simp add: good_def wf_inv_def)
  have s: "seen rid n d" if "db_nodes d i = Some n" for i n
    using k that by (auto simp: seen_def wf_keyed_def node_of_def)
  have "n_ID n = i \<and> n \<in> set (node_rows d (n_WorkflowRunID n))" if "db_nodes d i = Some n" for i n
    using k that unfolding node_rows_iff by (auto simp: wf_keyed_def)
  then have "\<exists>n\<in>set (node_rows d rid). n_ID n = i" if "node_of rid d i n'" for i n'
    using that unfolding node_of_def by blast
  then show ?thesis using s by (auto simp: read_steps_def node_rows_iff)
qed

text \<open>A lookup of a row that exists fails only with the database.\<close>

lemma tells_try_lookup:
  assumes "CanonicalPublicID p = Some x" "\<And>d. F d \<Longrightarrow> present d x"
  shows "tells (runtime rid) F (tryP (lookupKey_op present p)) (\<lambda>r d. r = Inr x \<or> r = Inl ErrDB)"
  unfolding tells_def obeys_def
proof (intro impI runsI)
  fix s assume st: "stable (runtime rid) F" and h: "holds (runtime rid) F s"
  let ?d = "w_env (sy_world s) (sy_tick s) (sy_db s)"
  have e: "runtime rid (sy_db s) ?d" "F ?d"
    using h st by (auto simp: holds_def env_ok_def stable_def)
  show "sys_step (runtime rid) s (snd (tryP (lookupKey_op present p) s))"
    using e assms by (auto simp: tryP_def lookupKey_op_def db_op_def Let_def sys_step_def split: fault.splits)
  show "holds (runtime rid) (\<lambda>d. F d \<and> (r = Inr x \<or> r = Inl ErrDB)) (snd (tryP (lookupKey_op present p) s))"
    if "fst (tryP (lookupKey_op present p) s) = Inr r" for r
    using e assms h that by (auto simp: tryP_def lookupKey_op_def db_op_def Let_def holds_def split: fault.splits)
qed

lemma tells_ListWorkflowNodeRuns:
  assumes F: "\<And>d. F d \<Longrightarrow> good rid d" and x: "CanonicalPublicID i = Some x"
  shows "tells (runtime rid) F (ListWorkflowNodeRuns i) (read_steps rid x)"
proof (cases "x = rid")
  case False
  then show ?thesis
    unfolding ListWorkflowNodeRuns_def
    by (intro rt.tells_if_key rt.tells_read) (use x F in \<open>auto simp: read_steps_def [of _ _ "[]"] intro: node_rows_read\<close>)
next
  case True
  show ?thesis
  unfolding ListWorkflowNodeRuns_def if_key_def
proof (rule rt.tells_bind_pure [OF tells_try_lookup [OF x, where present = "\<lambda>d i. db_runs d i \<noteq> None"]])
  show "db_runs d x \<noteq> None" if "F d" for d using F [OF that] wf_invD(3) True by (auto simp: good_def)
  show "tells (runtime rid) F (case r of Inr i \<Rightarrow> read_op (\<lambda>d. node_rows d i)
      | Inl e \<Rightarrow> if e = ErrNotFound then retP [] else throwP e) (read_steps rid x)"
    if "r = Inr x \<or> r = Inl ErrDB" for r
    using that by (elim disjE) (auto intro!: rt.tells_read rt.tells_throw node_rows_read F)
qed
qed

text \<open>A node that was ready when it was read may be started.\<close>

lemma find_SomeD: "find P xs = Some y \<Longrightarrow> y \<in> set xs \<and> P y"
  by (induction xs) (auto split: if_splits)

lemma ready_may_start:
  assumes r: "read_steps rid x steps d" and n: "n \<in> set steps" and ready: "nodeReady n (status_by_id steps)"
  shows "may_start rid d (n_ID n)"
proof (cases "x = rid")
  case False
  then show ?thesis using r n by (auto simp: may_start_def read_steps_def seen_def)
next
  case True
  have step: "\<exists>m'. node_of rid d (n_ID m) m' \<and> wnode_evolves m m'" if "m \<in> set steps" for m
    using r that True by (auto simp: read_steps_def seen_def)
  have "needs_met rid d n'" if n': "node_of rid d (n_ID n) n'" for n'
    unfolding needs_met_def
  proof
    fix k assume "k \<in> set (n_Needs n')"
    moreover have "wnode_evolves n n'" using step [OF n] n' by (auto simp: node_of_def)
    ultimately have "k \<in> set (n_Needs n)" using wnode_identity by metis
    then have "status_by_id steps k = Some NodeRunStatusSucceeded" using ready by (auto simp: nodeReady_def list_all_iff)
    then obtain m where m: "m \<in> set steps" "n_NodeID m = k" "n_Status m = NodeRunStatusSucceeded"
      by (auto simp: status_by_id_def node_by_id_def dest: find_SomeD)
    then obtain m' where "node_of rid d (n_ID m) m'" "wnode_evolves m m'" using step by blast
    then show "\<exists>j m. node_of rid d j m \<and> n_NodeID m = k \<and> n_Status m = NodeRunStatusSucceeded"
      using m(2,3) by (auto simp: wnode_evolves_def)
  qed
  then show ?thesis by (simp add: may_start_def)
qed

text \<open>A node set that had finished when it was read has finished.\<close>

lemma finished_for_good:
  assumes r: "read_steps rid rid steps d" and fin: "\<forall>n\<in>set steps. NodeRunStatusTerminal (n_Status n)"
    and n: "node_of rid d i n"
  shows "NodeRunStatusTerminal (n_Status n)"
proof -
  obtain m where m: "m \<in> set steps" "n_ID m = i" using r n by (auto simp: read_steps_def)
  have "n_WorkflowRunID m = rid" "seen rid m d" using r m(1) by (auto simp: read_steps_def)
  then obtain m' where "node_of rid d i m'" "wnode_evolves m m'" using m(2) by (auto simp: seen_def)
  then show ?thesis using n fin m(1) by (auto simp: node_of_def wnode_evolves_def)
qed

section \<open>The task service\<close>

lemma safe_guard: "safe (runtime rid) F (guardP b e)"
  unfolding guardP_def by (intro tells_cases rt.tells_ret rt.tells_throw) simp

lemma safe_agents:
  "safe (runtime rid) F (GetAgent i)" "safe (runtime rid) F (GetAgentIncludingDeleted i)" "safe (runtime rid) F (GetAgentRevision i n)"
  unfolding GetAgent_def GetAgentIncludingDeleted_def GetAgentRevision_def
  by (intro safe_get_by_id rt.tells_if_key safe_read; simp)+

lemmas safe_basic =
  rt.tells_throw rt.tells_now rt.tells_newPublicID rt.tells_get safe_guard safe_agents safe_reads safe_read

lemma safe_checkQuota: "safe (runtime rid) F (checkQuota ts sp k)"
  unfolding checkQuota_def by (intro tells_cases rt.tells_bind_any safe_basic rt.tells_ret) simp_all

lemma safe_resolveTitle: "safe (runtime rid) F (resolveTitle ts i f)"
  unfolding resolveTitle_def by (intro tells_cases rt.tells_bind_any safe_basic rt.tells_ret) simp_all

lemma safe_resolveInput: "safe (runtime rid) F (resolveInput ts sp i a)"
  unfolding resolveInput_def by (intro tells_cases rt.tells_bind_any safe_basic rt.tells_ret) simp_all

lemma tells_buildCreateInput:
  "tells (runtime rid) F (buildCreateInput ts cmd) (\<lambda>ci d. ci_WorkflowNodeRunID ci = ct_WorkflowNodeRunID cmd)"
  unfolding buildCreateInput_def
  by (intro tells_cases rt.tells_bind_any safe_resolveInput safe_checkQuota safe_resolveTitle rt.tells_ret) simp

lemma safe_svc_CreateTask: "safe (runtime rid) F (svc_CreateTask ts cmd)"
  unfolding svc_CreateTask_def
  by (intro rt.tells_bind_any safe_basic safe_CreateTask tells_safe [OF tells_buildCreateInput])

lemma safe_StartBackgroundTask: "safe (runtime rid) F (StartBackgroundTask ts cmd)"
  unfolding StartBackgroundTask_def by (intro rt.tells_bind_any safe_svc_CreateTask rt.tells_ret) simp

lemma tells_AdmitWorkflowTask:
  assumes "\<And>d. F d \<Longrightarrow> good rid d \<and> may_start rid d (ct_WorkflowNodeRunID cmd)" "ct_WorkflowNodeRunID cmd \<noteq> ''''"
  shows "tells (runtime rid) F (AdmitWorkflowTask ts cmd) (\<lambda>t d. left_pending rid (ct_WorkflowNodeRunID cmd) d)"
  unfolding AdmitWorkflowTask_def
proof (intro rt.tells_bind_any [OF safe_guard] rt.tells_bind_pure [OF tells_buildCreateInput])
  fix ci :: CreateInput assume ci: "ci_WorkflowNodeRunID ci = ct_WorkflowNodeRunID cmd"
  show "tells (runtime rid) F (AdmitTask (ts_params ts) ci) (\<lambda>t d. left_pending rid (ct_WorkflowNodeRunID cmd) d)"
    unfolding ci [symmetric] by (rule tells_AdmitNodeTask) (use assms ci in auto)
qed

lemma safe_AdmitWorkflowTask:
  assumes "ct_WorkflowNodeRunID cmd = ''''" shows "safe (runtime rid) F (AdmitWorkflowTask ts cmd)"
  unfolding AdmitWorkflowTask_def
  by (intro rt.tells_bind_any [OF safe_guard] rt.tells_bind_pure [OF tells_buildCreateInput] safe_AdmitPlain)
    (simp add: assms)

lemma safe_refuseWorkflowStep: "safe (runtime rid) F (refuseWorkflowStep ts i e)"
  unfolding refuseWorkflowStep_def by (intro tells_cases rt.tells_bind_any safe_basic rt.tells_ret) simp_all

lemma safe_run_agent: "safe (runtime rid) F (run_agent ts t)"
  unfolding run_agent_def by (intro tells_cases rt.tells_bind_any safe_basic rt.tells_ret) simp_all

lemma safe_CreateRun:
  assumes "\<And>d. F d \<Longrightarrow> good rid d" shows "safe (runtime rid) F (CreateRun ts cmd)"
  unfolding CreateRun_def
  by (intro tells_cases rt.tells_bind_any safe_basic safe_refuseWorkflowStep safe_checkQuota safe_run_agent
      tells_safe [OF tells_CreateTaskRun] assms) simp_all

lemma safe_RetryRun:
  assumes "\<And>d. F d \<Longrightarrow> good rid d" shows "safe (runtime rid) F (RetryRun ts u i)"
  unfolding RetryRun_def
  by (intro tells_cases rt.tells_bind_any safe_basic safe_refuseWorkflowStep safe_CreateRun assms rt.tells_ret) simp_all

lemma tells_admitWorkflowNodeRun:
  assumes "\<And>d. F d \<Longrightarrow> good rid d"
    and "cr_WorkflowNodeFrom cr = Some NodeRunStatusRetryWait \<or> cr_WorkflowNodeFrom cr = Some NodeRunStatusWaiting"
  shows "tells (runtime rid) F (admitWorkflowNodeRun ts u prev cr) (\<lambda>r d. CanonicalPublicID (tr_ID r) = Some (tr_ID r))"
  unfolding admitWorkflowNodeRun_def
  by (intro tells_cases rt.tells_bind_any safe_basic safe_checkQuota tells_CreateTaskRun assms(1)) (use assms(2) in auto)

lemma tells_AdmitWorkflowRuns:
  assumes "\<And>d. F d \<Longrightarrow> good rid d"
  shows "tells (runtime rid) F (AdmitWorkflowRetryRun ts wr) (\<lambda>r d. CanonicalPublicID (tr_ID r) = Some (tr_ID r))"
    "tells (runtime rid) F (AdmitWorkflowAnswerRun ts wa) (\<lambda>r d. CanonicalPublicID (tr_ID r) = Some (tr_ID r))"
  unfolding AdmitWorkflowRetryRun_def AdmitWorkflowAnswerRun_def
  by (rule tells_admitWorkflowNodeRun [OF assms]; simp add: retry_input_def answer_input_def)+

lemma safe_RequestRunCancel: "safe (runtime rid) F (RequestRunCancel ts i u reason now)"
  unfolding RequestRunCancel_def
  by (intro rt.tells_bind_any safe_guard safe_RequestTaskRunCancel safe_TransitionTaskRun)

section \<open>Attempts, bindings, results\<close>

lemma safe_nilP: "tells (runtime rid) F nilP Q"
  unfolding nilP_def by (rule rt.tells_throw)

lemma tells_tryE: assumes "tells (runtime rid) F m Q" shows "tells (runtime rid) F (tryE m) (\<lambda>r d. \<forall>x. r = Inr x \<longrightarrow> Q x d)"
  unfolding tryE_def tells_def
proof
  assume st: "stable (runtime rid) F"
  show "obeys (runtime rid) F (bindP (tryP m) (\<lambda>r. case r of
      Inl e \<Rightarrow> if e = ErrPanic \<or> e = OutOfFuel then throwP e else retP (Inl e) | Inr x \<Rightarrow> retP (Inr x)))
    (\<lambda>r d. F d \<and> (\<forall>x. r = Inr x \<longrightarrow> Q x d))"
    by (rule rt.obeys_bind [OF tells_obeys [OF rt.tells_try [OF assms] st]])
      (intro rt.obeys_sum rt.obeys_if rt.obeys_throw rt.obeys_ret, auto)
qed

lemma safe_stepTaskRun: "safe (runtime rid) F (stepTaskRun ws n)"
  unfolding stepTaskRun_def by (intro tells_cases safe_basic rt.tells_ret) simp_all

lemma safe_cancelTimedOutAttempt: "safe (runtime rid) F (cancelTimedOutAttempt ws r now)"
  unfolding cancelTimedOutAttempt_def by (intro tells_cases rt.tells_bind_any safe_nilP safe_basic safe_RequestRunCancel)

lemma safe_overdue_attempt: "safe (runtime rid) F (overdue_attempt ws n r now)"
  unfolding overdue_attempt_def by (intro tells_cases rt.tells_ret safe_cancelTimedOutAttempt) simp_all

lemma safe_bindingSourceDocument: "safe (runtime rid) F (bindingSourceDocument ws run src nodes)"
  unfolding bindingSourceDocument_def nodeOutputEnvelope_def nodeArtifacts_def
  by (intro tells_cases rt.tells_bind_any safe_basic rt.tells_ret) simp_all

lemma safe_resolveStepBindings: "safe (runtime rid) F (resolveStepBindings ws run n nodes)"
proof -
  have "safe (runtime rid) F (resolve_bindings ws run nodes bs)" for bs
    by (induction bs)
      (auto intro!: rt.tells_ret rt.tells_bind_any safe_bindingSourceDocument tells_cases rt.tells_throw simp del: bindP_def)
  then show ?thesis by (simp add: resolveStepBindings_def)
qed

lemma safe_runDefinition: "safe (runtime rid) F (runDefinition ws run)"
  unfolding runDefinition_def
  by (intro rt.tells_bind_any tells_cases safe_basic rt.tells_ret rt.tells_lift) simp_all

lemma safe_resolveRunResult: "safe (runtime rid) F (resolveRunResult ws run steps)"
  unfolding resolveRunResult_def
  by (intro rt.tells_bind_any tells_cases safe_basic rt.tells_ret safe_runDefinition safe_bindingSourceDocument) simp_all

lemma safe_stepAgent: "safe (runtime rid) F (stepAgent ws sp a n)"
  unfolding stepAgent_def by (intro rt.tells_bind_any tells_cases safe_basic rt.tells_ret) simp_all

lemma safe_space_of_run: "safe (runtime rid) F (space_of_run run sp)"
  unfolding space_of_run_def by (intro rt.tells_bind_any tells_cases safe_basic rt.tells_ret) simp_all

section \<open>Moving a node\<close>

lemmas input_simps = node_transition_def drain_input_def run_transition_def step_task_cmd_def

lemma safe_folds:
  "safe (runtime rid) F (scheduleRetry node out now)" "safe (runtime rid) F (applyNodeSuccess node r now)"
  "safe (runtime rid) F (finalizeFailedFromNode run node r out now)" "safe (runtime rid) F (openQuestionRequest run node r now)"
  unfolding scheduleRetry_def applyNodeSuccess_def finalizeFailedFromNode_def openQuestionRequest_def Let_def
  by (intro rt.tells_bind_any rt.tells_ret safe_TransitionWorkflowNodeRun safe_BeginWorkflowRunDrain safe_OpenWorkflowRequest;
      simp add: input_simps node_move_ok_def)+

lemma safe_drain_after:
  assumes "NodeRunStatusTerminal (bd_NodeStatus bd)"
    and "\<And>d i. F d \<Longrightarrow> CanonicalPublicID (bd_NodeRunID bd) = Some i \<Longrightarrow> bd_NodeExpected bd = NodeRunStatusPending \<Longrightarrow>
      may_start rid d i"
  shows "tells (runtime rid) F (drain_after bd e) Q"
  unfolding drain_after_def by (intro rt.tells_bind_any safe_BeginWorkflowRunDrain assms rt.tells_throw)

lemma tells_createStepTask:
  assumes F: "\<And>d. F d \<Longrightarrow> good rid d \<and> may_start rid d (n_ID node)" and id: "n_ID node \<noteq> ''''"
  shows "tells (runtime rid) F (createStepTask ws sp u run node sibs) (\<lambda>r d. left_pending rid (n_ID node) d)"
proof -
  have admit: "tells (runtime rid) F (AdmitWorkflowTask ts (step_task_cmd sp u run node a inp)) (\<lambda>t d. left_pending rid (n_ID node) d)"
    for ts a inp
    using tells_AdmitWorkflowTask [of F rid "step_task_cmd sp u run node a inp" ts] F id by (simp add: step_task_cmd_def)
  have st: "stable (runtime rid) F \<Longrightarrow> stable (runtime rid) (\<lambda>d. F d \<and> left_pending rid (n_ID node) d)"
    using stable_left_pending F by blast
  show ?thesis
    unfolding createStepTask_def
    by (intro tells_cases rt.tells_throw rt.tells_bind_any [OF safe_stepAgent] rt.tells_bind_any [OF safe_resolveStepBindings]
        safe_nilP rt.tells_bind [OF admit st] rt.tells_ret) simp_all
qed

lemma safe_dispatch_node:
  assumes F: "\<And>d. F d \<Longrightarrow> good rid d \<and> may_start rid d (n_ID node)" and id: "CanonicalPublicID (n_ID node) = Some (n_ID node)"
  shows "safe (runtime rid) F (dispatch_node ws sp u run node steps)"
  unfolding dispatch_node_def
proof (intro rt.tells_bind_any [OF rt.tells_now])
  fix startedAt
  have ne: "n_ID node \<noteq> ''''" using Canonical_nonempty [OF id] .
  show "safe (runtime rid) F (bindP (tryE (createStepTask ws sp u run node steps)) (\<lambda>res. case res of
      Inl e \<Rightarrow> drain_after ((drain_input (r_ID run) (n_ID node) NodeRunStatusPending)
        \<lparr>bd_ErrorMessage := ptrError (ws_codec ws) e, bd_FailureClass := FailureAdmission,
         bd_StartedAt := Some startedAt, bd_EndedAt := Some startedAt\<rparr>) e
    | Inr (t, runID, input) \<Rightarrow>
        bindP (TransitionWorkflowNodeRun ((node_transition (n_ID node) NodeRunStatusPending NodeRunStatusRunning)
          \<lparr>tn_TaskID := Some (tk_ID t), tn_TaskRunID := Some runID, tn_ResolvedInput := Some input,
           tn_StartedAt := Some startedAt, tn_Attempt := Some 1,
           tn_DeadlineAt := Deadline startedAt (n_TimeoutSeconds node)\<rparr>)) (\<lambda>_. retP ())))" (is "safe _ _ (bindP _ ?k)")
  proof (rule rt.tells_bind [OF tells_tryE [OF tells_createStepTask [OF F ne]]])
    show "stable (runtime rid) (\<lambda>d. F d \<and> (\<forall>x. r = Inr x \<longrightarrow> left_pending rid (n_ID node) d))"
      if "stable (runtime rid) F" for r :: "err + Task \<times> string \<times> string"
      using stable_left_pending [OF _ that] F that by (cases r) auto
    show "safe (runtime rid) (\<lambda>d. F d \<and> (\<forall>x. r = Inr x \<longrightarrow> left_pending rid (n_ID node) d)) (?k r)" for r
      by (intro tells_cases safe_drain_after rt.tells_bind_any safe_TransitionWorkflowNodeRun rt.tells_ret)
        (use F id in \<open>auto simp: input_simps node_move_ok_def left_pending_def\<close>)
  qed simp
qed

lemma canonical_not_empty: "CanonicalPublicID p = Some p \<Longrightarrow> p \<noteq> ''''"
  by (rule Canonical_nonempty)

lemma safe_dispatchRetry:
  assumes F: "\<And>d. F d \<Longrightarrow> good rid d"
  shows "safe (runtime rid) F (dispatchRetry ws u run node)"
proof -
  have admit: "tells (runtime rid) F (case previous of None \<Rightarrow> throwP e
      | Some p \<Rightarrow> case ws_TaskService ws of None \<Rightarrow> nilP | Some ts \<Rightarrow> AdmitWorkflowRetryRun ts (wr p))
      (\<lambda>r d. CanonicalPublicID (tr_ID r) = Some (tr_ID r))" for previous e wr
    by (intro tells_cases rt.tells_throw safe_nilP tells_AdmitWorkflowRuns F)
  show ?thesis
    unfolding dispatchRetry_def Let_def
    by (intro rt.tells_bind_any [OF safe_stepTaskRun] rt.tells_bind_pure [OF tells_tryE [OF admit]]
        rt.tells_bind_any [OF rt.tells_now] rt.tells_bind_any tells_cases safe_drain_after safe_TransitionWorkflowNodeRun rt.tells_ret)
      (auto simp: input_simps node_move_ok_def dest: canonical_not_empty)
qed

lemma safe_openInputRequest:
  assumes F: "\<And>d. F d \<Longrightarrow> may_start rid d (n_ID node)" and id: "CanonicalPublicID (n_ID node) = Some (n_ID node)"
  shows "safe (runtime rid) F (openInputRequest ws run node steps now)"
  unfolding openInputRequest_def
  by (intro rt.tells_bind_any [OF tells_safe [OF tells_tryE [OF safe_resolveStepBindings]]] tells_cases safe_drain_after
      rt.tells_bind_any safe_OpenWorkflowRequest rt.tells_ret)
    (use F id in \<open>auto simp: input_simps\<close>)

lemma safe_applyAnswer:
  assumes F: "\<And>d. F d \<Longrightarrow> good rid d"
  shows "safe (runtime rid) F (applyAnswer ws run node req now)"
proof -
  have admit: "tells (runtime rid) F (case ws_TaskService ws of None \<Rightarrow> nilP | Some ts \<Rightarrow> AdmitWorkflowAnswerRun ts wa)
      (\<lambda>r d. CanonicalPublicID (tr_ID r) = Some (tr_ID r))" for wa
    by (intro tells_cases safe_nilP tells_AdmitWorkflowRuns F)
  have get: "safe (runtime rid) F (if \<not> ws_TaskRuns ws then nilP else GetTaskRun i)" for i
    by (intro tells_cases safe_nilP safe_reads)
  show ?thesis
    unfolding applyAnswer_def Let_def
    by (intro tells_cases rt.tells_throw rt.tells_bind_any [OF get] rt.tells_bind_pure [OF tells_tryE [OF admit]] rt.tells_bind_any
        safe_drain_after safe_TransitionWorkflowNodeRun rt.tells_ret)
      (auto simp: input_simps node_move_ok_def dest: canonical_not_empty)
qed

section \<open>Dispatch\<close>

definition unfinished :: "NodeRun \<Rightarrow> bool" where
  "unfinished n \<longleftrightarrow> n_Status n = NodeRunStatusRetryWait \<or> n_Status n = NodeRunStatusWaiting \<or> n_Status n = NodeRunStatusPending"

text \<open>What the loop's result says about the nodes it went over.\<close>

definition loop_sound :: "NodeRun list \<Rightarrow> dispatch_state \<Rightarrow> dispatch_state \<Rightarrow> bool" where
  "loop_sound rest st st' \<longleftrightarrow>
     (\<not> ds_pendingRemains st' \<longrightarrow> \<not> ds_pendingRemains st \<and> (\<forall>n\<in>set rest. \<not> unfinished n)) \<and> ds_running st \<le> ds_running st'"

lemma loop_sound_Cons:
  "loop_sound rest st1 st2 \<Longrightarrow> (\<not> ds_pendingRemains st1 \<Longrightarrow> \<not> ds_pendingRemains st \<and> \<not> unfinished n) \<Longrightarrow>
     ds_running st \<le> ds_running st1 \<Longrightarrow> loop_sound (n # rest) st st2"
  by (auto simp: loop_sound_def)

lemma tells_dispatch_loop:
  assumes "\<And>d. F d \<Longrightarrow> good rid d \<and> read_steps rid x steps d" "set rest \<subseteq> set steps"
    and id: "\<And>n. n \<in> set steps \<Longrightarrow> CanonicalPublicID (n_ID n) = Some (n_ID n)"
  shows "tells (runtime rid) F (dispatch_loop ws u run steps limit now rest st) (\<lambda>st' d. loop_sound rest st st')"
  using assms(2)
proof (induction rest arbitrary: st)
  case Nil
  then show ?case by (auto intro!: rt.tells_ret simp: loop_sound_def)
next
  case (Cons node rest)
  let ?loop = "dispatch_loop ws u run steps limit now rest"
  have cont: "tells (runtime rid) F (?loop st1) (\<lambda>st' d. loop_sound (node # rest) st st')"
    if "\<not> ds_pendingRemains st1 \<Longrightarrow> \<not> ds_pendingRemains st \<and> \<not> unfinished node" "ds_running st \<le> ds_running st1" for st1
    by (rule tells_weaken [OF Cons.IH]) (use that Cons.prems in \<open>auto intro: loop_sound_Cons\<close>)
  have start: "may_start rid d (n_ID node)" if "F d" "nodeReady node (status_by_id steps)" for d
    using ready_may_start [OF _ _ that(2)] assms(1) [OF that(1)] Cons.prems by auto
  have "tells (runtime rid) F (retP (st\<lparr>ds_pendingRemains := True, ds_active := True\<rparr>)) (\<lambda>st' d. loop_sound (node # rest) st st')"
    by (rule rt.tells_ret) (simp add: loop_sound_def)
  moreover have "safe (runtime rid) F (dispatchRetry ws u run node)"
    by (rule safe_dispatchRetry) (use assms(1) in blast)
  moreover have "safe (runtime rid) F (openInputRequest ws run node steps now)" if "nodeReady node (status_by_id steps)"
    by (rule safe_openInputRequest) (use that start id Cons.prems in auto)
  moreover have "safe (runtime rid) F (dispatch_node ws sp u run node steps)" if "nodeReady node (status_by_id steps)" for sp
    by (rule safe_dispatch_node) (use that start assms(1) id Cons.prems in auto)
  ultimately show ?case
    unfolding dispatch_loop.simps Let_def
    by (intro tells_cases cont rt.tells_bind_any [OF safe_space_of_run] rt.tells_bind_any) (auto simp: unfinished_def)
qed

lemma status_cases:
  "\<not> unfinished n \<Longrightarrow> n_Status n \<noteq> NodeRunStatusRunning \<Longrightarrow> NodeRunStatusTerminal (n_Status n)"
  by (cases "n_Status n") (auto simp: unfinished_def)

lemma safe_dispatchReadyNodes:
  assumes F: "\<And>d. F d \<Longrightarrow> good rid d \<and> read_steps rid x steps d"
    and id: "\<And>n. n \<in> set steps \<Longrightarrow> CanonicalPublicID (n_ID n) = Some (n_ID n)" and x: "CanonicalPublicID (r_ID run) = Some x"
  shows "safe (runtime rid) F (dispatchReadyNodes ws sp u run steps limit now)"
  unfolding dispatchReadyNodes_def
proof (rule rt.tells_bind_pure [OF tells_dispatch_loop [OF F subset_refl id]])
  let ?running = "filter (\<lambda>n. n_Status n = NodeRunStatusRunning) steps"
  fix st' assume st': "loop_sound steps \<lparr>ds_spaceID = sp, ds_dispatched = 0, ds_running = int (length ?running),
      ds_active = False, ds_pendingRemains = False, ds_retryAt = None\<rparr> st'"
  have fin: "\<forall>n\<in>set steps. NodeRunStatusTerminal (n_Status n)" if "\<not> (ds_pendingRemains st' \<or> ds_running st' > 0)"
  proof -
    have "int (length ?running) \<le> ds_running st'" "\<forall>n\<in>set steps. \<not> unfinished n"
      using st' that by (auto simp: loop_sound_def)
    moreover then have "length ?running = 0" using that by linarith
    ultimately show ?thesis using status_cases by (auto simp: filter_empty_conv)
  qed
  show "safe (runtime rid) F (let active = (ds_active st' \<or> ds_running st' > 0)
     in if ds_pendingRemains st' \<or> ds_running st' > 0 then retP (ds_dispatched st', active, ds_retryAt st')
        else bindP now_op (\<lambda>endedAt. bindP (resolveRunResult ws run steps) (\<lambda>result.
          bindP (TransitionWorkflowRun ((run_transition (r_ID run) RunStatusRunning RunStatusSucceeded)
                   \<lparr>ti_EndedAt := Some endedAt, ti_Result := result\<rparr>)) (\<lambda>_.
          retP (ds_dispatched st', False, None)))))"
    by (intro tells_cases rt.tells_ret rt.tells_bind_any rt.tells_now safe_resolveRunResult safe_TransitionWorkflowRun)
      (use x F fin in \<open>auto simp: input_simps intro: finished_for_good\<close>)
qed

section \<open>Requests, drain and the pass\<close>

lemma safe_fold_waiting:
  assumes "\<And>d. F d \<Longrightarrow> good rid d"
  shows "safe (runtime rid) F (fold_waiting ws run now reqs nodes wake)"
proof (induction nodes arbitrary: wake)
  case Nil
  then show ?case by (auto intro!: rt.tells_ret)
next
  case (Cons node rest)
  have settle: "safe (runtime rid) F (settle_expired req now)" for req
    unfolding settle_expired_def by (intro tells_cases rt.tells_bind_any safe_ResolveWorkflowRequest safe_reads rt.tells_ret) simp
  have refuse: "safe (runtime rid) F (case p of (message, class) \<Rightarrow> bindP (BeginWorkflowRunDrain
      ((drain_input (r_ID run) (n_ID node) NodeRunStatusWaiting)
         \<lparr>bd_ErrorMessage := Some message, bd_FailureClass := class, bd_EndedAt := Some now\<rparr>)) (\<lambda>_. retP (None, True)))" for p
    by (intro tells_cases rt.tells_bind_any safe_BeginWorkflowRunDrain rt.tells_ret) (simp_all add: input_simps)
  have "safe (runtime rid) F (case rq_Status req of
      RequestStatusPending \<Rightarrow> fold_waiting ws run now reqs rest (earliest wake (rq_ExpiresAt req))
    | RequestStatusAnswered \<Rightarrow> bindP (applyAnswer ws run node req now) (\<lambda>_. fold_waiting ws run now reqs rest wake)
    | RequestStatusCanceled \<Rightarrow> fold_waiting ws run now reqs rest wake
    | _ \<Rightarrow> (let (message, class) = refusal_message (ws_codec ws) req in bindP (BeginWorkflowRunDrain
      ((drain_input (r_ID run) (n_ID node) NodeRunStatusWaiting)
         \<lparr>bd_ErrorMessage := Some message, bd_FailureClass := class, bd_EndedAt := Some now\<rparr>)) (\<lambda>_. retP (None, True))))" for req
    by (cases "rq_Status req")
      (simp_all only: RequestStatus.case Let_def Cons.IH refuse rt.tells_bind_any [OF safe_applyAnswer [OF assms] Cons.IH])
  then show ?case
    unfolding fold_waiting.simps
    by (intro tells_cases rt.tells_throw Cons.IH rt.tells_bind_any [OF settle] rt.tells_ret) simp_all
qed

lemma safe_foldWaitingNodes:
  "(\<And>d. F d \<Longrightarrow> good rid d) \<Longrightarrow> safe (runtime rid) F (foldWaitingNodes ws run steps now)"
  unfolding foldWaitingNodes_def by (intro tells_cases rt.tells_bind_any safe_reads safe_fold_waiting rt.tells_ret) auto

lemma safe_fold_running: "safe (runtime rid) F (fold_running ws run now nodes active)"
proof (induction nodes arbitrary: active)
  case Nil
  then show ?case by (auto intro!: rt.tells_ret)
next
  case (Cons node rest)
  then show ?case
    unfolding fold_running.simps
    by (intro tells_cases rt.tells_bind_any safe_stepTaskRun safe_overdue_attempt safe_folds rt.tells_ret) simp_all
qed

text \<open>A run that was stopping when it was read is not running now.\<close>

definition run_seen :: "string \<Rightarrow> Run \<Rightarrow> db \<Rightarrow> bool" where
  "run_seen rid run d \<longleftrightarrow> (r_ID run = rid \<longrightarrow> (\<exists>r. db_runs d rid = Some r \<and> wrun_evolves run r))"

lemma stable_run_seen:
  assumes "\<And>d. F d \<Longrightarrow> good rid d" "stable (runtime rid) F"
  shows "stable (runtime rid) (\<lambda>d. F d \<and> run_seen rid run d)"
proof (rule stable_fact [OF _ assms])
  show "run_seen rid run d'" if "wf_evolves rid d d'" "run_seen rid run d" for d d'
    using that wrun_evolves_trans unfolding run_seen_def wf_evolves_def by metis
qed

lemma stopping_not_running:
  "ValidRunStatusTransition\<^sup>*\<^sup>* a b \<Longrightarrow> a \<noteq> RunStatusRunning \<Longrightarrow> a \<noteq> RunStatusPending \<Longrightarrow>
     b \<noteq> RunStatusRunning \<and> b \<noteq> RunStatusPending"
  by (induction rule: rtranclp_induct) (auto elim: ValidRunStatusTransition.elims)

lemma tells_GetWorkflowRun:
  assumes "\<And>d. F d \<Longrightarrow> good rid d"
  shows "tells (runtime rid) F (GetWorkflowRun i)
    (\<lambda>f d. \<forall>run. f = Some run \<longrightarrow> CanonicalPublicID i = Some (r_ID run) \<and> CanonicalPublicID (r_ID run) = Some (r_ID run)
       \<and> run_seen rid run d)"
  unfolding GetWorkflowRun_def
proof (rule rt.tells_get_by_id)
  fix d j run assume d: "F d" and j: "CanonicalPublicID i = Some j" and r: "db_runs d j = Some run"
  have "r_ID run = j" using assms [OF d] r by (auto simp: good_def wf_inv_def wf_keyed_def)
  then show "CanonicalPublicID i = Some (r_ID run) \<and> CanonicalPublicID (r_ID run) = Some (r_ID run) \<and> run_seen rid run d"
    using j r CanonicalPublicID_fixed [OF j] by (auto simp: run_seen_def)
qed

lemma safe_drain_nodes:
  assumes F: "\<And>d. F d \<Longrightarrow> good rid d \<and> read_steps rid x nodes d"
    and stop: "\<And>d r. F d \<Longrightarrow> x = rid \<Longrightarrow> db_runs d rid = Some r \<Longrightarrow> r_Status r \<noteq> RunStatusRunning"
    and rest: "set rest \<subseteq> set nodes"
  shows "safe (runtime rid) F (drain_nodes ws now rest active)"
  using rest
proof (induction rest arbitrary: active)
  case Nil
  then show ?case by (auto intro!: rt.tells_ret)
next
  case (Cons node rest)
  have own: "n_WorkflowRunID node = x \<and> seen rid node d" if "F d" for d
    using F [OF that] Cons.prems by (auto simp: read_steps_def)
  have ok: "node_move_ok rid d i ((node_transition (n_ID node) NodeRunStatusRunning (drained_status r))
      \<lparr>tn_Output := a, tn_Structured := b, tn_ErrorMessage := c, tn_EndedAt := e\<rparr>)"
    if d: "F d" and i: "CanonicalPublicID (n_ID node) = Some i" for d i r a b c e
  proof -
    have "x = rid" if "node_of rid d i n" for n
      using own [OF d] i that by (auto simp: seen_def split: if_splits)
    then have "r_Status s \<noteq> RunStatusRunning" if "node_of rid d i n" "db_runs d rid = Some s" for n s
      using stop [OF d] that by blast
    then show ?thesis by (auto simp: node_move_ok_def input_simps drained_status_def split: TaskRunStatus.splits)
  qed
  have "safe (runtime rid) F (TransitionWorkflowNodeRun ((node_transition (n_ID node) NodeRunStatusRunning (drained_status r))
      \<lparr>tn_Output := a, tn_Structured := b, tn_ErrorMessage := c, tn_EndedAt := e\<rparr>))" for r a b c e
    by (rule safe_TransitionWorkflowNodeRun) (use ok in \<open>simp add: input_simps\<close>)
  then show ?case
    unfolding drain_nodes.simps
    by (intro tells_cases rt.tells_throw rt.tells_bind_any safe_RequestRunCancel safe_stepTaskRun Cons.IH)
      (use Cons.prems in auto)
qed

lemma safe_drainRun:
  assumes F: "\<And>d. F d \<Longrightarrow> good rid d \<and> run_seen rid run d \<and> read_steps rid (r_ID run) nodes d"
    and st: "r_Status run = RunStatusFailing \<or> r_Status run = RunStatusCanceling"
  shows "safe (runtime rid) F (drainRun ws run nodes now)"
proof -
  have "r_Status r \<noteq> RunStatusRunning" if "F d" "r_ID run = rid" "db_runs d rid = Some r" for d r
    using F [OF that(1)] that(2,3) st stopping_not_running [of "r_Status run" "r_Status r"]
    by (auto simp: run_seen_def wrun_evolves_def)
  then have "safe (runtime rid) F (drain_nodes ws now nodes False)"
    using F by (intro safe_drain_nodes [where x = "r_ID run" and nodes = nodes]) auto
  then show ?thesis
    unfolding drainRun_def
    by (intro rt.tells_bind_any tells_cases rt.tells_ret safe_TransitionWorkflowRun) (use st in \<open>auto simp: input_simps\<close>)
qed

lemma read_steps_ids: "read_steps rid x steps d \<Longrightarrow> n \<in> set steps \<Longrightarrow> CanonicalPublicID (n_ID n) = Some (n_ID n)"
  by (auto simp: read_steps_def seen_def)

text \<open>A fact about the result that the context implies wherever it holds may be assumed.\<close>

lemma tells_context: assumes "\<And>d. F d \<Longrightarrow> b" "b \<Longrightarrow> tells R F m Q" shows "tells R F m Q"
proof (cases b)
  case False
  then show ?thesis using assms(1) by (auto simp: tells_def obeys_def runs_def holds_def)
qed (rule assms(2))

lemma safe_finish_pass:
  assumes F: "\<And>d. F d \<Longrightarrow> good rid d" and x: "CanonicalPublicID wid = Some (r_ID run)" "CanonicalPublicID (r_ID run) = Some (r_ID run)"
  shows "safe (runtime rid) F (finish_pass ws wid run active wake now)"
  unfolding finish_pass_def
proof (rule rt.tells_bind [OF tells_ListWorkflowNodeRuns [OF F x(1)] stable_read_steps [OF F]])
  fix steps
  let ?F = "\<lambda>d. F d \<and> read_steps rid (r_ID run) steps d"
  have "safe (runtime rid) ?F (dispatchReadyNodes ws sp u run steps limit now)" for sp u limit
  proof (rule tells_context [where b = "\<forall>n\<in>set steps. CanonicalPublicID (n_ID n) = Some (n_ID n)"])
    show "\<forall>n\<in>set steps. CanonicalPublicID (n_ID n) = Some (n_ID n)" if "?F d" for d
      using that read_steps_ids by blast
  qed (rule safe_dispatchReadyNodes [where x = "r_ID run"], use F x in auto)
  then show "safe (runtime rid) ?F (bindP (runDefinition ws run) (\<lambda>def.
      bindP (dispatchReadyNodes ws '''' (r_CreatedBy run) run steps (MaxParallelNodes def) now) (\<lambda>out.
      retP (next_pass run steps active out wake now))))"
    by (intro rt.tells_bind_any safe_runDefinition rt.tells_ret) simp_all
qed

lemma safe_stop_for_deadline: "safe (runtime rid) F (stop_for_deadline ws run)"
  unfolding stop_for_deadline_def by (rule safe_StopWorkflowRun)

lemma safe_pass_body:
  assumes F: "\<And>d. F d \<Longrightarrow> good rid d \<and> run_seen rid run d"
    and x: "CanonicalPublicID wid = Some (r_ID run)" "CanonicalPublicID (r_ID run) = Some (r_ID run)"
    and again: "\<And>G. (\<And>d. G d \<Longrightarrow> good rid d) \<Longrightarrow> safe (runtime rid) G m"
  shows "safe (runtime rid) F (bindP (ListWorkflowNodeRuns wid) (\<lambda>steps.
     if r_Status run = RunStatusFailing \<or> r_Status run = RunStatusCanceling then drainRun ws run steps now
     else if passed now (r_DeadlineAt run) then bindP (stop_for_deadline ws run) (\<lambda>_. m)
     else bindP (fold_running ws run now steps False) (\<lambda>(active, again).
       if again then m
       else bindP (foldWaitingNodes ws run steps now) (\<lambda>(requestWake, stopped).
         if stopped then m else finish_pass ws wid run active requestWake now))))"
proof (rule rt.tells_bind [OF tells_ListWorkflowNodeRuns stable_read_steps])
  show "good rid d" if "F d" for d using F [OF that] by simp
  then show "good rid d" if "F d" for d using that .
  fix steps
  let ?F = "\<lambda>d. F d \<and> read_steps rid (r_ID run) steps d"
  have G: "\<And>d. ?F d \<Longrightarrow> good rid d" using F by blast
  show "safe (runtime rid) ?F (if r_Status run = RunStatusFailing \<or> r_Status run = RunStatusCanceling then drainRun ws run steps now
     else if passed now (r_DeadlineAt run) then bindP (stop_for_deadline ws run) (\<lambda>_. m)
     else bindP (fold_running ws run now steps False) (\<lambda>(active, again).
       if again then m
       else bindP (foldWaitingNodes ws run steps now) (\<lambda>(requestWake, stopped).
         if stopped then m else finish_pass ws wid run active requestWake now)))"
    by (intro tells_cases safe_drainRun rt.tells_bind_any safe_stop_for_deadline again [OF G] safe_fold_running
        safe_foldWaitingNodes [OF G] safe_finish_pass [OF G x]) (use F in auto)
qed (rule x)

lemma stable_pure: "stable R (\<lambda>d. F d \<and> P d) \<Longrightarrow> stable R (\<lambda>d. F d \<and> c \<and> P d)"
proof (cases c)
  case False
  then show ?thesis unfolding stable_def by blast
qed simp

lemma safe_reconcilePass:
  "(\<And>d. F d \<Longrightarrow> good rid d) \<Longrightarrow> safe (runtime rid) F (reconcilePass fuel ws wid now)"
proof (induction fuel arbitrary: F)
  case 0
  then show ?case by (simp add: rt.tells_throw)
next
  case (Suc fuel)
  note F = Suc.prems
  show ?case
    unfolding reconcilePass.simps
  proof (rule rt.tells_bind [OF tells_GetWorkflowRun [OF F]])
    fix found
    let ?Q = "\<lambda>d. \<forall>run. found = Some run \<longrightarrow> CanonicalPublicID wid = Some (r_ID run)
      \<and> CanonicalPublicID (r_ID run) = Some (r_ID run) \<and> run_seen rid run d"
    show "stable (runtime rid) (\<lambda>d. F d \<and> ?Q d)" if "stable (runtime rid) F"
    proof (cases found)
      case (Some run)
      then show ?thesis
        using stable_pure [OF stable_run_seen [OF F that, where run = run],
            of "CanonicalPublicID wid = Some (r_ID run) \<and> CanonicalPublicID (r_ID run) = Some (r_ID run)"]
        by (simp add: conj_assoc)
    qed (simp add: that)
    show "safe (runtime rid) (\<lambda>d. F d \<and> ?Q d) (case found of None \<Rightarrow> retP None | Some run \<Rightarrow>
         if RunStatusTerminal (r_Status run) then retP None
         else bindP (ListWorkflowNodeRuns wid) (\<lambda>steps.
           if r_Status run = RunStatusFailing \<or> r_Status run = RunStatusCanceling then drainRun ws run steps now
           else if passed now (r_DeadlineAt run)
           then bindP (stop_for_deadline ws run) (\<lambda>_. reconcilePass fuel ws wid now)
           else bindP (fold_running ws run now steps False) (\<lambda>(active, again).
             if again then reconcilePass fuel ws wid now
             else bindP (foldWaitingNodes ws run steps now) (\<lambda>(requestWake, stopped).
               if stopped then reconcilePass fuel ws wid now
               else finish_pass ws wid run active requestWake now))))"
    proof (intro tells_cases rt.tells_ret)
      fix run assume found: "found = Some run"
      show "safe (runtime rid) (\<lambda>d. F d \<and> ?Q d) (bindP (ListWorkflowNodeRuns wid) (\<lambda>steps.
           if r_Status run = RunStatusFailing \<or> r_Status run = RunStatusCanceling then drainRun ws run steps now
           else if passed now (r_DeadlineAt run)
           then bindP (stop_for_deadline ws run) (\<lambda>_. reconcilePass fuel ws wid now)
           else bindP (fold_running ws run now steps False) (\<lambda>(active, again).
             if again then reconcilePass fuel ws wid now
             else bindP (foldWaitingNodes ws run steps now) (\<lambda>(requestWake, stopped).
               if stopped then reconcilePass fuel ws wid now
               else finish_pass ws wid run active requestWake now))))"
        by (rule tells_context [where b = "CanonicalPublicID wid = Some (r_ID run) \<and> CanonicalPublicID (r_ID run) = Some (r_ID run)"])
          (use found F Suc.IH in \<open>auto intro!: safe_pass_body\<close>)
    qed simp_all
  qed
qed

lemma safe_Reconcile: assumes "\<And>d. F d \<Longrightarrow> good rid d" shows "safe (runtime rid) F (Reconcile ws wid)"
  unfolding Reconcile_def
  by (intro tells_cases rt.tells_bind_any safe_basic safe_leases tells_safe [OF tells_tryE [OF safe_reconcilePass]]
      tells_safe [OF tells_tryE [OF safe_leases(3)]] assms rt.tells_ret) simp_all

lemma safe_HandleTaskRunTerminal:
  assumes "\<And>d. F d \<Longrightarrow> good rid d" shows "safe (runtime rid) F (HandleTaskRunTerminal ws i j)"
  unfolding HandleTaskRunTerminal_def
  by (intro tells_cases rt.tells_bind_any safe_basic safe_Reconcile assms rt.tells_ret) simp_all

end
