(* ===== verification/Runtime_Safety.thy ===== *)
theory Runtime_Safety
  imports Runtime_Services
begin

text \<open>
  What holds in every database the servers can reach. A \<open>call\<close> is an operation of the task service, of the
  workflow service, of a worker or of a sweep; \<open>reaches\<close> is any sequence of calls, each with arbitrary
  faults and with transactions of other processes that obey \<open>runtime rid\<close> between its own. The properties
  are about one run \<open>rid\<close>, taken up after its nodes were created (\<open>fresh_run\<close>).
\<close>

section \<open>The rest of the workflow service\<close>

lemma safe_svc_GetWorkflow: "safe (runtime rid) F (svc_GetWorkflow ws sp i)"
  unfolding svc_GetWorkflow_def by (intro rt.tells_bind_any tells_cases safe_basic rt.tells_ret) simp_all

lemma safe_resolveDefinitionAgents: "safe (runtime rid) F (resolveDefinitionAgents ws sp def)"
proof -
  have "safe (runtime rid) F (resolve_agents sp ns ags)" for ns ags
    by (induction ns arbitrary: ags) (auto intro!: rt.tells_ret rt.tells_bind_any tells_cases safe_basic simp: Let_def)
  moreover have "safe (runtime rid) F (check_pins ns)" for ns
    by (induction ns) (auto intro!: rt.tells_ret rt.tells_bind_any tells_cases safe_basic simp: Let_def)
  ultimately show ?thesis
    unfolding resolveDefinitionAgents_def by (intro tells_cases rt.tells_bind_any rt.tells_throw rt.tells_ret) simp_all
qed

lemma safe_parseAndValidateDefinition: "safe (runtime rid) F (parseAndValidateDefinition ws sp raw)"
  unfolding parseAndValidateDefinition_def
  by (intro rt.tells_bind_any rt.tells_lift safe_resolveDefinitionAgents rt.tells_ret) simp_all

lemma safe_svc_CreateWorkflow: "safe (runtime rid) F (svc_CreateWorkflow ws sp u n ds df)"
  unfolding svc_CreateWorkflow_def
  by (intro rt.tells_bind_any safe_guard safe_parseAndValidateDefinition safe_CreateWorkflow)

lemma safe_update_definition: "safe (runtime rid) F (update_definition ws cmd)"
  unfolding update_definition_def
  by (intro rt.tells_bind_any tells_cases rt.tells_ret safe_svc_GetWorkflow safe_parseAndValidateDefinition) simp_all

lemma safe_svc_UpdateWorkflow: "safe (runtime rid) F (svc_UpdateWorkflow ws cmd)"
  unfolding svc_UpdateWorkflow_def
  by (intro rt.tells_bind_any safe_guard safe_update_definition safe_UpdateWorkflow safe_svc_GetWorkflow tells_cases
      rt.tells_throw rt.tells_ret) simp_all

lemma safe_RestoreWorkflowRevision: "safe (runtime rid) F (RestoreWorkflowRevision ws sp u i n)"
  unfolding RestoreWorkflowRevision_def
  by (intro rt.tells_bind_any safe_guard safe_svc_GetWorkflow safe_reads tells_cases rt.tells_throw safe_svc_UpdateWorkflow)

lemma safe_admit_run: "safe (runtime rid) F (admit_run ws cmd)"
proof -
  have "safe (runtime rid) F (validateIssueForRun ws sp wi i)" for sp wi i
    unfolding validateIssueForRun_def GetIssue_def
    by (intro tells_cases rt.tells_ret rt.tells_throw rt.tells_bind_any safe_guard safe_get_by_id) simp_all
  then show ?thesis
    unfolding admit_run_def
    by (intro rt.tells_bind_any safe_guard safe_svc_GetWorkflow safe_parseAndValidateDefinition tells_cases rt.tells_lift
        rt.tells_ret) simp_all
qed

lemma safe_node_run_inputs: "safe (runtime rid) F (node_run_inputs order ags ns)"
proof (induction ns)
  case Nil
  then show ?case by (simp add: rt.tells_ret)
next
  case (Cons n ns)
  have "safe (runtime rid) F (resolveNodeAgentSnapshot n ags)"
    unfolding resolveNodeAgentSnapshot_def
    by (intro tells_cases rt.tells_bind_any safe_agents rt.tells_throw rt.tells_ret) simp_all
  then show ?case
    unfolding node_run_inputs.simps by (intro rt.tells_bind_any tells_cases rt.tells_ret Cons.IH) simp_all
qed

lemma safe_StartWorkflowRun:
  assumes "\<And>d. F d \<Longrightarrow> good rid d"
  shows "safe (runtime rid) F (StartWorkflowRun ws cmd)"
  unfolding StartWorkflowRun_def
  by (intro rt.tells_bind_any [OF safe_admit_run] rt.tells_bind_any [OF rt.tells_now]
      rt.tells_bind_pure [OF tells_CreateWorkflowRun] tells_cases rt.tells_throw rt.tells_bind_any [OF safe_node_run_inputs]
      rt.tells_bind_any [OF safe_CreateWorkflowNodeRuns] rt.tells_bind_any [OF safe_Reconcile] rt.tells_bind_any safe_reads
      assms rt.tells_ret) simp_all

lemma safe_runInSpace: "safe (runtime rid) F (runInSpace ws sp i)"
  unfolding runInSpace_def by (intro rt.tells_bind_any tells_cases safe_basic safe_svc_GetWorkflow rt.tells_ret) simp_all

lemma safe_RespondToRequest:
  assumes "\<And>d. F d \<Longrightarrow> good rid d"
  shows "safe (runtime rid) F (RespondToRequest ws cmd)"
  unfolding RespondToRequest_def
  by (intro rt.tells_bind_any tells_cases safe_basic tells_mapErr safe_runInSpace rt.tells_lift safe_ResolveWorkflowRequest
      safe_Reconcile assms) simp_all

lemma safe_CancelWorkflowRun:
  assumes "\<And>d. F d \<Longrightarrow> good rid d"
  shows "safe (runtime rid) F (CancelWorkflowRun ws sp i)"
  unfolding CancelWorkflowRun_def
  by (intro rt.tells_bind_any tells_cases safe_basic safe_runInSpace safe_StopWorkflowRun safe_nilP safe_Reconcile assms
      rt.tells_ret) simp_all

lemma stopped_status:
  "ValidRunStatusTransition\<^sup>*\<^sup>* a b \<Longrightarrow> a \<notin> {RunStatusRunning, RunStatusPending, RunStatusSucceeded} \<Longrightarrow>
     b \<notin> {RunStatusRunning, RunStatusPending, RunStatusSucceeded}"
  by (induction rule: rtranclp_induct) (auto elim: ValidRunStatusTransition.elims)

section \<open>Calls\<close>

datatype call =
  CallCreateWorkflow string string string string string
| CallUpdateWorkflow UpdateWorkflowCmd
| CallRestoreRevision string string string int
| CallStartRun StartWorkflowRunCmd
| CallReconcile string
| CallTaskRunTerminal string string
| CallRespond RespondToRequestCmd
| CallCancelRun string string
| CallSettleReport string ReportStatus ReportStatus
| CallRenewLease string string time
| CallCreateTask CreateTaskCmd
| CallCreateRun CreateRunCmd
| CallRetryRun string string
| CallCancelTaskRun string string string time
| CallTransitionTaskRun TransitionTaskRunInput
| CallRecordAgentRevision string int
| CallRecordInstructionsRevision string int
| CallRecordPluginPins string string
| CallRecordSandboxTiers string string string
| CallRecordFailureCause string string
| CallMarkSeen string time
| CallWorkerInfo string string "string option" "time option"
| CallClearTrace string

definition finishP :: "'a serv \<Rightarrow> unit serv" where
  "finishP m = bindP m (\<lambda>_. retP ())"

fun perform :: "TaskService \<Rightarrow> WorkflowService \<Rightarrow> call \<Rightarrow> unit serv" where
  "perform ts ws (CallCreateWorkflow sp u n ds df) = finishP (svc_CreateWorkflow ws sp u n ds df)"
| "perform ts ws (CallUpdateWorkflow cmd) = finishP (svc_UpdateWorkflow ws cmd)"
| "perform ts ws (CallRestoreRevision sp u i n) = finishP (RestoreWorkflowRevision ws sp u i n)"
| "perform ts ws (CallStartRun cmd) = finishP (StartWorkflowRun ws cmd)"
| "perform ts ws (CallReconcile i) = Reconcile ws i"
| "perform ts ws (CallTaskRunTerminal r t) = HandleTaskRunTerminal ws r t"
| "perform ts ws (CallRespond cmd) = finishP (RespondToRequest ws cmd)"
| "perform ts ws (CallCancelRun sp i) = finishP (CancelWorkflowRun ws sp i)"
| "perform ts ws (CallSettleReport i a b) = finishP (SettleWorkflowReport i a b)"
| "perform ts ws (CallRenewLease i owner t) = finishP (RenewWorkflowRunLease i owner t)"
| "perform ts ws (CallCreateTask cmd) = finishP (svc_CreateTask ts cmd)"
| "perform ts ws (CallCreateRun cmd) = finishP (CreateRun ts cmd)"
| "perform ts ws (CallRetryRun u i) = finishP (RetryRun ts u i)"
| "perform ts ws (CallCancelTaskRun i u reason t) = finishP (RequestRunCancel ts i u reason t)"
| "perform ts ws (CallTransitionTaskRun tt) = finishP (TransitionTaskRun tt)"
| "perform ts ws (CallRecordAgentRevision i n) = RecordTaskRunAgentRevision i n"
| "perform ts ws (CallRecordInstructionsRevision i n) = RecordTaskRunSpaceAgentInstructionsRevision i n"
| "perform ts ws (CallRecordPluginPins i p) = RecordTaskRunPluginPins i p"
| "perform ts ws (CallRecordSandboxTiers i n f) = RecordTaskRunSandboxTiers i n f"
| "perform ts ws (CallRecordFailureCause i c) = RecordTaskRunFailureCause i c"
| "perform ts ws (CallMarkSeen i t) = MarkTaskRunSeen i t"
| "perform ts ws (CallWorkerInfo i w n t) = UpdateTaskRunWorkerInfo i w n t"
| "perform ts ws (CallClearTrace i) = ClearTaskRunTracePath i"

lemma safe_finishP: "safe (runtime rid) F m \<Longrightarrow> safe (runtime rid) F (finishP m)"
  unfolding finishP_def by (intro rt.tells_bind_any rt.tells_ret) simp_all

lemmas safe_calls =
  safe_svc_CreateWorkflow safe_svc_UpdateWorkflow safe_RestoreWorkflowRevision safe_leases safe_svc_CreateTask
  safe_RequestRunCancel safe_TransitionTaskRun safe_records safe_ClearTaskRunTracePath

lemma safe_perform: "safe (runtime rid) (good rid) (perform ts ws c)"
  by (cases c)
    (simp_all add: safe_finishP safe_calls safe_StartWorkflowRun safe_Reconcile safe_HandleTaskRunTerminal safe_RespondToRequest
      safe_CancelWorkflowRun safe_CreateRun safe_RetryRun)

section \<open>Reachable databases\<close>

text \<open>Each call may be made by a different server, with its own configuration.\<close>

inductive reaches :: "string \<Rightarrow> db \<Rightarrow> db \<Rightarrow> bool" for rid d0 where
  reaches_start: "reaches rid d0 d0"
| reaches_call: "reaches rid d0 (sy_db s) \<Longrightarrow> env_ok (runtime rid) (sy_world s) \<Longrightarrow>
    reaches rid d0 (sy_db (snd (perform ts ws c s)))"

lemma perform_runtime:
  assumes "env_ok (runtime rid) (sy_world s)" "good rid (sy_db s)"
  shows "runtime rid (sy_db s) (sy_db (snd (perform ts ws c s)))"
  using obeys_db(1) [OF tells_obeys [OF safe_perform stable_good] assms] .

lemma reaches_runtime: "reaches rid d0 d \<Longrightarrow> good rid d0 \<Longrightarrow> runtime rid d0 d"
proof (induction rule: reaches.induct)
  case reaches_start
  show ?case by (rule rt.db_refl)
next
  case (reaches_call s ts ws c)
  then have "good rid (sy_db s)" using runtime_good by blast
  then show ?case using reaches_call perform_runtime rt.db_trans by blast
qed

lemma reaches_trans: "reaches rid b c \<Longrightarrow> reaches rid a b \<Longrightarrow> reaches rid a c"
  by (induction rule: reaches.induct) (auto intro: reaches.intros)

definition fresh_run :: "string \<Rightarrow> db \<Rightarrow> bool" where
  "fresh_run rid d \<longleftrightarrow>
     task_inv d \<and> wf_keyed d \<and> nodes_distinct rid d
     \<and> (\<exists>r. db_runs d rid = Some r \<and> r_Status r = RunStatusRunning)
     \<and> (\<forall>i n. node_of rid d i n \<longrightarrow> n_Status n = NodeRunStatusPending \<and> n_TaskID n = None)"

lemma fresh_good: "fresh_run rid d \<Longrightarrow> good rid d"
  by (auto simp: fresh_run_def good_def wf_inv_def started_needs_def node_links_def node_linked_def status_agrees_def)

lemma reaches_good: "reaches rid d0 d \<Longrightarrow> fresh_run rid d0 \<Longrightarrow> good rid d"
  using reaches_runtime fresh_good runtime_good by blast

lemma reaches_evolves:
  "reaches rid d0 d \<Longrightarrow> fresh_run rid d0 \<Longrightarrow> reaches rid d d' \<Longrightarrow> task_evolves d d' \<and> wf_evolves rid d d'"
  using reaches_good reaches_runtime runtime_good by blast

section \<open>Properties\<close>

text \<open>C1: Every operation of the services keeps the invariants of the task tables and of the run, and moves
  their rows only along the allowed evolution, for every interleaving with other processes that do
  the same, every pattern of lost calls, every clock and every random source.\<close>

theorem services_keep_invariants:
  assumes "env_ok (runtime rid) (sy_world s)" "task_inv (sy_db s)" "wf_inv rid (sy_db s)"
  shows "task_inv (sy_db (snd (perform ts ws c s))) \<and> wf_inv rid (sy_db (snd (perform ts ws c s)))
    \<and> task_evolves (sy_db s) (sy_db (snd (perform ts ws c s))) \<and> wf_evolves rid (sy_db s) (sy_db (snd (perform ts ws c s)))"
  using perform_runtime [OF assms(1)] runtime_good assms(2,3) unfolding good_def by blast

text \<open>C2: A node of a run starts only after every node it needs has succeeded: in every reachable database
  a node that is neither pending nor blocked has all its needs among the succeeded nodes of the run.\<close>

theorem node_starts_after_needs:
  assumes "fresh_run rid d0" "reaches rid d0 d" "node_of rid d i n"
    and "n_Status n \<noteq> NodeRunStatusPending" "n_Status n \<noteq> NodeRunStatusBlocked" "k \<in> set (n_Needs n)"
  shows "\<exists>j m. node_of rid d j m \<and> n_NodeID m = k \<and> n_Status m = NodeRunStatusSucceeded"
  using reaches_good [OF assms(2,1)] assms(3-6) by (auto simp: good_def wf_inv_def started_needs_def needs_met_def)

text \<open>C5: A run succeeds only when all its nodes have succeeded, and while it is running no node has failed
  or was canceled or blocked.\<close>

theorem succeeded_run_nodes_succeeded:
  assumes "fresh_run rid d0" "reaches rid d0 d" "db_runs d rid = Some r" "node_of rid d i n"
  shows "(r_Status r = RunStatusSucceeded \<longrightarrow> n_Status n = NodeRunStatusSucceeded)
    \<and> (r_Status r = RunStatusRunning \<longrightarrow>
         n_Status n \<noteq> NodeRunStatusFailed \<and> n_Status n \<noteq> NodeRunStatusCanceled \<and> n_Status n \<noteq> NodeRunStatusBlocked)"
proof -
  have "status_agrees rid d" using reaches_good [OF assms(2,1)] by (simp add: good_def wf_inv_def)
  then have "node_allowed (r_Status r) (n_Status n)" using status_agreesD(2) assms(3,4) by blast
  then show ?thesis by auto
qed

text \<open>C3: Stop intent is final. Once a run is failing, canceling, failed or canceled, then in every later
  database it is not running or succeeded, no node of it is pending or waits for a person, and no request of it is
  open; once it has ended it holds no lease and is not due again.\<close>

theorem stopped_run_stays_stopped:
  assumes "fresh_run rid d0" "reaches rid d0 d" "reaches rid d d'" "db_runs d rid = Some r" "db_runs d' rid = Some r'"
    and "r_Status r \<noteq> RunStatusRunning" "r_Status r \<noteq> RunStatusSucceeded"
  shows "r_Status r' \<noteq> RunStatusRunning \<and> r_Status r' \<noteq> RunStatusSucceeded
    \<and> (\<forall>i n. node_of rid d' i n \<longrightarrow> n_Status n \<noteq> NodeRunStatusPending \<and> n_Status n \<noteq> NodeRunStatusWaiting)
    \<and> (\<forall>i q. db_reqs d' i = Some q \<longrightarrow> rq_WorkflowRunID q = rid \<longrightarrow> rq_Status q \<noteq> RequestStatusPending)
    \<and> (RunStatusTerminal (r_Status r') \<longrightarrow> r_ReconcileOwner r' = None \<and> r_LeaseExpiresAt r' = None \<and> r_NextReconcileAt r' = None)"
proof -
  have g: "good rid d" "good rid d'"
    using reaches_good [OF assms(2,1)] reaches_runtime [OF assms(3)] runtime_good by blast+
  have ne: "r_Status r \<noteq> RunStatusPending" using status_agreesD(1) assms(4) g(1) by (auto simp: good_def wf_inv_def)
  have "wrun_evolves r r'"
    using reaches_evolves [OF assms(2,1,3)] assms(4,5) by (auto simp: wf_evolves_def)
  then have st: "r_Status r' \<noteq> RunStatusRunning" "r_Status r' \<noteq> RunStatusSucceeded"
    using stopped_status [of "r_Status r" "r_Status r'"] ne assms(6,7) by (auto simp: wrun_evolves_def)
  have ag: "status_agrees rid d'" using g(2) by (simp add: good_def wf_inv_def)
  have "node_allowed (r_Status r') (n_Status n)" if "node_of rid d' i n" for i n
    using status_agreesD(2) [OF ag assms(5) that] .
  moreover have "r_Status r' \<noteq> RunStatusPending" using status_agreesD(1) [OF ag assms(5)] .
  ultimately have "n_Status n \<noteq> NodeRunStatusPending \<and> n_Status n \<noteq> NodeRunStatusWaiting" if "node_of rid d' i n" for i n
    using st that by (cases "r_Status r'") auto
  then show ?thesis using ag st assms(5) by (auto simp: status_agrees_def)
qed

text \<open>C6: Outcomes are final. A finished run keeps its row but for the report flag, a finished node and a
  resolved request keep their rows, and statuses only move along the transition tables; no node of the run ever
  appears or disappears.\<close>

theorem outcomes_are_final:
  assumes "fresh_run rid d0" "reaches rid d0 d" "reaches rid d d'"
  shows "(\<forall>r. db_runs d rid = Some r \<longrightarrow> (\<exists>r'. db_runs d' rid = Some r' \<and> ValidRunStatusTransition\<^sup>*\<^sup>* (r_Status r) (r_Status r')
            \<and> (RunStatusTerminal (r_Status r) \<longrightarrow> r' = r\<lparr>r_ReportStatus := r_ReportStatus r'\<rparr>)))
    \<and> (\<forall>i n. node_of rid d i n \<longrightarrow> (\<exists>n'. node_of rid d' i n' \<and> ValidNodeRunTransition\<^sup>*\<^sup>* (n_Status n) (n_Status n')
            \<and> (NodeRunStatusTerminal (n_Status n) \<longrightarrow> n' = n)))
    \<and> (\<forall>i n'. node_of rid d' i n' \<longrightarrow> (\<exists>n. node_of rid d i n))
    \<and> (\<forall>i q. db_reqs d i = Some q \<longrightarrow> rq_WorkflowRunID q = rid \<longrightarrow> rq_Status q \<noteq> RequestStatusPending \<longrightarrow> db_reqs d' i = Some q)"
proof -
  have ev: "wf_evolves rid d d'" using reaches_evolves [OF assms(2,1,3)] by blast
  show ?thesis
  proof (intro conjI allI impI)
    fix r assume "db_runs d rid = Some r"
    then show "\<exists>r'. db_runs d' rid = Some r' \<and> ValidRunStatusTransition\<^sup>*\<^sup>* (r_Status r) (r_Status r')
        \<and> (RunStatusTerminal (r_Status r) \<longrightarrow> r' = r\<lparr>r_ReportStatus := r_ReportStatus r'\<rparr>)"
      using ev unfolding wf_evolves_def wrun_evolves_def by blast
  next
    fix i n assume "node_of rid d i n"
    then show "\<exists>n'. node_of rid d' i n' \<and> ValidNodeRunTransition\<^sup>*\<^sup>* (n_Status n) (n_Status n')
        \<and> (NodeRunStatusTerminal (n_Status n) \<longrightarrow> n' = n)"
      using ev unfolding wf_evolves_def wnode_evolves_def by blast
  next
    fix i n' assume "node_of rid d' i n'"
    then show "\<exists>n. node_of rid d i n" using ev unfolding wf_evolves_def by blast
  next
    fix i q assume "db_reqs d i = Some q" "rq_WorkflowRunID q = rid" "rq_Status q \<noteq> RequestStatusPending"
    then show "db_reqs d' i = Some q" using ev unfolding wf_evolves_def req_evolves_def by blast
  qed
qed

text \<open>C7: The task plane. In every reachable database a task points to its last run and mirrors its status
  and outcome, a run that has not ended is the last run of its task, so a task has at most one active run, and an
  admission key names one task of a space, an idempotency key one run of a task.\<close>

theorem task_plane_sound:
  assumes "fresh_run rid d0" "reaches rid d0 d"
  shows "(\<forall>i t. db_tasks d i = Some t \<longrightarrow> (\<exists>l r. tk_LastRunID t = Some l \<and> db_truns d l = Some r \<and> tr_TaskID r = i
            \<and> tk_Status t = tr_Status r \<and> tk_Output t = tr_Output r \<and> tk_EndedAt t = tr_EndedAt r \<and> tk_ErrorMessage t = tr_ErrorMessage r))
    \<and> (\<forall>i j r s. db_truns d i = Some r \<longrightarrow> db_truns d j = Some s \<longrightarrow> tr_TaskID r = tr_TaskID s \<longrightarrow>
         \<not> TaskRunStatusTerminal (tr_Status r) \<longrightarrow> \<not> TaskRunStatusTerminal (tr_Status s) \<longrightarrow> i = j)
    \<and> (\<forall>i j t u k. db_tasks d i = Some t \<longrightarrow> db_tasks d j = Some u \<longrightarrow> tk_SpaceID t = tk_SpaceID u \<longrightarrow>
         tk_AdmissionKey t = Some k \<longrightarrow> tk_AdmissionKey u = Some k \<longrightarrow> i = j)
    \<and> (\<forall>i j r s k. db_truns d i = Some r \<longrightarrow> db_truns d j = Some s \<longrightarrow> tr_TaskID r = tr_TaskID s \<longrightarrow>
         tr_IdempotencyKey r = Some k \<longrightarrow> tr_IdempotencyKey s = Some k \<longrightarrow> i = j)"
proof -
  have inv: "task_inv d" using reaches_good [OF assms(2,1)] by (simp add: good_def)
  show ?thesis
  proof (intro conjI)
    show "\<forall>i t. db_tasks d i = Some t \<longrightarrow> (\<exists>l r. tk_LastRunID t = Some l \<and> db_truns d l = Some r \<and> tr_TaskID r = i
        \<and> tk_Status t = tr_Status r \<and> tk_Output t = tr_Output r \<and> tk_EndedAt t = tr_EndedAt r \<and> tk_ErrorMessage t = tr_ErrorMessage r)"
      using task_invD(3) [OF inv] unfolding mirrors_def by blast
    show "\<forall>i j r s. db_truns d i = Some r \<longrightarrow> db_truns d j = Some s \<longrightarrow> tr_TaskID r = tr_TaskID s \<longrightarrow>
        \<not> TaskRunStatusTerminal (tr_Status r) \<longrightarrow> \<not> TaskRunStatusTerminal (tr_Status s) \<longrightarrow> i = j"
      using task_invD(4) [OF inv] by (metis option.inject)
  qed (use inv in \<open>simp_all add: task_inv_def admission_keys_unique_def run_keys_unique_def\<close>)
qed

text \<open>C8: A task run keeps its identity, moves along the transition table only, and once it has ended its
  outcome never changes; the first cancel request, the first recorded agent revision and failure cause
  stay.\<close>

theorem task_runs_are_final:
  assumes "fresh_run rid d0" "reaches rid d0 d" "reaches rid d d'" "db_truns d i = Some r"
  shows "\<exists>r'. db_truns d' i = Some r' \<and> run_identity r' = run_identity r
    \<and> ValidTaskRunTransition\<^sup>*\<^sup>* (tr_Status r) (tr_Status r')
    \<and> (TaskRunStatusTerminal (tr_Status r) \<longrightarrow> run_outcome r' = run_outcome r)
    \<and> (tr_CancelRequestedAt r \<noteq> None \<longrightarrow> tr_CancelRequestedAt r' = tr_CancelRequestedAt r)
    \<and> (tr_AgentRevision r \<noteq> None \<longrightarrow> tr_AgentRevision r' = tr_AgentRevision r)
    \<and> (tr_FailureCause r \<noteq> None \<longrightarrow> tr_FailureCause r' = tr_FailureCause r)"
proof -
  obtain r' where "db_truns d' i = Some r'" "run_evolves r r'"
    using reaches_evolves [OF assms(2,1,3)] assms(4) unfolding task_evolves_def by blast
  then show ?thesis by (auto simp: run_evolves_def once_def)
qed

end
