(* ===== verification/Runtime_Example.thy ===== *)
theory Runtime_Example
  imports Runtime_Safety
begin

text \<open>
  A scenario that the model runs: a run with two nodes that ask a person, the second one needing the
  first. The reconciler opens the first request, an answer completes its node and opens the second, a
  cancel stops the run. It shows that the hypotheses of the safety properties hold of databases that the
  services produce.
\<close>

definition demo_run :: string where "demo_run = ''aaaaaaaaaaaaaaaaaaaa''"
definition demo_ask :: string where "demo_ask = ''baaaaaaaaaaaaaaaaaaa''"
definition demo_then :: string where "demo_then = ''caaaaaaaaaaaaaaaaaaa''"
definition demo_flow :: string where "demo_flow = ''daaaaaaaaaaaaaaaaaaa''"
definition demo_user :: string where "demo_user = ''eaaaaaaaaaaaaaaaaaaa''"
definition demo_space :: string where "demo_space = ''faaaaaaaaaaaaaaaaaaa''"
definition demo_task :: string where "demo_task = ''gaaaaaaaaaaaaaaaaaaa''"
definition demo_trun :: string where "demo_trun = ''haaaaaaaaaaaaaaaaaaa''"

definition demo_node :: "string \<Rightarrow> string list \<Rightarrow> DefinitionNode" where
  "demo_node i needs = \<lparr>dn_ID = i, dn_Type = NodeTypeHumanInput, dn_Needs = needs, dn_Agent = \<lparr>na_ID = '''', na_Revision = 0\<rparr>,
     dn_Input = \<lparr>ni_Instruction = ''ask'', ni_Bindings = []\<rparr>, dn_IssueAccess = IssueAccessNone, dn_OutputSchema = '''',
     dn_Policy = None\<rparr>"

definition demo_definition :: Definition where
  "demo_definition = \<lparr>df_SchemaVersion = 1, df_InputSchema = '''', df_Policy = None,
     df_Nodes = [demo_node ''a'' [], demo_node ''b'' [''a'']], df_Result = None\<rparr>"

definition demo_codec :: codec where
  "demo_codec = \<lparr>cd_unmarshalDefinition = (\<lambda>t. Some demo_definition), cd_marshalDefinition = (\<lambda>d. ''D''),
     cd_unmarshal = (\<lambda>t. None), cd_decode = (\<lambda>t. None), cd_marshal = (\<lambda>v. ''''), cd_integral = (\<lambda>_. True),
     cd_unmarshalString = Some, cd_marshalString = id, cd_marshalEnvelope = (\<lambda>_. Some ''{}''), cd_quote = id,
     cd_rfc3339 = (\<lambda>_. ''''), cd_errorText = (\<lambda>_. '''')\<rparr>"

definition demo_ws :: WorkflowService where
  "demo_ws = \<lparr>ws_Workflows = True, ws_Agents = True, ws_Issues = True, ws_TaskService = None, ws_TaskRuns = True,
     ws_Artifacts = None, ws_codec = demo_codec, ws_fuel = 3\<rparr>"

definition demo_ts :: TaskService where
  "demo_ts = \<lparr>ts_Agents = True, ts_Tasks = True, ts_TaskRuns = True, ts_WorkflowSteps = True, ts_QuotaChecker = None,
     ts_TitleGenerator = None, ts_params = \<lparr>sp_digest = (\<lambda>_. ''''), sp_sessionID = (\<lambda>_. '''')\<rparr>\<rparr>"

definition demo_row :: Run where
  "demo_row = \<lparr>r_ID = demo_run, r_WorkflowID = demo_flow, r_WorkflowRevision = 0, r_IssueID = None, r_ScheduleID = None,
     r_ConversationID = None, r_RequestedBy = '''', r_AssistantID = '''', r_AssistantRevision = 0, r_ReportStatus = ReportNone,
     r_Input = None, r_Status = RunStatusRunning, r_CreatedBy = demo_user, r_Result = None, r_CreatedAt = 0,
     r_StartedAt = Some 0, r_EndedAt = None, r_ErrorMessage = None, r_FailureClass = '''', r_DeadlineAt = None,
     r_ReconcileOwner = None, r_LeaseExpiresAt = None, r_NextReconcileAt = None\<rparr>"

definition demo_noderun :: "string \<Rightarrow> string \<Rightarrow> string list \<Rightarrow> NodeRun" where
  "demo_noderun i nid needs = newNodeRun demo_run (node_run_input [''a'', ''b''] (demo_node nid needs) None) i None 0"

definition demo_taskrun :: TaskRun where
  "demo_taskrun = (blankTaskRun 0)\<lparr>tr_ID := demo_trun, tr_TaskID := demo_task, tr_Status := TSucceeded, tr_Output := Some ''out''\<rparr>"

definition demo_task_row :: Task where
  "demo_task_row = \<lparr>tk_ID = demo_task, tk_ConversationID = None, tk_SpaceID = demo_space, tk_IssueID = None, tk_ScheduleID = None,
      tk_Status = TSucceeded, tk_Input = ''in'', tk_Title = ''t'', tk_TitlePromptTokens = 0, tk_TitleCompletionTokens = 0,
      tk_Output = Some ''out'', tk_OutputSchema = None, tk_CreatedBy = demo_user, tk_RequestedBy = '''',
      tk_AssistantID = '''', tk_AssistantRevision = 0, tk_CreatedAt = 0, tk_StartedAt = None,
      tk_EndedAt = None, tk_ErrorMessage = None, tk_SessionID = None, tk_LastRunID = Some demo_trun, tk_AwaitingAnswer = False,
      tk_AgentID = None, tk_WorkspaceHead = None, tk_AdmissionKey = None, tk_AdmissionFingerprint = None\<rparr>"

definition demo_db :: db where
  "demo_db = \<lparr>db_spaces = {demo_space}, db_users = {demo_user}, db_assistants = {}, db_messages = {},
     db_conversations = Map.empty, db_agents = Map.empty, db_agent_revs = Map.empty, db_issues = Map.empty,
     db_schedules = Map.empty,
     db_workflows = [demo_flow \<mapsto> \<lparr>wf_ID = demo_flow, wf_SpaceID = demo_space, wf_Name = ''w'', wf_Description = '''',
       wf_Definition = ''D'', wf_Status = StatusPublished, wf_Revision = 1, wf_CreatedBy = demo_user, wf_CreatedAt = 0,
       wf_UpdatedAt = 0\<rparr>], db_wf_order = [demo_flow], db_wf_revs = Map.empty,
     db_runs = [demo_run \<mapsto> demo_row], db_run_order = [demo_run],
     db_nodes = [demo_ask \<mapsto> demo_noderun demo_ask ''a'' [], demo_then \<mapsto> demo_noderun demo_then ''b'' [''a'']],
     db_node_order = [demo_ask, demo_then], db_reqs = Map.empty, db_req_order = [],
     db_tasks = [demo_task \<mapsto> demo_task_row], db_task_order = [demo_task],
     db_truns = [demo_trun \<mapsto> demo_taskrun], db_trun_order = [demo_trun]\<rparr>"

text \<open>The same run later: the first node answered, the second one waiting for its answer; and stopped.\<close>

definition demo_request :: "string \<Rightarrow> string \<Rightarrow> RequestStatus \<Rightarrow> Request" where
  "demo_request i node st = \<lparr>rq_ID = i, rq_WorkflowRunID = demo_run, rq_Key = ''node/'' @ i, rq_WorkflowID = demo_flow,
     rq_NodeRunID = node, rq_NodeID = ''a'', rq_Kind = RequestKindInput, rq_Prompt = ''ask'', rq_Questions = None,
     rq_ResponseSchema = None, rq_TaskRunID = None, rq_Status = st, rq_ExpiresAt = None, rq_Response = None,
     rq_RespondedBy = None, rq_RespondedAt = None, rq_CreatedAt = 0\<rparr>"

definition demo_answered :: db where
  "demo_answered = demo_db\<lparr>
     db_nodes := [demo_ask \<mapsto> (demo_noderun demo_ask ''a'' [])\<lparr>n_Status := NodeRunStatusSucceeded\<rparr>,
                  demo_then \<mapsto> (demo_noderun demo_then ''b'' [''a''])\<lparr>n_Status := NodeRunStatusWaiting\<rparr>],
     db_reqs := [demo_task \<mapsto> demo_request demo_task demo_ask RequestStatusAnswered,
                 demo_trun \<mapsto> demo_request demo_trun demo_then RequestStatusPending],
     db_req_order := [demo_task, demo_trun]\<rparr>"

definition demo_stopped :: db where
  "demo_stopped = demo_db\<lparr>
     db_runs := [demo_run \<mapsto> demo_row\<lparr>r_Status := RunStatusCanceling\<rparr>],
     db_nodes := [demo_ask \<mapsto> (demo_noderun demo_ask ''a'' [])\<lparr>n_Status := NodeRunStatusSucceeded\<rparr>,
                  demo_then \<mapsto> (demo_noderun demo_then ''b'' [''a''])\<lparr>n_Status := NodeRunStatusCanceled\<rparr>],
     db_reqs := [demo_task \<mapsto> demo_request demo_task demo_ask RequestStatusAnswered,
                 demo_trun \<mapsto> demo_request demo_trun demo_then RequestStatusCanceled],
     db_req_order := [demo_task, demo_trun]\<rparr>"

text \<open>A world in which another process takes the database from \<open>a\<close> to \<open>b\<close>.\<close>

definition hop :: "db \<Rightarrow> db \<Rightarrow> world" where
  "hop a b = \<lparr>w_fault = (\<lambda>_. NoFault), w_clock = int, w_rand = (\<lambda>n k. Some (n + k)), w_env = (\<lambda>n d. if d = a then b else d)\<rparr>"

definition demo_sys :: "db \<Rightarrow> db \<Rightarrow> sys" where
  "demo_sys a b = \<lparr>sy_db = a, sy_tick = 0, sy_world = hop a b\<rparr>"

lemma demo_canonical [simp]:
  "CanonicalPublicID demo_run = Some demo_run" "CanonicalPublicID demo_ask = Some demo_ask"
  "CanonicalPublicID demo_then = Some demo_then" "CanonicalPublicID demo_task = Some demo_task"
  "CanonicalPublicID demo_trun = Some demo_trun"
  by code_simp+

lemma demo_ids [simp]:
  "demo_ask \<noteq> demo_then" "demo_then \<noteq> demo_ask" "demo_task \<noteq> demo_trun" "demo_trun \<noteq> demo_task"
  by (simp_all add: demo_ask_def demo_then_def demo_task_def demo_trun_def)

lemma demo_noderun_fields [simp]:
  "n_ID (demo_noderun i nid needs) = i" "n_WorkflowRunID (demo_noderun i nid needs) = demo_run"
  "n_NodeID (demo_noderun i nid needs) = nid" "n_Needs (demo_noderun i nid needs) = needs"
  "n_Status (demo_noderun i nid needs) = NodeRunStatusPending" "n_TaskID (demo_noderun i nid needs) = None"
  by (simp_all add: demo_noderun_def newNodeRun_def node_run_input_def demo_node_def)

lemma demo_tasks: "task_inv demo_db"
  by (auto simp: task_inv_defs demo_db_def demo_task_row_def demo_taskrun_def blankTaskRun_def mirrors_def split: if_splits)

lemma demo_fresh: "fresh_run demo_run demo_db"
  unfolding fresh_run_def
proof (intro conjI)
  show "wf_keyed demo_db" by (auto simp: wf_keyed_def demo_db_def demo_row_def split: if_splits)
  show "nodes_distinct demo_run demo_db"
    by (auto simp: nodes_distinct_def node_of_def demo_db_def split: if_splits)
qed (rule demo_tasks, auto simp: node_of_def demo_db_def demo_row_def split: if_splits)

lemmas demo_later = demo_answered_def demo_stopped_def demo_db_def demo_row_def demo_request_def

lemma demo_node_of:
  "node_of demo_run demo_db i n \<longleftrightarrow> i = demo_ask \<and> n = demo_noderun demo_ask ''a'' [] \<or> i = demo_then \<and> n = demo_noderun demo_then ''b'' [''a'']"
  "node_of demo_run demo_answered i n \<longleftrightarrow> i = demo_ask \<and> n = (demo_noderun demo_ask ''a'' [])\<lparr>n_Status := NodeRunStatusSucceeded\<rparr>
     \<or> i = demo_then \<and> n = (demo_noderun demo_then ''b'' [''a''])\<lparr>n_Status := NodeRunStatusWaiting\<rparr>"
  "node_of demo_run demo_stopped i n \<longleftrightarrow> i = demo_ask \<and> n = (demo_noderun demo_ask ''a'' [])\<lparr>n_Status := NodeRunStatusSucceeded\<rparr>
     \<or> i = demo_then \<and> n = (demo_noderun demo_then ''b'' [''a''])\<lparr>n_Status := NodeRunStatusCanceled\<rparr>"
  by (auto simp: node_of_def demo_db_def demo_answered_def demo_stopped_def split: if_splits)

lemma demo_wf_keyed: "wf_keyed demo_answered" "wf_keyed demo_stopped"
  by (auto simp: wf_keyed_def demo_later split: if_splits)

lemma demo_needs:
  "set (n_Needs n) \<subseteq> {''a''} \<Longrightarrow> needs_met demo_run demo_answered n"
  "set (n_Needs n) \<subseteq> {''a''} \<Longrightarrow> needs_met demo_run demo_stopped n"
proof -
  have "\<exists>j m. node_of demo_run d j m \<and> n_NodeID m = ''a'' \<and> n_Status m = NodeRunStatusSucceeded"
    if "d = demo_answered \<or> d = demo_stopped" for d
    using that by (intro exI [of _ demo_ask] exI [of _ "(demo_noderun demo_ask ''a'' [])\<lparr>n_Status := NodeRunStatusSucceeded\<rparr>"])
      (auto simp: demo_node_of)
  then show "set (n_Needs n) \<subseteq> {''a''} \<Longrightarrow> needs_met demo_run demo_answered n"
    "set (n_Needs n) \<subseteq> {''a''} \<Longrightarrow> needs_met demo_run demo_stopped n"
    by (auto simp: needs_met_def)
qed

lemma demo_linked: "node_linked demo_run demo_answered demo_then ((demo_noderun demo_then ''b'' [''a''])\<lparr>n_Status := NodeRunStatusWaiting\<rparr>)"
  unfolding node_linked_def
  by (auto intro!: exI [of _ demo_trun] exI [of _ "demo_request demo_trun demo_then RequestStatusPending"]
      simp: demo_answered_def demo_request_def)

lemma demo_agrees: "status_agrees demo_run demo_answered" "status_agrees demo_run demo_stopped"
  unfolding status_agrees_def demo_node_of by (auto simp: demo_later split: if_splits)

lemma demo_links: "node_links demo_run demo_answered" "node_links demo_run demo_stopped"
  unfolding node_links_def demo_node_of by (auto simp: demo_linked) (auto simp: node_linked_def)

lemma demo_inv: "wf_inv demo_run demo_answered" "wf_inv demo_run demo_stopped"
  unfolding wf_inv_def
  by (intro conjI demo_wf_keyed demo_agrees demo_links;
      auto simp: nodes_distinct_def started_needs_def demo_needs demo_node_of)+

lemma demo_moves:
  "wnode_evolves (demo_noderun i nid ns) ((demo_noderun i nid ns)\<lparr>n_Status := NodeRunStatusSucceeded\<rparr>)"
  "wnode_evolves (demo_noderun i nid ns) ((demo_noderun i nid ns)\<lparr>n_Status := NodeRunStatusWaiting\<rparr>)"
  "wnode_evolves ((demo_noderun i nid ns)\<lparr>n_Status := NodeRunStatusWaiting\<rparr>) ((demo_noderun i nid ns)\<lparr>n_Status := NodeRunStatusCanceled\<rparr>)"
proof -
  have "ValidNodeRunTransition\<^sup>*\<^sup>* NodeRunStatusPending NodeRunStatusSucceeded"
    by (rule rtranclp_trans [OF r_into_rtranclp r_into_rtranclp, of _ _ NodeRunStatusWaiting]) simp_all
  then show "wnode_evolves (demo_noderun i nid ns) ((demo_noderun i nid ns)\<lparr>n_Status := NodeRunStatusSucceeded\<rparr>)"
    by (simp add: wnode_evolves_def node_identity_def)
qed (auto simp: wnode_evolves_def node_identity_def)

lemma demo_evolves:
  "wf_evolves demo_run demo_db demo_answered" "wf_evolves demo_run demo_answered demo_stopped"
  unfolding wf_evolves_def demo_node_of
  by (auto simp: demo_moves)
    (auto simp: demo_later wrun_evolves_def run_identity_wf_def req_evolves_def req_identity_def split: if_splits)

lemma demo_same_tasks: "same_tasks demo_db demo_answered" "same_tasks demo_answered demo_stopped"
  by (simp_all add: same_tasks_def demo_answered_def demo_stopped_def)

lemma demo_runtime: "runtime demo_run demo_db demo_answered" "runtime demo_run demo_answered demo_stopped"
  by (simp_all add: runtime_wf demo_same_tasks wf_rel_def keeps_def demo_inv demo_evolves)

lemma demo_taskruns: "db_truns demo_answered demo_trun = Some demo_taskrun" "db_truns demo_stopped demo_trun = Some demo_taskrun"
  by (simp_all add: demo_answered_def demo_stopped_def demo_db_def)

lemma hop_ok: "runtime rid a b \<Longrightarrow> env_ok (runtime rid) (hop a b)"
  by (simp add: env_ok_def hop_def rt.db_refl)

lemma demo_hop:
  assumes "db_truns b demo_trun = Some demo_taskrun"
  shows "sy_db (snd (perform demo_ts demo_ws (CallMarkSeen demo_trun 0) (demo_sys a b))) = b"
  using assms
  by (simp add: MarkTaskRunSeen_def recordTaskRun_def db_op_def demo_sys_def hop_def updateTaskRunWhere_def demo_taskrun_def)

lemma demo_reaches: "reaches demo_run demo_db demo_answered" "reaches demo_run demo_answered demo_stopped"
proof -
  have hop: "reaches demo_run a b" if "runtime demo_run a b" "db_truns b demo_trun = Some demo_taskrun" for a b
    using reaches_call [of demo_run a "demo_sys a b" demo_ts demo_ws "CallMarkSeen demo_trun 0"] hop_ok [OF that(1)]
      reaches_start [of demo_run a] demo_hop [OF that(2)]
    by (simp add: demo_sys_def)
  show "reaches demo_run demo_db demo_answered" "reaches demo_run demo_answered demo_stopped"
    by (rule hop, rule demo_runtime, rule demo_taskruns)+
qed

section \<open>Witnesses\<close>

theorem services_keep_invariants_witness:
  "wf_inv demo_run (sy_db (snd (perform demo_ts demo_ws (CallReconcile demo_run) (demo_sys demo_db demo_answered))))"
  using services_keep_invariants [of demo_run "demo_sys demo_db demo_answered" demo_ts demo_ws "CallReconcile demo_run"]
    fresh_good [OF demo_fresh] hop_ok [OF demo_runtime(1)]
  by (simp add: demo_sys_def good_def)

theorem node_starts_after_needs_witness:
  "\<exists>j m. node_of demo_run demo_answered j m \<and> n_NodeID m = ''a'' \<and> n_Status m = NodeRunStatusSucceeded"
  by (rule node_starts_after_needs [OF demo_fresh demo_reaches(1),
        of demo_then "(demo_noderun demo_then ''b'' [''a''])\<lparr>n_Status := NodeRunStatusWaiting\<rparr>"])
    (simp_all add: demo_node_of)

theorem succeeded_run_nodes_succeeded_witness:
  "n_Status ((demo_noderun demo_then ''b'' [''a''])\<lparr>n_Status := NodeRunStatusWaiting\<rparr>) \<noteq> NodeRunStatusFailed"
  using succeeded_run_nodes_succeeded [OF demo_fresh demo_reaches(1), of demo_row demo_then
      "(demo_noderun demo_then ''b'' [''a''])\<lparr>n_Status := NodeRunStatusWaiting\<rparr>"]
  by (simp add: demo_node_of demo_answered_def demo_db_def demo_row_def)

theorem stopped_run_stays_stopped_witness:
  "db_reqs demo_stopped demo_trun = Some (demo_request demo_trun demo_then RequestStatusCanceled)
   \<and> rq_Status (demo_request demo_trun demo_then RequestStatusCanceled) \<noteq> RequestStatusPending"
proof -
  have r: "db_runs demo_stopped demo_run = Some (demo_row\<lparr>r_Status := RunStatusCanceling\<rparr>)" by (simp add: demo_stopped_def)
  have q: "db_reqs demo_stopped demo_trun = Some (demo_request demo_trun demo_then RequestStatusCanceled)"
    by (simp add: demo_stopped_def)
  have "reaches demo_run demo_db demo_stopped"
    using reaches_trans demo_reaches by blast
  from stopped_run_stays_stopped [OF demo_fresh this reaches_start r r]
  have "rq_WorkflowRunID (demo_request demo_trun demo_then RequestStatusCanceled) = demo_run \<Longrightarrow>
      rq_Status (demo_request demo_trun demo_then RequestStatusCanceled) \<noteq> RequestStatusPending"
    using q by simp
  then show ?thesis using q by (simp add: demo_request_def)
qed

theorem outcomes_are_final_witness:
  "db_reqs demo_stopped demo_task = Some (demo_request demo_task demo_ask RequestStatusAnswered)"
proof -
  have "db_reqs demo_answered demo_task = Some (demo_request demo_task demo_ask RequestStatusAnswered)"
    by (simp add: demo_answered_def)
  then show ?thesis
    using outcomes_are_final [OF demo_fresh demo_reaches] by (simp add: demo_request_def)
qed

theorem task_plane_sound_witness: "tk_LastRunID demo_task_row = Some demo_trun \<and> tk_Status demo_task_row = tr_Status demo_taskrun"
proof -
  have "db_tasks demo_answered demo_task = Some demo_task_row" by (simp add: demo_answered_def demo_db_def)
  then obtain l r where "tk_LastRunID demo_task_row = Some l" "db_truns demo_answered l = Some r" "tk_Status demo_task_row = tr_Status r"
    using task_plane_sound [OF demo_fresh demo_reaches(1)] by blast
  then show ?thesis by (simp add: demo_task_row_def demo_taskruns)
qed

theorem task_runs_are_final_witness:
  "\<exists>r'. db_truns demo_stopped demo_trun = Some r' \<and> run_outcome r' = run_outcome demo_taskrun"
  using task_runs_are_final [OF demo_fresh demo_reaches demo_taskruns(1)] by (auto simp: demo_taskrun_def)

end
