(* ===== verification/Run_Start.thy ===== *)
theory Run_Start
  imports Runtime_Example
begin

text \<open>
  The start of a run: the two transactions of \<open>StartWorkflowRun\<close> that create the run and its nodes
  establish \<open>fresh_run\<close>, the state from which the safety properties hold.
\<close>

definition node_row_of :: "string \<Rightarrow> CreateNodeRunInput \<Rightarrow> NodeRun \<Rightarrow> bool" where
  "node_row_of x cn n \<longleftrightarrow>
     n_NodeID n = cn_NodeID cn \<and> n_Needs n = cn_Needs cn \<and> n_NodeIndex n = cn_NodeIndex cn \<and> n_Status n = cn_Status cn
     \<and> n_TaskID n = None \<and> n_WorkflowRunID n = x"

lemma insertNodeRuns_rows:
  "insertNodeRuns x now rnd k cns d = Inr (ns, d') \<Longrightarrow>
     list_all2 (node_row_of x) cns ns \<and> (\<forall>i n. db_nodes d' i = Some n \<longleftrightarrow> db_nodes d i = Some n \<or> n \<in> set ns \<and> n_ID n = i)
     \<and> db_runs d' = db_runs d \<and> (wf_keyed d \<longrightarrow> wf_keyed d') \<and> same_tasks d d'"
proof (induction cns arbitrary: k d ns d')
  case Nil
  then show ?case by (simp add: same_tasks_def)
next
  case (Cons cn cns)
  obtain agent i k' ns1 where i: "createWithPublicID (\<lambda>i. db_nodes d i \<noteq> None) rnd k = Inr (i, k')"
    and rest: "insertNodeRuns x now rnd k' cns (d\<lparr>db_nodes := (db_nodes d)(i \<mapsto> newNodeRun x cn i agent now),
        db_node_order := db_node_order d @ [i]\<rparr>) = Inr (ns1, d')" and ns: "ns = newNodeRun x cn i agent now # ns1"
    using Cons.prems by (auto simp: Let_def)
  let ?n = "newNodeRun x cn i agent now"
  have new: "db_nodes d i = None" "CanonicalPublicID i = Some i" using createWithPublicID_fresh [OF i] by auto
  have n: "node_row_of x cn ?n" "n_ID ?n = i" by (simp_all add: node_row_of_def newNodeRun_def)
  note IH = Cons.IH [OF rest]
  have "wf_keyed d \<longrightarrow> wf_keyed (d\<lparr>db_nodes := (db_nodes d)(i \<mapsto> ?n), db_node_order := db_node_order d @ [i]\<rparr>)"
    using new(2) n(2) by (auto simp: wf_keyed_def)
  moreover have "db_nodes d' j = Some m \<longleftrightarrow> db_nodes d j = Some m \<or> m \<in> set ns \<and> n_ID m = j" for j m
    using IH new(1) n(2) by (cases "j = i") (auto simp: ns)
  ultimately show ?case using IH n(1) by (simp add: ns same_tasks_def)
qed

lemma createWorkflowRunTx_row:
  assumes "createWorkflowRunTx cw now rnd d = Inr (run, d1)"
  shows "\<exists>row. db_runs d1 (r_ID run) = Some row \<and> r_Status row = cw_Status cw \<and> db_nodes d1 = db_nodes d \<and> same_tasks d d1
    \<and> db_runs d (r_ID run) = None \<and> (wf_keyed d \<longrightarrow> wf_keyed d1)"
  using assms
  by (auto simp: createWorkflowRunTx_def createdRun_def newWorkflowRun_def Let_def same_tasks_def wf_keyed_def
      dest!: createWithPublicID_fresh)

lemma rows_distinct:
  assumes "list_all2 (node_row_of x) cns ns" "distinct (map cn_NodeID cns)" "n \<in> set ns" "m \<in> set ns" "n_NodeID n = n_NodeID m"
  shows "n = m"
proof -
  have "map n_NodeID ns = map cn_NodeID cns"
    using assms(1) by (induction rule: list_all2_induct) (simp_all add: node_row_of_def)
  then have "distinct (map n_NodeID ns)" using assms(2) by simp
  then show ?thesis using assms(3-5) by (simp add: distinct_map inj_on_def)
qed

lemma node_inputs:
  assumes "length snaps = length nodes"
  shows "map cn_NodeID (map2 (node_run_input order) nodes snaps) = map dn_ID nodes"
    "list_all2 (node_row_of x) (map2 (node_run_input order) nodes snaps) ns \<Longrightarrow>
       list_all2 (\<lambda>n r. n_NodeID r = dn_ID n \<and> n_Needs r = dn_Needs n \<and> n_NodeIndex r = topo_index order (dn_ID n)
          \<and> n_Status r = NodeRunStatusPending \<and> n_TaskID r = None) nodes ns"
  using assms
  by (induction nodes snaps arbitrary: ns rule: list_induct2')
    (auto simp: node_run_input_def node_row_of_def list_all2_Cons1)


section \<open>A run that starts\<close>

definition single :: Definition where
  "single = demo_definition\<lparr>df_Nodes := [demo_node ''a'' []]\<rparr>"

definition single_codec :: codec where
  "single_codec = demo_codec\<lparr>cd_unmarshalDefinition := (\<lambda>t. Some single)\<rparr>"

definition empty_db :: db where
  "empty_db = demo_db\<lparr>db_runs := Map.empty, db_run_order := [], db_nodes := Map.empty, db_node_order := []\<rparr>"

definition demo_start :: StartWorkflowRunCmd where
  "demo_start = \<lparr>sw_SpaceID = demo_space, sw_UserID = demo_user, sw_WorkflowID = demo_flow, sw_IssueID = None,
     sw_ScheduleID = None, sw_ConversationID = None, sw_RequestedBy = '''', sw_AssistantID = '''', sw_AssistantRevision = 0,
     sw_Input = ''''\<rparr>"

lemma single_graph: "\<exists>g. BuildGraph [demo_node ''a'' []] = Inr g"
  by (simp add: BuildGraph_def demo_node_def topoSort_def topo_loop.simps Order_def Let_def)

lemma single_parse: "parseDefinition single_codec ''D'' = Inr single"
proof -
  obtain g where g: "BuildGraph [demo_node ''a'' []] = Inr g" using single_graph by blast
  have "parse_nodes single_codec {} [demo_node ''a'' []] = Inr [demo_node ''a'' []]"
    by (simp add: demo_node_def parse_node_def Let_def NodeTypeAgentTask_def NodeTypeHumanInput_def TrimSpace_def go_spaces_def
        ValidIssueAccess_def schema_ok_def IssueAccessNone_def IssueAccessIfBound_def IssueAccessRequired_def)
  moreover have "list_all (bindings_reachable g) [demo_node ''a'' []]"
    by (simp add: bindings_reachable_def demo_node_def)
  ultimately show ?thesis using g
    by (simp add: parseDefinition_def single_codec_def demo_codec_def check_definition_def single_def demo_definition_def
        DefinitionSchemaVersion_def schema_ok_def policy_ok_def)
qed

lemma create_free: "createWithPublicID (\<lambda>_. False) (\<lambda>_. Some n) k = Inr (encode_public_id (n mod 2 ^ 96), Suc k)"
  by (simp add: createWithPublicID_def publicIDAttempts_def NewPublicID_def numeral_3_eq_3)

lemma demo_started:
  obtains run d1 ns d2 where
    "createWorkflowRunTx (create_run_input demo_start (the (db_workflows empty_db demo_flow)) single None 0) 0 (\<lambda>_. Some 0) empty_db
       = Inr (run, d1)"
    "insertNodeRuns (r_ID run) 0 (\<lambda>_. Some 1) 0 (map2 (node_run_input [''a'']) (df_Nodes single) [None]) d1 = Inr (ns, d2)"
proof -
  have ids: "CanonicalPublicID demo_flow = Some demo_flow" "CanonicalPublicID demo_user = Some demo_user" by code_simp+
  show thesis
    apply (rule that)
     apply (simp add: createWorkflowRunTx_def ids create_run_input_def empty_db_def demo_db_def demo_start_def lookupKey_def
        optionalKey_def resolveAssistant_def create_free Let_def)
    apply (simp add: single_def node_run_input_def optionalKey_def create_free Let_def)
    done
qed


end
