(* ===== verification/Runtime_Progress.thy ===== *)
theory Runtime_Progress
  imports Run_Start
begin

text \<open>
  Progress of the reconciler: a running run is never stuck. Among the rows of a definition that was accepted there is
  always a node in flight or a node whose needs have succeeded, until all have; the dispatch of a pass starts such a
  node, asks its question, or waits for a free place, and the pass asks to be repeated. The argument holds for every
  outcome of the store calls and every interleaving: it only uses what the pass read.
\<close>

section \<open>A ready node\<close>

definition instantiates :: "DefinitionNode list \<Rightarrow> NodeRun list \<Rightarrow> bool" where
  "instantiates nodes steps \<longleftrightarrow> distinct (map n_NodeID steps) \<and> n_NodeID ` set steps = set (node_ids nodes)
     \<and> (\<forall>r\<in>set steps. n_Needs r = declared_needs nodes (n_NodeID r))"

lemma node_by_id_row: "distinct (map n_NodeID steps) \<Longrightarrow> r \<in> set steps \<Longrightarrow> node_by_id steps (n_NodeID r) = Some r"
  unfolding node_by_id_def
proof (induction steps rule: rev_induct)
  case (snoc x steps)
  then show ?case by (cases "r = x") (auto simp: image_iff)
qed simp

lemma ready_node_exists:
  assumes g: "graph_of nodes g" and rows: "instantiates nodes steps"
    and st: "\<forall>n\<in>set steps. n_Status n = NodeRunStatusPending \<or> n_Status n = NodeRunStatusSucceeded"
    and some: "\<exists>n\<in>set steps. n_Status n = NodeRunStatusPending"
  shows "\<exists>n\<in>set steps. n_Status n = NodeRunStatusPending \<and> nodeReady n (status_by_id steps)"
proof -
  let ?o = "Order g"
  have dist: "distinct (map n_NodeID steps)" and ids: "n_NodeID ` set steps = set ?o"
    and needs: "\<And>r. r \<in> set steps \<Longrightarrow> n_Needs r = declared_needs nodes (n_NodeID r)"
    and topo: "topological (declared_needs nodes) ?o" using g rows by (auto simp: graph_of_def instantiates_def)
  define P where "P = (\<lambda>i. i < length ?o \<and> (\<exists>n\<in>set steps. n_NodeID n = ?o ! i \<and> n_Status n = NodeRunStatusPending))"
  have "\<exists>i. P i"
  proof -
    obtain n where n: "n \<in> set steps" "n_Status n = NodeRunStatusPending" using some by blast
    then have "n_NodeID n \<in> set ?o" using ids by blast
    then obtain i where "i < length ?o" "n_NodeID n = ?o ! i" by (auto simp: in_set_conv_nth)
    then have "P i" using n unfolding P_def by auto
    then show ?thesis ..
  qed
  then have least: "P (Least P)" by (rule LeastI_ex)
  have below: "\<And>j. j < Least P \<Longrightarrow> \<not> P j" by (rule not_less_Least)
  from least obtain n where n: "n \<in> set steps" "n_NodeID n = ?o ! Least P" "n_Status n = NodeRunStatusPending" and i: "Least P < length ?o"
    unfolding P_def by blast
  have "status_by_id steps x = Some NodeRunStatusSucceeded" if "x \<in> set (n_Needs n)" for x
  proof -
    have "x \<in> set (take (Least P) ?o)" using that needs [OF n(1)] n(2) topo i unfolding topological_def by auto
    then obtain j where j: "j < Least P" "j < length ?o" "x = ?o ! j" by (auto simp: in_set_conv_nth)
    then have "x \<in> n_NodeID ` set steps" using ids by simp
    then obtain r where r: "r \<in> set steps" "n_NodeID r = x" by blast
    then have "n_Status r \<noteq> NodeRunStatusPending" using below [OF j(1)] j unfolding P_def by blast
    then have "n_Status r = NodeRunStatusSucceeded" using st r(1) by blast
    then show ?thesis using node_by_id_row [OF dist r(1)] r(2) by (simp add: status_by_id_def)
  qed
  then show ?thesis using n by (auto simp: nodeReady_def list_all_iff)
qed

section \<open>The dispatch loop\<close>

definition wanted :: "NodeRun list \<Rightarrow> NodeRun \<Rightarrow> bool" where
  "wanted steps n \<longleftrightarrow> n_Status n = NodeRunStatusRetryWait \<or> n_Status n = NodeRunStatusPending \<and> nodeReady n (status_by_id steps)"

definition loop_moves :: "NodeRun list \<Rightarrow> int \<Rightarrow> NodeRun list \<Rightarrow> dispatch_state \<Rightarrow> dispatch_state \<Rightarrow> bool" where
  "loop_moves steps limit rest st st' \<longleftrightarrow>
     ds_dispatched st \<le> ds_dispatched st'
     \<and> ds_running st' = ds_running st + int (ds_dispatched st' - ds_dispatched st)
     \<and> (ds_retryAt st \<noteq> None \<longrightarrow> ds_retryAt st' \<noteq> None)
     \<and> (ds_active st' \<longrightarrow> ds_active st \<or> limit \<le> ds_running st') \<and> (ds_active st \<longrightarrow> ds_active st')
     \<and> (ds_pendingRemains st \<longrightarrow> ds_pendingRemains st')
     \<and> ((\<exists>n\<in>set rest. wanted steps n) \<longrightarrow> ds_dispatched st < ds_dispatched st' \<or> ds_active st' \<or> ds_retryAt st' \<noteq> None)
     \<and> ((\<exists>n\<in>set rest. n_Status n \<in> {NodeRunStatusPending, NodeRunStatusRetryWait, NodeRunStatusWaiting}) \<longrightarrow> ds_pendingRemains st')"

lemma bindP_result: "fst (bindP m f s) = Inr y \<Longrightarrow> \<exists>x. fst (m s) = Inr x \<and> fst (f x (snd (m s))) = Inr y"
  by (auto simp: bindP_def split: prod.splits sum.splits)

lemma earliest_None [simp]: "earliest a b = None \<longleftrightarrow> a = None \<and> b = None"
  by (simp add: earliest_def split: option.splits)

lemma earliest_Some [simp]: "(\<exists>y. earliest a b = Some y) \<longleftrightarrow> a \<noteq> None \<or> b \<noteq> None"
  by (simp add: earliest_def split: option.splits)

text \<open>Going on with a state that is no further back.\<close>

lemma loop_moves_step:
  assumes "loop_moves steps limit rest st1 st'"
    and "ds_dispatched st \<le> ds_dispatched st1" "ds_running st1 = ds_running st + int (ds_dispatched st1 - ds_dispatched st)"
    and "ds_retryAt st \<noteq> None \<longrightarrow> ds_retryAt st1 \<noteq> None" "ds_active st1 = ds_active st"
    and "ds_pendingRemains st1 = (ds_pendingRemains st \<or> n_Status n \<in> {NodeRunStatusPending, NodeRunStatusRetryWait, NodeRunStatusWaiting})"
    and "wanted steps n \<longrightarrow> ds_dispatched st < ds_dispatched st1 \<or> ds_retryAt st1 \<noteq> None"
  shows "loop_moves steps limit (n # rest) st st'"
proof -
  have le: "ds_dispatched st1 \<le> ds_dispatched st'" and re: "ds_retryAt st1 \<noteq> None \<longrightarrow> ds_retryAt st' \<noteq> None"
    and wt: "(\<exists>n\<in>set rest. wanted steps n) \<longrightarrow> ds_dispatched st1 < ds_dispatched st' \<or> ds_active st' \<or> ds_retryAt st' \<noteq> None"
    using assms(1) unfolding loop_moves_def by blast+
  have "ds_dispatched st < ds_dispatched st' \<or> ds_active st' \<or> ds_retryAt st' \<noteq> None" if "\<exists>x\<in>set (n # rest). wanted steps x"
  proof (cases "wanted steps n")
    case True
    then show ?thesis using assms(7) le re by fastforce
  next
    case False
    then have "\<exists>x\<in>set rest. wanted steps x" using that by auto
    then show ?thesis using wt assms(2) by fastforce
  qed
  moreover have "ds_pendingRemains st'" if "\<exists>x\<in>set (n # rest). n_Status x \<in> {NodeRunStatusPending, NodeRunStatusRetryWait, NodeRunStatusWaiting}"
    using that assms(1,6) unfolding loop_moves_def by auto
  moreover have "ds_dispatched st \<le> ds_dispatched st'" "ds_running st' = ds_running st + int (ds_dispatched st' - ds_dispatched st)"
    using assms(1-3) unfolding loop_moves_def by auto
  ultimately show ?thesis using assms(1,4-6) unfolding loop_moves_def by blast
qed

lemma dispatch_loop_moves:
  "fst (dispatch_loop ws u run steps limit now rest st s) = Inr st' \<Longrightarrow> loop_moves steps limit rest st st'"
proof (induction rest arbitrary: st s)
  case Nil
  then show ?case by (simp add: retP_def loop_moves_def)
next
  case (Cons n rest)
  let ?loop = "dispatch_loop ws u run steps limit now rest"
  have full: "loop_moves steps limit (n # rest) st (st\<lparr>ds_pendingRemains := True, ds_active := True\<rparr>)" if "limit \<le> ds_running st"
    using that by (simp add: loop_moves_def)
  note go = loop_moves_step [OF Cons.IH]
  show ?case
  proof (cases "n_Status n")
    case NodeRunStatusRetryWait
    then show ?thesis using Cons.prems full
      by (auto simp: Let_def retP_def wanted_def split: if_splits option.splits dest!: bindP_result intro!: go)
  next
    case NodeRunStatusPending
    then show ?thesis using Cons.prems full
      by (auto simp: Let_def retP_def wanted_def split: if_splits option.splits dest!: bindP_result intro!: go)
  qed (use Cons.prems in \<open>auto simp: wanted_def intro!: go\<close>)
qed

section \<open>A pass makes progress\<close>

definition in_flight :: "NodeRun \<Rightarrow> bool" where
  "in_flight n \<longleftrightarrow> n_Status n = NodeRunStatusRunning \<or> n_Status n = NodeRunStatusRetryWait \<or> n_Status n = NodeRunStatusWaiting"

definition ended_badly :: "NodeRun \<Rightarrow> bool" where
  "ended_badly n \<longleftrightarrow> n_Status n = NodeRunStatusFailed \<or> n_Status n = NodeRunStatusCanceled \<or> n_Status n = NodeRunStatusBlocked"

lemma dispatch_result:
  assumes "fst (dispatchReadyNodes ws sp u run steps limit now s) = Inr (k, active, retryAt)"
  shows "(\<exists>n\<in>set steps. wanted steps n) \<longrightarrow> 0 < k \<or> retryAt \<noteq> None \<or> active \<and> limit \<le> int (length (filter (\<lambda>n. n_Status n = NodeRunStatusRunning) steps)) + int k"
    "(\<exists>n\<in>set steps. n_Status n = NodeRunStatusRunning) \<longrightarrow> active"
proof -
  let ?run = "int (length (filter (\<lambda>n. n_Status n = NodeRunStatusRunning) steps))"
  let ?st = "\<lparr>ds_spaceID = sp, ds_dispatched = 0, ds_running = ?run, ds_active = False, ds_pendingRemains = False, ds_retryAt = None\<rparr>"
  obtain st s' where l: "loop_moves steps limit steps ?st st"
    and r: "fst ((let active = (ds_active st \<or> ds_running st > 0)
       in if ds_pendingRemains st \<or> ds_running st > 0 then retP (ds_dispatched st, active, ds_retryAt st)
        else bindP now_op (\<lambda>endedAt. bindP (resolveRunResult ws run steps) (\<lambda>result.
          bindP (TransitionWorkflowRun ((run_transition (r_ID run) RunStatusRunning RunStatusSucceeded)
                   \<lparr>ti_EndedAt := Some endedAt, ti_Result := result\<rparr>)) (\<lambda>_.
          retP (ds_dispatched st, False, None))))) s') = Inr (k, active, retryAt)"
    using bindP_result [OF assms [unfolded dispatchReadyNodes_def]] dispatch_loop_moves by blast
  have moved: "ds_running st = ?run + int (ds_dispatched st)" using l by (simp add: loop_moves_def)
  have run: "0 < ?run" if "\<exists>n\<in>set steps. n_Status n = NodeRunStatusRunning"
    using that by (auto simp: filter_empty_conv)
  show "(\<exists>n\<in>set steps. wanted steps n) \<longrightarrow> 0 < k \<or> retryAt \<noteq> None \<or> active \<and> limit \<le> ?run + int k"
  proof
    assume w: "\<exists>n\<in>set steps. wanted steps n"
    then have "ds_pendingRemains st" using l unfolding loop_moves_def wanted_def by blast
    then have "k = ds_dispatched st \<and> (active \<longleftrightarrow> ds_active st \<or> ds_running st > 0) \<and> retryAt = ds_retryAt st"
      using r by (auto simp: retP_def)
    then show "0 < k \<or> retryAt \<noteq> None \<or> active \<and> limit \<le> ?run + int k"
      using l w moved by (auto simp: loop_moves_def)
  qed
  show "(\<exists>n\<in>set steps. n_Status n = NodeRunStatusRunning) \<longrightarrow> active"
  proof
    assume some: "\<exists>n\<in>set steps. n_Status n = NodeRunStatusRunning"
    then have "0 < ds_running st" using run [OF some] moved by linarith
    then show active using r by (simp add: retP_def)
  qed
qed

lemma next_pass_None:
  "next_pass run steps a (k, active, retryAt) wake now = None \<Longrightarrow>
     \<not> a \<and> \<not> active \<and> k = 0 \<and> retryAt = None \<and> wake = None \<and> \<not> hasWaitingNode steps"
  by (auto simp: next_pass_def Let_def split: if_splits)

text \<open>C9: A running run makes progress. Of the rows of an accepted definition none of which ended badly, either all
  have succeeded, or the pass that dispatched them asks for the next one; and if nothing was in flight, it has started
  a node or opened a request. So no run waits for nothing.\<close>

theorem pass_makes_progress:
  assumes def: "parseDefinition cd raw = Inr def" and rows: "instantiates (df_Nodes def) steps"
    and bad: "\<not> list_ex ended_badly steps" and limit: "1 \<le> limit"
    and out: "fst (dispatchReadyNodes ws sp u run steps limit now s) = Inr (k, active, retryAt)"
  shows "list_all (\<lambda>n. n_Status n = NodeRunStatusSucceeded) steps
    \<or> next_pass run steps a (k, active, retryAt) wake now \<noteq> None \<and> (list_ex in_flight steps \<or> 0 < k \<or> retryAt \<noteq> None)"
proof (cases "list_ex in_flight steps")
  case True
  then consider n where "n \<in> set steps" "n_Status n = NodeRunStatusRunning" | n where "n \<in> set steps" "n_Status n = NodeRunStatusWaiting"
    | n where "n \<in> set steps" "n_Status n = NodeRunStatusRetryWait"
    by (auto simp: list_ex_iff in_flight_def)
  then have "next_pass run steps a (k, active, retryAt) wake now \<noteq> None"
  proof cases
    case 1
    then show ?thesis using dispatch_result(2) [OF out] next_pass_None by blast
  next
    case 2
    then have "hasWaitingNode steps" by (auto simp: hasWaitingNode_def list_ex_iff)
    then show ?thesis using next_pass_None by blast
  next
    case 3
    then show ?thesis using dispatch_result(1) [OF out] next_pass_None [of run steps a k active retryAt wake now] by (auto simp: wanted_def)
  qed
  then show ?thesis using True by simp
next
  case False
  have st: "\<forall>n\<in>set steps. n_Status n = NodeRunStatusPending \<or> n_Status n = NodeRunStatusSucceeded"
  proof
    fix n assume "n \<in> set steps"
    then have "\<not> in_flight n" "\<not> ended_badly n" using False bad by (auto simp: list_ex_iff)
    then show "n_Status n = NodeRunStatusPending \<or> n_Status n = NodeRunStatusSucceeded"
      by (cases "n_Status n") (auto simp: in_flight_def ended_badly_def)
  qed
  show ?thesis
  proof (cases "\<exists>n\<in>set steps. n_Status n = NodeRunStatusPending")
    case True
    have wf: "distinct (node_ids (df_Nodes def))" "edges_ok (df_Nodes def)" "acyclic (needs_edges (df_Nodes def))"
      using parseDefinition_wf [OF def] by (simp_all add: wf_definition_def)
    obtain g where "graph_of (df_Nodes def) g" by (rule BuildGraph_outcome [OF wf(1)]) (use wf in auto)
    then have "\<exists>n\<in>set steps. wanted steps n" using ready_node_exists [OF _ rows st True] by (auto simp: wanted_def)
    moreover have "filter (\<lambda>n. n_Status n = NodeRunStatusRunning) steps = []" using st by (auto simp: filter_empty_conv)
    ultimately have "0 < k \<or> retryAt \<noteq> None" using dispatch_result(1) [OF out] limit by auto
    then show ?thesis using next_pass_None [of run steps a k active retryAt wake now] by auto
  next
    case no: False
    then show ?thesis using st by (auto simp: list_all_iff)
  qed
qed

theorem pass_makes_progress_witness:
  "next_pass demo_row [(demo_noderun demo_ask ''a'' [])\<lparr>n_Status := NodeRunStatusRunning\<rparr>] False (0, True, None) None 0 \<noteq> None"
proof -
  let ?n = "(demo_noderun demo_ask ''a'' [])\<lparr>n_Status := NodeRunStatusRunning\<rparr>"
  have out: "fst (dispatchReadyNodes demo_ws '''' demo_user demo_row [?n] 1 0 (demo_sys demo_db demo_db)) = Inr (0, True, None)"
    by (simp add: dispatchReadyNodes_def retP_def bindP_def)
  have "instantiates (df_Nodes single) [?n]"
    by (simp add: instantiates_def single_def node_ids_def declared_needs_def demo_node_def)
  moreover have "\<not> list_ex ended_badly [?n]" by (simp add: ended_badly_def)
  ultimately show ?thesis using pass_makes_progress [OF single_parse _ _ _ out, of False None] by simp
qed

end
