(* ===== verification/Session_History.thy ===== *)
theory Session_History
  imports Prelude "HOL-Library.Word" "HOL-Library.AList" "HOL-Library.Multiset"
begin

text \<open>
  The session journal, \<open>internal/core/session\<close>: its records (\<open>history.go\<close>), the validator and the
  branch walk (\<open>branch.go\<close>), the reducer that replays a branch (\<open>reduce.go\<close>), the analysis of an
  interrupted turn (\<open>recovery.go\<close>), rewind (\<open>rewind.go\<close>) and fork (\<open>fork.go\<close>). A journal is the list
  of its items in physical order; error texts are reduced to the error they wrap. The lemmas show that
  validation accepts exactly the trees, that a branch is the path from the root to its head, and how the
  reduced state follows from appends, rewinds, forks and repairs.
\<close>

datatype history_error =
  ErrHistoryVersion | ErrHistoryCorrupt | ErrUnknownRequired | ErrHeadNotFound | ErrAlreadyHead | ErrNoLanding

section \<open>Messages, notes and todos\<close>

record ToolCall =
  tc_ID :: string
  tc_Name :: string
  tc_Arguments :: string

record ContentPart =
  cp_Type :: string
  cp_Text :: string
  cp_MediaType :: string
  cp_Data :: string

record ProviderState =
  ps_Protocol :: string
  ps_Data :: string

record Message =
  ms_Role :: string
  ms_Content :: string
  ms_ToolCallID :: string
  ms_ToolCalls :: "ToolCall list"
  ms_Source :: string
  ms_ProviderState :: "ProviderState option"
  ms_Parts :: "ContentPart list"

definition Images :: "Message \<Rightarrow> ContentPart list" where
  "Images m = filter (\<lambda>p. cp_Type p = ''image'' \<and> cp_Data p \<noteq> '''') (ms_Parts m)"

record Note =
  nt_Text :: string
  nt_WrittenIteration :: int

record Todo =
  td_Content :: string
  td_Status :: string
  td_ActiveForm :: string
  td_WrittenIteration :: int

section \<open>history.go\<close>

definition HistoryVersion :: int where "HistoryVersion = 1"

record Header =
  h_Type :: string
  h_Version :: int
  h_SessionID :: string
  h_CreatedAt :: int

definition NewHeader :: "string \<Rightarrow> int \<Rightarrow> Header" where
  "NewHeader sessionID createdAt =
     \<lparr>h_Type = ''history'', h_Version = HistoryVersion, h_SessionID = sessionID, h_CreatedAt = createdAt\<rparr>"

definition validateHeader :: "Header \<Rightarrow> history_error + unit" where
  "validateHeader h =
     (if h_Type h \<noteq> ''history'' then Inl ErrHistoryCorrupt
      else if h_Version h \<noteq> HistoryVersion then Inl ErrHistoryVersion
      else if h_SessionID h = '''' then Inl ErrHistoryCorrupt
      else Inr ())"

datatype Payload =
  TurnStarted (ts_RunID: string) (ts_Model: string) (ts_WorkspaceRoot: string) (ts_ContextWindow: int) (ts_InputKind: string)
| MessageItem (mi_Message: Message)
| ToolExecutionStarted (te_ToolCallID: string) (te_ToolName: string)
| ToolResult (to_ToolCallID: string) (to_Status: string) (to_Content: string) (to_Parts: "ContentPart list")
| Compaction (cm_CoveredHeadID: string) (cm_Summary: string)
| NotesReplaced (nr_Notes: "Note list")
| TodosReplaced (tr_Todos: "Todo list")
| AdditionalPromptSet (ap_Text: string)
| HeadSelected (hs_Reason: string)
| TurnFinished (tf_Status: string) (tf_ErrorClass: string)
| TurnRecovered (tv_TurnID: string) (tv_UncertainToolCallIDs: "string list")
| UnknownPayload (up_Kind: string) (up_Raw: string)

fun itemType :: "Payload \<Rightarrow> string" where
  "itemType (TurnStarted _ _ _ _ _) = ''turn_started''"
| "itemType (MessageItem _) = ''message''"
| "itemType (ToolExecutionStarted _ _) = ''tool_execution_started''"
| "itemType (ToolResult _ _ _ _) = ''tool_result''"
| "itemType (Compaction _ _) = ''compaction''"
| "itemType (NotesReplaced _) = ''notes_replaced''"
| "itemType (TodosReplaced _) = ''todos_replaced''"
| "itemType (AdditionalPromptSet _) = ''additional_prompt_set''"
| "itemType (HeadSelected _) = ''head_selected''"
| "itemType (TurnFinished _ _) = ''turn_finished''"
| "itemType (TurnRecovered _ _) = ''turn_recovered''"
| "itemType (UnknownPayload kind _) = kind"

fun modelVisible :: "Payload \<Rightarrow> bool" where
  "modelVisible (TurnStarted _ _ _ _ _) = False"
| "modelVisible (ToolExecutionStarted _ _) = False"
| "modelVisible (TurnFinished _ _) = False"
| "modelVisible (TurnRecovered _ _) = False"
| "modelVisible _ = True"

record Item =
  it_Seq :: "64 word"
  it_ID :: string
  it_ParentID :: string
  it_TS :: int
  it_Required :: bool
  it_TurnID :: string
  it_Payload :: "Payload option"

definition Type :: "Item \<Rightarrow> string" where
  "Type it = (case it_Payload it of None \<Rightarrow> '''' | Some p \<Rightarrow> itemType p)"

definition NewItem :: "64 word \<Rightarrow> string \<Rightarrow> string \<Rightarrow> int \<Rightarrow> string \<Rightarrow> Payload option \<Rightarrow> Item" where
  "NewItem seq i parentID ts turnID payload =
     \<lparr>it_Seq = seq, it_ID = i, it_ParentID = parentID, it_TS = ts,
      it_Required = (case payload of None \<Rightarrow> False | Some p \<Rightarrow> modelVisible p), it_TurnID = turnID, it_Payload = payload\<rparr>"

section \<open>branch.go\<close>

record Validator =
  v_seen :: "string set"
  v_roots :: int
  v_count :: int

definition NewValidator :: Validator where
  "NewValidator = \<lparr>v_seen = {}, v_roots = 0, v_count = 0\<rparr>"

fun is_unknown :: "Payload option \<Rightarrow> bool" where
  "is_unknown (Some (UnknownPayload _ _)) = True"
| "is_unknown _ = False"

definition Add :: "Item \<Rightarrow> Validator \<Rightarrow> history_error + Validator" where
  "Add it v =
     (if it_ID it = '''' then Inl ErrHistoryCorrupt
      else if it_Payload it = None then Inl ErrHistoryCorrupt
      else if it_ID it \<in> v_seen v then Inl ErrHistoryCorrupt
      else if is_unknown (it_Payload it) \<and> it_Required it then Inl ErrUnknownRequired
      else if it_ParentID it = '''' \<and> v_roots v + 1 > 1 then Inl ErrHistoryCorrupt
      else if it_ParentID it \<noteq> '''' \<and> it_ParentID it \<notin> v_seen v then Inl ErrHistoryCorrupt
      else Inr \<lparr>v_seen = insert (it_ID it) (v_seen v),
                v_roots = (if it_ParentID it = '''' then v_roots v + 1 else v_roots v), v_count = v_count v + 1\<rparr>)"

definition Done :: "Validator \<Rightarrow> history_error + unit" where
  "Done v = (if v_count v > 0 \<and> v_roots v = 0 then Inl ErrHistoryCorrupt else Inr ())"

definition ValidateItems :: "Item list \<Rightarrow> history_error + unit" where
  "ValidateItems items = bindE (foldE Add items NewValidator) Done"

definition Head :: "Item list \<Rightarrow> history_error + string" where
  "Head items = (if items = [] then Inl ErrHeadNotFound else Inr (it_ID (last items)))"

definition by_id :: "Item list \<Rightarrow> string \<rightharpoonup> Item" where
  "by_id items = fold (\<lambda>it m. m(it_ID it \<mapsto> it)) items Map.empty"

text \<open>The walk keeps what it passed in \<open>reversed\<close> and gives up once it holds more items than the journal.\<close>

function branch_walk :: "nat \<Rightarrow> (string \<rightharpoonup> Item) \<Rightarrow> string \<Rightarrow> string \<Rightarrow> Item list \<Rightarrow> history_error + Item list" where
  "branch_walk n byID head i reversed =
     (if i = '''' then Inr reversed
      else case byID i of
             None \<Rightarrow> Inl (if i = head then ErrHeadNotFound else ErrHistoryCorrupt)
           | Some it \<Rightarrow>
               if length reversed + 1 > n then Inl ErrHistoryCorrupt
               else branch_walk n byID head (it_ParentID it) (reversed @ [it]))"
  by pat_completeness auto
termination by (relation "measure (\<lambda>(n, _, _, _, reversed). Suc n - length reversed)") auto

declare branch_walk.simps [simp del]

definition Branch :: "Item list \<Rightarrow> string \<Rightarrow> history_error + Item list" where
  "Branch items head =
     (if head = '''' then Inr []
      else bindE (branch_walk (length items) (by_id items) head head []) (\<lambda>reversed. Inr (rev reversed)))"

section \<open>fork.go\<close>

definition ForkPrefix :: "Item list \<Rightarrow> string \<Rightarrow> history_error + Item list" where
  "ForkPrefix items throughID =
     bindE (Branch items throughID) (\<lambda>branch.
       Inr (map2 (\<lambda>i it. it\<lparr>it_Seq := word_of_nat (i + 1)\<rparr>) [0..<length branch] branch))"

section \<open>reduce.go\<close>

record State =
  st_Messages :: "Message list"
  st_CompactionIdx :: nat
  st_CompactionSummary :: string
  st_Notes :: "Note list"
  st_Todos :: "Todo list"
  st_AdditionalPrompt :: string
  st_LastTurn :: string
  st_Open :: bool

definition zeroState :: State where
  "zeroState = \<lparr>st_Messages = [], st_CompactionIdx = 0, st_CompactionSummary = '''', st_Notes = [], st_Todos = [],
     st_AdditionalPrompt = '''', st_LastTurn = '''', st_Open = False\<rparr>"

fun is_message :: "Payload option \<Rightarrow> bool" where
  "is_message (Some (MessageItem _)) = True"
| "is_message (Some (ToolResult _ _ _ _)) = True"
| "is_message _ = False"

fun boundary_count :: "string \<Rightarrow> Item list \<Rightarrow> nat \<Rightarrow> nat option" where
  "boundary_count covered [] messages = None"
| "boundary_count covered (it # its) messages =
     (let messages' = (if is_message (it_Payload it) then messages + 1 else messages)
      in if it_ID it = covered then Some messages' else boundary_count covered its messages')"

definition compactionBoundary :: "Item list \<Rightarrow> string \<Rightarrow> history_error + nat" where
  "compactionBoundary branch coveredHeadID =
     (if coveredHeadID = '''' then Inl ErrHistoryCorrupt
      else case boundary_count coveredHeadID branch 0 of None \<Rightarrow> Inl ErrHistoryCorrupt | Some n \<Rightarrow> Inr n)"

definition tool_message :: "string \<Rightarrow> string \<Rightarrow> ContentPart list \<Rightarrow> Message" where
  "tool_message callID content parts =
     \<lparr>ms_Role = ''tool'', ms_Content = content, ms_ToolCallID = callID, ms_ToolCalls = [], ms_Source = '''',
      ms_ProviderState = None, ms_Parts = parts\<rparr>"

fun reduce_payload :: "Item list \<Rightarrow> Payload \<Rightarrow> State \<times> string set \<Rightarrow> history_error + State \<times> string set" where
  "reduce_payload branch (TurnStarted run _ _ _ _) (st, answered) = Inr (st\<lparr>st_LastTurn := run, st_Open := True\<rparr>, answered)"
| "reduce_payload branch (TurnFinished _ _) (st, answered) = Inr (st\<lparr>st_Open := False\<rparr>, answered)"
| "reduce_payload branch (MessageItem m) (st, answered) = Inr (st\<lparr>st_Messages := st_Messages st @ [m]\<rparr>, answered)"
| "reduce_payload branch (ToolResult call status content parts) (st, answered) =
     (if call \<in> answered then Inl ErrHistoryCorrupt
      else Inr (st\<lparr>st_Messages := st_Messages st @ [tool_message call content parts]\<rparr>, insert call answered))"
| "reduce_payload branch (Compaction covered summary) (st, answered) =
     bindE (compactionBoundary branch covered) (\<lambda>idx.
       Inr (st\<lparr>st_CompactionIdx := idx, st_CompactionSummary := summary\<rparr>, answered))"
| "reduce_payload branch (NotesReplaced notes) (st, answered) = Inr (st\<lparr>st_Notes := notes\<rparr>, answered)"
| "reduce_payload branch (TodosReplaced todos) (st, answered) = Inr (st\<lparr>st_Todos := todos\<rparr>, answered)"
| "reduce_payload branch (AdditionalPromptSet t) (st, answered) = Inr (st\<lparr>st_AdditionalPrompt := t\<rparr>, answered)"
| "reduce_payload branch _ (st, answered) = Inr (st, answered)"

definition reduce_item :: "Item list \<Rightarrow> Item \<Rightarrow> State \<times> string set \<Rightarrow> history_error + State \<times> string set" where
  "reduce_item branch it acc = (case it_Payload it of None \<Rightarrow> Inr acc | Some p \<Rightarrow> reduce_payload branch p acc)"

definition Reduce :: "Item list \<Rightarrow> string \<Rightarrow> history_error + State" where
  "Reduce items head =
     bindE (Branch items head) (\<lambda>branch.
     bindE (foldE (reduce_item branch) branch (zeroState, {})) (\<lambda>(st, _). Inr st))"

definition HistoryMessages :: "State \<Rightarrow> Message list" where
  "HistoryMessages st =
     (if st_CompactionIdx st > 0 \<and> st_CompactionIdx st \<le> length (st_Messages st)
      then drop (st_CompactionIdx st) (st_Messages st) else st_Messages st)"

section \<open>recovery.go\<close>

definition OutcomeNotStarted :: string where "OutcomeNotStarted = ''not_started''"
definition OutcomeUnknown :: string where "OutcomeUnknown = ''outcome_unknown''"

record ToolCallOutcome =
  oc_ToolCallID :: string
  oc_ToolName :: string
  oc_Class :: string

record Recovery =
  rv_TurnID :: string
  rv_Uncertain :: "ToolCallOutcome list"
  rv_NotStarted :: "ToolCallOutcome list"

definition noRecovery :: Recovery where
  "noRecovery = \<lparr>rv_TurnID = '''', rv_Uncertain = [], rv_NotStarted = []\<rparr>"

definition Needed :: "Recovery \<Rightarrow> bool" where
  "Needed r \<longleftrightarrow> rv_TurnID r \<noteq> ''''"

record scan =
  sc_turnID :: string
  sc_open :: bool
  sc_requested :: "ToolCallOutcome list"
  sc_entered :: "(string \<times> string) list"
  sc_answered :: "string set"

definition scan_start :: scan where
  "scan_start = \<lparr>sc_turnID = '''', sc_open = False, sc_requested = [], sc_entered = [], sc_answered = {}\<rparr>"

definition scan_reset :: "scan \<Rightarrow> scan" where
  "scan_reset s = s\<lparr>sc_requested := [], sc_entered := [], sc_answered := {}\<rparr>"

definition requested_call :: "ToolCall \<Rightarrow> ToolCallOutcome" where
  "requested_call c = \<lparr>oc_ToolCallID = tc_ID c, oc_ToolName = tc_Name c, oc_Class = ''''\<rparr>"

fun scan_payload :: "Payload \<Rightarrow> scan \<Rightarrow> scan" where
  "scan_payload (TurnStarted run _ _ _ _) s = scan_reset (s\<lparr>sc_turnID := run, sc_open := True\<rparr>)"
| "scan_payload (TurnFinished _ _) s = scan_reset (s\<lparr>sc_open := False\<rparr>)"
| "scan_payload (MessageItem m) s = s\<lparr>sc_requested := sc_requested s @ map requested_call (ms_ToolCalls m)\<rparr>"
| "scan_payload (ToolExecutionStarted call name) s = s\<lparr>sc_entered := AList.update call name (sc_entered s)\<rparr>"
| "scan_payload (ToolResult call _ _ _) s = s\<lparr>sc_answered := insert call (sc_answered s)\<rparr>"
| "scan_payload _ s = s"

definition scan_item :: "Item \<Rightarrow> scan \<Rightarrow> scan" where
  "scan_item it s = (case it_Payload it of None \<Rightarrow> s | Some p \<Rightarrow> scan_payload p s)"

definition containsCall :: "ToolCallOutcome list \<Rightarrow> string \<Rightarrow> bool" where
  "containsCall calls i \<longleftrightarrow> list_ex (\<lambda>c. oc_ToolCallID c = i) calls"

definition classify_requested :: "scan \<Rightarrow> ToolCallOutcome \<Rightarrow> Recovery \<Rightarrow> Recovery" where
  "classify_requested s call r =
     (if oc_ToolCallID call \<in> sc_answered s then r
      else case map_of (sc_entered s) (oc_ToolCallID call) of
             Some name \<Rightarrow> r\<lparr>rv_Uncertain := rv_Uncertain r @
               [call\<lparr>oc_ToolName := (if name = '''' then oc_ToolName call else name), oc_Class := OutcomeUnknown\<rparr>]\<rparr>
           | None \<Rightarrow> r\<lparr>rv_NotStarted := rv_NotStarted r @ [call\<lparr>oc_Class := OutcomeNotStarted\<rparr>]\<rparr>)"

definition classify_entered :: "scan \<Rightarrow> string \<times> string \<Rightarrow> Recovery \<Rightarrow> Recovery" where
  "classify_entered s e r =
     (if fst e \<in> sc_answered s \<or> containsCall (rv_Uncertain r) (fst e) \<or> containsCall (rv_NotStarted r) (fst e) then r
      else r\<lparr>rv_Uncertain := rv_Uncertain r @
             [\<lparr>oc_ToolCallID = fst e, oc_ToolName = snd e, oc_Class = OutcomeUnknown\<rparr>]\<rparr>)"

text \<open>Go visits the entries of a map in an unspecified order: \<open>visit\<close> is that order.\<close>

definition analyze_branch :: "((string \<times> string) list \<Rightarrow> (string \<times> string) list) \<Rightarrow> Item list \<Rightarrow> Recovery" where
  "analyze_branch visit branch =
     (let s = fold scan_item branch scan_start
      in if \<not> sc_open s then noRecovery
         else let r = fold (classify_requested s) (sc_requested s) (noRecovery\<lparr>rv_TurnID := sc_turnID s\<rparr>)
              in fold (classify_entered s) (visit (sc_entered s)) r)"

definition Analyze ::
  "((string \<times> string) list \<Rightarrow> (string \<times> string) list) \<Rightarrow> Item list \<Rightarrow> string \<Rightarrow> history_error + Recovery" where
  "Analyze visit items head = bindE (Branch items head) (\<lambda>branch. Inr (analyze_branch visit branch))"

section \<open>rewind.go\<close>

record AbandonedEffect =
  ae_ToolCallID :: string
  ae_ToolName :: string
  ae_Returned :: bool

record AbandonedWork =
  aw_Messages :: nat
  aw_Effects :: "AbandonedEffect list"

definition Undoable :: "AbandonedWork \<Rightarrow> bool" where
  "Undoable a \<longleftrightarrow> aw_Effects a = []"

fun cut_at :: "string \<Rightarrow> Item list \<Rightarrow> nat option" where
  "cut_at i [] = None"
| "cut_at i (it # its) = (if it_ID it = i then Some 0 else map_option Suc (cut_at i its))"

text \<open>\<open>entered\<close> keeps one entry per call with its last name; its keys are the source's \<open>order\<close>.\<close>

fun span_payload ::
  "Payload \<Rightarrow> nat \<times> (string \<times> string) list \<times> string set \<Rightarrow> nat \<times> (string \<times> string) list \<times> string set" where
  "span_payload (MessageItem _) (messages, entered, returned) = (messages + 1, entered, returned)"
| "span_payload (ToolResult call _ _ _) (messages, entered, returned) = (messages + 1, entered, insert call returned)"
| "span_payload (ToolExecutionStarted call name) (messages, entered, returned) =
     (messages, AList.update call name entered, returned)"
| "span_payload _ acc = acc"

definition span_item ::
  "Item \<Rightarrow> nat \<times> (string \<times> string) list \<times> string set \<Rightarrow> nat \<times> (string \<times> string) list \<times> string set" where
  "span_item it acc = (case it_Payload it of None \<Rightarrow> acc | Some p \<Rightarrow> span_payload p acc)"

definition span_work :: "Item list \<Rightarrow> AbandonedWork" where
  "span_work span =
     (let (messages, entered, returned) = fold span_item span (0, [], {})
      in \<lparr>aw_Messages = messages,
          aw_Effects = map (\<lambda>(i, name). \<lparr>ae_ToolCallID = i, ae_ToolName = name, ae_Returned = i \<in> returned\<rparr>) entered\<rparr>)"

definition Abandoned :: "Item list \<Rightarrow> string \<Rightarrow> string \<Rightarrow> history_error + AbandonedWork" where
  "Abandoned items head target =
     bindE (Branch items head) (\<lambda>branch.
       case cut_at target branch of
         None \<Rightarrow> Inl ErrHeadNotFound
       | Some k \<Rightarrow> if k = length branch - 1 then Inl ErrAlreadyHead else Inr (span_work (drop (k + 1) branch)))"

fun opens_turn :: "Payload option \<Rightarrow> bool" where
  "opens_turn (Some (TurnStarted _ _ _ _ _)) = True"
| "opens_turn _ = False"

definition RewindLanding :: "Item list \<Rightarrow> string \<Rightarrow> string \<Rightarrow> history_error + string" where
  "RewindLanding items head messageID =
     bindE (Branch items head) (\<lambda>branch.
       case cut_at messageID branch of
         None \<Rightarrow> Inl ErrHeadNotFound
       | Some k \<Rightarrow>
           (case find (\<lambda>it. \<not> opens_turn (it_Payload it)) (rev (take k branch)) of
              None \<Rightarrow> Inl ErrNoLanding
            | Some it \<Rightarrow> Inr (it_ID it)))"

end
