(* ===== verification/Session_Branch.thy ===== *)
theory Session_Branch
  imports Session_History "HOL-Library.Sublist"
begin

text \<open>
  Journals as trees. \<open>journal_ok\<close> says that every record extends the ones before it; validation decides
  it. On such a journal the branch of a record is found by one backward pass, \<open>path_to\<close>, and the parent
  walk of the code is that pass. A branch is a journal of its own, which is what a fork copies.
\<close>

section \<open>Validation\<close>

definition ids :: "Item list \<Rightarrow> string set" where
  "ids items = it_ID ` set items"

definition extends :: "Item list \<Rightarrow> Item \<Rightarrow> bool" where
  "extends items it \<longleftrightarrow> it_ID it \<noteq> '''' \<and> it_ID it \<notin> ids items \<and> it_Payload it \<noteq> None
     \<and> \<not> (is_unknown (it_Payload it) \<and> it_Required it)
     \<and> (if items = [] then it_ParentID it = '''' else it_ParentID it \<in> ids items)"

definition journal_ok :: "Item list \<Rightarrow> bool" where
  "journal_ok items \<longleftrightarrow> (\<forall>k<length items. extends (take k items) (items ! k))"

lemma ids_simps [simp]:
  "ids [] = {}" "ids (it # its) = insert (it_ID it) (ids its)" "ids (xs @ ys) = ids xs \<union> ids ys"
  by (simp_all add: ids_def image_Un)

lemma journal_ok_Nil [simp]: "journal_ok []"
  by (simp add: journal_ok_def)

lemma journal_ok_snoc [simp]: "journal_ok (items @ [it]) \<longleftrightarrow> journal_ok items \<and> extends items it"
  unfolding journal_ok_def by (auto simp: less_Suc_eq nth_append)

lemma extendsD: "extends items it \<Longrightarrow> it_ID it \<noteq> '''' \<and> it_ID it \<notin> ids items"
  by (simp add: extends_def)

lemma no_empty_id: "journal_ok items \<Longrightarrow> '''' \<notin> ids items"
  by (induction items rule: rev_induct) (auto simp: extends_def)

lemma extends_parent:
  "journal_ok items \<Longrightarrow> extends items it \<Longrightarrow> it_ParentID it = '''' \<or> it_ParentID it \<in> ids items"
  by (auto simp: extends_def split: if_splits)

definition validated :: "Item list \<Rightarrow> Validator" where
  "validated items = \<lparr>v_seen = ids items, v_roots = (if items = [] then 0 else 1), v_count = int (length items)\<rparr>"

lemma Add_iff:
  assumes "journal_ok items"
  shows "Add it (validated items) = Inr v \<longleftrightarrow> extends items it \<and> v = validated (items @ [it])"
  using no_empty_id [OF assms] by (auto simp: Add_def validated_def extends_def)

lemma fold_Add_iff:
  "foldE Add items NewValidator = Inr v \<longleftrightarrow> journal_ok items \<and> v = validated items"
proof (induction items arbitrary: v rule: rev_induct)
  case Nil
  show ?case by (auto simp: NewValidator_def validated_def)
next
  case (snoc it items)
  then show ?case using Add_iff by (auto simp: foldE_append)
qed

lemma ValidateItems_iff: "ValidateItems items = Inr () \<longleftrightarrow> journal_ok items"
  by (auto simp: ValidateItems_def fold_Add_iff Done_def validated_def)

section \<open>Branches\<close>

fun scan_back :: "Item list \<Rightarrow> string \<Rightarrow> Item list" where
  "scan_back [] h = []"
| "scan_back (it # its) h = (if it_ID it = h then scan_back its (it_ParentID it) @ [it] else scan_back its h)"

definition path_to :: "Item list \<Rightarrow> string \<Rightarrow> Item list" where
  "path_to items h = scan_back (rev items) h"

lemma path_to_Nil [simp]: "path_to [] h = []"
  by (simp add: path_to_def)

lemma path_to_snoc:
  "path_to (items @ [it]) h = (if it_ID it = h then path_to items (it_ParentID it) @ [it] else path_to items h)"
  by (simp add: path_to_def)

lemma path_to_none: "h \<notin> ids items \<Longrightarrow> path_to items h = []"
  by (induction items arbitrary: h rule: rev_induct) (auto simp: path_to_snoc)

lemma path_to_root [simp]: "journal_ok items \<Longrightarrow> path_to items '''' = []"
  by (rule path_to_none) (rule no_empty_id)

lemma path_to_extend:
  assumes "journal_ok items" "extends items it"
  shows "path_to (items @ [it]) (it_ID it) = path_to items (it_ParentID it) @ [it]"
    "h \<in> ids items \<Longrightarrow> path_to (items @ [it]) h = path_to items h"
  using extendsD [OF assms(2)] by (auto simp: path_to_snoc)

lemma by_id_snoc: "by_id (items @ [it]) = (by_id items)(it_ID it \<mapsto> it)"
  by (simp add: by_id_def)

lemma by_id_None: "by_id items i = None \<longleftrightarrow> i \<notin> ids items"
  by (induction items rule: rev_induct) (simp_all add: by_id_snoc, simp add: by_id_def)

lemma by_id_append: "journal_ok (items @ rest) \<Longrightarrow> i \<in> ids items \<Longrightarrow> by_id (items @ rest) i = by_id items i"
proof (induction rest rule: rev_induct)
  case (snoc it rest)
  from snoc.prems(1) have ok: "journal_ok (items @ rest)" "extends (items @ rest) it"
    using journal_ok_snoc [of "items @ rest" it] by simp_all
  then have "it_ID it \<noteq> i" using snoc.prems(2) by (auto simp: extends_def)
  then show ?case using snoc.IH [OF ok(1) snoc.prems(2)] by_id_snoc [of "items @ rest" it] by simp
qed simp

lemma branch_walk_path:
  assumes "journal_ok (items @ rest)" "i = '''' \<or> i \<in> ids items" "length rv + length items \<le> n"
  shows "branch_walk n (by_id (items @ rest)) h i rv = Inr (rv @ rev (path_to items i))"
  using assms
proof (induction items arbitrary: i rv rest rule: rev_induct)
  case Nil
  then show ?case by (simp add: branch_walk.simps)
next
  case (snoc it items)
  have ok: "journal_ok (items @ it # rest)" using snoc.prems(1) by simp
  have "journal_ok (items @ [it])"
    using snoc.prems(1) by (induction rest rule: rev_induct) (simp_all flip: append_assoc)
  then have ext: "journal_ok items" "extends items it" by simp_all
  show ?case
  proof (cases "i = it_ID it")
    case True
    have "by_id (items @ it # rest) i = Some it"
      using by_id_append [of "items @ [it]" rest i] snoc.prems(1) True by (simp add: by_id_snoc)
    then show ?thesis
      using snoc.IH [OF ok extends_parent [OF ext], of "rv @ [it]"] snoc.prems(3) True extendsD [OF ext(2)]
        path_to_extend(1) [OF ext]
      by (simp add: branch_walk.simps [of n _ h "it_ID it"])
  next
    case False
    then have "i = '''' \<or> i \<in> ids items" using snoc.prems(2) by simp
    then show ?thesis
      using snoc.IH [OF ok, of i rv] snoc.prems(3) False by (simp add: path_to_snoc)
  qed
qed

lemma Branch_path:
  assumes "journal_ok items"
  shows "Branch items h = (if h = '''' \<or> h \<in> ids items then Inr (path_to items h) else Inl ErrHeadNotFound)"
proof (cases "h = '''' \<or> h \<in> ids items")
  case True
  then show ?thesis using branch_walk_path [of items "[]" h "[]" "length items" h] assms by (auto simp: Branch_def)
next
  case False
  then have "by_id items h = None" by (simp add: by_id_None)
  then show ?thesis using False by (simp add: Branch_def branch_walk.simps)
qed

lemma subseq_path: "subseq (path_to items h) items"
proof (induction items arbitrary: h rule: rev_induct)
  case (snoc it items)
  then show ?case
    using list_emb_append_mono [OF snoc subseq_order.refl, of "it_ParentID it" "[it]"] list_emb_prefix [OF snoc, of h "[it]"]
    by (simp add: path_to_snoc)
qed simp

lemma path_ids: "ids (path_to items h) \<subseteq> ids items"
proof -
  have "set (path_to items h) \<subseteq> set items" using list_emb_set [OF subseq_path [of items h]] by blast
  then show ?thesis by (simp add: ids_def image_mono)
qed

lemma path_end: "h \<in> ids items \<Longrightarrow> path_to items h \<noteq> [] \<and> it_ID (last (path_to items h)) = h"
  by (induction items rule: rev_induct) (auto simp: path_to_snoc)

lemma path_member: "h \<in> ids items \<Longrightarrow> h \<in> ids (path_to items h)"
  using path_end [of h items] unfolding ids_def by (metis image_eqI last_in_set)

lemma extends_path:
  assumes "journal_ok items" "extends items it"
  shows "extends (path_to items (it_ParentID it)) it"
proof -
  have "it_ID it \<notin> ids (path_to items (it_ParentID it))"
    using path_ids [of items "it_ParentID it"] assms(2) by (auto simp: extends_def)
  moreover have "it_ParentID it \<in> ids items \<Longrightarrow> it_ParentID it \<in> ids (path_to items (it_ParentID it))"
    by (rule path_member)
  moreover have "it_ParentID it \<in> ids items \<Longrightarrow> path_to items (it_ParentID it) \<noteq> []"
    using path_end [of "it_ParentID it" items] by blast
  ultimately show ?thesis using assms by (auto simp: extends_def split: if_splits)
qed

lemma path_ok: "journal_ok items \<Longrightarrow> journal_ok (path_to items h)"
proof (induction items arbitrary: h rule: rev_induct)
  case (snoc it items)
  then show ?case using extends_path [of items it] by (simp add: path_to_snoc)
qed simp

lemma path_of_path: "journal_ok items \<Longrightarrow> path_to (path_to items h) h = path_to items h"
proof (induction items arbitrary: h rule: rev_induct)
  case (snoc it items)
  let ?p = "path_to items (it_ParentID it)"
  show ?case
  proof (cases "it_ID it = h")
    case True
    then show ?thesis using snoc by (simp add: path_to_snoc)
  next
    case False
    then show ?thesis using snoc by (simp add: path_to_snoc)
  qed
qed simp

definition linked :: "Item list \<Rightarrow> bool" where
  "linked p \<longleftrightarrow> (\<forall>k. Suc k < length p \<longrightarrow> it_ParentID (p ! Suc k) = it_ID (p ! k))"

lemma linked_snoc:
  "linked (p @ [it]) \<longleftrightarrow> linked p \<and> (p \<noteq> [] \<longrightarrow> it_ParentID it = it_ID (last p))"
proof -
  have "(\<forall>k. Suc k < length (p @ [it]) \<longrightarrow> it_ParentID ((p @ [it]) ! Suc k) = it_ID ((p @ [it]) ! k)) \<longleftrightarrow>
      (\<forall>k. Suc k < length p \<longrightarrow> it_ParentID (p ! Suc k) = it_ID (p ! k))
      \<and> (p \<noteq> [] \<longrightarrow> it_ParentID it = it_ID (p ! (length p - 1)))"
    by (cases p rule: rev_cases) (auto simp: nth_append less_Suc_eq)
  then show ?thesis by (cases "p = []") (simp_all add: linked_def last_conv_nth)
qed

lemma path_linked: "journal_ok items \<Longrightarrow> linked (path_to items h)"
proof (induction items arbitrary: h rule: rev_induct)
  case Nil
  show ?case by (simp add: linked_def)
next
  case (snoc it items)
  have "path_to items (it_ParentID it) \<noteq> [] \<Longrightarrow> it_ID (last (path_to items (it_ParentID it))) = it_ParentID it"
    using path_end path_to_none by metis
  then show ?case using snoc by (auto simp: path_to_snoc linked_snoc)
qed

lemma ok_root: "journal_ok items \<Longrightarrow> items \<noteq> [] \<Longrightarrow> it_ParentID (hd items) = ''''"
  by (cases items) (force simp: journal_ok_def extends_def)+

section \<open>Journals that were not validated\<close>

lemma by_id_member: "by_id items i = Some it \<Longrightarrow> it \<in> set items \<and> it_ID it = i"
  by (induction items rule: rev_induct) (auto simp: by_id_snoc split: if_splits, simp add: by_id_def)

text \<open>What the walk has passed is a chain that leads to the id it looks for next.\<close>

lemma branch_walk_any:
  assumes "set rv \<subseteq> set items" "linked (rev rv)" "length rv \<le> n" "rv \<noteq> [] \<Longrightarrow> it_ParentID (last rv) = i \<and> it_ID (hd rv) = h"
    and "rv = [] \<Longrightarrow> i = h"
  shows "case branch_walk n (by_id items) h i rv of
      Inl e \<Rightarrow> e = ErrHeadNotFound \<or> e = ErrHistoryCorrupt
    | Inr r \<Rightarrow> length r \<le> n \<and> set r \<subseteq> set items \<and> linked (rev r) \<and> (r \<noteq> [] \<longrightarrow> it_ParentID (last r) = '''' \<and> it_ID (hd r) = h) \<and> (r = [] \<longrightarrow> h = '''')"
  using assms
proof (induction n "by_id items" h i rv rule: branch_walk.induct)
  case (1 n h i rv)
  show ?case
  proof (cases "i = ''''")
    case True
    then show ?thesis using "1.prems" by (subst branch_walk.simps) auto
  next
    case False
    show ?thesis
    proof (cases "by_id items i")
      case None
      then show ?thesis using False by (subst branch_walk.simps) simp
    next
      case (Some it)
      note mem = by_id_member [OF Some]
      show ?thesis
      proof (cases "length rv + 1 > n")
        case True
        then show ?thesis using False Some by (subst branch_walk.simps) simp
      next
        case short: False
        have lk: "linked (rev (rv @ [it]))"
        proof (cases rv rule: rev_cases)
          case Nil
          then show ?thesis by (simp add: linked_def)
        next
          case (snoc r z)
          then have "it_ParentID z = it_ID it" using "1.prems"(4) mem by simp
          then show ?thesis using "1.prems"(2) snoc by (auto simp: linked_def nth_Cons split: nat.splits)
        qed
        have "case branch_walk n (by_id items) h (it_ParentID it) (rv @ [it]) of
            Inl e \<Rightarrow> e = ErrHeadNotFound \<or> e = ErrHistoryCorrupt
          | Inr r \<Rightarrow> length r \<le> n \<and> set r \<subseteq> set items \<and> linked (rev r) \<and> (r \<noteq> [] \<longrightarrow> it_ParentID (last r) = '''' \<and> it_ID (hd r) = h) \<and> (r = [] \<longrightarrow> h = '''')"
          by (rule "1.hyps" [OF False Some short]) (use "1.prems" mem lk short in \<open>auto simp: hd_append\<close>)
        then show ?thesis using False Some short by (subst branch_walk.simps) simp
      qed
    qed
  qed
qed

section \<open>Renumbering\<close>

text \<open>Validity and branches do not read sequence numbers.\<close>

definition same_record :: "Item \<Rightarrow> Item \<Rightarrow> bool" where
  "same_record a b \<longleftrightarrow> it_ID a = it_ID b \<and> it_ParentID a = it_ParentID b \<and> it_Payload a = it_Payload b
     \<and> it_Required a = it_Required b"

lemma same_ids: "list_all2 same_record xs ys \<Longrightarrow> ids xs = ids ys"
  by (induction rule: list_all2_induct) (simp_all add: same_record_def)

lemma same_journal_ok: "list_all2 same_record xs ys \<Longrightarrow> journal_ok xs \<Longrightarrow> journal_ok ys"
proof (induction xs arbitrary: ys rule: rev_induct)
  case (snoc x xs)
  then obtain ys' y where ys: "ys = ys' @ [y]" "list_all2 same_record xs ys'" "same_record x y"
    by (auto simp: list_all2_append1 list_all2_Cons1)
  have "xs = [] \<longleftrightarrow> ys' = []" using ys(2) by auto
  moreover have "extends xs x" using snoc.prems(2) by simp
  ultimately have "extends ys' y"
    using same_ids [OF ys(2)] ys(3) by (cases "ys' = []") (simp_all add: extends_def same_record_def)
  then show ?case using snoc ys by simp
qed simp

lemma same_path: "list_all2 same_record xs ys \<Longrightarrow> list_all2 same_record (path_to xs h) (path_to ys h)"
proof (induction xs arbitrary: ys h rule: rev_induct)
  case (snoc x xs)
  then obtain ys' y where ys: "ys = ys' @ [y]" "list_all2 same_record xs ys'" "same_record x y"
    by (auto simp: list_all2_append1 list_all2_Cons1)
  moreover have "it_ID x = it_ID y" "it_ParentID x = it_ParentID y" using ys(3) by (simp_all add: same_record_def)
  ultimately show ?case using snoc.IH [OF ys(2)] by (simp add: path_to_snoc list_all2_appendI)
qed simp

section \<open>Chains\<close>

text \<open>Records that continue one another from a head, as an ordinary append writes them.\<close>

fun chained :: "string \<Rightarrow> Item list \<Rightarrow> bool" where
  "chained h [] \<longleftrightarrow> True"
| "chained h (it # its) \<longleftrightarrow> it_ParentID it = h \<and> chained (it_ID it) its"

fun last_id :: "string \<Rightarrow> Item list \<Rightarrow> string" where
  "last_id h [] = h"
| "last_id h (it # its) = last_id (it_ID it) its"

lemma last_id_last: "its \<noteq> [] \<Longrightarrow> last_id h its = it_ID (last its)"
  by (induction its arbitrary: h) auto

lemma journal_ok_prefix: "journal_ok (items @ rest) \<Longrightarrow> journal_ok items"
  by (induction rest rule: rev_induct) (simp_all flip: append_assoc)

lemma chain_path:
  "journal_ok (items @ c) \<Longrightarrow> chained h c \<Longrightarrow> path_to (items @ c) (last_id h c) = path_to items h @ c"
proof (induction c arbitrary: items h)
  case (Cons it c)
  have ok: "journal_ok ((items @ [it]) @ c)" using Cons.prems(1) by simp
  then have "journal_ok items" "extends items it" using journal_ok_prefix [OF ok] by simp_all
  then show ?case using Cons.IH [OF ok, of "it_ID it"] Cons.prems(2) path_to_extend(1) [of items it] by simp
qed simp

definition plain :: "Item \<Rightarrow> bool" where
  "plain it \<longleftrightarrow> it_ID it \<noteq> '''' \<and> it_Payload it \<noteq> None \<and> \<not> (is_unknown (it_Payload it) \<and> it_Required it)"

lemma chain_ok:
  assumes "journal_ok items" "chained h c" "items = [] \<and> h = '''' \<or> h \<in> ids items"
    and "distinct (map it_ID c)" "ids c \<inter> ids items = {}" "list_all plain c"
  shows "journal_ok (items @ c)"
  using assms
proof (induction c arbitrary: items h)
  case (Cons it c)
  have "extends items it" using Cons.prems by (auto simp: extends_def plain_def)
  then have "journal_ok ((items @ [it]) @ c)" using Cons.prems by (intro Cons.IH [of _ "it_ID it"]) (auto simp: ids_def)
  then show ?case by simp
qed simp

end
