(* ===== verification/Session_Replay.thy ===== *)
theory Session_Replay
  imports Session_Branch
begin

text \<open>
  What a branch reduces to. Replaying a longer branch continues the replay of its prefix, so the state
  after an append is the old state and one step, a rewind restores the state of its target, and a fork
  reduces to the state it was taken from. Replay fails exactly for a branch that answers a call twice or
  holds a summary of records it does not contain.
\<close>

definition replay :: "Item list \<Rightarrow> history_error + State \<times> string set" where
  "replay branch = foldE (reduce_item branch) branch (zeroState, {})"

lemma Reduce_path:
  assumes "journal_ok items" "h = '''' \<or> h \<in> ids items"
  shows "Reduce items h = bindE (replay (path_to items h)) (\<lambda>(st, _). Inr st)"
  using assms by (simp add: Reduce_def Branch_path replay_def)

lemma boundary_count_append:
  "boundary_count c p n = Some k \<Longrightarrow> boundary_count c (p @ q) n = Some k"
  by (induction c p n rule: boundary_count.induct) (auto simp: Let_def split: if_splits)

lemma boundary_count_some: "(\<exists>k. boundary_count c p n = Some k) \<longleftrightarrow> c \<in> ids p"
  by (induction c p n rule: boundary_count.induct) (auto simp: Let_def)

lemma compactionBoundary_append:
  "compactionBoundary p c = Inr k \<Longrightarrow> compactionBoundary (p @ q) c = Inr k"
  using boundary_count_append [of c p 0] by (auto simp: compactionBoundary_def split: if_splits option.splits)

lemma reduce_payload_append:
  "reduce_payload p x acc = Inr r \<Longrightarrow> reduce_payload (p @ q) x acc = Inr r"
  by (cases acc; cases x) (auto dest: compactionBoundary_append split: if_splits)

lemma reduce_item_append: "reduce_item p it acc = Inr r \<Longrightarrow> reduce_item (p @ q) it acc = Inr r"
  by (auto simp: reduce_item_def reduce_payload_append split: option.splits)

lemma foldE_reduce_append:
  "foldE (reduce_item p) its acc = Inr r \<Longrightarrow> foldE (reduce_item (p @ q)) its acc = Inr r"
proof (induction its arbitrary: acc)
  case (Cons it its)
  then obtain acc' where "reduce_item p it acc = Inr acc'" "foldE (reduce_item p) its acc' = Inr r"
    by (cases "reduce_item p it acc") simp_all
  then show ?case using Cons.IH reduce_item_append by simp
qed simp

lemma replay_snoc:
  assumes "replay p = Inr acc"
  shows "replay (p @ [it]) = reduce_item (p @ [it]) it acc"
proof -
  have "foldE (reduce_item (p @ [it])) p (zeroState, {}) = Inr acc"
    using foldE_reduce_append assms by (simp add: replay_def)
  then show ?thesis by (cases "reduce_item (p @ [it]) it acc") (simp_all add: replay_def foldE_append)
qed

section \<open>When replay succeeds\<close>

fun result_call :: "Payload option \<Rightarrow> string option" where
  "result_call (Some (ToolResult call _ _ _)) = Some call"
| "result_call _ = None"

fun covered_id :: "Payload option \<Rightarrow> string option" where
  "covered_id (Some (Compaction c _)) = Some c"
| "covered_id _ = None"

definition answers :: "Item list \<Rightarrow> string list" where
  "answers p = List.map_filter (\<lambda>it. result_call (it_Payload it)) p"

definition summaries :: "Item list \<Rightarrow> string list" where
  "summaries p = List.map_filter (\<lambda>it. covered_id (it_Payload it)) p"

lemma map_filter_append: "List.map_filter f (xs @ ys) = List.map_filter f xs @ List.map_filter f ys"
  by (simp add: List.map_filter_def)

lemma answers_simps [simp]: "answers [] = []" "answers (xs @ ys) = answers xs @ answers ys"
  by (simp_all add: answers_def map_filter_append List.map_filter_simps)

lemma summaries_simps [simp]: "summaries [] = []" "summaries (xs @ ys) = summaries xs @ summaries ys"
  by (simp_all add: summaries_def map_filter_append List.map_filter_simps)

lemma compactionBoundary_ok:
  "(\<exists>k. compactionBoundary p c = Inr k) \<longleftrightarrow> c \<noteq> '''' \<and> c \<in> ids p"
  using boundary_count_some [of c p 0] by (auto simp: compactionBoundary_def split: option.splits)

lemma reduce_item_ok:
  "(\<exists>r. reduce_item p it (st, ans) = Inr r) \<longleftrightarrow>
     (\<forall>c. result_call (it_Payload it) = Some c \<longrightarrow> c \<notin> ans) \<and> (\<forall>c. covered_id (it_Payload it) = Some c \<longrightarrow> c \<noteq> '''' \<and> c \<in> ids p)"
proof (cases "it_Payload it")
  case (Some x)
  then show ?thesis using compactionBoundary_ok [of p] by (cases x) (auto simp: reduce_item_def)
qed (simp add: reduce_item_def)

lemma reduce_item_answered:
  "reduce_item p it (st, ans) = Inr (st', ans') \<Longrightarrow> ans' = ans \<union> set (answers [it])"
proof (cases "it_Payload it")
  case (Some x)
  then show "reduce_item p it (st, ans) = Inr (st', ans') \<Longrightarrow> ans' = ans \<union> set (answers [it])"
    by (cases x) (auto simp: reduce_item_def answers_def List.map_filter_simps split: if_splits)
qed (simp add: reduce_item_def answers_def List.map_filter_simps)

lemma foldE_reduce_ok:
  "(\<exists>r. foldE (reduce_item p) its (st, ans) = Inr r) \<longleftrightarrow>
     distinct (answers its) \<and> set (answers its) \<inter> ans = {} \<and> (\<forall>c\<in>set (summaries its). c \<noteq> '''' \<and> c \<in> ids p)"
proof (induction its arbitrary: st ans)
  case (Cons it its)
  have split: "answers (it # its) = answers [it] @ answers its" "summaries (it # its) = summaries [it] @ summaries its"
    using answers_simps(2) [of "[it]" its] summaries_simps(2) [of "[it]" its] by simp_all
  have one: "answers [it] = (case result_call (it_Payload it) of None \<Rightarrow> [] | Some c \<Rightarrow> [c])"
    "summaries [it] = (case covered_id (it_Payload it) of None \<Rightarrow> [] | Some c \<Rightarrow> [c])"
    by (simp_all add: answers_def summaries_def List.map_filter_simps split: option.splits)
  show ?case
  proof (cases "reduce_item p it (st, ans)")
    case (Inl e)
    then have "\<not> (\<exists>r. reduce_item p it (st, ans) = Inr r)" by simp
    then show ?thesis using Inl unfolding reduce_item_ok split one by (auto split: option.splits)
  next
    case (Inr acc)
    obtain st' ans' where acc: "acc = (st', ans')" by (cases acc)
    have "ans' = ans \<union> set (answers [it])" using reduce_item_answered Inr acc by blast
    moreover have "\<exists>r. reduce_item p it (st, ans) = Inr r" using Inr by blast
    ultimately show ?thesis using Inr Cons.IH [of st' ans'] acc unfolding reduce_item_ok split one
      by (cases "result_call (it_Payload it)"; cases "covered_id (it_Payload it)") (simp_all add: conj_ac)
  qed
qed simp

lemma replay_ok_iff:
  "(\<exists>st ans. replay p = Inr (st, ans)) \<longleftrightarrow> distinct (answers p) \<and> (\<forall>c\<in>set (summaries p). c \<noteq> '''' \<and> c \<in> ids p)"
  using foldE_reduce_ok [of p p zeroState "{}"] by (auto simp: replay_def)

lemma foldE_reduce_answered:
  "foldE (reduce_item p) its (st, ans) = Inr (st', ans') \<Longrightarrow> ans' = ans \<union> set (answers its)"
proof (induction its arbitrary: st ans)
  case (Cons it its)
  then obtain st1 ans1 where s: "reduce_item p it (st, ans) = Inr (st1, ans1)" "foldE (reduce_item p) its (st1, ans1) = Inr (st', ans')"
    by auto
  show ?case
    using Cons.IH [OF s(2)] reduce_item_answered [OF s(1)] answers_simps(2) [of "[it]" its] by auto
qed simp

lemma replay_answered: "replay p = Inr (st, ans) \<Longrightarrow> ans = set (answers p)"
  unfolding replay_def by (drule foldE_reduce_answered) simp

section \<open>Records that only differ in their number\<close>

lemma same_boundary: "list_all2 same_record p q \<Longrightarrow> boundary_count c p n = boundary_count c q n"
  by (induction arbitrary: n rule: list_all2_induct) (auto simp: same_record_def Let_def)

lemma same_reduce_item:
  "list_all2 same_record p q \<Longrightarrow> same_record a b \<Longrightarrow> reduce_item p a acc = reduce_item q b acc"
proof -
  assume pq: "list_all2 same_record p q" and ab: "same_record a b"
  have "compactionBoundary p c = compactionBoundary q c" for c
    using same_boundary [OF pq] by (simp add: compactionBoundary_def)
  then have "reduce_payload p x acc = reduce_payload q x acc" for x by (cases acc; cases x) simp_all
  then show ?thesis using ab by (simp add: reduce_item_def same_record_def split: option.splits)
qed

lemma same_replay: "list_all2 same_record p q \<Longrightarrow> replay p = replay q"
proof -
  assume pq: "list_all2 same_record p q"
  have "list_all2 same_record xs ys \<Longrightarrow> foldE (reduce_item p) xs acc = foldE (reduce_item q) ys acc" for xs ys acc
  proof (induction arbitrary: acc rule: list_all2_induct)
    case (Cons x xs y ys)
    then show ?case using same_reduce_item [OF pq] by (cases "reduce_item q y acc") simp_all
  qed simp
  then show ?thesis using pq by (simp add: replay_def)
qed

section \<open>Rewind\<close>

lemma path_prefix:
  "journal_ok items \<Longrightarrow> path_to items h = p @ x # s \<Longrightarrow> path_to items (it_ID x) = p @ [x] \<and> it_ID x \<in> ids items"
proof (induction items arbitrary: h p x s rule: rev_induct)
  case (snoc it items)
  then have ext: "journal_ok items" "extends items it" by simp_all
  note prems = snoc.prems and IH = snoc.IH
  show ?case
  proof (cases "it_ID it = h")
    case True
    show ?thesis
    proof (cases s rule: rev_cases)
      case Nil
      then show ?thesis using snoc.prems(2) True by (auto simp: path_to_snoc)
    next
      case (snoc s' y)
      then have "path_to items (it_ParentID it) = p @ x # s'" using prems(2) True by (auto simp: path_to_snoc)
      then show ?thesis using IH ext path_to_extend(2) [OF ext, of "it_ID x"] by simp
    qed
  next
    case False
    then show ?thesis using snoc path_to_extend(2) [OF ext, of "it_ID x"] by (simp add: path_to_snoc)
  qed
qed simp

lemma cut_at_Some: "cut_at i p = Some k \<longleftrightarrow> k < length p \<and> it_ID (p ! k) = i \<and> i \<notin> ids (take k p)"
proof (induction p arbitrary: k)
  case (Cons x p)
  then show ?case by (cases k) auto
qed simp

lemma cut_at_None: "cut_at i p = None \<longleftrightarrow> i \<notin> ids p"
  by (induction p) auto

lemma cut_at_mid: "it_ID x = i \<Longrightarrow> i \<notin> ids p \<Longrightarrow> cut_at i (p @ x # s) = Some (length p)"
  by (simp add: cut_at_Some nth_append)

definition entered_call :: "Item \<Rightarrow> string \<Rightarrow> bool" where
  "entered_call it c \<longleftrightarrow> (\<exists>name. it_Payload it = Some (ToolExecutionStarted c name))"

lemma keys_update: "fst ` set (AList.update k v e) = insert k (fst ` set e)"
  by (induction e) auto

lemma span_fold:
  assumes "fold span_item span (m, e, r) = (m', e', r')"
  shows "m' = m + length (filter (\<lambda>it. is_message (it_Payload it)) span) \<and> r' = r \<union> set (answers span)
    \<and> fst ` set e' = fst ` set e \<union> {c. \<exists>it\<in>set span. entered_call it c}"
  using assms
proof (induction span arbitrary: m e r)
  case (Cons it span)
  obtain m1 e1 r1 where s: "span_item it (m, e, r) = (m1, e1, r1)" by (cases "span_item it (m, e, r)")
  have one: "m1 = m + (if is_message (it_Payload it) then 1 else 0)" "r1 = r \<union> set (answers [it])"
    "fst ` set e1 = fst ` set e \<union> {c. entered_call it c}"
  proof -
    have "m1 = m + (if is_message (it_Payload it) then 1 else 0) \<and> r1 = r \<union> set (answers [it])
      \<and> fst ` set e1 = fst ` set e \<union> {c. entered_call it c}"
    proof (cases "it_Payload it")
      case None
      then show ?thesis using s by (auto simp: span_item_def answers_def List.map_filter_simps entered_call_def)
    next
      case (Some x)
      then show ?thesis using s
        by (cases x) (clarsimp simp: span_item_def answers_def List.map_filter_simps entered_call_def keys_update)+
    qed
    then show "m1 = m + (if is_message (it_Payload it) then 1 else 0)" "r1 = r \<union> set (answers [it])"
      "fst ` set e1 = fst ` set e \<union> {c. entered_call it c}" by blast+
  qed
  from Cons.IH [of m1 e1 r1] Cons.prems s show ?case
    using one answers_simps(2) [of "[it]" span] by auto
qed simp

lemma span_work_correct:
  "aw_Messages (span_work span) = length (filter (\<lambda>it. is_message (it_Payload it)) span)
   \<and> ((\<exists>e\<in>set (aw_Effects (span_work span)). ae_ToolCallID e = c) \<longleftrightarrow> (\<exists>it\<in>set span. entered_call it c))
   \<and> (\<forall>e\<in>set (aw_Effects (span_work span)). ae_Returned e \<longleftrightarrow> ae_ToolCallID e \<in> set (answers span))"
proof -
  obtain m e r where f: "fold span_item span (0, [], {}) = (m, e, r)" by (cases "fold span_item span (0, [], {})")
  note s = span_fold [OF f]
  have "c \<in> fst ` set e \<longleftrightarrow> (\<exists>it\<in>set span. entered_call it c)" using s by simp
  then have "(\<exists>x\<in>set e. fst x = c) \<longleftrightarrow> (\<exists>it\<in>set span. entered_call it c)" by (auto simp: image_iff)
  then show ?thesis using s unfolding span_work_def f by (simp add: case_prod_beta)
qed

lemma landing_split:
  assumes "journal_ok items" "RewindLanding items h m = Inr l"
  shows "\<exists>p x q y r. path_to items h = p @ x # q @ y # r \<and> it_ID x = l \<and> it_ID y = m
    \<and> \<not> opens_turn (it_Payload x) \<and> (\<forall>z\<in>set q. opens_turn (it_Payload z)) \<and> (h = '''' \<or> h \<in> ids items)"
proof -
  have h: "h = '''' \<or> h \<in> ids items" using assms by (auto simp: RewindLanding_def Branch_path split: if_splits)
  let ?b = "path_to items h"
  obtain k it where k: "cut_at m ?b = Some k" "it_ID it = l"
    and f: "find (\<lambda>it. \<not> opens_turn (it_Payload it)) (rev (take k ?b)) = Some it"
    using assms h by (auto simp: RewindLanding_def Branch_path split: option.splits)
  obtain j where j: "j < length (rev (take k ?b))" "\<not> opens_turn (it_Payload (rev (take k ?b) ! j))" "it = rev (take k ?b) ! j"
    "\<forall>i<j. opens_turn (it_Payload (rev (take k ?b) ! i))"
    using f by (auto simp: find_Some_iff)
  let ?rv = "rev (take k ?b)"
  have "take k ?b = rev (drop (Suc j) ?rv) @ it # rev (take j ?rv)"
    using id_take_nth_drop [OF j(1)] j(3) by (metis (no_types, lifting) append.assoc append_Cons append_Nil rev.simps(2) rev_append rev_rev_ident)
  moreover have "?b = take k ?b @ ?b ! k # drop (Suc k) ?b"
    using k(1) by (simp add: cut_at_Some id_take_nth_drop)
  moreover have "it_ID (?b ! k) = m" using k(1) by (simp add: cut_at_Some)
  moreover have "\<forall>z\<in>set (rev (take j ?rv)). opens_turn (it_Payload z)"
    using j(1,4) by (auto simp: in_set_conv_nth)
  ultimately show ?thesis using j(2,3) k(2) h by (metis append.assoc append_Cons)
qed

section \<open>Properties of the journal\<close>

lemma Reduce_other:
  assumes "journal_ok (items @ [it])" "h \<in> ids items"
  shows "Reduce (items @ [it]) h = Reduce items h"
proof -
  have "path_to (items @ [it]) h = path_to items h" using assms path_to_extend(2) by simp
  then show ?thesis using assms Reduce_path [of "items @ [it]" h] Reduce_path [of items h] by simp
qed

lemma Reduce_extend:
  assumes "journal_ok (items @ [it])" "replay (path_to items (it_ParentID it)) = Inr acc"
  shows "Reduce (items @ [it]) (it_ID it) =
    bindE (reduce_item (path_to items (it_ParentID it) @ [it]) it acc) (\<lambda>(st, _). Inr st)"
  using assms Reduce_path [of "items @ [it]" "it_ID it"] path_to_extend(1) [of items it]
    replay_snoc [OF assms(2)] by simp

lemma Reduce_replay:
  "journal_ok items \<Longrightarrow> h = '''' \<or> h \<in> ids items \<Longrightarrow> Reduce items h = Inr st \<Longrightarrow> \<exists>ans. replay (path_to items h) = Inr (st, ans)"
  by (auto simp: Reduce_path)

definition renumber :: "Item list \<Rightarrow> Item list" where
  "renumber p = map2 (\<lambda>i it. it\<lparr>it_Seq := word_of_nat (i + 1)\<rparr>) [0..<length p] p"

lemma renumber_same: "list_all2 same_record p (renumber p)"
  by (simp add: renumber_def list_all2_conv_all_nth same_record_def)

lemma same_analyze: "list_all2 same_record p q \<Longrightarrow> analyze_branch visit p = analyze_branch visit q"
proof -
  have "list_all2 same_record p q \<Longrightarrow> fold scan_item p s = fold scan_item q s" for s
    by (induction arbitrary: s rule: list_all2_induct) (simp_all add: same_record_def scan_item_def)
  then show "list_all2 same_record p q \<Longrightarrow> analyze_branch visit p = analyze_branch visit q"
    by (simp add: analyze_branch_def)
qed

lemma fork_of:
  assumes "journal_ok items" "h \<in> ids items"
  shows "ForkPrefix items h = Inr (renumber (path_to items h))"
    "journal_ok (renumber (path_to items h))" "h \<in> ids (renumber (path_to items h))"
    "list_all2 same_record (path_to items h) (path_to (renumber (path_to items h)) h)"
proof -
  let ?p = "path_to items h"
  show "ForkPrefix items h = Inr (renumber ?p)" using assms by (simp add: ForkPrefix_def Branch_path renumber_def)
  show "journal_ok (renumber ?p)" using same_journal_ok [OF renumber_same path_ok [OF assms(1)]] .
  show "h \<in> ids (renumber ?p)" using same_ids [OF renumber_same] path_member [OF assms(2)] by simp
  show "list_all2 same_record ?p (path_to (renumber ?p) h)"
    using same_path [OF renumber_same, of ?p h] path_of_path [OF assms(1)] by simp
qed

text \<open>C26: Validation accepts exactly the journals that are trees in writing order: every record has an id
  of its own, a payload this build may reduce, and a parent among the records before it, the first one
  alone being the root.\<close>

theorem ValidateItems_accepts_trees: "ValidateItems items = Inr () \<longleftrightarrow> journal_ok items"
  by (rule ValidateItems_iff)

text \<open>C27: On a validated journal the branch of a record is the path from the root to it: it ends at the
  record, starts at the root, follows the parent links and keeps the writing order; an id the journal does
  not hold is reported as such. The walk always ends.\<close>

theorem Branch_is_the_path:
  assumes "ValidateItems items = Inr ()"
  shows "(h \<in> ids items \<longrightarrow> (\<exists>p. Branch items h = Inr p \<and> p \<noteq> [] \<and> it_ID (last p) = h \<and> it_ParentID (hd p) = ''''
            \<and> linked p \<and> subseq p items))
    \<and> (h \<notin> ids items \<and> h \<noteq> '''' \<longrightarrow> Branch items h = Inl ErrHeadNotFound)"
proof -
  have ok: "journal_ok items" using assms by (simp add: ValidateItems_iff)
  show ?thesis
    using Branch_path [OF ok, of h] path_end [of h items] ok_root [OF path_ok [OF ok, of h]] path_linked [OF ok, of h]
      subseq_path [of items h] by auto
qed


text \<open>C29: A validated journal reduces at a head exactly if its branch answers no tool call twice and every
  summary on it covers a record of the same branch.\<close>

theorem Reduce_accepts_iff:
  assumes "ValidateItems items = Inr ()" "Branch items h = Inr p"
  shows "(\<exists>st. Reduce items h = Inr st) \<longleftrightarrow> distinct (answers p) \<and> (\<forall>c\<in>set (summaries p). c \<noteq> '''' \<and> c \<in> ids p)"
proof -
  have ok: "journal_ok items" using assms(1) by (simp add: ValidateItems_iff)
  then have "h = '''' \<or> h \<in> ids items" "p = path_to items h"
    using assms(2) by (auto simp: Branch_path split: if_splits)
  then show ?thesis using Reduce_path [OF ok] replay_ok_iff [of p] by (cases "replay p") auto
qed

text \<open>C30: A rewind restores the state of its target: appending a head selection whose parent is the target
  reduces to the state the target had, and leaves every other branch as it was.\<close>

theorem rewind_restores_state:
  assumes "ValidateItems (items @ [it]) = Inr ()" "it_Payload it = Some (HeadSelected reason)"
    and "Reduce items (it_ParentID it) = Inr st"
  shows "Reduce (items @ [it]) (it_ID it) = Inr st \<and> (\<forall>h\<in>ids items. Reduce (items @ [it]) h = Reduce items h)"
proof -
  have ok: "journal_ok (items @ [it])" using assms(1) by (simp add: ValidateItems_iff)
  then have "it_ParentID it = '''' \<or> it_ParentID it \<in> ids items" using extends_parent by simp
  then obtain ans where "replay (path_to items (it_ParentID it)) = Inr (st, ans)"
    using Reduce_replay [of items] ok assms(3) by auto
  then show ?thesis using Reduce_extend [OF ok] Reduce_other [OF ok] assms(2) by (simp add: reduce_item_def)
qed

text \<open>C32: A fork is faithful: the copied branch is a valid journal numbered from one whose head is the fork
  point, and it reduces and is analyzed as the parent was there.\<close>

theorem fork_is_faithful:
  assumes "ValidateItems items = Inr ()" "h \<in> ids items"
  shows "\<exists>f. ForkPrefix items h = Inr f \<and> ValidateItems f = Inr () \<and> Head f = Inr h \<and> Reduce f h = Reduce items h
    \<and> Analyze visit f h = Analyze visit items h \<and> map it_Seq f = map word_of_nat [1..<length f + 1]"
proof -
  have ok: "journal_ok items" using assms(1) by (simp add: ValidateItems_iff)
  note f = fork_of [OF ok assms(2)]
  let ?f = "renumber (path_to items h)"
  have ne: "path_to items h \<noteq> []" "it_ID (last (path_to items h)) = h" using path_end [OF assms(2)] by auto
  then have "it_ID (last ?f) = h" using renumber_same [of "path_to items h"]
    by (auto simp: list_all2_conv_all_nth same_record_def last_conv_nth renumber_def)
  then have "Head ?f = Inr h" using ne(1) by (auto simp: Head_def renumber_def)
  moreover have "Reduce ?f h = Reduce items h"
    using Reduce_path [OF f(2)] Reduce_path [OF ok] same_replay [OF f(4)] f(3) assms(2) by simp
  moreover have "Analyze visit ?f h = Analyze visit items h"
    using Branch_path [OF f(2)] Branch_path [OF ok] same_analyze [OF f(4)] f(3) assms(2) by (simp add: Analyze_def)
  moreover have "map it_Seq ?f = map word_of_nat [1..<length ?f + 1]"
    by (rule nth_equalityI) (simp_all add: renumber_def nth_append del: upt_Suc)
  ultimately show ?thesis using f(1,2) by (auto simp: ValidateItems_iff)
qed

text \<open>C31: Where a rewind lands and what it reports. The landing is the last record before the message that
  does not open a turn; the branch of the landing is what is kept; the report counts the messages that leave
  and lists exactly the calls that entered their tools after it, each with whether it returned.\<close>

theorem rewind_reports_what_it_leaves:
  assumes "ValidateItems items = Inr ()" "RewindLanding items h m = Inr l"
  shows "\<exists>p x q y r a. Branch items h = Inr (p @ x # q @ y # r) \<and> it_ID x = l \<and> it_ID y = m
    \<and> \<not> opens_turn (it_Payload x) \<and> (\<forall>z\<in>set q. opens_turn (it_Payload z))
    \<and> Branch items l = Inr (p @ [x]) \<and> Abandoned items h l = Inr a
    \<and> aw_Messages a = length (filter (\<lambda>it. is_message (it_Payload it)) (q @ y # r))
    \<and> (\<forall>c. (\<exists>e\<in>set (aw_Effects a). ae_ToolCallID e = c) \<longleftrightarrow> (\<exists>it\<in>set (q @ y # r). entered_call it c))
    \<and> (\<forall>e\<in>set (aw_Effects a). ae_Returned e \<longleftrightarrow> ae_ToolCallID e \<in> set (answers (q @ y # r)))"
proof -
  have ok: "journal_ok items" using assms(1) by (simp add: ValidateItems_iff)
  obtain p x q y r where b: "path_to items h = p @ x # q @ y # r" and xy: "it_ID x = l" "it_ID y = m"
    "\<not> opens_turn (it_Payload x)" "\<forall>z\<in>set q. opens_turn (it_Payload z)" and h: "h = '''' \<or> h \<in> ids items"
    using landing_split [OF ok assms(2)] by blast
  have pre: "path_to items l = p @ [x]" "l \<in> ids items" using path_prefix [OF ok b] xy(1) by auto
  have "journal_ok (p @ [x])" using path_ok [OF ok, of l] pre(1) by simp
  then have "l \<notin> ids p" using xy(1) by (auto simp: extends_def)
  then have "Abandoned items h l = Inr (span_work (q @ y # r))"
    using h b xy(1) by (simp add: Abandoned_def Branch_path [OF ok] cut_at_mid)
  moreover have "Branch items h = Inr (p @ x # q @ y # r)" "Branch items l = Inr (p @ [x])"
    using h b pre Branch_path [OF ok] by auto
  ultimately show ?thesis using xy span_work_correct [of "q @ y # r"]
    by (intro exI [of _ p] exI [of _ x] exI [of _ q] exI [of _ y] exI [of _ r] exI [of _ "span_work (q @ y # r)"] conjI allI)
      (assumption | blast)+
qed

end
