(* ===== verification/Session_Meta.thy ===== *)
theory Session_Meta
  imports Session_History "HOL-Library.Char_ord" "HOL-Library.List_Lexorder" "HOL-Library.Product_Lexorder"
begin

text \<open>
  Session metadata and accounting: the pricing of a call (\<open>internal/core/llm/pricing.go\<close>), the metadata
  record and its updates (\<open>internal/core/session/meta.go\<close>), the shape of a conversation (\<open>stats.go\<close>) and
  the usage report over sessions (\<open>usage.go\<close>). Token counts and costs are 64-bit integers that wrap. The
  lemmas show that an estimate is exact where it does not overflow, that the per-turn entries of a session
  add up to its totals, and that the buckets of a report add up to its total.
\<close>

section \<open>internal/core/llm/pricing.go\<close>

definition tokensPerRateUnit :: int where "tokensPerRateUnit = 1000000"

record Usage =
  us_PromptTokens :: int
  us_CompletionTokens :: int
  us_TotalTokens :: int
  us_CacheReadTokens :: int
  us_CacheWriteTokens :: int

record Pricing =
  pr_Currency :: string
  pr_InputPerMTok :: int
  pr_CacheReadPerMTok :: int
  pr_CacheWritePerMTok :: int
  pr_OutputPerMTok :: int

definition Configured :: "Pricing \<Rightarrow> bool" where
  "Configured p \<longleftrightarrow> pr_Currency p \<noteq> '''' \<and>
     (pr_InputPerMTok p \<noteq> 0 \<or> pr_CacheReadPerMTok p \<noteq> 0 \<or> pr_CacheWritePerMTok p \<noteq> 0 \<or> pr_OutputPerMTok p \<noteq> 0)"

record Cost =
  co_Currency :: string
  co_Uncached :: int
  co_CacheRead :: int
  co_CacheWrite :: int
  co_Output :: int
  co_Total :: int
  co_Baseline :: int

definition Saved :: "Cost \<Rightarrow> int" where
  "Saved c = (if co_Baseline c \<le> co_Total c then 0 else wrap64 (co_Baseline c - co_Total c))"

text \<open>Go's integer division truncates towards zero.\<close>

definition quot :: "int \<Rightarrow> int \<Rightarrow> int" where
  "quot a b = sgn a * sgn b * (\<bar>a\<bar> div \<bar>b\<bar>)"

definition rate :: "int \<Rightarrow> int \<Rightarrow> int" where
  "rate tokens perMTok =
     (if tokens \<le> 0 \<or> perMTok = 0 then 0 else quot (wrap64 (tokens * perMTok)) tokensPerRateUnit)"

definition EstimateCost :: "Usage \<Rightarrow> Pricing \<Rightarrow> Cost option" where
  "EstimateCost usage pricing =
     (if \<not> Configured pricing then None
      else if us_PromptTokens usage = 0 \<and> us_CompletionTokens usage = 0 then None
      else
        let uncached = max (wrap64 (wrap64 (us_PromptTokens usage - us_CacheReadTokens usage) - us_CacheWriteTokens usage)) 0;
            fresh = rate uncached (pr_InputPerMTok pricing);
            cread = rate (us_CacheReadTokens usage) (pr_CacheReadPerMTok pricing);
            cwrite = rate (us_CacheWriteTokens usage) (pr_CacheWritePerMTok pricing);
            out = rate (us_CompletionTokens usage) (pr_OutputPerMTok pricing)
        in Some \<lparr>co_Currency = pr_Currency pricing, co_Uncached = fresh, co_CacheRead = cread, co_CacheWrite = cwrite,
                 co_Output = out, co_Total = wrap64 (wrap64 (wrap64 (fresh + cread) + cwrite) + out),
                 co_Baseline = wrap64 (rate (us_PromptTokens usage) (pr_InputPerMTok pricing) + out)\<rparr>)"

definition addCost :: "Cost \<Rightarrow> Cost \<Rightarrow> Cost \<times> bool" where
  "addCost c other =
     (if co_Currency other = '''' then (c, True)
      else if co_Currency c = '''' then (other, True)
      else if co_Currency c \<noteq> co_Currency other then (c, False)
      else (\<lparr>co_Currency = co_Currency c, co_Uncached = wrap64 (co_Uncached c + co_Uncached other),
             co_CacheRead = wrap64 (co_CacheRead c + co_CacheRead other),
             co_CacheWrite = wrap64 (co_CacheWrite c + co_CacheWrite other),
             co_Output = wrap64 (co_Output c + co_Output other), co_Total = wrap64 (co_Total c + co_Total other),
             co_Baseline = wrap64 (co_Baseline c + co_Baseline other)\<rparr>, True))"

section \<open>meta.go\<close>

datatype Kind = KindUser | KindSubagent | KindOther string

record ForkedFrom =
  ff_SessionID :: string
  ff_CheckpointID :: string
  ff_HeadID :: string

record TurnStat =
  ts_At :: int
  ts_PromptTokens :: int
  ts_CompletionTokens :: int
  ts_CacheReadTokens :: int
  ts_CacheWriteTokens :: int
  ts_Cost :: "Cost option"

record Meta =
  mt_Version :: int
  mt_ID :: string
  mt_Kind :: Kind
  mt_CreatedAt :: int
  mt_UpdatedAt :: int
  mt_ProjectID :: string
  mt_Title :: string
  mt_Workspace :: string
  mt_Pinned :: bool
  mt_PromptDestination :: string
  mt_SelectedModel :: string
  mt_PromptTokens :: int
  mt_CompletionTokens :: int
  mt_CacheReadTokens :: int
  mt_CacheWriteTokens :: int
  mt_Cost :: "Cost option"
  mt_CostIncomplete :: bool
  mt_Turns :: "TurnStat list"
  mt_ParentSessionID :: string
  mt_ParentRunID :: string
  mt_ParentToolCallID :: string
  mt_AgentType :: string
  mt_DelegationDepth :: int
  mt_Hidden :: bool
  mt_ForkedFrom :: "ForkedFrom option"

definition MetaVersion :: int where "MetaVersion = 1"

definition zeroMeta :: "string \<Rightarrow> Kind \<Rightarrow> Meta" where
  "zeroMeta i kind =
     \<lparr>mt_Version = MetaVersion, mt_ID = i, mt_Kind = kind, mt_CreatedAt = 0, mt_UpdatedAt = 0, mt_ProjectID = '''',
      mt_Title = '''', mt_Workspace = '''', mt_Pinned = False, mt_PromptDestination = '''', mt_SelectedModel = '''',
      mt_PromptTokens = 0, mt_CompletionTokens = 0, mt_CacheReadTokens = 0, mt_CacheWriteTokens = 0, mt_Cost = None,
      mt_CostIncomplete = False, mt_Turns = [], mt_ParentSessionID = '''', mt_ParentRunID = '''', mt_ParentToolCallID = '''',
      mt_AgentType = '''', mt_DelegationDepth = 0, mt_Hidden = False, mt_ForkedFrom = None\<rparr>"

definition NewMeta :: "string \<Rightarrow> Kind \<Rightarrow> int \<Rightarrow> Meta" where
  "NewMeta i kind createdAt =
     (zeroMeta i kind)\<lparr>mt_CreatedAt := createdAt, mt_UpdatedAt := createdAt, mt_Hidden := (kind = KindSubagent)\<rparr>"

definition metaValid :: "Meta \<Rightarrow> bool" where
  "metaValid m \<longleftrightarrow> mt_ID m \<noteq> '''' \<and> (mt_Kind m = KindUser \<or> mt_Kind m = KindSubagent)"

record MetaUpdate =
  mu_Title :: "string option"
  mu_Workspace :: "string option"
  mu_Pinned :: "bool option"
  mu_SelectedModel :: "string option"
  mu_AddPromptTokens :: int
  mu_AddCompletionTokens :: int
  mu_AddCacheReadTokens :: int
  mu_AddCacheWriteTokens :: int
  mu_AddCost :: "Cost option"
  mu_MarkCostIncomplete :: bool

definition hasUsage :: "MetaUpdate \<Rightarrow> bool" where
  "hasUsage u \<longleftrightarrow> mu_AddPromptTokens u \<noteq> 0 \<or> mu_AddCompletionTokens u \<noteq> 0 \<or> mu_AddCacheReadTokens u \<noteq> 0
     \<or> mu_AddCacheWriteTokens u \<noteq> 0 \<or> mu_AddCost u \<noteq> None"

definition fold_cost :: "Cost option \<Rightarrow> bool \<times> Cost option \<Rightarrow> bool \<times> Cost option" where
  "fold_cost add acc =
     (case (add, acc) of
        (None, _) \<Rightarrow> acc
      | (Some c, (incomplete, None)) \<Rightarrow> (incomplete, Some c)
      | (Some c, (incomplete, Some running)) \<Rightarrow>
          (case addCost running c of (summed, True) \<Rightarrow> (incomplete, Some summed) | (_, False) \<Rightarrow> (True, Some running)))"

definition ApplyMetaUpdate :: "Meta \<Rightarrow> MetaUpdate \<Rightarrow> int \<Rightarrow> Meta" where
  "ApplyMetaUpdate m u now =
     (let (incomplete, cost) = fold_cost (mu_AddCost u) (mt_CostIncomplete m \<or> mu_MarkCostIncomplete u, mt_Cost m);
          m1 = m\<lparr>mt_Title := set_if (mu_Title u) (mt_Title m), mt_Workspace := set_if (mu_Workspace u) (mt_Workspace m),
                 mt_Pinned := set_if (mu_Pinned u) (mt_Pinned m),
                 mt_SelectedModel := set_if (mu_SelectedModel u) (mt_SelectedModel m),
                 mt_PromptTokens := wrap64 (mt_PromptTokens m + mu_AddPromptTokens u),
                 mt_CompletionTokens := wrap64 (mt_CompletionTokens m + mu_AddCompletionTokens u),
                 mt_CacheReadTokens := wrap64 (mt_CacheReadTokens m + mu_AddCacheReadTokens u),
                 mt_CacheWriteTokens := wrap64 (mt_CacheWriteTokens m + mu_AddCacheWriteTokens u),
                 mt_CostIncomplete := incomplete, mt_Cost := cost, mt_UpdatedAt := now\<rparr>
      in if hasUsage u
         then m1\<lparr>mt_Turns := mt_Turns m @
                  [\<lparr>ts_At = now, ts_PromptTokens = mu_AddPromptTokens u, ts_CompletionTokens = mu_AddCompletionTokens u,
                    ts_CacheReadTokens = mu_AddCacheReadTokens u, ts_CacheWriteTokens = mu_AddCacheWriteTokens u,
                    ts_Cost = mu_AddCost u\<rparr>]\<rparr>
         else m1)"

definition CheckDestination :: "Meta \<Rightarrow> string \<Rightarrow> bool" where
  "CheckDestination m dest \<longleftrightarrow> mt_PromptDestination m = '''' \<or> mt_PromptDestination m = dest"

definition metaUsage :: "Meta \<Rightarrow> Usage" where
  "metaUsage m = \<lparr>us_PromptTokens = mt_PromptTokens m, us_CompletionTokens = mt_CompletionTokens m,
     us_TotalTokens = wrap64 (mt_PromptTokens m + mt_CompletionTokens m), us_CacheReadTokens = mt_CacheReadTokens m,
     us_CacheWriteTokens = mt_CacheWriteTokens m\<rparr>"

section \<open>stats.go\<close>

record ToolStats =
  tl_Name :: string
  tl_Calls :: nat
  tl_ResultBytes :: nat
  tl_MaxResultBytes :: nat

record ConversationStats =
  cs_UserMessages :: nat
  cs_BackgroundMessages :: nat
  cs_AssistantTurns :: nat
  cs_ToolCalls :: nat
  cs_ToolResults :: nat
  cs_Tools :: "ToolStats list"
  cs_TextBytes :: nat
  cs_ToolResultBytes :: nat
  cs_CompactedMessages :: nat
  cs_Notes :: nat
  cs_Todos :: nat

text \<open>\<open>byTool\<close> is the list of its values, one per name; \<open>tool\<close> creates an entry on first use.\<close>

fun tool_entry :: "string \<Rightarrow> (ToolStats \<Rightarrow> ToolStats) \<Rightarrow> ToolStats list \<Rightarrow> ToolStats list" where
  "tool_entry name f [] = [f \<lparr>tl_Name = name, tl_Calls = 0, tl_ResultBytes = 0, tl_MaxResultBytes = 0\<rparr>]"
| "tool_entry name f (t # ts) = (if tl_Name t = name then f t # ts else t # tool_entry name f ts)"

definition count_call :: "ToolCall \<Rightarrow> ConversationStats \<times> (string \<rightharpoonup> string) \<Rightarrow> ConversationStats \<times> (string \<rightharpoonup> string)" where
  "count_call tc = (\<lambda>(o', byCall).
     (o'\<lparr>cs_ToolCalls := cs_ToolCalls o' + 1,
         cs_Tools := tool_entry (tc_Name tc) (\<lambda>t. t\<lparr>tl_Calls := tl_Calls t + 1\<rparr>) (cs_Tools o')\<rparr>,
      byCall(tc_ID tc \<mapsto> tc_Name tc)))"

definition count_message :: "Message \<Rightarrow> ConversationStats \<times> (string \<rightharpoonup> string) \<Rightarrow> ConversationStats \<times> (string \<rightharpoonup> string)" where
  "count_message m = (\<lambda>(o', byCall).
     let n = length (ms_Content m) in
     if ms_Role m = ''user'' then
       ((if ms_Source m = '''' then o'\<lparr>cs_UserMessages := cs_UserMessages o' + 1\<rparr>
         else o'\<lparr>cs_BackgroundMessages := cs_BackgroundMessages o' + 1\<rparr>)\<lparr>cs_TextBytes := cs_TextBytes o' + n\<rparr>, byCall)
     else if ms_Role m = ''assistant'' then
       fold count_call (ms_ToolCalls m)
         (o'\<lparr>cs_AssistantTurns := cs_AssistantTurns o' + 1, cs_TextBytes := cs_TextBytes o' + n\<rparr>, byCall)
     else if ms_Role m = ''tool'' then
       (o'\<lparr>cs_ToolResults := cs_ToolResults o' + 1, cs_ToolResultBytes := cs_ToolResultBytes o' + n,
           cs_Tools := tool_entry (case byCall (ms_ToolCallID m) of None \<Rightarrow> '''' | Some name \<Rightarrow> name)
             (\<lambda>t. t\<lparr>tl_ResultBytes := tl_ResultBytes t + n, tl_MaxResultBytes := max n (tl_MaxResultBytes t)\<rparr>) (cs_Tools o')\<rparr>, byCall)
     else (o', byCall))"

definition Stats :: "State \<Rightarrow> ConversationStats" where
  "Stats st =
     (let start = \<lparr>cs_UserMessages = 0, cs_BackgroundMessages = 0, cs_AssistantTurns = 0, cs_ToolCalls = 0, cs_ToolResults = 0,
            cs_Tools = [], cs_TextBytes = 0, cs_ToolResultBytes = 0,
            cs_CompactedMessages = min (st_CompactionIdx st) (length (st_Messages st)), cs_Notes = length (st_Notes st),
            cs_Todos = length (st_Todos st)\<rparr>;
          out = fst (fold count_message (st_Messages st) (start, Map.empty))
      in out\<lparr>cs_Tools := sort_key (\<lambda>t. (- int (tl_ResultBytes t), - int (tl_Calls t), tl_Name t)) (cs_Tools out)\<rparr>)"

section \<open>usage.go\<close>

datatype UsageGroup = GroupByDay | GroupByWorkspace | GroupByModel

definition ParseUsageGroup :: "string \<Rightarrow> UsageGroup option" where
  "ParseUsageGroup s =
     (if s = '''' \<or> s = ''day'' then Some GroupByDay
      else if s = ''workspace'' then Some GroupByWorkspace
      else if s = ''model'' then Some GroupByModel
      else None)"

record ItemSummary =
  is_ID :: string
  is_ProjectID :: string
  is_Kind :: Kind
  is_CreatedAt :: int
  is_UpdatedAt :: int
  is_Title :: string
  is_Workspace :: string
  is_Pinned :: bool
  is_ForkedFrom :: "ForkedFrom option"
  is_PromptTokens :: int
  is_CompletionTokens :: int
  is_CacheReadTokens :: int
  is_CacheWriteTokens :: int
  is_Cost :: "Cost option"
  is_CostIncomplete :: bool
  is_Model :: string

record UsageBucket =
  ub_Key :: string
  ub_Sessions :: nat
  ub_PromptTokens :: int
  ub_CompletionTokens :: int
  ub_CacheReadTokens :: int
  ub_CacheWriteTokens :: int
  ub_Cost :: "Cost option"
  ub_CostIncomplete :: bool

record UsageReport =
  ur_GroupBy :: UsageGroup
  ur_Since :: "int option"
  ur_Buckets :: "UsageBucket list"
  ur_Total :: UsageBucket

definition emptyBucket :: "string \<Rightarrow> UsageBucket" where
  "emptyBucket key = \<lparr>ub_Key = key, ub_Sessions = 0, ub_PromptTokens = 0, ub_CompletionTokens = 0, ub_CacheReadTokens = 0,
     ub_CacheWriteTokens = 0, ub_Cost = None, ub_CostIncomplete = False\<rparr>"

text \<open>\<open>day\<close> renders a time as a date in the reader's zone.\<close>

definition usageKey :: "(int \<Rightarrow> string) \<Rightarrow> UsageGroup \<Rightarrow> ItemSummary \<Rightarrow> string" where
  "usageKey day groupBy r =
     (case groupBy of
        GroupByWorkspace \<Rightarrow> if is_Workspace r = '''' then ''(none)'' else is_Workspace r
      | GroupByModel \<Rightarrow> if is_Model r = '''' then ''(unspecified)'' else is_Model r
      | GroupByDay \<Rightarrow> day (is_CreatedAt r))"

definition addUsage :: "ItemSummary \<Rightarrow> UsageBucket \<Rightarrow> UsageBucket" where
  "addUsage r b =
     (let incomplete = (ub_CostIncomplete b \<or> is_CostIncomplete r);
          unpriced = (is_Cost r = None \<and> (is_PromptTokens r > 0 \<or> is_CompletionTokens r > 0));
          (incomplete', cost) = fold_cost (is_Cost r) (incomplete \<or> unpriced, ub_Cost b)
      in b\<lparr>ub_Sessions := ub_Sessions b + 1, ub_PromptTokens := wrap64 (ub_PromptTokens b + is_PromptTokens r),
           ub_CompletionTokens := wrap64 (ub_CompletionTokens b + is_CompletionTokens r),
           ub_CacheReadTokens := wrap64 (ub_CacheReadTokens b + is_CacheReadTokens r),
           ub_CacheWriteTokens := wrap64 (ub_CacheWriteTokens b + is_CacheWriteTokens r),
           ub_Cost := cost, ub_CostIncomplete := incomplete'\<rparr>)"

fun into_bucket :: "string \<Rightarrow> ItemSummary \<Rightarrow> UsageBucket list \<Rightarrow> UsageBucket list" where
  "into_bucket key r [] = [addUsage r (emptyBucket key)]"
| "into_bucket key r (b # bs) = (if ub_Key b = key then addUsage r b # bs else b # into_bucket key r bs)"

definition counted :: "int option \<Rightarrow> ItemSummary \<Rightarrow> bool" where
  "counted since r \<longleftrightarrow> is_Kind r \<noteq> KindSubagent \<and> (case since of None \<Rightarrow> True | Some t \<Rightarrow> \<not> is_CreatedAt r < t)"

definition costTotal :: "Cost option \<Rightarrow> int" where
  "costTotal c = (case c of None \<Rightarrow> 0 | Some x \<Rightarrow> co_Total x)"

definition sortBuckets :: "UsageGroup \<Rightarrow> UsageBucket list \<Rightarrow> UsageBucket list" where
  "sortBuckets groupBy buckets =
     (if groupBy = GroupByDay then sort_key ub_Key buckets
      else sort_key (\<lambda>b. (- costTotal (ub_Cost b), - wrap64 (ub_PromptTokens b + ub_CompletionTokens b), ub_Key b)) buckets)"

definition AggregateUsage :: "(int \<Rightarrow> string) \<Rightarrow> ItemSummary list \<Rightarrow> UsageGroup \<Rightarrow> int option \<Rightarrow> UsageReport" where
  "AggregateUsage day rows groupBy since =
     (let (buckets, tot) = fold (\<lambda>r (bs, t).
            if counted since r then (into_bucket (usageKey day groupBy r) r bs, addUsage r t) else (bs, t))
            rows ([], emptyBucket '''')
      in \<lparr>ur_GroupBy = groupBy, ur_Since = since, ur_Buckets = sortBuckets groupBy buckets,
          ur_Total = tot\<lparr>ub_Key := ''total''\<rparr>\<rparr>)"

section \<open>Estimates\<close>

lemma quot_nonneg: "0 \<le> a \<Longrightarrow> 0 < b \<Longrightarrow> quot a b = a div b"
  by (cases "a = 0") (simp_all add: quot_def)

lemma rate_exact:
  assumes "0 \<le> tokens" "0 \<le> per" "tokens * per < 2 ^ 63"
  shows "rate tokens per = tokens * per div 1000000"
proof (cases "tokens = 0 \<or> per = 0")
  case False
  have "wrap64 (tokens * per) = tokens * per" using assms by (intro wrap64_id) (simp_all add: order_trans [of _ 0])
  then show ?thesis using assms False by (simp add: rate_def quot_nonneg tokensPerRateUnit_def)
qed (auto simp: rate_def)

definition reported :: "Usage \<Rightarrow> bool" where
  "reported u \<longleftrightarrow> 0 \<le> us_CacheReadTokens u \<and> 0 \<le> us_CacheWriteTokens u \<and> 0 \<le> us_CompletionTokens u
     \<and> us_CacheReadTokens u + us_CacheWriteTokens u \<le> us_PromptTokens u \<and> us_PromptTokens u < 2 ^ 63"

definition affordable :: "Usage \<Rightarrow> Pricing \<Rightarrow> bool" where
  "affordable u p \<longleftrightarrow> (\<forall>r\<in>{pr_InputPerMTok p, pr_CacheReadPerMTok p, pr_CacheWritePerMTok p, pr_OutputPerMTok p}.
     0 \<le> r \<and> us_PromptTokens u * r < 2 ^ 61 \<and> us_CompletionTokens u * r < 2 ^ 61)"

lemma div_sum_le: "x div 1000000 + y div 1000000 \<le> (x + y) div (1000000 :: int)"
proof -
  have "1000000 * (x div 1000000) \<le> x" "1000000 * (y div 1000000) \<le> y"
    using mult_div_mod_eq [of "1000000 :: int" x] mult_div_mod_eq [of "1000000 :: int" y]
      pos_mod_sign [of "1000000 :: int" x] pos_mod_sign [of "1000000 :: int" y] by linarith+
  then have "1000000 * (x div 1000000 + y div 1000000) \<le> x + y" unfolding distrib_left by (rule add_mono)
  then have "1000000 * (x div 1000000 + y div 1000000) div 1000000 \<le> (x + y) div 1000000" by (rule zdiv_mono1) simp
  then show ?thesis by simp
qed

lemma part_bounds:
  fixes part :: int
  assumes "0 \<le> part" "part \<le> whole" "0 \<le> r" "whole * r < 2 ^ 61"
  shows "rate part r = part * r div 1000000" "0 \<le> part * r div 1000000" "part * r div 1000000 < 2 ^ 61"
proof -
  have "part * r \<le> whole * r" "0 \<le> part * r" using assms by (simp_all add: mult_right_mono)
  then have b: "0 \<le> part * r" "part * r < 2 ^ 61" using assms(4) by linarith+
  show "rate part r = part * r div 1000000" using b assms by (intro rate_exact) simp_all
  show "0 \<le> part * r div 1000000" using b by (simp add: pos_imp_zdiv_nonneg_iff)
  show "part * r div 1000000 < 2 ^ 61" using b zdiv_mono1 [of 0 "part * r" 1000000] int_div_less_self [of "part * r" 1000000]
    by (cases "part * r = 0") auto
qed

text \<open>C35: An estimate is exact where it does not overflow. For usage whose cache counts are parts of the
  prompt and rates whose products stay below \<open>2^61\<close>, a configured price list prices every part at its own
  rate, rounding down; the total is the sum of the parts, the baseline is what the call would have cost
  without caching, and a call whose cache is no dearer than fresh input never costs more than the baseline.\<close>

theorem EstimateCost_exact:
  assumes "reported u" "affordable u p" "Configured p" "us_PromptTokens u \<noteq> 0 \<or> us_CompletionTokens u \<noteq> 0"
  shows "\<exists>c. EstimateCost u p = Some c \<and> co_Currency c = pr_Currency p
    \<and> co_Uncached c = (us_PromptTokens u - us_CacheReadTokens u - us_CacheWriteTokens u) * pr_InputPerMTok p div 1000000
    \<and> co_CacheRead c = us_CacheReadTokens u * pr_CacheReadPerMTok p div 1000000
    \<and> co_CacheWrite c = us_CacheWriteTokens u * pr_CacheWritePerMTok p div 1000000
    \<and> co_Output c = us_CompletionTokens u * pr_OutputPerMTok p div 1000000
    \<and> co_Total c = co_Uncached c + co_CacheRead c + co_CacheWrite c + co_Output c
    \<and> co_Baseline c = us_PromptTokens u * pr_InputPerMTok p div 1000000 + co_Output c
    \<and> (pr_CacheReadPerMTok p \<le> pr_InputPerMTok p \<and> pr_CacheWritePerMTok p \<le> pr_InputPerMTok p \<longrightarrow> co_Total c \<le> co_Baseline c)"
proof -
  let ?a = "us_CacheReadTokens u" and ?b = "us_CacheWriteTokens u" and ?t = "us_PromptTokens u" and ?o = "us_CompletionTokens u"
  let ?f = "?t - ?a - ?b"
  let ?i = "pr_InputPerMTok p" and ?r = "pr_CacheReadPerMTok p" and ?w = "pr_CacheWritePerMTok p" and ?q = "pr_OutputPerMTok p"
  have u: "0 \<le> ?a" "0 \<le> ?b" "0 \<le> ?o" "0 \<le> ?f" "?a \<le> ?t" "?b \<le> ?t" "?f \<le> ?t" "0 \<le> ?t" "?t < 2 ^ 63"
    using assms(1) by (simp_all add: reported_def)
  have p: "0 \<le> ?i" "0 \<le> ?r" "0 \<le> ?w" "0 \<le> ?q" "?t * ?i < 2 ^ 61" "?t * ?r < 2 ^ 61" "?t * ?w < 2 ^ 61" "?o * ?q < 2 ^ 61"
    using assms(2) by (simp_all add: affordable_def)
  note f = part_bounds [OF u(4) u(7) p(1) p(5)] and r = part_bounds [OF u(1) u(5) p(2) p(6)]
    and w = part_bounds [OF u(2) u(6) p(3) p(7)] and out = part_bounds [OF u(3) order_refl p(4) p(8)]
    and t = part_bounds [OF u(8) order_refl p(1) p(5)]
  have fresh: "max (wrap64 (wrap64 (?t - ?a) - ?b)) 0 = ?f"
    using u wrap64_id [of "?t - ?a"] wrap64_id [of ?f] by simp
  let ?F = "?f * ?i div 1000000" and ?R = "?a * ?r div 1000000" and ?W = "?b * ?w div 1000000" and ?O = "?o * ?q div 1000000"
  have tot: "wrap64 (wrap64 (wrap64 (?F + ?R) + ?W) + ?O) = ?F + ?R + ?W + ?O"
    using f r w out by (simp add: wrap64_id)
  have base: "wrap64 (?t * ?i div 1000000 + ?O) = ?t * ?i div 1000000 + ?O" using t out by (simp add: wrap64_id)
  have cheap: "?F + ?R + ?W \<le> ?t * ?i div 1000000" if "?r \<le> ?i" "?w \<le> ?i"
  proof -
    have "?f * ?i + ?a * ?r + ?b * ?w \<le> ?f * ?i + ?a * ?i + ?b * ?i"
      using that u by (intro add_mono mult_left_mono) simp_all
    also have "\<dots> = ?t * ?i" by (simp add: algebra_simps)
    finally have "(?f * ?i + ?a * ?r + ?b * ?w) div 1000000 \<le> ?t * ?i div 1000000" by (intro zdiv_mono1) simp_all
    then show ?thesis using div_sum_le [of "?f * ?i" "?a * ?r"] div_sum_le [of "?f * ?i + ?a * ?r" "?b * ?w"] by linarith
  qed
  show ?thesis
    using assms(3,4) cheap unfolding EstimateCost_def Let_def fresh f(1) r(1) w(1) out(1) t(1) tot base by auto
qed

section \<open>Running totals\<close>

lemma fold_cost_flag: "fold_cost add (b, c) = (b \<or> fst (fold_cost add (False, c)), snd (fold_cost add (False, c)))"
  by (simp add: fold_cost_def split: option.splits prod.splits bool.splits)

definition turn_costs :: "TurnStat list \<Rightarrow> bool \<times> Cost option" where
  "turn_costs ts = fold fold_cost (map ts_Cost ts) (False, None)"

definition adds_up :: "Meta \<Rightarrow> bool" where
  "adds_up m \<longleftrightarrow> mt_PromptTokens m = wrap64 (sum_list (map ts_PromptTokens (mt_Turns m)))
     \<and> mt_CompletionTokens m = wrap64 (sum_list (map ts_CompletionTokens (mt_Turns m)))
     \<and> mt_CacheReadTokens m = wrap64 (sum_list (map ts_CacheReadTokens (mt_Turns m)))
     \<and> mt_CacheWriteTokens m = wrap64 (sum_list (map ts_CacheWriteTokens (mt_Turns m)))
     \<and> mt_Cost m = snd (turn_costs (mt_Turns m)) \<and> (fst (turn_costs (mt_Turns m)) \<longrightarrow> mt_CostIncomplete m)"

lemma turn_costs_snoc: "turn_costs (ts @ [t]) = fold_cost (ts_Cost t) (turn_costs ts)"
  by (simp add: turn_costs_def)

lemma turn_costs_snoc_eqs:
  "snd (turn_costs (ts @ [t])) = snd (fold_cost (ts_Cost t) (b, snd (turn_costs ts)))"
  "fst (turn_costs (ts @ [t])) \<longleftrightarrow> fst (turn_costs ts) \<or> fst (fold_cost (ts_Cost t) (False, snd (turn_costs ts)))"
  using fold_cost_flag [of "ts_Cost t" "fst (turn_costs ts)" "snd (turn_costs ts)"]
    fold_cost_flag [of "ts_Cost t" b "snd (turn_costs ts)"]
  by (simp_all add: turn_costs_snoc)

lemma fold_cost_None [simp]: "fold_cost None acc = acc"
  by (simp add: fold_cost_def)

lemma wrap64_zero [simp]: "wrap64 0 = 0"
  by (simp add: wrap64_def)

lemma wrap64_idem [simp]: "wrap64 (wrap64 x) = wrap64 x"
  using wrap64_left(1) [of x 0] by simp

lemma ApplyMetaUpdate_adds_up:
  assumes "adds_up m"
  shows "adds_up (ApplyMetaUpdate m u now)"
proof (cases "hasUsage u")
  case True
  let ?t = "\<lparr>ts_At = now, ts_PromptTokens = mu_AddPromptTokens u, ts_CompletionTokens = mu_AddCompletionTokens u,
    ts_CacheReadTokens = mu_AddCacheReadTokens u, ts_CacheWriteTokens = mu_AddCacheWriteTokens u, ts_Cost = mu_AddCost u\<rparr>"
  obtain b c where f: "fold_cost (mu_AddCost u) (mt_CostIncomplete m \<or> mu_MarkCostIncomplete u, mt_Cost m) = (b, c)" by fastforce
  note flag = fold_cost_flag [of "mu_AddCost u" "mt_CostIncomplete m \<or> mu_MarkCostIncomplete u" "mt_Cost m", unfolded f]
  have "c = snd (turn_costs (mt_Turns m @ [?t]))" "fst (turn_costs (mt_Turns m @ [?t])) \<longrightarrow> b"
    using assms turn_costs_snoc_eqs(1) [of "mt_Turns m" ?t False] turn_costs_snoc_eqs(2) [of "mt_Turns m" ?t] flag
    by (auto simp: adds_up_def)
  then show ?thesis using assms True f by (simp add: adds_up_def ApplyMetaUpdate_def)
next
  case False
  then show ?thesis using assms by (simp add: adds_up_def ApplyMetaUpdate_def hasUsage_def)
qed

definition identity_of :: "Meta \<Rightarrow> string \<times> Kind \<times> int \<times> string \<times> bool \<times> string \<times> ForkedFrom option" where
  "identity_of m = (mt_ID m, mt_Kind m, mt_CreatedAt m, mt_ProjectID m, mt_Hidden m, mt_PromptDestination m, mt_ForkedFrom m)"

lemma ApplyMetaUpdate_identity: "identity_of (ApplyMetaUpdate m u now) = identity_of m"
  by (simp add: ApplyMetaUpdate_def identity_of_def Let_def split: prod.splits)

text \<open>C36: The metadata of a session adds up: after any sequence of updates of a new session its token totals
  are the sums of its per-turn entries, its cost is their costs added in order, an amount that could not be
  added marks the total incomplete, and identity, kind, project, visibility, destination and fork provenance
  are what they were at creation.\<close>

theorem session_totals_add_up:
  "adds_up (fold (\<lambda>(u, now) m. ApplyMetaUpdate m u now) us (NewMeta i kind created))
   \<and> identity_of (fold (\<lambda>(u, now) m. ApplyMetaUpdate m u now) us (NewMeta i kind created)) = identity_of (NewMeta i kind created)"
proof -
  have "adds_up m \<Longrightarrow> adds_up (fold (\<lambda>(u, now) m. ApplyMetaUpdate m u now) us m)
      \<and> identity_of (fold (\<lambda>(u, now) m. ApplyMetaUpdate m u now) us m) = identity_of m" for m
    by (induction us arbitrary: m) (auto simp: ApplyMetaUpdate_adds_up ApplyMetaUpdate_identity)
  moreover have "adds_up (NewMeta i kind created)" by (simp add: adds_up_def NewMeta_def zeroMeta_def turn_costs_def)
  ultimately show ?thesis by blast
qed

section \<open>The usage report\<close>

lemma addUsage_fields [simp]:
  "ub_Key (addUsage r b) = ub_Key b" "ub_Sessions (addUsage r b) = Suc (ub_Sessions b)"
  "ub_PromptTokens (addUsage r b) = wrap64 (ub_PromptTokens b + is_PromptTokens r)"
  "ub_CompletionTokens (addUsage r b) = wrap64 (ub_CompletionTokens b + is_CompletionTokens r)"
  by (simp_all add: addUsage_def Let_def split: prod.splits)

definition summed :: "ItemSummary list \<Rightarrow> string \<Rightarrow> UsageBucket" where
  "summed rows key = fold addUsage rows (emptyBucket key)"

lemma summed_snoc [simp]: "summed (rows @ [r]) key = addUsage r (summed rows key)"
  by (simp add: summed_def)

lemma summed_fields:
  "ub_Key (summed rows key) = key" "ub_Sessions (summed rows key) = length rows"
  "ub_PromptTokens (summed rows key) = wrap64 (sum_list (map is_PromptTokens rows))"
  "ub_CompletionTokens (summed rows key) = wrap64 (sum_list (map is_CompletionTokens rows))"
  by (induction rows rule: rev_induct) (simp_all add: summed_def emptyBucket_def)

lemma into_bucket_keys: "map ub_Key (into_bucket key r bs) =
    (if key \<in> ub_Key ` set bs then map ub_Key bs else map ub_Key bs @ [key])"
  by (induction bs) (auto simp: emptyBucket_def)

lemma into_bucket_set:
  assumes "distinct (map ub_Key bs)" "b \<in> set (into_bucket key r bs)"
  shows "b \<in> set bs \<and> ub_Key b \<noteq> key \<or> (\<exists>b'\<in>set bs. ub_Key b' = key \<and> b = addUsage r b')
    \<or> key \<notin> ub_Key ` set bs \<and> b = addUsage r (emptyBucket key)"
  using assms by (induction bs) (auto simp: image_iff split: if_splits)

definition buckets_of :: "(ItemSummary \<Rightarrow> string) \<Rightarrow> ItemSummary list \<Rightarrow> UsageBucket list \<Rightarrow> bool" where
  "buckets_of key rows bs \<longleftrightarrow> distinct (map ub_Key bs) \<and> ub_Key ` set bs = key ` set rows
     \<and> (\<forall>b\<in>set bs. b = summed (filter (\<lambda>r. key r = ub_Key b) rows) (ub_Key b))"

lemma into_bucket_of:
  assumes "buckets_of key rows bs"
  shows "buckets_of key (rows @ [r]) (into_bucket (key r) r bs)"
proof -
  have d: "distinct (map ub_Key bs)" and k: "ub_Key ` set bs = key ` set rows"
    and each: "\<And>b. b \<in> set bs \<Longrightarrow> b = summed (filter (\<lambda>r. key r = ub_Key b) rows) (ub_Key b)"
    using assms by (auto simp: buckets_of_def)
  have keys: "map ub_Key (into_bucket (key r) r bs) = (if key r \<in> ub_Key ` set bs then map ub_Key bs else map ub_Key bs @ [key r])"
    by (rule into_bucket_keys)
  then have "distinct (map ub_Key (into_bucket (key r) r bs))" using d by auto
  moreover have "ub_Key ` set (into_bucket (key r) r bs) = key ` set (rows @ [r])"
    using arg_cong [OF keys, of set] k by (auto split: if_splits)
  moreover have "b = summed (filter (\<lambda>x. key x = ub_Key b) (rows @ [r])) (ub_Key b)" if b: "b \<in> set (into_bucket (key r) r bs)" for b
    using into_bucket_set [OF d b]
  proof (elim disjE bexE conjE)
    assume "b \<in> set bs" "ub_Key b \<noteq> key r"
    then show ?thesis using each [of b] by (simp add: eq_commute)
  next
    fix b' assume "b' \<in> set bs" "ub_Key b' = key r" "b = addUsage r b'"
    then show ?thesis using each [of b'] by simp
  next
    assume n: "key r \<notin> ub_Key ` set bs" and b: "b = addUsage r (emptyBucket (key r))"
    have "ub_Key b = key r" by (simp add: b emptyBucket_def)
    moreover have "filter (\<lambda>x. key x = key r) rows = []" using n k by (simp add: filter_empty_conv) (metis imageI)
    ultimately show ?thesis by (simp add: b summed_def)
  qed
  ultimately show ?thesis unfolding buckets_of_def by blast
qed

lemma AggregateUsage_fold:
  assumes "buckets_of key seen bs" "t = summed seen ''''"
  shows "\<exists>bs'. fold (\<lambda>r (bs, t). if counted since r then (into_bucket (key r) r bs, addUsage r t) else (bs, t)) rows (bs, t)
      = (bs', summed (seen @ filter (counted since) rows) '''') \<and> buckets_of key (seen @ filter (counted since) rows) bs'"
  using assms
proof (induction rows arbitrary: seen bs t)
  case (Cons r rows)
  show ?case
  proof (cases "counted since r")
    case True
    then show ?thesis using Cons.IH [OF into_bucket_of [OF Cons.prems(1)], of "addUsage r t" r] Cons.prems(2) by simp
  next
    case False
    then show ?thesis using Cons.IH [OF Cons.prems] by simp
  qed
qed simp

text \<open>The usage report adds up. Its buckets have distinct keys, one for every key of a counted row and no
  other; each is the sum of the counted rows of its key and the total is the sum of all counted rows, token
  counts modulo \<open>2^64\<close>; the buckets' sessions add up to the total's; and days come in order.\<close>

theorem usage_report_adds_up:
  fixes day rows groupBy since
  defines "rep \<equiv> AggregateUsage day rows groupBy since" and "key \<equiv> usageKey day groupBy" and "kept \<equiv> filter (counted since) rows"
  shows "distinct (map ub_Key (ur_Buckets rep)) \<and> ub_Key ` set (ur_Buckets rep) = key ` set kept
    \<and> (\<forall>b\<in>set (ur_Buckets rep). b = summed (filter (\<lambda>r. key r = ub_Key b) kept) (ub_Key b))
    \<and> ub_Sessions (ur_Total rep) = length kept \<and> ub_PromptTokens (ur_Total rep) = wrap64 (sum_list (map is_PromptTokens kept))
    \<and> sum_list (map ub_Sessions (ur_Buckets rep)) = ub_Sessions (ur_Total rep)
    \<and> (groupBy = GroupByDay \<longrightarrow> sorted (map ub_Key (ur_Buckets rep)))"
proof -
  obtain bs where f: "fold (\<lambda>r (bs, t). if counted since r then (into_bucket (key r) r bs, addUsage r t) else (bs, t)) rows ([], emptyBucket '''')
      = (bs, summed kept '''')" and bs: "buckets_of key kept bs"
    using AggregateUsage_fold [of key "[]" "[]" "emptyBucket ''''" since rows] by (auto simp: buckets_of_def summed_def kept_def)
  have buckets: "ur_Buckets rep = sortBuckets groupBy bs" and tot: "ur_Total rep = (summed kept '''')\<lparr>ub_Key := ''total''\<rparr>"
    using f [unfolded key_def] by (simp_all add: rep_def AggregateUsage_def)
  have perm: "mset (sortBuckets groupBy bs) = mset bs" by (simp add: sortBuckets_def)
  then have same: "set (sortBuckets groupBy bs) = set bs" by (metis set_mset_mset)
  have "mset (map ub_Key (sortBuckets groupBy bs)) = mset (map ub_Key bs)" using perm by simp
  then have d: "distinct (map ub_Key (ur_Buckets rep))" using bs buckets by (metis buckets_of_def mset_eq_imp_distinct_iff)
  have d': "distinct (map ub_Key bs)" and k: "ub_Key ` set bs = key ` set kept"
    and each: "\<And>b. b \<in> set bs \<Longrightarrow> b = summed (filter (\<lambda>r. key r = ub_Key b) kept) (ub_Key b)"
    using bs unfolding buckets_of_def by blast+
  have one: "ub_Sessions b = length (filter (\<lambda>r. key r = ub_Key b) kept)" if "b \<in> set bs" for b
    using each [OF that] summed_fields(2) by metis
  have "sum_list (map ub_Sessions bs) = sum_list (map (\<lambda>b. length (filter (\<lambda>r. key r = ub_Key b) kept)) bs)"
    using one by (metis (mono_tags, lifting) map_eq_conv)
  also have "\<dots> = (\<Sum>x\<in>key ` set kept. length (filter (\<lambda>r. key r = x) kept))"
    using d' k sum_list_distinct_conv_sum_set [of "map ub_Key bs" "\<lambda>x. length (filter (\<lambda>r. key r = x) kept)"]
    by (simp add: o_def)
  also have "\<dots> = length kept"
  proof -
    have "(\<Sum>x\<in>key ` set kept. length (filter (\<lambda>r. key r = x) kept)) = (\<Sum>x\<in>set (map key kept). count_list (map key kept) x)"
      by (simp add: count_list_eq_length_filter filter_map o_def eq_commute)
    then show ?thesis by (simp only: sum_count_set [of "map key kept", OF order_refl finite_set] length_map)
  qed
  finally have sum: "sum_list (map ub_Sessions (sortBuckets groupBy bs)) = length kept"
    using perm by (metis mset_map sum_mset_sum_list)
  show ?thesis
    using d same k each sum summed_fields [of kept "''''"] unfolding buckets tot by (auto simp: sortBuckets_def)
qed

section \<open>The shape of a conversation\<close>

lemma tool_entry_names:
  assumes "\<And>t. tl_Name (f t) = tl_Name t"
  shows "tl_Name ` set (tool_entry name f ts) = insert name (tl_Name ` set ts)"
    "distinct (map tl_Name ts) \<Longrightarrow> distinct (map tl_Name (tool_entry name f ts))"
proof -
  show names: "tl_Name ` set (tool_entry name f ts) = insert name (tl_Name ` set ts)" for ts
    by (induction ts) (auto simp: assms)
  show "distinct (map tl_Name ts) \<Longrightarrow> distinct (map tl_Name (tool_entry name f ts))"
    using names by (induction ts) (auto simp: assms)
qed

lemma tool_entry_sum:
  assumes "\<And>t. g (f t) = g t + k" "g \<lparr>tl_Name = name, tl_Calls = 0, tl_ResultBytes = 0, tl_MaxResultBytes = 0\<rparr> = 0"
  shows "sum_list (map g (tool_entry name f ts)) = sum_list (map g ts) + (k :: nat)"
  using assms(2) by (induction ts) (auto simp: assms(1))

definition tallied :: "ConversationStats \<Rightarrow> bool" where
  "tallied s \<longleftrightarrow> distinct (map tl_Name (cs_Tools s)) \<and> sum_list (map tl_Calls (cs_Tools s)) = cs_ToolCalls s
     \<and> sum_list (map tl_ResultBytes (cs_Tools s)) = cs_ToolResultBytes s"

lemma count_call_tallied:
  assumes "tallied s"
  shows "tallied (fst (count_call tc (s, named)))"
  using assms tool_entry_names(2) [of "\<lambda>t. t\<lparr>tl_Calls := tl_Calls t + 1\<rparr>"]
    tool_entry_sum [of tl_Calls "\<lambda>t. t\<lparr>tl_Calls := tl_Calls t + 1\<rparr>" 1]
    tool_entry_sum [of tl_ResultBytes "\<lambda>t. t\<lparr>tl_Calls := tl_Calls t + 1\<rparr>" 0]
  by (simp add: count_call_def tallied_def)

definition counts :: "ConversationStats \<Rightarrow> nat \<times> nat \<times> nat \<times> nat \<times> nat" where
  "counts s = (cs_UserMessages s, cs_BackgroundMessages s, cs_AssistantTurns s, cs_ToolResults s, cs_TextBytes s)"

lemma count_calls:
  assumes "tallied (fst acc)"
  shows "tallied (fst (fold count_call tcs acc)) \<and> cs_ToolCalls (fst (fold count_call tcs acc)) = cs_ToolCalls (fst acc) + length tcs
    \<and> counts (fst (fold count_call tcs acc)) = counts (fst acc)"
  using assms
proof (induction tcs arbitrary: acc)
  case (Cons tc tcs)
  have "tallied (fst (count_call tc acc))" using count_call_tallied Cons.prems by (cases acc) simp
  from Cons.IH [OF this] show ?case by (cases acc) (simp add: count_call_def counts_def)
qed simp

definition by_role :: "string \<Rightarrow> Message list \<Rightarrow> Message list" where
  "by_role role ms = filter (\<lambda>m. ms_Role m = role) ms"

definition accounted :: "Message list \<Rightarrow> ConversationStats \<Rightarrow> bool" where
  "accounted ms s \<longleftrightarrow> tallied s
     \<and> cs_UserMessages s = length (filter (\<lambda>m. ms_Source m = '''') (by_role ''user'' ms))
     \<and> cs_BackgroundMessages s = length (filter (\<lambda>m. ms_Source m \<noteq> '''') (by_role ''user'' ms))
     \<and> cs_AssistantTurns s = length (by_role ''assistant'' ms)
     \<and> cs_ToolCalls s = sum_list (map (length \<circ> ms_ToolCalls) (by_role ''assistant'' ms))
     \<and> cs_ToolResults s = length (by_role ''tool'' ms)
     \<and> cs_ToolResultBytes s = sum_list (map (length \<circ> ms_Content) (by_role ''tool'' ms))
     \<and> cs_TextBytes s = sum_list (map (length \<circ> ms_Content) (by_role ''user'' ms))
         + sum_list (map (length \<circ> ms_Content) (by_role ''assistant'' ms))"

lemma count_call_bytes: "cs_ToolResultBytes (fst (fold count_call tcs acc)) = cs_ToolResultBytes (fst acc)"
  by (induction tcs arbitrary: acc) (auto simp: count_call_def)

lemma count_message_accounted:
  assumes "accounted ms (fst acc)"
  shows "accounted (ms @ [m]) (fst (count_message m acc))"
proof -
  obtain s named where acc: "acc = (s, named)" by (cases acc)
  let ?f = "\<lambda>t. t\<lparr>tl_ResultBytes := tl_ResultBytes t + length (ms_Content m),
      tl_MaxResultBytes := max (length (ms_Content m)) (tl_MaxResultBytes t)\<rparr>"
  let ?start = "(s\<lparr>cs_AssistantTurns := cs_AssistantTurns s + 1, cs_TextBytes := cs_TextBytes s + length (ms_Content m)\<rparr>, named)"
  have ok: "tallied s" using assms acc by (simp add: accounted_def)
  then have "tallied (fst ?start)" by (simp add: tallied_def)
  note calls = count_calls [OF this, of "ms_ToolCalls m"] count_call_bytes [of "ms_ToolCalls m" ?start]
  show ?thesis
  proof (cases "ms_Role m = ''assistant''")
    case True
    then show ?thesis using assms calls unfolding acc
      by (simp add: count_message_def accounted_def by_role_def counts_def)
  next
    case False
    then show ?thesis
      using assms ok tool_entry_names(2) [of ?f] tool_entry_sum [of tl_Calls ?f 0] tool_entry_sum [of tl_ResultBytes ?f "length (ms_Content m)"]
      unfolding acc by (simp add: count_message_def accounted_def by_role_def tallied_def Let_def)
  qed
qed

text \<open>Session statistics account for every message. User, background, assistant and tool messages and
  their bytes are counted by role, the per-tool entries have distinct names, their calls add up to the calls
  the assistant issued and their bytes to the bytes of the results, and the heaviest tool comes first.\<close>

theorem Stats_account:
  "accounted (st_Messages st) (Stats st) \<and> sorted (map (\<lambda>t. - int (tl_ResultBytes t)) (cs_Tools (Stats st)))"
proof -
  define start where "start = \<lparr>cs_UserMessages = 0, cs_BackgroundMessages = 0, cs_AssistantTurns = 0, cs_ToolCalls = 0, cs_ToolResults = 0,
      cs_Tools = [], cs_TextBytes = 0, cs_ToolResultBytes = 0,
      cs_CompactedMessages = min (st_CompactionIdx st) (length (st_Messages st)), cs_Notes = length (st_Notes st),
      cs_Todos = length (st_Todos st)\<rparr>"
  let ?key = "\<lambda>t. (- int (tl_ResultBytes t), - int (tl_Calls t), tl_Name t)"
  have "accounted ms (fst (fold count_message ms (start, Map.empty)))" for ms
  proof (induction ms rule: rev_induct)
    case Nil
    show ?case by (simp add: start_def accounted_def by_role_def tallied_def)
  next
    case (snoc m ms)
    then show ?case using count_message_accounted by simp
  qed
  moreover have eq: "Stats st = (fst (fold count_message (st_Messages st) (start, Map.empty)))
      \<lparr>cs_Tools := sort_key ?key (cs_Tools (fst (fold count_message (st_Messages st) (start, Map.empty))))\<rparr>"
    by (simp add: Stats_def start_def Let_def)
  moreover have "tallied s \<Longrightarrow> tallied (s\<lparr>cs_Tools := sort_key ?key (cs_Tools s)\<rparr>)" for s
  proof -
    have "mset (map f (sort_key ?key (cs_Tools s))) = mset (map f (cs_Tools s))" for f :: "ToolStats \<Rightarrow> 'b" by simp
    then have "sum_list (map f (sort_key ?key (cs_Tools s))) = sum_list (map f (cs_Tools s))" for f :: "ToolStats \<Rightarrow> nat"
      unfolding sum_mset_sum_list [symmetric] by simp
    then show "tallied s \<Longrightarrow> tallied (s\<lparr>cs_Tools := sort_key ?key (cs_Tools s)\<rparr>)" by (simp add: tallied_def distinct_map)
  qed
  ultimately have "accounted (st_Messages st) (Stats st)" by (simp add: accounted_def)
  moreover have "sorted (map (\<lambda>t. - int (tl_ResultBytes t)) (cs_Tools (Stats st)))"
  proof -
    have "sorted (map ?key (sort_key ?key ts))" for ts by (rule sorted_sort_key)
    then have "sorted (map (\<lambda>t. - int (tl_ResultBytes t)) (sort_key ?key ts))" for ts
      unfolding sorted_map by (rule sorted_wrt_mono_rel [rotated]) (auto simp: less_eq_prod_def)
    then show ?thesis using eq by simp
  qed
  ultimately show ?thesis by blast
qed

section \<open>Witnesses\<close>

definition ex_usage :: Usage where
  "ex_usage = \<lparr>us_PromptTokens = 2000, us_CompletionTokens = 100, us_TotalTokens = 2100, us_CacheReadTokens = 500, us_CacheWriteTokens = 0\<rparr>"

definition ex_pricing :: Pricing where
  "ex_pricing = \<lparr>pr_Currency = ''USD'', pr_InputPerMTok = 3000000, pr_CacheReadPerMTok = 300000, pr_CacheWritePerMTok = 0,
     pr_OutputPerMTok = 15000000\<rparr>"

theorem EstimateCost_exact_witness: "\<exists>c. EstimateCost ex_usage ex_pricing = Some c \<and> co_Total c = 6150 \<and> co_Baseline c = 7500"
  using EstimateCost_exact [of ex_usage ex_pricing]
  by (auto simp: reported_def affordable_def Configured_def ex_usage_def ex_pricing_def)

definition ex_summary :: "Kind \<Rightarrow> int \<Rightarrow> ItemSummary" where
  "ex_summary kind tokens = \<lparr>is_ID = ''s'', is_ProjectID = '''', is_Kind = kind, is_CreatedAt = 5, is_UpdatedAt = 5, is_Title = '''',
     is_Workspace = ''w'', is_Pinned = False, is_ForkedFrom = None, is_PromptTokens = tokens, is_CompletionTokens = 0,
     is_CacheReadTokens = 0, is_CacheWriteTokens = 0, is_Cost = None, is_CostIncomplete = False, is_Model = ''m''\<rparr>"

theorem usage_report_adds_up_witness:
  "ub_PromptTokens (ur_Total (AggregateUsage (\<lambda>_. ''2026-01-01'')
     [ex_summary KindUser 7, ex_summary KindSubagent 9, ex_summary KindUser 4] GroupByDay (Some 3))) = wrap64 11"
  using usage_report_adds_up [of "\<lambda>_. ''2026-01-01''" "[ex_summary KindUser 7, ex_summary KindSubagent 9, ex_summary KindUser 4]"
      GroupByDay "Some 3"]
  by (simp add: counted_def ex_summary_def)

end
