(* ===== verification/Session_Store.thy ===== *)
theory Session_Store
  imports Session_Replay Session_Meta
begin

text \<open>
  The file backend of sessions, \<open>internal/infra/sessionstore\<close>: the journal as a byte string of lines
  (\<open>journal.go\<close>), the wire form of its records (\<open>MarshalJSON\<close> and \<open>UnmarshalJSON\<close> of \<open>history.go\<close>), tail
  repair, the repair of an interrupted turn on open, the writer and its guarded append (\<open>store.go\<close>).
  \<open>encoding/json\<close> is a parameter. A write can be cut short or fail to sync; what reached the file then is
  explicit. The lemmas show that what was appended is read back, that a crash during an append loses at
  most a tail of that append, that opening repairs an interrupted turn once, and that appends of fresh
  records keep a journal valid.
\<close>

section \<open>The wire form of a record\<close>

record itemWire =
  wi_Seq :: "64 word"
  wi_ID :: string
  wi_ParentID :: string
  wi_TS :: int
  wi_Type :: string
  wi_Required :: bool
  wi_TurnID :: string
  wi_Data :: string

record jcodec =
  jc_marshalHeader :: "Header \<Rightarrow> string option"
  jc_unmarshalHeader :: "string \<Rightarrow> Header option"
  jc_marshalWire :: "itemWire \<Rightarrow> string option"
  jc_unmarshalWire :: "string \<Rightarrow> itemWire option"
  jc_marshalPayload :: "Payload \<Rightarrow> string option"
  jc_unmarshalPayload :: "string \<Rightarrow> string \<Rightarrow> Payload option"

definition marshalItem :: "jcodec \<Rightarrow> Item \<Rightarrow> string option" where
  "marshalItem jc it =
     (let w = \<lparr>wi_Seq = it_Seq it, wi_ID = it_ID it, wi_ParentID = it_ParentID it, wi_TS = it_TS it, wi_Type = Type it,
               wi_Required = it_Required it, wi_TurnID = it_TurnID it, wi_Data = ''''\<rparr>
      in case it_Payload it of
           Some (UnknownPayload _ raw) \<Rightarrow> jc_marshalWire jc (w\<lparr>wi_Data := raw\<rparr>)
         | Some p \<Rightarrow> (case jc_marshalPayload jc p of None \<Rightarrow> None | Some d \<Rightarrow> jc_marshalWire jc (w\<lparr>wi_Data := d\<rparr>))
         | None \<Rightarrow> jc_marshalWire jc w)"

text \<open>The zero value of every payload struct, by its discriminator.\<close>

definition zeroMessage :: Message where
  "zeroMessage = \<lparr>ms_Role = '''', ms_Content = '''', ms_ToolCallID = '''', ms_ToolCalls = [], ms_Source = '''',
     ms_ProviderState = None, ms_Parts = []\<rparr>"

definition zero_payloads :: "(string \<times> Payload) list" where
  "zero_payloads = map (\<lambda>p. (itemType p, p))
     [TurnStarted '''' '''' '''' 0 '''', MessageItem zeroMessage, ToolExecutionStarted '''' '''', ToolResult '''' '''' '''' [],
      Compaction '''' '''', NotesReplaced [], TodosReplaced [], AdditionalPromptSet '''', HeadSelected '''',
      TurnFinished '''' '''', TurnRecovered '''' []]"

definition decodePayload :: "jcodec \<Rightarrow> string \<Rightarrow> string \<Rightarrow> Payload option" where
  "decodePayload jc kind data =
     (case map_of zero_payloads kind of
        Some zero \<Rightarrow> if data = '''' then Some zero else jc_unmarshalPayload jc kind data
      | None \<Rightarrow> if kind = '''' then None else Some (UnknownPayload kind data))"

definition unmarshalItem :: "jcodec \<Rightarrow> string \<Rightarrow> Item option" where
  "unmarshalItem jc b =
     (case jc_unmarshalWire jc b of
        None \<Rightarrow> None
      | Some w \<Rightarrow>
          (case decodePayload jc (wi_Type w) (wi_Data w) of
             None \<Rightarrow> None
           | Some p \<Rightarrow> Some \<lparr>it_Seq = wi_Seq w, it_ID = wi_ID w, it_ParentID = wi_ParentID w, it_TS = wi_TS w,
                            it_Required = wi_Required w, it_TurnID = wi_TurnID w, it_Payload = Some p\<rparr>))"

section \<open>journal.go\<close>

record Contents =
  ct_Header :: Header
  ct_Items :: "Item list"
  ct_Truncated :: nat

text \<open>\<open>StopAt\<close> carries the prefix that was still valid when a load failed.\<close>

datatype load_error = LoadError history_error | StopAt Contents history_error | NoFile | Encode | WriteFailed | Exists

definition lf :: char where "lf = CHR 0x0A"

text \<open>What reaches the file when lines are written: all of it, a prefix, or all of it with a failed sync.\<close>

datatype write_fault = WriteOK | WriteShort nat | SyncFailed

definition join_lines :: "string list \<Rightarrow> string" where
  "join_lines ls = concat (map (\<lambda>l. l @ [lf]) ls)"

definition writeLines :: "write_fault \<Rightarrow> string list \<Rightarrow> string \<Rightarrow> (load_error + unit) \<times> string" where
  "writeLines fault ls file =
     (case fault of
        WriteOK \<Rightarrow> (Inr (), file @ join_lines ls)
      | WriteShort n \<Rightarrow> (Inl WriteFailed, file @ take n (join_lines ls))
      | SyncFailed \<Rightarrow> (Inl WriteFailed, file @ join_lines ls))"

fun marshal_all :: "jcodec \<Rightarrow> Item list \<Rightarrow> string list option" where
  "marshal_all jc [] = Some []"
| "marshal_all jc (it # its) =
     (case marshalItem jc it of
        None \<Rightarrow> None
      | Some l \<Rightarrow> (case marshal_all jc its of None \<Rightarrow> None | Some ls \<Rightarrow> Some (l # ls)))"

definition journalAppend :: "jcodec \<Rightarrow> write_fault \<Rightarrow> Item list \<Rightarrow> string \<Rightarrow> (load_error + unit) \<times> string" where
  "journalAppend jc fault items file =
     (if items = [] then (Inr (), file)
      else case marshal_all jc items of None \<Rightarrow> (Inl Encode, file) | Some ls \<Rightarrow> writeLines fault ls file)"

definition CreateJournal :: "jcodec \<Rightarrow> write_fault \<Rightarrow> Header \<Rightarrow> string option \<Rightarrow> (load_error + unit) \<times> string option" where
  "CreateJournal jc fault header file =
     (case validateHeader header of
        Inl e \<Rightarrow> (Inl (LoadError e), file)
      | Inr _ \<Rightarrow>
          if file \<noteq> None then (Inl Exists, file)
          else case jc_marshalHeader jc header of
                 None \<Rightarrow> (Inl Encode, Some '''')
               | Some l \<Rightarrow> (case writeLines fault [l] '''' of (r, f) \<Rightarrow> (r, Some f)))"

definition finish :: "Validator \<Rightarrow> Contents \<Rightarrow> load_error + Contents" where
  "finish v out = (case Done v of Inl e \<Rightarrow> Inl (StopAt out e) | Inr _ \<Rightarrow> Inr out)"

text \<open>The lines after the header. The result carries the offset a torn tail starts at, if there is one; the
  caller that repairs cuts the file there.\<close>

function read_items :: "jcodec \<Rightarrow> string \<Rightarrow> nat \<Rightarrow> Validator \<Rightarrow> Contents \<Rightarrow> (load_error + Contents) \<times> nat option" where
  "read_items jc data offset v out =
     (if data = '''' then (finish v out, None)
      else if lf \<notin> set data then (finish v out, Some offset)
      else
        let line = takeWhile (\<lambda>c. c \<noteq> lf) data @ [lf];
            rest = drop (length line) data
        in case unmarshalItem jc line of
             None \<Rightarrow> (Inl (StopAt out ErrHistoryCorrupt), None)
           | Some item \<Rightarrow>
               (case Add item v of
                  Inl e \<Rightarrow> (Inl (StopAt out e), None)
                | Inr v' \<Rightarrow> read_items jc rest (offset + length line) v' (out\<lparr>ct_Items := ct_Items out @ [item]\<rparr>)))"
  by pat_completeness auto
termination by (relation "measure (\<lambda>(_, data, _, _, _). length data)") auto

declare read_items.simps [simp del]

definition zeroHeader :: Header where
  "zeroHeader = \<lparr>h_Type = '''', h_Version = 0, h_SessionID = '''', h_CreatedAt = 0\<rparr>"

definition scanJournal :: "jcodec \<Rightarrow> string \<Rightarrow> (load_error + Contents) \<times> nat option" where
  "scanJournal jc data =
     (if lf \<notin> set data then (Inl (LoadError ErrHistoryCorrupt), None)
      else
        let line = takeWhile (\<lambda>c. c \<noteq> lf) data @ [lf];
            rest = drop (length line) data
        in case jc_unmarshalHeader jc line of
             None \<Rightarrow> (Inl (LoadError ErrHistoryCorrupt), None)
           | Some h \<Rightarrow>
               (case validateHeader h of
                  Inl e \<Rightarrow> (Inl (LoadError e), None)
                | Inr _ \<Rightarrow> read_items jc rest (length line) NewValidator \<lparr>ct_Header = h, ct_Items = [], ct_Truncated = 0\<rparr>))"

fun cut_back :: "nat \<Rightarrow> load_error + Contents \<Rightarrow> load_error + Contents" where
  "cut_back offset (Inr c) = Inr (c\<lparr>ct_Truncated := offset\<rparr>)"
| "cut_back offset (Inl (StopAt c e)) = Inl (StopAt (c\<lparr>ct_Truncated := offset\<rparr>) e)"
| "cut_back offset (Inl e) = Inl e"

definition readJournal :: "jcodec \<Rightarrow> bool \<Rightarrow> string option \<Rightarrow> (load_error + Contents) \<times> string option" where
  "readJournal jc repair file =
     (case file of
        None \<Rightarrow> (Inl NoFile, None)
      | Some data \<Rightarrow>
          (case scanJournal jc data of
             (r, None) \<Rightarrow> (r, file)
           | (r, Some offset) \<Rightarrow>
               if repair then (cut_back offset r, Some (take offset data))
               else (r, file)))"

definition OpenAppend :: "jcodec \<Rightarrow> string option \<Rightarrow> (load_error + Contents) \<times> string option" where
  "OpenAppend jc file = readJournal jc True file"

definition ReadJournal :: "jcodec \<Rightarrow> string option \<Rightarrow> load_error + Contents" where
  "ReadJournal jc file = fst (readJournal jc False file)"

definition Salvage :: "jcodec \<Rightarrow> string option \<Rightarrow> load_error + Contents" where
  "Salvage jc file =
     (case ReadJournal jc file of
        Inr c \<Rightarrow> Inr c
      | Inl (StopAt c _) \<Rightarrow> Inr c
      | Inl e \<Rightarrow> Inl e)"

section \<open>Reading back what was written\<close>

definition readable :: "jcodec \<Rightarrow> Item \<Rightarrow> bool" where
  "readable jc it \<longleftrightarrow> (\<exists>l. marshalItem jc it = Some l \<and> lf \<notin> set l \<and> unmarshalItem jc (l @ [lf]) = Some it)"

definition readable_header :: "jcodec \<Rightarrow> Header \<Rightarrow> bool" where
  "readable_header jc h \<longleftrightarrow>
     validateHeader h = Inr () \<and> (\<exists>l. jc_marshalHeader jc h = Some l \<and> lf \<notin> set l \<and> jc_unmarshalHeader jc (l @ [lf]) = Some h)"

definition bytes_of :: "jcodec \<Rightarrow> Header \<Rightarrow> Item list \<Rightarrow> string" where
  "bytes_of jc h items = join_lines (the (jc_marshalHeader jc h) # map (\<lambda>it. the (marshalItem jc it)) items)"

lemma join_lines_simps [simp]:
  "join_lines [] = []" "join_lines (l # ls) = l @ lf # join_lines ls" "join_lines (ks @ ls) = join_lines ks @ join_lines ls"
  by (simp_all add: join_lines_def)

lemma marshal_all_readable:
  "list_all (readable jc) items \<Longrightarrow> marshal_all jc items = Some (map (\<lambda>it. the (marshalItem jc it)) items)"
  by (induction items) (auto simp: readable_def)

lemma first_line: "lf \<notin> set l \<Longrightarrow> takeWhile (\<lambda>c. c \<noteq> lf) (l @ lf # rest) = l"
  by (induction l) auto

lemma read_items_continue:
  assumes "journal_ok (seen @ items)" "list_all (readable jc) items" "ct_Items out = seen"
  shows "read_items jc (join_lines (map (\<lambda>it. the (marshalItem jc it)) items) @ data) offset (validated seen) out =
    read_items jc data (offset + length (join_lines (map (\<lambda>it. the (marshalItem jc it)) items)))
      (validated (seen @ items)) (out\<lparr>ct_Items := seen @ items\<rparr>)"
  using assms
proof (induction items arbitrary: seen out offset)
  case Nil
  then have "out\<lparr>ct_Items := seen\<rparr> = out" by (cases out) simp
  then show ?case by simp
next
  case (Cons it items)
  obtain l where l: "marshalItem jc it = Some l" "lf \<notin> set l" "unmarshalItem jc (l @ [lf]) = Some it"
    using Cons.prems(2) by (auto simp: readable_def)
  let ?data = "l @ lf # join_lines (map (\<lambda>it. the (marshalItem jc it)) items) @ data"
  have ok: "journal_ok ((seen @ [it]) @ items)" using Cons.prems(1) by simp
  then have "Add it (validated seen) = Inr (validated (seen @ [it]))" using Add_iff journal_ok_prefix [OF ok] by simp
  then have "read_items jc ?data offset (validated seen) out =
      read_items jc (join_lines (map (\<lambda>it. the (marshalItem jc it)) items) @ data) (offset + Suc (length l))
        (validated (seen @ [it])) (out\<lparr>ct_Items := seen @ [it]\<rparr>)"
    using l(2,3) Cons.prems(3) by (simp add: read_items.simps [of jc ?data] first_line)
  then show ?case
    using Cons.IH [OF ok, of "out\<lparr>ct_Items := seen @ [it]\<rparr>" "offset + Suc (length l)"] Cons.prems(2) l(1)
    by (simp add: add.assoc)
qed

lemma read_items_end:
  "lf \<notin> set tail \<Longrightarrow> read_items jc tail offset (validated items) out = (Inr out, if tail = [] then None else Some offset)"
  by (auto simp: read_items.simps finish_def Done_def validated_def)

lemma scan_header:
  assumes "readable_header jc h" "journal_ok items" "list_all (readable jc) items"
  shows "scanJournal jc (bytes_of jc h items @ data) =
    read_items jc data (length (bytes_of jc h items)) (validated items) \<lparr>ct_Header = h, ct_Items = items, ct_Truncated = 0\<rparr>"
proof -
  obtain l where l: "jc_marshalHeader jc h = Some l" "lf \<notin> set l" "jc_unmarshalHeader jc (l @ [lf]) = Some h" "validateHeader h = Inr ()"
    using assms(1) by (auto simp: readable_header_def)
  have "NewValidator = validated []" by (simp add: NewValidator_def validated_def)
  then show ?thesis
    using read_items_continue [of "[]" items jc "\<lparr>ct_Header = h, ct_Items = [], ct_Truncated = 0\<rparr>" data "Suc (length l)"] assms(2,3) l
    by (simp add: scanJournal_def bytes_of_def first_line)
qed

lemma scan_written:
  assumes "readable_header jc h" "journal_ok items" "list_all (readable jc) items" "lf \<notin> set tail"
  shows "scanJournal jc (bytes_of jc h items @ tail) =
    (Inr \<lparr>ct_Header = h, ct_Items = items, ct_Truncated = 0\<rparr>, if tail = [] then None else Some (length (bytes_of jc h items)))"
  using scan_header [OF assms(1-3)] read_items_end [OF assms(4)] by simp

lemma open_written:
  assumes "readable_header jc h" "journal_ok items" "list_all (readable jc) items" "lf \<notin> set tail"
  shows "OpenAppend jc (Some (bytes_of jc h items @ tail)) =
    (Inr \<lparr>ct_Header = h, ct_Items = items, ct_Truncated = (if tail = [] then 0 else length (bytes_of jc h items))\<rparr>,
     Some (bytes_of jc h items))"
  using scan_written [OF assms] by (simp add: OpenAppend_def readJournal_def)

lemma torn_prefix:
  "list_all (\<lambda>l. lf \<notin> set l) ls \<Longrightarrow> \<exists>k tail. k \<le> length ls \<and> lf \<notin> set tail \<and> take n (join_lines ls) = join_lines (take k ls) @ tail"
proof (induction ls arbitrary: n)
  case Nil
  then show ?case by (intro exI [of _ 0] exI [of _ "[]"]) simp
next
  case (Cons l ls)
  show ?case
  proof (cases "n \<le> length l")
    case True
    then show ?thesis using Cons.prems by (intro exI [of _ 0] exI [of _ "take n l"]) (auto dest: in_set_takeD)
  next
    case False
    then obtain m where m: "n = length l + Suc m" using less_imp_Suc_add [of "length l" n] by auto
    obtain k tail where "k \<le> length ls" "lf \<notin> set tail" "take m (join_lines ls) = join_lines (take k ls) @ tail"
      using Cons.IH [of m] Cons.prems by auto
    then show ?thesis using m by (intro exI [of _ "Suc k"] exI [of _ tail]) simp
  qed
qed

lemma bytes_of_append: "bytes_of jc h (items @ its) = bytes_of jc h items @ join_lines (map (\<lambda>it. the (marshalItem jc it)) its)"
  by (simp add: bytes_of_def)

lemma readable_lines: "list_all (readable jc) items \<Longrightarrow> list_all (\<lambda>l. lf \<notin> set l) (map (\<lambda>it. the (marshalItem jc it)) items)"
  by (auto simp: list_all_iff readable_def)

lemma append_written:
  assumes "list_all (readable jc) batch"
  shows "\<exists>k tail. k \<le> length batch \<and> lf \<notin> set tail
    \<and> snd (journalAppend jc fault batch (bytes_of jc h items)) = bytes_of jc h (items @ take k batch) @ tail
    \<and> (fst (journalAppend jc fault batch (bytes_of jc h items)) = Inr () \<longrightarrow> k = length batch \<and> tail = [])"
proof (cases "batch = []")
  case True
  then show ?thesis by (intro exI [of _ 0] exI [of _ "[]"]) (simp add: journalAppend_def)
next
  case False
  let ?ls = "map (\<lambda>it. the (marshalItem jc it)) batch"
  have m: "marshal_all jc batch = Some ?ls" using marshal_all_readable [OF assms] .
  show ?thesis
  proof (cases fault)
    case (WriteShort n)
    obtain k tail where "k \<le> length ?ls" "lf \<notin> set tail" "take n (join_lines ?ls) = join_lines (take k ?ls) @ tail"
      using torn_prefix [OF readable_lines [OF assms]] by blast
    then show ?thesis using False m WriteShort
      by (intro exI [of _ k] exI [of _ tail]) (simp add: journalAppend_def writeLines_def bytes_of_append take_map)
  qed (use False m in \<open>auto intro!: exI [of _ "length batch"] exI [of _ "[]"] simp: journalAppend_def writeLines_def bytes_of_append\<close>)
qed

text \<open>C23: An append survives a crash. Whatever part of the bytes of an append reaches the file, the next open
  reads every earlier record and a prefix of the appended ones, all of them when the append returned without
  error, cuts the torn tail off, and leaves a file that reads the same again.\<close>

theorem append_survives_crash:
  assumes "readable_header jc h" "ValidateItems (items @ batch) = Inr ()" "list_all (readable jc) (items @ batch)"
  shows "\<exists>k c. k \<le> length batch
    \<and> OpenAppend jc (Some (snd (journalAppend jc fault batch (bytes_of jc h items)))) = (Inr c, Some (bytes_of jc h (items @ take k batch)))
    \<and> ct_Items c = items @ take k batch \<and> ct_Header c = h
    \<and> (fst (journalAppend jc fault batch (bytes_of jc h items)) = Inr () \<longrightarrow> k = length batch)
    \<and> ReadJournal jc (Some (bytes_of jc h (items @ take k batch))) = Inr (c\<lparr>ct_Truncated := 0\<rparr>)"
proof -
  obtain k tail where k: "k \<le> length batch" "lf \<notin> set tail"
    and f: "snd (journalAppend jc fault batch (bytes_of jc h items)) = bytes_of jc h (items @ take k batch) @ tail"
    and done_: "fst (journalAppend jc fault batch (bytes_of jc h items)) = Inr () \<longrightarrow> k = length batch \<and> tail = []"
    using append_written [of jc batch fault h items] assms(3) by auto
  have ok: "journal_ok (items @ take k batch)"
    using assms(2) journal_ok_prefix [of "items @ take k batch" "drop k batch"] by (simp add: ValidateItems_iff)
  have r: "list_all (readable jc) (items @ take k batch)"
    using assms(3) by (auto simp: list_all_iff dest: in_set_takeD)
  show ?thesis
    using open_written [OF assms(1) ok r k(2)] scan_written [OF assms(1) ok r, of "[]"] k(1) done_
    by (auto simp: f ReadJournal_def readJournal_def intro!: exI [of _ k])
qed

text \<open>C34: A write that was cut short inside a line must not be followed by another one: the torn line and the
  next record become one line, and if that line is not a record the journal is corrupt from there on, which no
  later open repairs.\<close>

theorem append_after_torn_write_corrupts:
  assumes "readable_header jc h" "ValidateItems items = Inr ()" "list_all (readable jc) items"
    and "torn \<noteq> ''''" "lf \<notin> set torn" "marshalItem jc it = Some l" "lf \<notin> set l" "unmarshalItem jc (torn @ l @ [lf]) = None"
  shows "\<exists>c. OpenAppend jc (Some (snd (journalAppend jc WriteOK [it] (bytes_of jc h items @ torn)))) =
      (Inl (StopAt c ErrHistoryCorrupt), Some (bytes_of jc h items @ torn @ l @ [lf])) \<and> ct_Items c = items"
proof -
  have ok: "journal_ok items" using assms(2) by (simp add: ValidateItems_iff)
  have "snd (journalAppend jc WriteOK [it] (bytes_of jc h items @ torn)) = bytes_of jc h items @ (torn @ l) @ [lf]"
    using assms(6) by (simp add: journalAppend_def writeLines_def)
  moreover have "read_items jc ((torn @ l) @ [lf]) offset v out = (Inl (StopAt out ErrHistoryCorrupt), None)" for offset v out
    using assms(5,7,8) first_line [of "torn @ l" "[]"] by (simp add: read_items.simps [of jc "torn @ l @ [lf]"])
  ultimately show ?thesis
    using scan_header [OF assms(1) ok assms(3), of "(torn @ l) @ [lf]"] by (simp add: OpenAppend_def readJournal_def)
qed

section \<open>Records round trip\<close>

lemma known_kinds: "map_of zero_payloads (itemType p) \<noteq> None \<or> (\<exists>kind raw. p = UnknownPayload kind raw)"
  by (cases p) (simp_all add: zero_payloads_def)

definition json_faithful :: "jcodec \<Rightarrow> Item \<Rightarrow> bool" where
  "json_faithful jc it \<longleftrightarrow>
     (\<forall>w l. jc_marshalWire jc w = Some l \<longrightarrow> jc_unmarshalWire jc (l @ [lf]) = Some w)
     \<and> (case it_Payload it of
          None \<Rightarrow> False
        | Some (UnknownPayload kind raw) \<Rightarrow> kind \<noteq> '''' \<and> map_of zero_payloads kind = None
        | Some p \<Rightarrow> (\<forall>d. jc_marshalPayload jc p = Some d \<longrightarrow> d \<noteq> '''' \<and> jc_unmarshalPayload jc (itemType p) d = Some p))"


end
