(* ===== verification/Session_Recovery.thy ===== *)
theory Session_Recovery
  imports Session_Replay
begin

text \<open>
  The analysis of an interrupted turn and what its repair does. The last turn of a branch is open when no
  record closes it; a call of it is uncertain when it entered its tool and was not answered, and not started
  when it was only asked for. Appending an unknown result for every uncertain call leaves nothing uncertain.
\<close>

definition call_ids :: "ToolCallOutcome list \<Rightarrow> string set" where
  "call_ids cs = oc_ToolCallID ` set cs"

lemma call_ids_simps [simp]:
  "call_ids [] = {}" "call_ids (c # cs) = insert (oc_ToolCallID c) (call_ids cs)" "call_ids (xs @ ys) = call_ids xs \<union> call_ids ys"
  by (simp_all add: call_ids_def image_Un)

lemma containsCall_iff [simp]: "containsCall cs i \<longleftrightarrow> i \<in> call_ids cs"
  by (auto simp: containsCall_def call_ids_def list_ex_iff)

lemma entered_iff: "map_of e c = None \<longleftrightarrow> c \<notin> fst ` set e"
  by (simp add: map_of_eq_None_iff)

lemma classify_requested_ids:
  "rv_TurnID (classify_requested s c r) = rv_TurnID r"
  "call_ids (rv_Uncertain (classify_requested s c r)) =
     call_ids (rv_Uncertain r) \<union> {x. x = oc_ToolCallID c \<and> x \<notin> sc_answered s \<and> x \<in> fst ` set (sc_entered s)}"
  "call_ids (rv_NotStarted (classify_requested s c r)) =
     call_ids (rv_NotStarted r) \<union> {x. x = oc_ToolCallID c \<and> x \<notin> sc_answered s \<and> x \<notin> fst ` set (sc_entered s)}"
  using entered_iff [of "sc_entered s" "oc_ToolCallID c"]
  by (cases "map_of (sc_entered s) (oc_ToolCallID c)"; auto simp: classify_requested_def)+

lemma fold_requested:
  "rv_TurnID (fold (classify_requested s) cs r) = rv_TurnID r
   \<and> call_ids (rv_Uncertain (fold (classify_requested s) cs r)) =
       call_ids (rv_Uncertain r) \<union> {c \<in> call_ids cs. c \<notin> sc_answered s \<and> c \<in> fst ` set (sc_entered s)}
   \<and> call_ids (rv_NotStarted (fold (classify_requested s) cs r)) =
       call_ids (rv_NotStarted r) \<union> {c \<in> call_ids cs. c \<notin> sc_answered s \<and> c \<notin> fst ` set (sc_entered s)}"
proof (induction cs arbitrary: r)
  case (Cons c cs)
  show ?case using Cons.IH [of "classify_requested s c r"] by (simp add: classify_requested_ids) blast
qed simp

lemma fold_entered:
  "rv_TurnID (fold (classify_entered s) es r) = rv_TurnID r \<and> rv_NotStarted (fold (classify_entered s) es r) = rv_NotStarted r
   \<and> call_ids (rv_Uncertain (fold (classify_entered s) es r)) =
       call_ids (rv_Uncertain r) \<union> {c \<in> fst ` set es. c \<notin> sc_answered s \<and> c \<notin> call_ids (rv_NotStarted r)}"
proof (induction es arbitrary: r)
  case (Cons e es)
  show ?case using Cons.IH [of "classify_entered s e r"] by (auto simp: classify_entered_def)
qed simp

definition scanned :: "Item list \<Rightarrow> scan" where
  "scanned p = fold scan_item p scan_start"

lemma analyze_open:
  assumes "sc_open (scanned p)" "\<And>l. set (visit l) = set l"
  shows "rv_TurnID (analyze_branch visit p) = sc_turnID (scanned p)
    \<and> call_ids (rv_Uncertain (analyze_branch visit p)) = {c \<in> fst ` set (sc_entered (scanned p)). c \<notin> sc_answered (scanned p)}
    \<and> call_ids (rv_NotStarted (analyze_branch visit p)) =
        {c \<in> call_ids (sc_requested (scanned p)). c \<notin> sc_answered (scanned p) \<and> c \<notin> fst ` set (sc_entered (scanned p))}"
proof -
  let ?s = "scanned p"
  have b: "analyze_branch visit p = fold (classify_entered ?s) (visit (sc_entered ?s))
      (fold (classify_requested ?s) (sc_requested ?s) (noRecovery\<lparr>rv_TurnID := sc_turnID ?s\<rparr>))"
    using assms(1) by (simp add: analyze_branch_def scanned_def [symmetric] Let_def)
  show ?thesis
    using fold_requested [of ?s "sc_requested ?s" "noRecovery\<lparr>rv_TurnID := sc_turnID ?s\<rparr>"]
      fold_entered [of ?s "visit (sc_entered ?s)" "fold (classify_requested ?s) (sc_requested ?s) (noRecovery\<lparr>rv_TurnID := sc_turnID ?s\<rparr>)"]
    unfolding b by (auto simp: noRecovery_def assms(2))
qed

lemma analyze_closed: "\<not> sc_open (scanned p) \<Longrightarrow> analyze_branch visit p = noRecovery"
  by (simp add: analyze_branch_def scanned_def Let_def)

section \<open>The last turn\<close>

fun boundary :: "Payload option \<Rightarrow> bool" where
  "boundary (Some (TurnStarted _ _ _ _ _)) = True"
| "boundary (Some (TurnFinished _ _)) = True"
| "boundary _ = False"

definition asked_call :: "Item \<Rightarrow> string \<Rightarrow> bool" where
  "asked_call it c \<longleftrightarrow> (\<exists>m. it_Payload it = Some (MessageItem m) \<and> c \<in> tc_ID ` set (ms_ToolCalls m))"

lemma call_ids_requested: "call_ids (map requested_call tcs) = tc_ID ` set tcs"
  by (simp add: call_ids_def requested_call_def image_image)

lemma scan_item_inside:
  assumes "\<not> boundary (it_Payload it)"
  shows "sc_open (scan_item it s) = sc_open s \<and> sc_turnID (scan_item it s) = sc_turnID s
    \<and> sc_answered (scan_item it s) = sc_answered s \<union> set (answers [it])
    \<and> fst ` set (sc_entered (scan_item it s)) = fst ` set (sc_entered s) \<union> {c. entered_call it c}
    \<and> call_ids (sc_requested (scan_item it s)) = call_ids (sc_requested s) \<union> {c. asked_call it c}"
proof (cases "it_Payload it")
  case None
  then show ?thesis by (simp add: scan_item_def answers_def List.map_filter_simps entered_call_def asked_call_def)
next
  case (Some x)
  then show ?thesis using assms
    by (cases x) (simp_all add: scan_item_def answers_def List.map_filter_simps entered_call_def asked_call_def keys_update
        call_ids_requested)
qed

lemma scan_turn:
  assumes "\<forall>it\<in>set turn. \<not> boundary (it_Payload it)"
  shows "sc_open (fold scan_item turn s) = sc_open s \<and> sc_turnID (fold scan_item turn s) = sc_turnID s
    \<and> sc_answered (fold scan_item turn s) = sc_answered s \<union> set (answers turn)
    \<and> fst ` set (sc_entered (fold scan_item turn s)) = fst ` set (sc_entered s) \<union> {c. \<exists>it\<in>set turn. entered_call it c}
    \<and> call_ids (sc_requested (fold scan_item turn s)) = call_ids (sc_requested s) \<union> {c. \<exists>it\<in>set turn. asked_call it c}"
  using assms
proof (induction turn arbitrary: s)
  case (Cons it turn)
  have "\<not> boundary (it_Payload it)" using Cons.prems by simp
  note one = scan_item_inside [OF this, of s]
  have "answers (it # turn) = answers [it] @ answers turn" using answers_simps(2) [of "[it]" turn] by simp
  then show ?case using Cons.IH [of "scan_item it s"] Cons.prems one by auto
qed simp

lemma scan_started:
  assumes "it_Payload t = Some (TurnStarted run model root window kind)" "\<forall>it\<in>set turn. \<not> boundary (it_Payload it)"
  shows "sc_open (scanned (p @ t # turn))" "sc_turnID (scanned (p @ t # turn)) = run"
    "sc_answered (scanned (p @ t # turn)) = set (answers turn)"
    "fst ` set (sc_entered (scanned (p @ t # turn))) = {c. \<exists>it\<in>set turn. entered_call it c}"
    "call_ids (sc_requested (scanned (p @ t # turn))) = {c. \<exists>it\<in>set turn. asked_call it c}"
  using scan_turn [OF assms(2), of "scan_item t (scanned p)"]
  by (simp_all add: scanned_def scan_item_def assms(1) scan_reset_def)

lemma scan_finished:
  assumes "it_Payload t = Some (TurnFinished status cls)" "\<forall>it\<in>set turn. \<not> boundary (it_Payload it)"
  shows "\<not> sc_open (scanned (p @ t # turn))"
  using scan_turn [OF assms(2), of "scan_item t (scanned p)"]
  by (simp add: scanned_def scan_item_def assms(1) scan_reset_def)

text \<open>C25: What recovery finds. On a branch whose last turn was not closed, the
  uncertain calls are exactly those of that turn that entered their tool and have no result, and the calls not
  started exactly those the model asked for in it that neither entered nor were answered, in whatever order the
  map of entered calls is visited; a branch whose last turn was closed needs nothing.\<close>

theorem recovery_classifies_calls:
  assumes "\<And>l. set (visit l) = set l"
    and "Branch items h = Inr (p @ t # turn)" "\<forall>it\<in>set turn. \<not> boundary (it_Payload it)"
  shows "(\<forall>run model root window kind. it_Payload t = Some (TurnStarted run model root window kind) \<longrightarrow>
      (\<exists>r. Analyze visit items h = Inr r \<and> rv_TurnID r = run
         \<and> call_ids (rv_Uncertain r) = {c. \<exists>it\<in>set turn. entered_call it c} - set (answers turn)
         \<and> call_ids (rv_NotStarted r) = {c. \<exists>it\<in>set turn. asked_call it c} - {c. \<exists>it\<in>set turn. entered_call it c} - set (answers turn)))
    \<and> (\<forall>status cls. it_Payload t = Some (TurnFinished status cls) \<longrightarrow> Analyze visit items h = Inr noRecovery)"
proof (intro conjI allI impI)
  fix run model root window kind assume t: "it_Payload t = Some (TurnStarted run model root window kind)"
  have "Analyze visit items h = Inr (analyze_branch visit (p @ t # turn))" using assms(2) by (simp add: Analyze_def)
  then show "\<exists>r. Analyze visit items h = Inr r \<and> rv_TurnID r = run
      \<and> call_ids (rv_Uncertain r) = {c. \<exists>it\<in>set turn. entered_call it c} - set (answers turn)
      \<and> call_ids (rv_NotStarted r) = {c. \<exists>it\<in>set turn. asked_call it c} - {c. \<exists>it\<in>set turn. entered_call it c} - set (answers turn)"
    using analyze_open [OF scan_started(1) [OF t assms(3), of p] assms(1)] scan_started(2-5) [OF t assms(3), of p] by auto
next
  fix status cls assume t: "it_Payload t = Some (TurnFinished status cls)"
  then show "Analyze visit items h = Inr noRecovery"
    using assms(2) analyze_closed [OF scan_finished [OF t assms(3)]] by (simp add: Analyze_def)
qed

end
