(* ===== verification/Session_Open.thy ===== *)
theory Session_Open
  imports Session_Store Session_Recovery
begin

text \<open>
  The file store of sessions, \<open>internal/infra/sessionstore/store.go\<close>, over one session's bundle: the
  metadata file, the journal file and the writer lock. \<open>Open\<close> takes the lock, repairs the journal and an
  interrupted turn, and gives a writer whose appends must continue the branch; \<open>Load\<close> reads without
  changing anything. New ids, the clock, the visiting order of maps and what a write achieves come from the
  environment.
\<close>

section \<open>Loading\<close>

record Loaded =
  ld_Meta :: Meta
  ld_Head :: string
  ld_Items :: "Item list"
  ld_State :: State
  ld_Recovery :: Recovery

datatype store_error = ErrLocked | ErrSessionNotFound | Journal load_error | History history_error | BadAppend

definition lift_history :: "history_error + 'a \<Rightarrow> store_error + 'a" where
  "lift_history r = map_sum History (\<lambda>x. x) r"

definition lift_load :: "load_error + 'a \<Rightarrow> store_error + 'a" where
  "lift_load r = map_sum Journal (\<lambda>x. x) r"

definition emptyLoaded :: "Meta \<Rightarrow> Loaded" where
  "emptyLoaded m = \<lparr>ld_Meta = m, ld_Head = '''', ld_Items = [], ld_State = zeroState, ld_Recovery = noRecovery\<rparr>"

definition deriveLoaded ::
  "((string \<times> string) list \<Rightarrow> (string \<times> string) list) \<Rightarrow> Meta \<Rightarrow> Item list \<Rightarrow> history_error + Loaded" where
  "deriveLoaded visit m items =
     (if items = [] then Inr (emptyLoaded m)
      else bindE (Head items) (\<lambda>head.
           bindE (Reduce items head) (\<lambda>st.
           bindE (Analyze visit items head) (\<lambda>r.
           Inr \<lparr>ld_Meta = m, ld_Head = head, ld_Items = items, ld_State = st, ld_Recovery = r\<rparr>))))"

definition checkHeaderMatchesDir :: "Contents \<Rightarrow> string \<Rightarrow> history_error + unit" where
  "checkHeaderMatchesDir c i =
     (if h_SessionID (ct_Header c) \<noteq> '''' \<and> h_SessionID (ct_Header c) \<noteq> i then Inl ErrHistoryCorrupt else Inr ())"

definition DefaultMeta :: "string \<Rightarrow> Meta" where
  "DefaultMeta i = zeroMeta i KindUser"

section \<open>Repair\<close>

fun unknown_results :: "string \<Rightarrow> int \<Rightarrow> (nat \<Rightarrow> string) \<Rightarrow> nat \<Rightarrow> string \<Rightarrow> 64 word \<Rightarrow> ToolCallOutcome list \<Rightarrow> Item list" where
  "unknown_results turnID ts newID k parent seq [] = []"
| "unknown_results turnID ts newID k parent seq (u # us) =
     NewItem (seq + 1) (newID k) parent ts turnID (Some (ToolResult (oc_ToolCallID u) ''unknown'' '''' []))
     # unknown_results turnID ts newID (Suc k) (newID k) (seq + 1) us"

definition buildRecoveryItems :: "(nat \<Rightarrow> string) \<Rightarrow> Recovery \<Rightarrow> string \<Rightarrow> 64 word \<Rightarrow> int \<Rightarrow> Item list" where
  "buildRecoveryItems newID r parent seq ts =
     NewItem (seq + 1) (newID 0) parent ts (rv_TurnID r)
       (Some (TurnRecovered (rv_TurnID r) (map oc_ToolCallID (rv_Uncertain r))))
     # unknown_results (rv_TurnID r) ts newID 1 (newID 0) (seq + 1) (rv_Uncertain r)"

record storeEnv =
  se_codec :: jcodec
  se_unmarshalMeta :: "string \<Rightarrow> Meta option"
  se_visit :: "(string \<times> string) list \<Rightarrow> (string \<times> string) list"
  se_newID :: "nat \<Rightarrow> string"
  se_now :: int
  se_fault :: write_fault

definition openBranch :: "storeEnv \<Rightarrow> Meta \<Rightarrow> Item list \<Rightarrow> string \<Rightarrow> (store_error + Loaded \<times> 64 word) \<times> string" where
  "openBranch env m items file =
     (case deriveLoaded (se_visit env) m items of
        Inl e \<Rightarrow> (Inl (History e), file)
      | Inr loaded \<Rightarrow>
          let r = ld_Recovery loaded in
          if rv_Uncertain r = [] then (Inr (loaded, if items = [] then 0 else it_Seq (last items)), file)
          else
            let repair = buildRecoveryItems (se_newID env) r (ld_Head loaded) (it_Seq (last items)) (se_now env)
            in case journalAppend (se_codec env) (se_fault env) repair file of
                 (Inl e, file') \<Rightarrow> (Inl (Journal e), file')
               | (Inr _, file') \<Rightarrow>
                   (case deriveLoaded (se_visit env) m (items @ repair) of
                      Inl e \<Rightarrow> (Inl (History e), file')
                    | Inr loaded' \<Rightarrow> (Inr (loaded'\<lparr>ld_Recovery := r\<rparr>, it_Seq (last (items @ repair))), file')))"

section \<open>Open, Load and the writer\<close>

record sessionDir =
  bn_meta :: "string option"
  bn_journal :: "string option"
  bn_locked :: bool

record fileWriter =
  fw_loaded :: Loaded
  fw_lastID :: string
  fw_lastSeq :: "64 word"

text \<open>A metadata file that is missing means no session; one that is damaged is replaced by defaults.\<close>

definition meta_or_default :: "storeEnv \<Rightarrow> string \<Rightarrow> string option \<Rightarrow> store_error + Meta" where
  "meta_or_default env i file =
     (case file of
        None \<Rightarrow> Inl ErrSessionNotFound
      | Some text \<Rightarrow>
          (case se_unmarshalMeta env text of
             None \<Rightarrow> Inr (DefaultMeta i)
           | Some m \<Rightarrow> Inr (if metaValid m then m else DefaultMeta i)))"

definition Open :: "storeEnv \<Rightarrow> string \<Rightarrow> sessionDir \<Rightarrow> (store_error + fileWriter) \<times> sessionDir" where
  "Open env i b =
     (if bn_locked b then (Inl ErrLocked, b)
      else case meta_or_default env i (bn_meta b) of
             Inl e \<Rightarrow> (Inl e, b)
           | Inr m \<Rightarrow>
               (case OpenAppend (se_codec env) (bn_journal b) of
                  (Inl e, journal) \<Rightarrow> (Inl (Journal e), b\<lparr>bn_journal := journal\<rparr>)
                | (Inr contents, journal) \<Rightarrow>
                    (case checkHeaderMatchesDir contents i of
                       Inl e \<Rightarrow> (Inl (History e), b\<lparr>bn_journal := journal\<rparr>)
                     | Inr _ \<Rightarrow>
                         (case openBranch env m (ct_Items contents) (the journal) of
                            (Inl e, file) \<Rightarrow> (Inl e, b\<lparr>bn_journal := Some file\<rparr>)
                          | (Inr (loaded, lastSeq), file) \<Rightarrow>
                              (Inr \<lparr>fw_loaded = loaded, fw_lastID = ld_Head loaded, fw_lastSeq = lastSeq\<rparr>,
                               b\<lparr>bn_journal := Some file, bn_locked := True\<rparr>)))))"

datatype LoadMode = LoadMetaOnly | LoadFull

definition Load :: "storeEnv \<Rightarrow> string \<Rightarrow> LoadMode \<Rightarrow> sessionDir \<Rightarrow> store_error + Loaded" where
  "Load env i mode b =
     bindE (meta_or_default env i (bn_meta b)) (\<lambda>m.
       if mode = LoadMetaOnly then Inr (emptyLoaded m)
       else bindE (lift_load (ReadJournal (se_codec env) (bn_journal b))) (\<lambda>contents.
            bindE (lift_history (checkHeaderMatchesDir contents i)) (\<lambda>_.
            lift_history (deriveLoaded (se_visit env) m (ct_Items contents)))))"

definition knows :: "fileWriter \<Rightarrow> string \<Rightarrow> bool" where
  "knows w i \<longleftrightarrow> list_ex (\<lambda>it. it_ID it = i) (ld_Items (fw_loaded w))"

fun selects_head :: "Payload option \<Rightarrow> bool" where
  "selects_head (Some (HeadSelected _)) = True"
| "selects_head _ = False"

fun check_chain :: "fileWriter \<Rightarrow> string \<Rightarrow> 64 word \<Rightarrow> Item list \<Rightarrow> store_error + string \<times> 64 word" where
  "check_chain w parent seq [] = Inr (parent, seq)"
| "check_chain w parent seq (it # its) =
     (if it_Seq it \<noteq> seq + 1 then Inl BadAppend
      else if it_ParentID it \<noteq> parent \<and> \<not> selects_head (it_Payload it) then Inl BadAppend
      else if it_ParentID it \<noteq> parent \<and> \<not> knows w (it_ParentID it) then Inl BadAppend
      else check_chain w (it_ID it) (seq + 1) its)"

definition writerAppend ::
  "jcodec \<Rightarrow> write_fault \<Rightarrow> fileWriter \<Rightarrow> Item list \<Rightarrow> string \<Rightarrow> (store_error + unit) \<times> fileWriter \<times> string" where
  "writerAppend jc fault w items file =
     (if items = [] then (Inr (), w, file)
      else case check_chain w (fw_lastID w) (fw_lastSeq w) items of
             Inl e \<Rightarrow> (Inl e, w, file)
           | Inr (parent, seq) \<Rightarrow>
               (case journalAppend jc fault items file of
                  (Inl e, file') \<Rightarrow> (Inl (Journal e), w, file')
                | (Inr _, file') \<Rightarrow>
                    (Inr (), w\<lparr>fw_lastID := parent, fw_lastSeq := seq,
                               fw_loaded := (fw_loaded w)\<lparr>ld_Items := ld_Items (fw_loaded w) @ items, ld_Head := parent\<rparr>\<rparr>, file')))"

definition closeWriter :: "sessionDir \<Rightarrow> sessionDir" where
  "closeWriter b = b\<lparr>bn_locked := False\<rparr>"

section \<open>What a repair does\<close>

definition fresh_supply :: "(nat \<Rightarrow> string) \<Rightarrow> Item list \<Rightarrow> bool" where
  "fresh_supply newID items \<longleftrightarrow> inj newID \<and> (\<forall>k. newID k \<noteq> '''' \<and> newID k \<notin> ids items)"

lemma NewItem_fields [simp]:
  "it_ID (NewItem seq i parent ts turn p) = i" "it_ParentID (NewItem seq i parent ts turn p) = parent"
  "it_Payload (NewItem seq i parent ts turn p) = p" "it_Seq (NewItem seq i parent ts turn p) = seq"
  by (simp_all add: NewItem_def)

lemma unknown_results_facts:
  "chained parent (unknown_results turn ts newID k parent seq us)"
  "map it_ID (unknown_results turn ts newID k parent seq us) = map newID [k..<k + length us]"
  "answers (unknown_results turn ts newID k parent seq us) = map oc_ToolCallID us"
  "list_all (\<lambda>it. \<not> boundary (it_Payload it) \<and> \<not> is_unknown (it_Payload it) \<and> it_Payload it \<noteq> None)
     (unknown_results turn ts newID k parent seq us)"
proof (induction us arbitrary: k parent seq)
  case (Cons u us)
  { case 1 show ?case using Cons.IH(1) by simp
  next
    case 2 show ?case using Cons.IH(2) by (simp add: upt_conv_Cons del: upt_Suc)
  next
    case 3 show ?case using Cons.IH(3) by (simp add: answers_def List.map_filter_simps)
  next
    case 4 show ?case using Cons.IH(4) by simp
  }
qed simp_all

lemma repair_facts:
  "chained parent (buildRecoveryItems newID r parent seq ts)"
  "map it_ID (buildRecoveryItems newID r parent seq ts) = map newID [0..<Suc (length (rv_Uncertain r))]"
  "answers (buildRecoveryItems newID r parent seq ts) = map oc_ToolCallID (rv_Uncertain r)"
  "list_all (\<lambda>it. \<not> boundary (it_Payload it) \<and> \<not> is_unknown (it_Payload it) \<and> it_Payload it \<noteq> None)
     (buildRecoveryItems newID r parent seq ts)"
  using unknown_results_facts [where parent = "newID 0" and turn = "rv_TurnID r" and ts = ts and newID = newID and k = 1
      and seq = "seq + 1" and us = "rv_Uncertain r"]
  by (simp_all add: buildRecoveryItems_def upt_conv_Cons answers_def List.map_filter_simps del: upt_Suc)

lemma repair_not_empty: "buildRecoveryItems newID r parent seq ts \<noteq> []"
  by (simp add: buildRecoveryItems_def)

lemma repair_ok:
  assumes "journal_ok items" "parent \<in> ids items" "fresh_supply newID items"
  shows "journal_ok (items @ buildRecoveryItems newID r parent seq ts)"
proof (rule chain_ok [OF assms(1) repair_facts(1)])
  let ?c = "buildRecoveryItems newID r parent seq ts"
  have ids: "ids ?c = newID ` {0..<Suc (length (rv_Uncertain r))}"
    using arg_cong [OF repair_facts(2) [of newID r parent seq ts], of set] by (simp add: ids_def del: upt_Suc)
  have inj: "inj newID" "\<And>k. newID k \<noteq> ''''" "\<And>k. newID k \<notin> ids items" using assms(3) by (auto simp: fresh_supply_def)
  show "items = [] \<and> parent = '''' \<or> parent \<in> ids items" using assms(2) by simp
  show "distinct (map it_ID ?c)" using inj_on_subset [OF inj(1) subset_UNIV] by (simp add: repair_facts(2) distinct_map del: upt_Suc)
  show "ids ?c \<inter> ids items = {}" using ids inj(3) by auto
  have "it_ID it \<noteq> ''''" if "it \<in> set ?c" for it
  proof -
    have "it_ID it \<in> newID ` {0..<Suc (length (rv_Uncertain r))}" using that ids by (auto simp: ids_def)
    then show ?thesis using inj(2) by (metis imageE)
  qed
  then show "list_all plain ?c" using repair_facts(4) [of newID r parent seq ts] by (auto simp: list_all_iff plain_def)
qed

lemma replay_unknown_results:
  assumes "replay p = Inr (st, ans)" "distinct (map oc_ToolCallID us)" "call_ids us \<inter> ans = {}"
  shows "replay (p @ unknown_results turn ts newID k parent seq us) =
    Inr (st\<lparr>st_Messages := st_Messages st @ map (\<lambda>u. tool_message (oc_ToolCallID u) '''' []) us\<rparr>, ans \<union> call_ids us)"
  using assms
proof (induction us arbitrary: p st ans k parent seq)
  case (Cons u us)
  let ?it = "NewItem (seq + 1) (newID k) parent ts turn (Some (ToolResult (oc_ToolCallID u) ''unknown'' '''' []))"
  have one: "replay (p @ [?it]) = Inr (st\<lparr>st_Messages := st_Messages st @ [tool_message (oc_ToolCallID u) '''' []]\<rparr>, insert (oc_ToolCallID u) ans)"
    using replay_snoc [OF Cons.prems(1), of ?it] Cons.prems(3) by (simp add: reduce_item_def)
  have "call_ids us \<inter> insert (oc_ToolCallID u) ans = {}" "distinct (map oc_ToolCallID us)"
    using Cons.prems by (auto simp: call_ids_def)
  from Cons.IH [OF one this(2,1), of "Suc k" "newID k" "seq + 1"] show ?case by simp
qed simp

lemma replay_repair:
  assumes "replay p = Inr (st, ans)" "distinct (map oc_ToolCallID (rv_Uncertain r))" "call_ids (rv_Uncertain r) \<inter> ans = {}"
  shows "replay (p @ buildRecoveryItems newID r parent seq ts) =
    Inr (st\<lparr>st_Messages := st_Messages st @ map (\<lambda>u. tool_message (oc_ToolCallID u) '''' []) (rv_Uncertain r)\<rparr>, ans \<union> call_ids (rv_Uncertain r))"
proof -
  let ?it = "NewItem (seq + 1) (newID 0) parent ts (rv_TurnID r) (Some (TurnRecovered (rv_TurnID r) (map oc_ToolCallID (rv_Uncertain r))))"
  have "replay (p @ [?it]) = Inr (st, ans)" using replay_snoc [OF assms(1), of ?it] by (simp add: reduce_item_def)
  from replay_unknown_results [OF this assms(2,3), of "rv_TurnID r" ts newID 1 "newID 0" "seq + 1"]
  show ?thesis by (simp add: buildRecoveryItems_def)
qed

lemma analyze_repaired:
  assumes "\<And>l. set (visit l) = set l" "r = analyze_branch visit p"
  shows "rv_Uncertain (analyze_branch visit (p @ buildRecoveryItems newID r parent seq ts)) = []"
proof (cases "sc_open (scanned p)")
  case True
  let ?c = "buildRecoveryItems newID r parent seq ts"
  have "\<forall>it\<in>set ?c. \<not> boundary (it_Payload it)" using repair_facts(4) [of newID r parent seq ts] by (auto simp: list_all_iff)
  note s = scan_turn [OF this, of "scanned p"]
  have eq: "scanned (p @ ?c) = fold scan_item ?c (scanned p)" by (simp add: scanned_def)
  have none: "entered_call it c = False" if "it \<in> set ?c" for it c
  proof -
    have "it \<in> set (unknown_results turn ts newID k q n us) \<Longrightarrow> \<not> entered_call it c" for turn k q n us
      by (induction turn ts newID k q n us rule: unknown_results.induct) (auto simp: entered_call_def)
    then show ?thesis using that by (auto simp: buildRecoveryItems_def entered_call_def)
  qed
  have open_: "sc_open (scanned (p @ ?c))" using s eq True by simp
  have "fst ` set (sc_entered (scanned (p @ ?c))) = fst ` set (sc_entered (scanned p))" using s eq none by auto
  moreover have "sc_answered (scanned (p @ ?c)) = sc_answered (scanned p) \<union> call_ids (rv_Uncertain r)"
    using s eq repair_facts(3) [of newID r parent seq ts] by (simp add: call_ids_def)
  moreover have "call_ids (rv_Uncertain r) = {c \<in> fst ` set (sc_entered (scanned p)). c \<notin> sc_answered (scanned p)}"
    using analyze_open [OF True assms(1)] assms(2) by simp
  ultimately have "call_ids (rv_Uncertain (analyze_branch visit (p @ ?c))) = {}"
    using analyze_open [OF open_ assms(1)] by auto
  then show ?thesis by (simp add: call_ids_def)
next
  case False
  then have r: "rv_Uncertain r = []" using analyze_closed assms(2) by (simp add: noRecovery_def)
  let ?c = "buildRecoveryItems newID r parent seq ts"
  have "\<forall>it\<in>set ?c. \<not> boundary (it_Payload it)" using repair_facts(4) [of newID r parent seq ts] by (auto simp: list_all_iff)
  then have "\<not> sc_open (scanned (p @ ?c))" using scan_turn [of ?c "scanned p"] False by (simp add: scanned_def)
  then show ?thesis using analyze_closed by (simp add: noRecovery_def)
qed

section \<open>Opening a session\<close>

lemma derive_ok:
  assumes "journal_ok items" "items \<noteq> []" "replay (path_to items (it_ID (last items))) = Inr (st, ans)"
  shows "deriveLoaded visit m items = Inr \<lparr>ld_Meta = m, ld_Head = it_ID (last items), ld_Items = items, ld_State = st,
    ld_Recovery = analyze_branch visit (path_to items (it_ID (last items)))\<rparr>"
proof -
  have "it_ID (last items) \<in> ids items" using assms(2) by (simp add: ids_def)
  then show ?thesis using assms Reduce_path [OF assms(1)] Branch_path [OF assms(1)]
    by (simp add: deriveLoaded_def Head_def Analyze_def)
qed

lemma openBranch_clean:
  assumes "journal_ok items" "items \<noteq> []" "replay (path_to items (it_ID (last items))) = Inr (st, ans)"
    and "rv_Uncertain (analyze_branch (se_visit env) (path_to items (it_ID (last items)))) = []"
  shows "openBranch env m items file =
    (Inr (\<lparr>ld_Meta = m, ld_Head = it_ID (last items), ld_Items = items, ld_State = st,
       ld_Recovery = analyze_branch (se_visit env) (path_to items (it_ID (last items)))\<rparr>, it_Seq (last items)), file)"
  using derive_ok [OF assms(1-3)] assms(2,4) by (simp add: openBranch_def)

definition repaired :: "storeEnv \<Rightarrow> Item list \<Rightarrow> Item list" where
  "repaired env items =
     (let r = analyze_branch (se_visit env) (path_to items (it_ID (last items)))
      in if rv_Uncertain r = [] then items
         else items @ buildRecoveryItems (se_newID env) r (it_ID (last items)) (it_Seq (last items)) (se_now env))"

definition repairable :: "storeEnv \<Rightarrow> Item list \<Rightarrow> bool" where
  "repairable env items \<longleftrightarrow>
     (let p = path_to items (it_ID (last items)); r = analyze_branch (se_visit env) p
      in (\<forall>l. set (se_visit env l) = set l) \<and> fresh_supply (se_newID env) items \<and> se_fault env = WriteOK
         \<and> distinct (map oc_ToolCallID (rv_Uncertain r)) \<and> call_ids (rv_Uncertain r) \<inter> set (answers p) = {})"

lemma repaired_facts:
  assumes ok: "journal_ok items" "items \<noteq> []" and rep: "replay (path_to items (it_ID (last items))) = Inr (st, ans)"
    and re: "repairable env items"
  defines "p \<equiv> path_to items (it_ID (last items))" and "new \<equiv> repaired env items"
  defines "r \<equiv> analyze_branch (se_visit env) p"
  shows "journal_ok new" "new \<noteq> []"
    "replay (path_to new (it_ID (last new))) =
      Inr (st\<lparr>st_Messages := st_Messages st @ map (\<lambda>u. tool_message (oc_ToolCallID u) '''' []) (rv_Uncertain r)\<rparr>, ans \<union> call_ids (rv_Uncertain r))"
    "rv_Uncertain (analyze_branch (se_visit env) (path_to new (it_ID (last new)))) = []"
proof -
  let ?c = "buildRecoveryItems (se_newID env) r (it_ID (last items)) (it_Seq (last items)) (se_now env)"
  have visit: "\<And>l. set (se_visit env l) = set l" and fresh: "fresh_supply (se_newID env) items"
    and calls: "distinct (map oc_ToolCallID (rv_Uncertain r))" "call_ids (rv_Uncertain r) \<inter> ans = {}"
    using re replay_answered [OF rep] by (auto simp: repairable_def Let_def r_def p_def)
  have head: "it_ID (last items) \<in> ids items" using ok(2) by (simp add: ids_def)
  have new: "new = (if rv_Uncertain r = [] then items else items @ ?c)"
    by (simp add: new_def repaired_def Let_def r_def p_def)
  have okc: "journal_ok (items @ ?c)" using repair_ok [OF ok(1) head fresh] .
  have last: "it_ID (last (items @ ?c)) = last_id (it_ID (last items)) ?c"
    by (simp add: last_id_last buildRecoveryItems_def)
  have path: "path_to (items @ ?c) (it_ID (last (items @ ?c))) = p @ ?c"
    using chain_path [OF okc repair_facts(1)] last by (simp add: p_def)
  have an: "rv_Uncertain (analyze_branch (se_visit env) (p @ ?c)) = []"
    using analyze_repaired [OF visit, of r p "se_newID env" "it_ID (last items)" "it_Seq (last items)" "se_now env"] by (simp add: r_def)
  have rp: "replay (p @ ?c) = Inr (st\<lparr>st_Messages := st_Messages st @ map (\<lambda>u. tool_message (oc_ToolCallID u) '''' []) (rv_Uncertain r)\<rparr>,
      ans \<union> call_ids (rv_Uncertain r))"
    using replay_repair [OF rep [folded p_def] calls] .
  show "journal_ok new" "new \<noteq> []" using new ok okc by (simp_all add: buildRecoveryItems_def)
  show "replay (path_to new (it_ID (last new))) =
      Inr (st\<lparr>st_Messages := st_Messages st @ map (\<lambda>u. tool_message (oc_ToolCallID u) '''' []) (rv_Uncertain r)\<rparr>, ans \<union> call_ids (rv_Uncertain r))"
    using new rep path rp by (cases "rv_Uncertain r = []") (simp_all add: p_def call_ids_def)
  show "rv_Uncertain (analyze_branch (se_visit env) (path_to new (it_ID (last new)))) = []"
    using new path an by (cases "rv_Uncertain r = []") (simp_all add: p_def r_def)
qed

lemma openBranch_repairs:
  assumes ok: "journal_ok items" "items \<noteq> []" and rep: "replay (path_to items (it_ID (last items))) = Inr (st, ans)"
    and re: "repairable env items" and rd: "list_all (readable (se_codec env)) (repaired env items)"
  shows "\<exists>loaded seq. openBranch env m items (bytes_of (se_codec env) h items) =
      (Inr (loaded, seq), bytes_of (se_codec env) h (repaired env items))
    \<and> ld_Items loaded = repaired env items \<and> ld_Head loaded = it_ID (last (repaired env items))
    \<and> ld_Recovery loaded = analyze_branch (se_visit env) (path_to items (it_ID (last items)))
    \<and> ld_State loaded = st\<lparr>st_Messages := st_Messages st @ map (\<lambda>u. tool_message (oc_ToolCallID u) '''' [])
        (rv_Uncertain (analyze_branch (se_visit env) (path_to items (it_ID (last items)))))\<rparr>"
proof -
  let ?r = "analyze_branch (se_visit env) (path_to items (it_ID (last items)))"
  let ?c = "buildRecoveryItems (se_newID env) ?r (it_ID (last items)) (it_Seq (last items)) (se_now env)"
  note new = repaired_facts [OF ok rep re]
  show ?thesis
  proof (cases "rv_Uncertain ?r = []")
    case True
    then show ?thesis using openBranch_clean [OF ok rep] by (simp add: repaired_def)
  next
    case False
    then have n: "repaired env items = items @ ?c" by (simp add: repaired_def Let_def)
    have "list_all (readable (se_codec env)) ?c" using rd n by simp
    then have "journalAppend (se_codec env) WriteOK ?c (bytes_of (se_codec env) h items) = (Inr (), bytes_of (se_codec env) h (items @ ?c))"
      using repair_not_empty by (simp add: journalAppend_def marshal_all_readable writeLines_def bytes_of_append)
    moreover have "se_fault env = WriteOK" using re by (simp add: repairable_def Let_def)
    ultimately show ?thesis
      using derive_ok [OF ok rep, of "se_visit env" m] derive_ok [OF new(1-3), of "se_visit env" m] False n
      by (simp add: openBranch_def Let_def)
  qed
qed

text \<open>C24: Opening repairs an interrupted turn, once. On a readable journal whose head reduces and whose uncertain
  calls have ids of their own, \<open>Open\<close> appends the recovery record and one unknown result per uncertain call,
  nothing when there is none; the writer holds the extended, valid journal, its state has those results as tool
  messages, no call is uncertain any more, and opening again after closing changes nothing.\<close>

theorem open_repairs_once:
  assumes "\<not> bn_locked b" "bn_meta b = Some text" "bn_journal b = Some (bytes_of (se_codec env) h items)"
    and "readable_header (se_codec env) h" "h_SessionID h = i" "list_all (readable (se_codec env)) (repaired env items)"
    and "items \<noteq> []" "ValidateItems items = Inr ()" "Reduce items (it_ID (last items)) = Inr st" "repairable env items"
  shows "\<exists>w. Open env i b = (Inr w, b\<lparr>bn_journal := Some (bytes_of (se_codec env) h (repaired env items)), bn_locked := True\<rparr>)
    \<and> ld_Items (fw_loaded w) = repaired env items \<and> ValidateItems (repaired env items) = Inr ()
    \<and> (\<exists>r. Analyze (se_visit env) items (it_ID (last items)) = Inr r
         \<and> ld_State (fw_loaded w) = st\<lparr>st_Messages := st_Messages st @ map (\<lambda>u. tool_message (oc_ToolCallID u) '''' []) (rv_Uncertain r)\<rparr>)
    \<and> (\<exists>r. Analyze (se_visit env) (repaired env items) (fw_lastID w) = Inr r \<and> rv_Uncertain r = [])
    \<and> (\<forall>env'. se_codec env' = se_codec env \<longrightarrow> se_visit env' = se_visit env \<longrightarrow>
         bn_journal (snd (Open env' i (closeWriter (snd (Open env i b))))) = bn_journal (snd (Open env i b)))"
proof -
  have ok: "journal_ok items" using assms(8) by (simp add: ValidateItems_iff)
  have head: "it_ID (last items) \<in> ids items" using assms(7) by (simp add: ids_def)
  obtain ans where rep: "replay (path_to items (it_ID (last items))) = Inr (st, ans)"
    using Reduce_replay [OF ok] head assms(9) by blast
  let ?new = "repaired env items" and ?h = "bytes_of (se_codec env) h"
  note new = repaired_facts [OF ok assms(7) rep assms(10)]
  have rd: "list_all (readable (se_codec env)) items" using assms(6) by (auto simp: repaired_def Let_def split: if_splits)
  have m: "\<exists>m. meta_or_default env' i (Some text) = Inr m" for env' by (simp add: meta_or_default_def split: option.splits)
  have opened: "OpenAppend (se_codec env) (Some (?h its)) = (Inr \<lparr>ct_Header = h, ct_Items = its, ct_Truncated = 0\<rparr>, Some (?h its))"
    if "journal_ok its" "list_all (readable (se_codec env)) its" for its
    using open_written [OF assms(4) that, of "[]"] by simp
  obtain m1 loaded seq where "meta_or_default env i (Some text) = Inr m1"
    and b1: "openBranch env m1 items (?h items) = (Inr (loaded, seq), ?h ?new)"
    and l: "ld_Items loaded = ?new" "ld_Head loaded = it_ID (last ?new)"
      "ld_State loaded = st\<lparr>st_Messages := st_Messages st @ map (\<lambda>u. tool_message (oc_ToolCallID u) '''' [])
        (rv_Uncertain (analyze_branch (se_visit env) (path_to items (it_ID (last items)))))\<rparr>"
    using m [of env] openBranch_repairs [OF ok assms(7) rep assms(10,6)] by metis
  then have o1: "Open env i b = (Inr \<lparr>fw_loaded = loaded, fw_lastID = ld_Head loaded, fw_lastSeq = seq\<rparr>,
      b\<lparr>bn_journal := Some (?h ?new), bn_locked := True\<rparr>)"
    using assms(1-3,5) opened [OF ok rd] by (simp add: Open_def checkHeaderMatchesDir_def)
  have head': "it_ID (last ?new) \<in> ids ?new" using new(2) by (simp add: ids_def)
  have again: "bn_journal (snd (Open env' i (closeWriter (snd (Open env i b))))) = bn_journal (snd (Open env i b))"
    if "se_codec env' = se_codec env" "se_visit env' = se_visit env" for env'
  proof -
    obtain m2 where m2: "meta_or_default env' i (Some text) = Inr m2" using m by blast
    have "rv_Uncertain (analyze_branch (se_visit env') (path_to ?new (it_ID (last ?new)))) = []" using new(4) that(2) by simp
    from openBranch_clean [OF new(1-3) this, of m2 "?h ?new"] show ?thesis
      using that(1) m2 assms(2,5) opened [OF new(1) assms(6)]
      by (simp add: o1 closeWriter_def) (simp add: Open_def checkHeaderMatchesDir_def)
  qed
  show ?thesis
    using o1 l again new(1,4) Branch_path [OF new(1)] Branch_path [OF ok] head head' by (auto simp: ValidateItems_iff Analyze_def)
qed

end
