(* ===== verification/Session_Context.thy ===== *)
theory Session_Context
  imports Session_Open
begin

text \<open>
  The live session, \<open>internal/agentapp/session_context.go\<close>: the agent's history interface over a writer.
  Every change that a resumed turn must see is committed to the journal first and then applied to the state
  the session keeps, so the session is an incremental reducer. The stamping of notes and todos is that of
  \<open>internal/core/agent/notes.go\<close>. The lemmas show that the kept state is, at every moment, the replay of what
  is on disk.
\<close>

section \<open>Notes and todos\<close>

definition MaxNotes :: nat where "MaxNotes = 15"
definition MaxTodos :: nat where "MaxTodos = 30"

definition StampNotes :: "Note list \<Rightarrow> Note list \<Rightarrow> int \<Rightarrow> Note list" where
  "StampNotes prev next iter =
     (let age = map_of (map (\<lambda>p. (nt_Text p, nt_WrittenIteration p)) prev)
      in map (\<lambda>n. n\<lparr>nt_WrittenIteration := (case age (nt_Text n) of None \<Rightarrow> iter | Some at \<Rightarrow> at)\<rparr>) next)"

definition StampTodos :: "Todo list \<Rightarrow> Todo list \<Rightarrow> int \<Rightarrow> Todo list" where
  "StampTodos prev next iter =
     (let age = map_of (map (\<lambda>p. ((td_Content p, td_Status p), td_WrittenIteration p)) prev)
      in map (\<lambda>t. t\<lparr>td_WrittenIteration := (case age (td_Content t, td_Status t) of None \<Rightarrow> iter | Some at \<Rightarrow> at)\<rparr>) next)"

definition ValidateTodos :: "Todo list \<Rightarrow> bool" where
  "ValidateTodos todos \<longleftrightarrow> length todos \<le> MaxTodos
     \<and> list_all (\<lambda>t. TrimSpace (td_Content t) \<noteq> '''' \<and> td_Status t \<in> {''pending'', ''in_progress'', ''completed''}) todos
     \<and> length (filter (\<lambda>t. td_Status t = ''in_progress'') todos) \<le> 1"

section \<open>The session\<close>

record SessionContext =
  sx_writer :: "fileWriter option"
  sx_meta :: Meta
  sx_state :: State
  sx_items :: "Item list"
  sx_messageIDs :: "string list"
  sx_head :: string
  sx_lastSeq :: "64 word"
  sx_turnID :: string
  sx_selectedModel :: string

datatype session_error =
  StoreError store_error | HistoryError history_error | CoversNothing | IndexOutOfRange | NotPersisted | AlreadyHolds

text \<open>The environment of a session: the codec, the supply of new ids, the clock and what each write achieves. The
  state around it: the journal file and how many ids and writes were used.\<close>

record sessionEnv =
  ce_codec :: jcodec
  ce_newID :: "nat \<Rightarrow> string"
  ce_now :: "nat \<Rightarrow> int"
  ce_fault :: "nat \<Rightarrow> write_fault"

record session =
  ss_ctx :: SessionContext
  ss_file :: string
  ss_drawn :: nat
  ss_writes :: nat

type_synonym 'a sess = "(session_error, session, 'a) prog"

definition messageIDsOnBranch :: "Item list \<Rightarrow> string \<Rightarrow> string list" where
  "messageIDsOnBranch items head =
     (case Branch items head of
        Inl _ \<Rightarrow> []
      | Inr branch \<Rightarrow> map it_ID (filter (\<lambda>it. is_message (it_Payload it)) branch))"

definition newWriterContext :: "fileWriter \<Rightarrow> string \<Rightarrow> SessionContext" where
  "newWriterContext w defaultModel =
     (let loaded = fw_loaded w
      in \<lparr>sx_writer = Some w, sx_meta = ld_Meta loaded, sx_state = ld_State loaded, sx_items = ld_Items loaded,
          sx_messageIDs = messageIDsOnBranch (ld_Items loaded) (ld_Head loaded), sx_head = ld_Head loaded,
          sx_lastSeq = (if ld_Items loaded = [] then 0 else it_Seq (last (ld_Items loaded))), sx_turnID = '''',
          sx_selectedModel = (if mt_SelectedModel (ld_Meta loaded) \<noteq> '''' then mt_SelectedModel (ld_Meta loaded) else defaultModel)\<rparr>)"

section \<open>Commits\<close>

fun build_items :: "sessionEnv \<Rightarrow> string \<Rightarrow> nat \<Rightarrow> string \<Rightarrow> 64 word \<Rightarrow> Payload list \<Rightarrow> Item list" where
  "build_items env turnID k parent seq [] = []"
| "build_items env turnID k parent seq (p # ps) =
     NewItem (seq + 1) (ce_newID env k) parent (ce_now env k) turnID (Some p)
     # build_items env turnID (Suc k) (ce_newID env k) (seq + 1) ps"

definition append_items :: "sessionEnv \<Rightarrow> Item list \<Rightarrow> unit sess" where
  "append_items env items = (\<lambda>s.
     case sx_writer (ss_ctx s) of
       None \<Rightarrow> (Inl NotPersisted, s)
     | Some w \<Rightarrow>
         (case writerAppend (ce_codec env) (ce_fault env (ss_writes s)) w items (ss_file s) of
            (Inl e, w', file) \<Rightarrow>
              (Inl (StoreError e), s\<lparr>ss_ctx := (ss_ctx s)\<lparr>sx_writer := Some w'\<rparr>, ss_file := file, ss_writes := Suc (ss_writes s)\<rparr>)
          | (Inr _, w', file) \<Rightarrow>
              (Inr (), s\<lparr>ss_ctx := (ss_ctx s)\<lparr>sx_writer := Some w', sx_items := sx_items (ss_ctx s) @ items,
                                sx_head := it_ID (last items), sx_lastSeq := it_Seq (last items)\<rparr>,
                         ss_file := file, ss_writes := Suc (ss_writes s)\<rparr>)))"

definition commitAll :: "sessionEnv \<Rightarrow> Payload list \<Rightarrow> string list sess" where
  "commitAll env payloads = (\<lambda>s.
     if payloads = [] \<or> sx_writer (ss_ctx s) = None then (Inr [], s)
     else let c = ss_ctx s;
              items = build_items env (sx_turnID c) (ss_drawn s) (sx_head c) (sx_lastSeq c) payloads
          in bindP (append_items env items) (\<lambda>_. retP (map it_ID items)) (s\<lparr>ss_drawn := ss_drawn s + length payloads\<rparr>))"

definition commit_payloads :: "sessionEnv \<Rightarrow> Payload list \<Rightarrow> unit sess" where
  "commit_payloads env payloads = bindP (commitAll env payloads) (\<lambda>_. retP ())"

definition commitItem :: "sessionEnv \<Rightarrow> Payload \<Rightarrow> string sess" where
  "commitItem env payload =
     bindP (commitAll env [payload]) (\<lambda>ids s.
       if ids = [] then (Inr (ce_newID env (ss_drawn s)), s\<lparr>ss_drawn := Suc (ss_drawn s)\<rparr>) else (Inr (hd ids), s))"

definition commitTo :: "sessionEnv \<Rightarrow> string \<Rightarrow> Payload \<Rightarrow> unit sess" where
  "commitTo env parent payload = (\<lambda>s.
     if sx_writer (ss_ctx s) = None then (Inr (), s)
     else let c = ss_ctx s;
              item = NewItem (sx_lastSeq c + 1) (ce_newID env (ss_drawn s)) parent (ce_now env (ss_drawn s)) (sx_turnID c) (Some payload)
          in append_items env [item] (s\<lparr>ss_drawn := Suc (ss_drawn s)\<rparr>))"

definition modify :: "(SessionContext \<Rightarrow> SessionContext) \<Rightarrow> unit sess" where
  "modify f = (\<lambda>s. (Inr (), s\<lparr>ss_ctx := f (ss_ctx s)\<rparr>))"

definition with_ctx :: "(SessionContext \<Rightarrow> 'a sess) \<Rightarrow> 'a sess" where
  "with_ctx f = (\<lambda>s. f (ss_ctx s) s)"

abbreviation upd_state :: "(State \<Rightarrow> State) \<Rightarrow> SessionContext \<Rightarrow> SessionContext" where
  "upd_state f c \<equiv> c\<lparr>sx_state := f (sx_state c)\<rparr>"

section \<open>Operations\<close>

definition SetAdditionalPrompt :: "sessionEnv \<Rightarrow> string \<Rightarrow> unit sess" where
  "SetAdditionalPrompt env text = with_ctx (\<lambda>c.
     if st_AdditionalPrompt (sx_state c) = text then retP ()
     else bindP (commit_payloads env [AdditionalPromptSet text]) (\<lambda>_. modify (upd_state (st_AdditionalPrompt_update (\<lambda>_. text)))))"

definition AppendMessage :: "sessionEnv \<Rightarrow> Message \<Rightarrow> unit sess" where
  "AppendMessage env m =
     bindP (commitItem env (MessageItem m)) (\<lambda>i.
     modify (\<lambda>c. (upd_state (\<lambda>st. st\<lparr>st_Messages := st_Messages st @ [m]\<rparr>) c)\<lparr>sx_messageIDs := sx_messageIDs c @ [i]\<rparr>))"

definition MarkToolsStarted :: "sessionEnv \<Rightarrow> (string \<times> string) list \<Rightarrow> unit sess" where
  "MarkToolsStarted env calls = commit_payloads env (map (\<lambda>(i, name). ToolExecutionStarted i name) calls)"

record ToolOutcome =
  ou_ID :: string
  ou_Name :: string
  ou_Status :: string
  ou_Result :: string
  ou_Parts :: "ContentPart list"

definition AppendToolResult :: "sessionEnv \<Rightarrow> ToolOutcome \<Rightarrow> unit sess" where
  "AppendToolResult env out =
     bindP (commitItem env (ToolResult (ou_ID out) (ou_Status out) (ou_Result out) (ou_Parts out))) (\<lambda>i.
     modify (\<lambda>c. (upd_state (\<lambda>st. st\<lparr>st_Messages := st_Messages st @ [tool_message (ou_ID out) (ou_Result out) (ou_Parts out)]\<rparr>) c)
       \<lparr>sx_messageIDs := sx_messageIDs c @ [i]\<rparr>))"

definition AddCompaction :: "sessionEnv \<Rightarrow> string \<Rightarrow> int \<Rightarrow> unit sess" where
  "AddCompaction env summary summarizedCount = with_ctx (\<lambda>c.
     let idx = min (int (st_CompactionIdx (sx_state c)) + summarizedCount) (int (length (sx_messageIDs c)))
     in if idx = 0 then throwP CoversNothing
        else if idx < 0 then throwP IndexOutOfRange
        else bindP (commit_payloads env [Compaction (sx_messageIDs c ! (nat idx - 1)) summary]) (\<lambda>_.
             modify (upd_state (\<lambda>st. st\<lparr>st_CompactionIdx := nat idx, st_CompactionSummary := summary\<rparr>))))"

definition SetNotes :: "sessionEnv \<Rightarrow> Note list \<Rightarrow> int \<Rightarrow> unit sess" where
  "SetNotes env notes iter = with_ctx (\<lambda>c.
     let stamped = StampNotes (st_Notes (sx_state c)) notes iter
     in bindP (commit_payloads env [NotesReplaced stamped]) (\<lambda>_. modify (upd_state (st_Notes_update (\<lambda>_. stamped)))))"

definition SetTodos :: "sessionEnv \<Rightarrow> Todo list \<Rightarrow> int \<Rightarrow> unit sess" where
  "SetTodos env todos iter = with_ctx (\<lambda>c.
     let stamped = StampTodos (st_Todos (sx_state c)) todos iter
     in bindP (commit_payloads env [TodosReplaced stamped]) (\<lambda>_. modify (upd_state (st_Todos_update (\<lambda>_. stamped)))))"

definition BeginTurn :: "sessionEnv \<Rightarrow> string \<Rightarrow> string \<Rightarrow> string \<Rightarrow> int \<Rightarrow> string \<Rightarrow> unit sess" where
  "BeginTurn env runID model workspace contextWindow inputKind =
     bindP (modify (\<lambda>c. c\<lparr>sx_turnID := runID\<rparr>)) (\<lambda>_.
     commit_payloads env [TurnStarted runID model workspace contextWindow inputKind])"

definition FinishTurn :: "sessionEnv \<Rightarrow> string \<Rightarrow> string \<Rightarrow> unit sess" where
  "FinishTurn env status errorClass = with_ctx (\<lambda>c.
     if sx_turnID c = '''' then retP ()
     else bindP (tryP (commit_payloads env [TurnFinished status errorClass])) (\<lambda>r.
          bindP (modify (\<lambda>c. c\<lparr>sx_turnID := ''''\<rparr>)) (\<lambda>_. liftE r)))"

definition reduceFromHead :: "unit sess" where
  "reduceFromHead = with_ctx (\<lambda>c.
     case Reduce (sx_items c) (sx_head c) of
       Inl e \<Rightarrow> throwP (HistoryError e)
     | Inr st \<Rightarrow> modify (\<lambda>c. c\<lparr>sx_state := st, sx_messageIDs := messageIDsOnBranch (sx_items c) (sx_head c)\<rparr>))"

definition messageAt :: "SessionContext \<Rightarrow> string \<Rightarrow> Message option" where
  "messageAt c i = map_of (zip (sx_messageIDs c) (st_Messages (sx_state c))) i"

record RewindOutcome =
  ro_Abandoned :: AbandonedWork
  ro_Prompt :: string
  ro_Attachments :: nat

definition Rewind :: "sessionEnv \<Rightarrow> string \<Rightarrow> RewindOutcome sess" where
  "Rewind env messageID = with_ctx (\<lambda>c.
     if sx_writer c = None then throwP NotPersisted
     else case RewindLanding (sx_items c) (sx_head c) messageID of
            Inl e \<Rightarrow> throwP (HistoryError e)
          | Inr landing \<Rightarrow>
              (case Abandoned (sx_items c) (sx_head c) landing of
                 Inl e \<Rightarrow> throwP (HistoryError e)
               | Inr abandoned \<Rightarrow>
                   bindP (commitTo env landing (HeadSelected ''user_rewind'')) (\<lambda>_.
                   bindP reduceFromHead (\<lambda>_.
                   retP (case messageAt c messageID of
                           None \<Rightarrow> \<lparr>ro_Abandoned = abandoned, ro_Prompt = '''', ro_Attachments = 0\<rparr>
                         | Some m \<Rightarrow> \<lparr>ro_Abandoned = abandoned, ro_Prompt = ms_Content m, ro_Attachments = length (Images m)\<rparr>)))))"

definition adoptPrefix :: "sessionEnv \<Rightarrow> Item list \<Rightarrow> unit sess" where
  "adoptPrefix env items = with_ctx (\<lambda>c.
     if sx_writer c = None then throwP NotPersisted
     else if sx_items c \<noteq> [] then throwP AlreadyHolds
     else if items = [] then throwP IndexOutOfRange
     else bindP (append_items env items) (\<lambda>_. reduceFromHead))"

end
