(* ===== verification/Session_Refinement.thy ===== *)
theory Session_Refinement
  imports Session_Context
begin

text \<open>
  The live session refines the journal. \<open>on_disk\<close> relates the session, its writer and the file; \<open>agrees\<close> says
  that what the session keeps is the replay of its branch. Every operation keeps both, so what a crash or a
  resume reads back is what the session held.
\<close>

definition resumable :: "State \<Rightarrow> Message list \<times> nat \<times> string \<times> Note list \<times> Todo list \<times> string" where
  "resumable st = (st_Messages st, st_CompactionIdx st, st_CompactionSummary st, st_Notes st, st_Todos st, st_AdditionalPrompt st)"

definition all_reduce :: "Item list \<Rightarrow> bool" where
  "all_reduce items \<longleftrightarrow> (\<forall>x\<in>ids items. \<exists>a. replay (path_to items x) = Inr a)"

definition message_ids :: "Item list \<Rightarrow> string list" where
  "message_ids p = map it_ID (filter (\<lambda>it. is_message (it_Payload it)) p)"

definition agrees :: "SessionContext \<Rightarrow> bool" where
  "agrees c \<longleftrightarrow> all_reduce (sx_items c)
     \<and> (\<exists>st ans. replay (path_to (sx_items c) (sx_head c)) = Inr (st, ans) \<and> resumable st = resumable (sx_state c))
     \<and> sx_messageIDs c = message_ids (path_to (sx_items c) (sx_head c))"

definition on_disk :: "sessionEnv \<Rightarrow> Header \<Rightarrow> session \<Rightarrow> bool" where
  "on_disk env h s \<longleftrightarrow> (let c = ss_ctx s; items = sx_items c in
     (\<exists>w. sx_writer c = Some w \<and> ld_Items (fw_loaded w) = items \<and> fw_lastID w = sx_head c \<and> fw_lastSeq w = sx_lastSeq c)
     \<and> journal_ok items \<and> sx_head c = last_id '''' items
     \<and> (\<forall>k\<ge>ss_drawn s. ce_newID env k \<notin> ids items)
     \<and> (list_all (readable (ce_codec env)) items \<longrightarrow> ss_file s = bytes_of (ce_codec env) h items))"

definition steady :: "sessionEnv \<Rightarrow> bool" where
  "steady env \<longleftrightarrow> inj (ce_newID env) \<and> (\<forall>k. ce_newID env k \<noteq> '''') \<and> (\<forall>k. ce_fault env k = WriteOK)"

definition same_view :: "session \<Rightarrow> session \<Rightarrow> bool" where
  "same_view s s' \<longleftrightarrow> sx_items (ss_ctx s') = sx_items (ss_ctx s) \<and> sx_head (ss_ctx s') = sx_head (ss_ctx s)
     \<and> sx_state (ss_ctx s') = sx_state (ss_ctx s) \<and> sx_messageIDs (ss_ctx s') = sx_messageIDs (ss_ctx s)"

definition extended :: "Item list \<Rightarrow> session \<Rightarrow> session \<Rightarrow> bool" where
  "extended its s s' \<longleftrightarrow> sx_items (ss_ctx s') = sx_items (ss_ctx s) @ its \<and> sx_head (ss_ctx s') = it_ID (last its)
     \<and> sx_state (ss_ctx s') = sx_state (ss_ctx s) \<and> sx_messageIDs (ss_ctx s') = sx_messageIDs (ss_ctx s)"

section \<open>Appending\<close>

lemma last_id_append: "its \<noteq> [] \<Longrightarrow> last_id x (items @ its) = it_ID (last its)"
  by (simp add: last_id_last)

lemma append_items_ok:
  assumes disk: "on_disk env h s" and st: "steady env" and ne: "its \<noteq> []"
    and w: "sx_writer (ss_ctx s) = Some w"
    and chk: "check_chain w (sx_head (ss_ctx s)) (sx_lastSeq (ss_ctx s)) its = Inr (it_ID (last its), it_Seq (last its))"
    and ok: "journal_ok (sx_items (ss_ctx s) @ its)" and fresh: "\<forall>k\<ge>ss_drawn s. ce_newID env k \<notin> ids its"
  shows "(\<exists>e s'. append_items env its s = (Inl e, s') \<and> on_disk env h s' \<and> same_view s s')
    \<or> (\<exists>s'. append_items env its s = (Inr (), s') \<and> on_disk env h s' \<and> extended its s s')"
proof -
  let ?jc = "ce_codec env" and ?items = "sx_items (ss_ctx s)"
  have wf: "ld_Items (fw_loaded w) = ?items" "fw_lastID w = sx_head (ss_ctx s)" "fw_lastSeq w = sx_lastSeq (ss_ctx s)"
    using disk w by (auto simp: on_disk_def Let_def)
  have fault: "ce_fault env (ss_writes s) = WriteOK" using st by (simp add: steady_def)
  show ?thesis
  proof (cases "marshal_all ?jc its")
    case None
    then have "append_items env its s = (Inl (StoreError (Journal Encode)), s\<lparr>ss_ctx := (ss_ctx s)\<lparr>sx_writer := Some w\<rparr>, ss_writes := Suc (ss_writes s)\<rparr>)"
      using w wf chk ne by (simp add: append_items_def writerAppend_def journalAppend_def)
    then show ?thesis using disk w wf by (simp add: on_disk_def Let_def same_view_def)
  next
    case (Some ls)
    let ?w' = "w\<lparr>fw_lastID := it_ID (last its), fw_lastSeq := it_Seq (last its),
        fw_loaded := (fw_loaded w)\<lparr>ld_Items := ld_Items (fw_loaded w) @ its, ld_Head := it_ID (last its)\<rparr>\<rparr>"
    let ?s' = "s\<lparr>ss_ctx := (ss_ctx s)\<lparr>sx_writer := Some ?w', sx_items := ?items @ its, sx_head := it_ID (last its),
        sx_lastSeq := it_Seq (last its)\<rparr>, ss_file := ss_file s @ join_lines ls, ss_writes := Suc (ss_writes s)\<rparr>"
    have run: "append_items env its s = (Inr (), ?s')"
      using w wf chk ne Some fault by (simp add: append_items_def writerAppend_def journalAppend_def writeLines_def)
    have "ss_file s @ join_lines ls = bytes_of ?jc h (?items @ its)" if "list_all (readable ?jc) (?items @ its)"
    proof -
      have "list_all (readable ?jc) its" "list_all (readable ?jc) ?items" using that by simp_all
      then show ?thesis using Some marshal_all_readable [of ?jc its] disk by (simp add: on_disk_def Let_def bytes_of_append)
    qed
    then have "on_disk env h ?s'"
      using disk ok fresh wf ne by (auto simp: on_disk_def Let_def last_id_append)
    then show ?thesis using run by (auto simp: extended_def)
  qed
qed

lemma build_items_facts:
  "chained parent (build_items env turn k parent seq ps)"
  "map it_ID (build_items env turn k parent seq ps) = map (ce_newID env) [k..<k + length ps]"
  "map it_Payload (build_items env turn k parent seq ps) = map Some ps"
proof (induction ps arbitrary: k parent seq)
  case (Cons p ps)
  { case 1 show ?case using Cons.IH(1) by simp
  next
    case 2 show ?case using Cons.IH(2) by (simp add: upt_conv_Cons del: upt_Suc)
  next
    case 3 show ?case using Cons.IH(3) by simp
  }
qed simp_all

lemma build_items_Nil [simp]: "build_items env turn k parent seq ps = [] \<longleftrightarrow> ps = []"
  by (cases ps) simp_all

lemma build_items_check:
  "check_chain w parent seq (build_items env turn k parent seq ps) =
     Inr (if ps = [] then (parent, seq) else (it_ID (last (build_items env turn k parent seq ps)), it_Seq (last (build_items env turn k parent seq ps))))"
proof (induction ps arbitrary: k parent seq)
  case (Cons p ps)
  show ?case using Cons.IH [of "ce_newID env k" "seq + 1" "Suc k"] by (cases "ps = []") simp_all
qed simp

lemma commitAll_ok:
  assumes disk: "on_disk env h s" and st: "steady env" and ps: "ps \<noteq> []" "list_all (\<lambda>p. \<not> is_unknown (Some p)) ps"
  defines "its \<equiv> build_items env (sx_turnID (ss_ctx s)) (ss_drawn s) (sx_head (ss_ctx s)) (sx_lastSeq (ss_ctx s)) ps"
  shows "journal_ok (sx_items (ss_ctx s) @ its) \<and>
    ((\<exists>e s'. commitAll env ps s = (Inl e, s') \<and> on_disk env h s' \<and> same_view s s')
     \<or> (\<exists>s'. commitAll env ps s = (Inr (map it_ID its), s') \<and> on_disk env h s' \<and> extended its s s'))"
proof -
  let ?c = "ss_ctx s" and ?s1 = "s\<lparr>ss_drawn := ss_drawn s + length ps\<rparr>"
  obtain w where w: "sx_writer ?c = Some w" and ok: "journal_ok (sx_items ?c)" and head: "sx_head ?c = last_id '''' (sx_items ?c)"
    and old: "\<forall>k\<ge>ss_drawn s. ce_newID env k \<notin> ids (sx_items ?c)"
    using disk by (auto simp: on_disk_def Let_def)
  have idl: "map it_ID its = map (ce_newID env) [ss_drawn s..<ss_drawn s + length ps]" by (simp add: its_def build_items_facts(2))
  then have idset: "ids its = ce_newID env ` {ss_drawn s..<ss_drawn s + length ps}" by (metis ids_def list.set_map set_upt)
  have inj: "inj (ce_newID env)" "\<And>k. ce_newID env k \<noteq> ''''" using st by (auto simp: steady_def)
  have pl: "map it_Payload its = map Some ps" by (simp add: its_def build_items_facts(3))
  have "list_all plain its"
  proof (unfold list_all_iff, intro ballI)
    fix it assume it: "it \<in> set its"
    then have "it_Payload it \<in> Some ` set ps" using pl by (metis image_eqI list.set_map)
    moreover have "it_ID it \<in> ce_newID env ` {ss_drawn s..<ss_drawn s + length ps}" using it idset by (auto simp: ids_def)
    then have "it_ID it \<noteq> ''''" using inj(2) by (metis imageE)
    ultimately show "plain it" using ps(2) by (auto simp: plain_def list_all_iff)
  qed
  moreover have "distinct (map it_ID its)" using inj_on_subset [OF inj(1) subset_UNIV] by (simp add: idl distinct_map)
  moreover have "ids its \<inter> ids (sx_items ?c) = {}" using idset old by auto
  moreover have "sx_items ?c = [] \<and> sx_head ?c = '''' \<or> sx_head ?c \<in> ids (sx_items ?c)"
    using head by (cases "sx_items ?c = []") (simp_all add: last_id_last ids_def)
  ultimately have okc: "journal_ok (sx_items ?c @ its)"
    using chain_ok [OF ok, of "sx_head ?c" its] build_items_facts(1) [of "sx_head ?c"] by (simp add: its_def)
  have fresh: "\<forall>k\<ge>ss_drawn s + length ps. ce_newID env k \<notin> ids its" using idset inj(1) by (auto simp: inj_eq)
  have disk1: "on_disk env h ?s1" using disk by (auto simp: on_disk_def Let_def)
  have chk: "check_chain w (sx_head ?c) (sx_lastSeq ?c) its = Inr (it_ID (last its), it_Seq (last its))"
    using build_items_check ps(1) by (simp add: its_def)
  have ne: "its \<noteq> []" using ps(1) by (simp add: its_def)
  have run: "commitAll env ps s = bindP (append_items env its) (\<lambda>_. retP (map it_ID its)) ?s1"
    using ps(1) w by (simp add: commitAll_def Let_def its_def)
  have "(\<exists>e s'. append_items env its ?s1 = (Inl e, s') \<and> on_disk env h s' \<and> same_view ?s1 s')
      \<or> (\<exists>s'. append_items env its ?s1 = (Inr (), s') \<and> on_disk env h s' \<and> extended its ?s1 s')"
    using append_items_ok [OF disk1 st ne] w chk okc fresh by simp
  then show ?thesis using okc unfolding run
    by (auto simp: bindP_def retP_def same_view_def extended_def)
qed

section \<open>Agreement\<close>

lemma path_to_append: "journal_ok (items @ rest) \<Longrightarrow> x \<in> ids items \<Longrightarrow> path_to (items @ rest) x = path_to items x"
proof (induction rest rule: rev_induct)
  case (snoc it rest)
  then have "journal_ok (items @ rest)" "extends (items @ rest) it" by (simp_all flip: append_assoc)
  then show ?case using snoc path_to_extend(2) [of "items @ rest" it x] by simp
qed simp

lemma chain_prefix_path:
  assumes "journal_ok (items @ its)" "chained hd0 its" "x \<in> ids its"
  shows "\<exists>j. path_to (items @ its) x = path_to items hd0 @ take (Suc j) its \<and> j < length its"
proof -
  obtain j where j: "j < length its" "it_ID (its ! j) = x" using assms(3) by (auto simp: ids_def in_set_conv_nth)
  have "path_to (items @ its) (last_id hd0 its) = (path_to items hd0 @ take j its) @ its ! j # drop (Suc j) its"
    using chain_path [OF assms(1,2)] id_take_nth_drop [OF j(1)] by simp
  from path_prefix [OF assms(1) this] j have "path_to (items @ its) x = path_to items hd0 @ take (Suc j) its"
    by (simp add: take_Suc_conv_app_nth)
  then show ?thesis using j(1) by blast
qed

lemma all_reduce_extend:
  assumes "journal_ok (items @ its)" "chained hd0 its" "all_reduce items"
    and "\<And>j. j < length its \<Longrightarrow> \<exists>a. replay (path_to items hd0 @ take (Suc j) its) = Inr a"
  shows "all_reduce (items @ its)"
  unfolding all_reduce_def
proof
  fix x assume "x \<in> ids (items @ its)"
  then consider "x \<in> ids items" | "x \<in> ids its" by auto
  then show "\<exists>a. replay (path_to (items @ its) x) = Inr a"
  proof cases
    case 1
    then show ?thesis using assms(3) path_to_append [OF assms(1)] by (simp add: all_reduce_def)
  next
    case 2
    then show ?thesis using chain_prefix_path [OF assms(1,2)] assms(4) by metis
  qed
qed

definition silent :: "Payload \<Rightarrow> bool" where
  "silent p \<longleftrightarrow> (\<forall>branch acc. reduce_payload branch p acc = Inr acc) \<and> \<not> is_message (Some p)"

lemma silent_payloads [simp]: "silent (ToolExecutionStarted i n)" "silent (HeadSelected r)"
  by (auto simp: silent_def)

lemma replay_silent:
  assumes "replay p = Inr acc" "\<forall>it\<in>set its. \<exists>x. it_Payload it = Some x \<and> silent x"
  shows "replay (p @ its) = Inr acc" "message_ids (p @ its) = message_ids p"
proof -
  show "replay (p @ its) = Inr acc" using assms
  proof (induction its rule: rev_induct)
    case (snoc it its)
    then have "replay ((p @ its) @ [it]) = reduce_item ((p @ its) @ [it]) it acc" by (intro replay_snoc) simp
    then show ?case using snoc.prems(2) by (cases acc) (auto simp: reduce_item_def silent_def)
  qed simp
  show "message_ids (p @ its) = message_ids p"
    using assms(2) by (auto simp: message_ids_def filter_empty_conv silent_def)
qed

lemma agrees_silent:
  assumes ag: "agrees (ss_ctx s)" and ok: "journal_ok (sx_items (ss_ctx s) @ its)" and ch: "chained (sx_head (ss_ctx s)) its"
    and ne: "its \<noteq> []" and si: "\<forall>it\<in>set its. \<exists>x. it_Payload it = Some x \<and> silent x" and ex: "extended its s s'"
  shows "agrees (ss_ctx s')"
proof -
  let ?c = "ss_ctx s" and ?p = "path_to (sx_items (ss_ctx s)) (sx_head (ss_ctx s))"
  obtain st ans where r: "replay ?p = Inr (st, ans)" "resumable st = resumable (sx_state ?c)" and ids: "sx_messageIDs ?c = message_ids ?p"
    and all: "all_reduce (sx_items ?c)" using ag by (auto simp: agrees_def)
  have path: "path_to (sx_items ?c @ its) (it_ID (last its)) = ?p @ its"
    using chain_path [OF ok ch] ne by (simp add: last_id_last)
  have "all_reduce (sx_items ?c @ its)"
  proof (rule all_reduce_extend [OF ok ch all])
    fix j assume "j < length its"
    have "replay (?p @ take (Suc j) its) = Inr (st, ans)" using replay_silent(1) [OF r(1)] si by (meson in_set_takeD)
    then show "\<exists>a. replay (?p @ take (Suc j) its) = Inr a" by blast
  qed
  then show ?thesis using ex path replay_silent [OF r(1) si] r(2) ids by (auto simp: agrees_def extended_def)
qed

text \<open>One record that changes the state: the session applies the same change.\<close>

lemma agrees_step:
  assumes ag: "agrees c" and ok: "journal_ok (sx_items c @ [it])" and par: "it_ParentID it = sx_head c"
    and red: "\<And>st ans. replay (path_to (sx_items c) (sx_head c)) = Inr (st, ans) \<Longrightarrow> resumable st = resumable (sx_state c) \<Longrightarrow>
        \<exists>st' ans'. reduce_item (path_to (sx_items c) (sx_head c) @ [it]) it (st, ans) = Inr (st', ans') \<and> resumable st' = resumable (sx_state c')"
    and c': "sx_items c' = sx_items c @ [it]" "sx_head c' = it_ID it"
      "sx_messageIDs c' = sx_messageIDs c @ (if is_message (it_Payload it) then [it_ID it] else [])"
  shows "agrees c'"
proof -
  let ?p = "path_to (sx_items c) (sx_head c)"
  obtain st ans where r: "replay ?p = Inr (st, ans)" "resumable st = resumable (sx_state c)" and ids: "sx_messageIDs c = message_ids ?p"
    and all: "all_reduce (sx_items c)" using ag by (auto simp: agrees_def)
  obtain st' ans' where st': "reduce_item (?p @ [it]) it (st, ans) = Inr (st', ans')" "resumable st' = resumable (sx_state c')"
    using red [OF r] by blast
  have rep: "replay (?p @ [it]) = Inr (st', ans')" using replay_snoc [OF r(1)] st'(1) by simp
  have ch: "chained (sx_head c) [it]" using par by simp
  have "all_reduce (sx_items c @ [it])" by (rule all_reduce_extend [OF ok ch all]) (simp add: rep)
  moreover have "path_to (sx_items c @ [it]) (it_ID it) = ?p @ [it]" using chain_path [OF ok ch] by simp
  ultimately show ?thesis using rep st'(2) ids c' by (auto simp: agrees_def message_ids_def)
qed

section \<open>Operations\<close>

definition in_step :: "sessionEnv \<Rightarrow> Header \<Rightarrow> session \<Rightarrow> bool" where
  "in_step env h s \<longleftrightarrow> on_disk env h s \<and> agrees (ss_ctx s)"

lemma agrees_same_view: "agrees (ss_ctx s) \<Longrightarrow> same_view s s' \<Longrightarrow> agrees (ss_ctx s')"
  by (simp add: agrees_def same_view_def)

lemma on_disk_state [simp]:
  "on_disk env h (s\<lparr>ss_ctx := (ss_ctx s)\<lparr>sx_state := st, sx_messageIDs := ms\<rparr>\<rparr>) = on_disk env h s"
  by (simp add: on_disk_def Let_def)

lemma in_step_turn [simp]: "in_step env h (s\<lparr>ss_ctx := (ss_ctx s)\<lparr>sx_turnID := t\<rparr>\<rparr>) = in_step env h s"
  by (simp add: in_step_def on_disk_def Let_def agrees_def)

text \<open>One payload is committed, then the session applies \<open>g\<close> to its state and records the message's id.\<close>

lemma commit_step:
  assumes ins: "in_step env h s" and st: "steady env" and unk: "\<not> is_unknown (Some p)"
    and red: "\<And>it st ans. it_Payload it = Some p \<Longrightarrow>
        replay (path_to (sx_items (ss_ctx s)) (sx_head (ss_ctx s))) = Inr (st, ans) \<Longrightarrow> resumable st = resumable (sx_state (ss_ctx s)) \<Longrightarrow>
        \<exists>st' ans'. reduce_item (path_to (sx_items (ss_ctx s)) (sx_head (ss_ctx s)) @ [it]) it (st, ans) = Inr (st', ans')
          \<and> resumable st' = resumable (g (sx_state (ss_ctx s)))"
    and q: "\<And>i s'. snd (q [i] s') = s'\<lparr>ss_ctx := (ss_ctx s')\<lparr>sx_state := g (sx_state (ss_ctx s')),
        sx_messageIDs := sx_messageIDs (ss_ctx s') @ (if is_message (Some p) then [i] else [])\<rparr>\<rparr>"
  shows "in_step env h (snd (bindP (commitAll env [p]) q s))"
proof -
  let ?c = "ss_ctx s"
  define it where "it = NewItem (sx_lastSeq ?c + 1) (ce_newID env (ss_drawn s)) (sx_head ?c) (ce_now env (ss_drawn s)) (sx_turnID ?c) (Some p)"
  have disk: "on_disk env h s" and ag: "agrees ?c" using ins by (simp_all add: in_step_def)
  have ok: "journal_ok (sx_items ?c @ [it])" and
    cases: "(\<exists>e s'. commitAll env [p] s = (Inl e, s') \<and> on_disk env h s' \<and> same_view s s')
      \<or> (\<exists>s'. commitAll env [p] s = (Inr [it_ID it], s') \<and> on_disk env h s' \<and> extended [it] s s')"
    using commitAll_ok [OF disk st, of "[p]"] unk by (simp_all add: it_def)
  from cases show ?thesis
  proof (elim disjE exE conjE)
    fix e s' assume "commitAll env [p] s = (Inl e, s')" "on_disk env h s'" "same_view s s'"
    then show ?thesis using agrees_same_view [OF ag] by (simp add: bindP_def in_step_def)
  next
    fix s' assume run: "commitAll env [p] s = (Inr [it_ID it], s')" and d: "on_disk env h s'" and ex: "extended [it] s s'"
    let ?c' = "(ss_ctx s')\<lparr>sx_state := g (sx_state (ss_ctx s')), sx_messageIDs := sx_messageIDs (ss_ctx s') @ (if is_message (Some p) then [it_ID it] else [])\<rparr>"
    have "agrees ?c'"
      by (rule agrees_step [OF ag ok]) (use ex red [of it] in \<open>simp_all add: extended_def it_def\<close>)
    then show ?thesis using run q d by (simp add: bindP_def in_step_def)
  qed
qed

lemma commit_payloads_bind: "bindP (commit_payloads env ps) f = bindP (commitAll env ps) (\<lambda>_. f ())"
  by (simp add: commit_payloads_def bindP_assoc)

lemma commitItem_bind:
  "bindP (commitItem env p) f = bindP (commitAll env [p]) (\<lambda>ids. bindP (\<lambda>s.
     if ids = [] then (Inr (ce_newID env (ss_drawn s)), s\<lparr>ss_drawn := Suc (ss_drawn s)\<rparr>) else (Inr (hd ids), s)) f)"
  by (simp add: commitItem_def bindP_assoc)

lemma SetAdditionalPrompt_keeps:
  assumes "in_step env h s" "steady env"
  shows "in_step env h (snd (SetAdditionalPrompt env t s))"
proof -
  have "in_step env h (snd (bindP (commitAll env [AdditionalPromptSet t]) (\<lambda>_. modify (upd_state (st_AdditionalPrompt_update (\<lambda>_. t)))) s))"
    by (rule commit_step [OF assms, where g = "st_AdditionalPrompt_update (\<lambda>_. t)"]) (simp_all add: modify_def reduce_item_def resumable_def)
  then show ?thesis using assms(1) by (simp add: SetAdditionalPrompt_def with_ctx_def commit_payloads_bind retP_def)
qed

lemma AppendMessage_keeps:
  assumes "in_step env h s" "steady env"
  shows "in_step env h (snd (AppendMessage env m s))"
  unfolding AppendMessage_def commitItem_bind
  by (rule commit_step [OF assms, where g = "\<lambda>st. st\<lparr>st_Messages := st_Messages st @ [m]\<rparr>"])
    (simp_all add: modify_def bindP_def reduce_item_def resumable_def)

lemma AppendToolResult_keeps:
  assumes "in_step env h s" "steady env"
    and fresh: "ou_ID out \<notin> set (answers (path_to (sx_items (ss_ctx s)) (sx_head (ss_ctx s))))"
  shows "in_step env h (snd (AppendToolResult env out s))"
  unfolding AppendToolResult_def commitItem_bind
  by (rule commit_step [OF assms(1,2), where g = "\<lambda>st. st\<lparr>st_Messages := st_Messages st @ [tool_message (ou_ID out) (ou_Result out) (ou_Parts out)]\<rparr>"])
    (use fresh in \<open>auto simp: modify_def bindP_def reduce_item_def resumable_def dest: replay_answered\<close>)

lemma SetNotes_keeps:
  assumes "in_step env h s" "steady env"
  shows "in_step env h (snd (SetNotes env notes iter s))"
  unfolding SetNotes_def with_ctx_def Let_def commit_payloads_bind
  by (rule commit_step [OF assms, where g = "st_Notes_update (\<lambda>_. StampNotes (st_Notes (sx_state (ss_ctx s))) notes iter)"])
    (simp_all add: modify_def reduce_item_def resumable_def)

lemma SetTodos_keeps:
  assumes "in_step env h s" "steady env"
  shows "in_step env h (snd (SetTodos env todos iter s))"
  unfolding SetTodos_def with_ctx_def Let_def commit_payloads_bind
  by (rule commit_step [OF assms, where g = "st_Todos_update (\<lambda>_. StampTodos (st_Todos (sx_state (ss_ctx s))) todos iter)"])
    (simp_all add: modify_def reduce_item_def resumable_def)

lemma commit_turn_keeps:
  assumes "in_step env h s" "steady env" "opens_turn (Some p) \<or> (\<exists>a b. p = TurnFinished a b)"
  shows "in_step env h (snd (commit_payloads env [p] s))"
  unfolding commit_payloads_def
  by (rule commit_step [OF assms(1,2), where g = "\<lambda>st. st"])
    (use assms(3) in \<open>(cases p; auto simp: retP_def reduce_item_def resumable_def)\<close>)+

lemma BeginTurn_keeps:
  assumes "in_step env h s" "steady env"
  shows "in_step env h (snd (BeginTurn env run model ws cw kind s))"
  using commit_turn_keeps [of env h "s\<lparr>ss_ctx := (ss_ctx s)\<lparr>sx_turnID := run\<rparr>\<rparr>" "TurnStarted run model ws cw kind"] assms
  by (simp add: BeginTurn_def modify_def bindP_def)

lemma FinishTurn_keeps:
  assumes "in_step env h s" "steady env"
  shows "in_step env h (snd (FinishTurn env status cls s))"
  using commit_turn_keeps [OF assms, of "TurnFinished status cls"] assms(1)
  by (auto simp: FinishTurn_def with_ctx_def bindP_def tryP_def modify_def liftE_def retP_def split: prod.splits)

lemma MarkToolsStarted_keeps:
  assumes "in_step env h s" "steady env"
  shows "in_step env h (snd (MarkToolsStarted env calls s))"
proof (cases "calls = []")
  case True
  then show ?thesis using assms(1) by (simp add: MarkToolsStarted_def commit_payloads_def commitAll_def bindP_def retP_def)
next
  case False
  let ?ps = "map (\<lambda>(i, name). ToolExecutionStarted i name) calls" and ?c = "ss_ctx s"
  let ?its = "build_items env (sx_turnID ?c) (ss_drawn s) (sx_head ?c) (sx_lastSeq ?c) ?ps"
  have disk: "on_disk env h s" and ag: "agrees ?c" using assms(1) by (simp_all add: in_step_def)
  have ps: "?ps \<noteq> []" "list_all (\<lambda>p. \<not> is_unknown (Some p)) ?ps" using False by (auto simp: list_all_iff)
  have ok: "journal_ok (sx_items ?c @ ?its)" and
    cases: "(\<exists>e s'. commitAll env ?ps s = (Inl e, s') \<and> on_disk env h s' \<and> same_view s s')
      \<or> (\<exists>s'. commitAll env ?ps s = (Inr (map it_ID ?its), s') \<and> on_disk env h s' \<and> extended ?its s s')"
    using commitAll_ok [OF disk assms(2) ps] by simp_all
  have si: "\<forall>it\<in>set ?its. \<exists>x. it_Payload it = Some x \<and> silent x"
  proof
    fix it assume "it \<in> set ?its"
    then have "it_Payload it \<in> set (map Some ?ps)" by (metis build_items_facts(3) image_eqI list.set_map)
    then show "\<exists>x. it_Payload it = Some x \<and> silent x" by auto
  qed
  have ne: "?its \<noteq> []" using ps(1) by simp
  have after: "snd (MarkToolsStarted env calls s) = snd (commitAll env ?ps s)"
    by (simp add: MarkToolsStarted_def commit_payloads_def bindP_def retP_def split: prod.splits sum.splits)
  from cases have "on_disk env h (snd (commitAll env ?ps s)) \<and> agrees (ss_ctx (snd (commitAll env ?ps s)))"
  proof (elim disjE exE conjE)
    fix e s' assume "commitAll env ?ps s = (Inl e, s')" "on_disk env h s'" "same_view s s'"
    then show ?thesis using agrees_same_view [OF ag] by simp
  next
    fix s' assume "commitAll env ?ps s = (Inr (map it_ID ?its), s')" "on_disk env h s'" "extended ?its s s'"
    then show ?thesis using agrees_silent [OF ag ok build_items_facts(1) ne si] by simp
  qed
  then show ?thesis by (simp add: in_step_def after)
qed

lemma boundary_count_nth:
  "distinct (map it_ID p) \<Longrightarrow> k < length (message_ids p) \<Longrightarrow> boundary_count (message_ids p ! k) (p @ q) n = Some (n + Suc k)"
proof (induction p arbitrary: k n)
  case (Cons it p)
  have other: "it_ID it \<noteq> message_ids p ! j" if "j < length (message_ids p)" for j
  proof -
    have "message_ids p ! j \<in> set (message_ids p)" using that by simp
    then show ?thesis using Cons.prems(1) by (auto simp: message_ids_def)
  qed
  show ?case
  proof (cases "is_message (it_Payload it)")
    case True
    then have m: "message_ids (it # p) = it_ID it # message_ids p" by (simp add: message_ids_def)
    show ?thesis using True Cons m other by (cases k) (auto simp: Let_def)
  next
    case False
    then have m: "message_ids (it # p) = message_ids p" by (simp add: message_ids_def)
    show ?thesis using False Cons m other by (simp add: Let_def)
  qed
qed (simp add: message_ids_def)

lemma journal_ok_distinct: "journal_ok items \<Longrightarrow> distinct (map it_ID items)"
  by (induction items rule: rev_induct) (auto simp: extends_def ids_def)

lemma compactionBoundary_nth:
  assumes "journal_ok p" "k < length (message_ids p)"
  shows "compactionBoundary (p @ q) (message_ids p ! k) = Inr (Suc k)"
proof -
  have "message_ids p ! k \<in> set (message_ids p)" using assms(2) by simp
  then have "message_ids p ! k \<noteq> ''''" using no_empty_id [OF assms(1)] by (auto simp: message_ids_def ids_def)
  then show ?thesis
    using boundary_count_nth [OF journal_ok_distinct [OF assms(1)] assms(2), of q 0] by (simp add: compactionBoundary_def)
qed

lemma AddCompaction_keeps:
  assumes "in_step env h s" "steady env"
  shows "in_step env h (snd (AddCompaction env summary n s))"
proof -
  let ?c = "ss_ctx s" and ?p = "path_to (sx_items (ss_ctx s)) (sx_head (ss_ctx s))"
  define idx where "idx = min (int (st_CompactionIdx (sx_state ?c)) + n) (int (length (sx_messageIDs ?c)))"
  have ids: "sx_messageIDs ?c = message_ids ?p" and ok: "journal_ok ?p"
    using assms(1) path_ok by (auto simp: in_step_def agrees_def on_disk_def Let_def)
  have step: "in_step env h (snd (bindP (commitAll env [Compaction (sx_messageIDs ?c ! (nat idx - 1)) summary])
      (\<lambda>_. modify (upd_state (\<lambda>st. st\<lparr>st_CompactionIdx := nat idx, st_CompactionSummary := summary\<rparr>))) s))" if pos: "0 < idx"
  proof (rule commit_step [OF assms, where g = "\<lambda>st. st\<lparr>st_CompactionIdx := nat idx, st_CompactionSummary := summary\<rparr>"])
    have "idx \<le> int (length (message_ids ?p))" using ids by (simp add: idx_def)
    then have "nat idx - 1 < length (message_ids ?p)" using pos by linarith
    then have "compactionBoundary (?p @ [it]) (sx_messageIDs ?c ! (nat idx - 1)) = Inr (nat idx)" for it
      using compactionBoundary_nth [OF ok] pos ids by simp
    then show "\<exists>st' ans'. reduce_item (?p @ [it]) it (st, ans) = Inr (st', ans')
        \<and> resumable st' = resumable ((sx_state ?c)\<lparr>st_CompactionIdx := nat idx, st_CompactionSummary := summary\<rparr>)"
      if "it_Payload it = Some (Compaction (sx_messageIDs ?c ! (nat idx - 1)) summary)" "resumable st = resumable (sx_state ?c)" for it st ans
      using that by (simp add: reduce_item_def resumable_def)
  qed (simp_all add: modify_def)
  have run: "AddCompaction env summary n s = (if idx = 0 then throwP CoversNothing else if idx < 0 then throwP IndexOutOfRange
      else bindP (commitAll env [Compaction (sx_messageIDs ?c ! (nat idx - 1)) summary])
        (\<lambda>_. modify (upd_state (\<lambda>st. st\<lparr>st_CompactionIdx := nat idx, st_CompactionSummary := summary\<rparr>)))) s"
    by (simp add: AddCompaction_def with_ctx_def Let_def commit_payloads_bind flip: idx_def)
  show ?thesis unfolding run using assms(1) step by (simp add: throwP_def)
qed

subsection \<open>Rewind\<close>

lemma commitTo_ok:
  fixes reason :: string
  assumes disk: "on_disk env h s" and st: "steady env" and l: "l \<in> ids (sx_items (ss_ctx s))"
  defines "it \<equiv> NewItem (sx_lastSeq (ss_ctx s) + 1) (ce_newID env (ss_drawn s)) l (ce_now env (ss_drawn s))
    (sx_turnID (ss_ctx s)) (Some (HeadSelected reason))"
  shows "journal_ok (sx_items (ss_ctx s) @ [it]) \<and>
    ((\<exists>e s'. commitTo env l (HeadSelected reason) s = (Inl e, s') \<and> on_disk env h s' \<and> same_view s s')
     \<or> (\<exists>s'. commitTo env l (HeadSelected reason) s = (Inr (), s') \<and> on_disk env h s' \<and> extended [it] s s'))"
proof -
  let ?c = "ss_ctx s" and ?s1 = "s\<lparr>ss_drawn := Suc (ss_drawn s)\<rparr>"
  obtain w where w: "sx_writer ?c = Some w" "ld_Items (fw_loaded w) = sx_items ?c" and ok: "journal_ok (sx_items ?c)"
    and old: "\<forall>k\<ge>ss_drawn s. ce_newID env k \<notin> ids (sx_items ?c)"
    using disk by (auto simp: on_disk_def Let_def)
  have ext: "journal_ok (sx_items ?c @ [it])"
    using ok l old st by (auto simp: extends_def it_def steady_def)
  have disk1: "on_disk env h ?s1" using disk by (auto simp: on_disk_def Let_def)
  have "knows w l" using l w(2) by (auto simp: knows_def list_ex_iff ids_def)
  then have chk: "check_chain w (sx_head ?c) (sx_lastSeq ?c) [it] = Inr (it_ID (last [it]), it_Seq (last [it]))" by (simp add: it_def)
  have fresh: "\<forall>k\<ge>Suc (ss_drawn s). ce_newID env k \<notin> ids [it]" using st by (auto simp: it_def steady_def inj_eq)
  have run: "commitTo env l (HeadSelected reason) s = append_items env [it] ?s1"
    using w by (simp add: commitTo_def Let_def it_def)
  show ?thesis
    using ext append_items_ok [OF disk1 st, of "[it]" w] w(1) chk fresh
    unfolding run by (simp add: same_view_def extended_def)
qed

lemma reduceFromHead_keeps:
  assumes "on_disk env h s" "all_reduce (sx_items (ss_ctx s))" "sx_head (ss_ctx s) \<in> ids (sx_items (ss_ctx s))"
  shows "in_step env h (snd (reduceFromHead s))"
proof -
  let ?items = "sx_items (ss_ctx s)" and ?head = "sx_head (ss_ctx s)"
  have ok: "journal_ok ?items" using assms(1) by (simp add: on_disk_def Let_def)
  obtain st ans where r: "replay (path_to ?items ?head) = Inr (st, ans)" using assms(2,3) by (fastforce simp: all_reduce_def)
  then have "Reduce ?items ?head = Inr st" using Reduce_path [OF ok] assms(3) by simp
  then have "snd (reduceFromHead s) = s\<lparr>ss_ctx := (ss_ctx s)\<lparr>sx_state := st, sx_messageIDs := message_ids (path_to ?items ?head)\<rparr>\<rparr>"
    using Branch_path [OF ok] assms(3) by (simp add: reduceFromHead_def with_ctx_def modify_def messageIDsOnBranch_def message_ids_def)
  then show ?thesis using assms(1,2) r by (simp add: in_step_def agrees_def)
qed

lemma Rewind_keeps:
  assumes "in_step env h s" "steady env"
  shows "in_step env h (snd (Rewind env m s))"
proof -
  let ?c = "ss_ctx s"
  have disk: "on_disk env h s" and ag: "agrees ?c" using assms(1) by (simp_all add: in_step_def)
  have ok: "journal_ok (sx_items ?c)" using disk by (simp add: on_disk_def Let_def)
  have moved: "in_step env h (snd (bindP (commitTo env l (HeadSelected r)) (\<lambda>_. bindP reduceFromHead (\<lambda>_. retP x)) s))"
    if l: "RewindLanding (sx_items ?c) (sx_head ?c) m = Inr l" for l r and x :: RewindOutcome
  proof -
    have lin: "l \<in> ids (sx_items ?c)"
      using landing_split [OF ok l] path_prefix [OF ok] by metis
    define it where "it = NewItem (sx_lastSeq ?c + 1) (ce_newID env (ss_drawn s)) l (ce_now env (ss_drawn s)) (sx_turnID ?c) (Some (HeadSelected r))"
    obtain a where a: "replay (path_to (sx_items ?c) l) = Inr a" using ag lin by (auto simp: agrees_def all_reduce_def)
    have ext: "journal_ok (sx_items ?c @ [it])" and
      cases: "(\<exists>e s'. commitTo env l (HeadSelected r) s = (Inl e, s') \<and> on_disk env h s' \<and> same_view s s')
        \<or> (\<exists>s'. commitTo env l (HeadSelected r) s = (Inr (), s') \<and> on_disk env h s' \<and> extended [it] s s')"
      using commitTo_ok [OF disk assms(2) lin, of r] by (simp_all add: it_def)
    have ch: "chained l [it]" by (simp add: it_def)
    have "replay (path_to (sx_items ?c) l @ [it]) = Inr a" by (rule replay_silent(1) [OF a]) (simp add: it_def)
    then have all: "all_reduce (sx_items ?c @ [it])"
      using all_reduce_extend [OF ext ch] ag by (auto simp: agrees_def)
    from cases show ?thesis
    proof (elim disjE exE conjE)
      fix e s' assume "commitTo env l (HeadSelected r) s = (Inl e, s')" "on_disk env h s'" "same_view s s'"
      then show ?thesis using agrees_same_view [OF ag] by (simp add: bindP_def in_step_def)
    next
      fix s' assume run: "commitTo env l (HeadSelected r) s = (Inr (), s')" "on_disk env h s'" "extended [it] s s'"
      then have "in_step env h (snd (reduceFromHead s'))" using reduceFromHead_keeps all by (simp add: extended_def)
      then show ?thesis using run(1) by (auto simp: bindP_def retP_def split: prod.splits sum.splits)
    qed
  qed
  show ?thesis
    using assms(1) moved by (simp add: Rewind_def with_ctx_def throwP_def split: sum.splits)
qed

section \<open>Sessions as they run\<close>

text \<open>The calls the agent makes. A tool result answers a call that has no result on the branch yet.\<close>

datatype session_op =
    OpPrompt string | OpMessage Message | OpStarted "(string \<times> string) list" | OpResult ToolOutcome | OpCompaction string int
  | OpNotes "Note list" int | OpTodos "Todo list" int | OpBegin string string string int string | OpFinish string string | OpRewind string

fun run_op :: "sessionEnv \<Rightarrow> session_op \<Rightarrow> session \<Rightarrow> session" where
  "run_op env (OpPrompt t) s = snd (SetAdditionalPrompt env t s)"
| "run_op env (OpMessage m) s = snd (AppendMessage env m s)"
| "run_op env (OpStarted calls) s = snd (MarkToolsStarted env calls s)"
| "run_op env (OpResult out) s = snd (AppendToolResult env out s)"
| "run_op env (OpCompaction t n) s = snd (AddCompaction env t n s)"
| "run_op env (OpNotes ns i) s = snd (SetNotes env ns i s)"
| "run_op env (OpTodos ts i) s = snd (SetTodos env ts i s)"
| "run_op env (OpBegin r mo ws cw k) s = snd (BeginTurn env r mo ws cw k s)"
| "run_op env (OpFinish st e) s = snd (FinishTurn env st e s)"
| "run_op env (OpRewind i) s = snd (Rewind env i s)"

fun op_allowed :: "session_op \<Rightarrow> session \<Rightarrow> bool" where
  "op_allowed (OpResult out) s \<longleftrightarrow> ou_ID out \<notin> set (answers (path_to (sx_items (ss_ctx s)) (sx_head (ss_ctx s))))"
| "op_allowed _ s \<longleftrightarrow> True"

inductive session_reaches :: "sessionEnv \<Rightarrow> session \<Rightarrow> session \<Rightarrow> bool" for env s0 where
  start: "session_reaches env s0 s0"
| op: "session_reaches env s0 s \<Longrightarrow> op_allowed x s \<Longrightarrow> session_reaches env s0 (run_op env x s)"

lemma run_op_keeps: "in_step env h s \<Longrightarrow> steady env \<Longrightarrow> op_allowed x s \<Longrightarrow> in_step env h (run_op env x s)"
  by (cases x) (simp_all add: SetAdditionalPrompt_keeps AppendMessage_keeps MarkToolsStarted_keeps AppendToolResult_keeps
      AddCompaction_keeps SetNotes_keeps SetTodos_keeps BeginTurn_keeps FinishTurn_keeps Rewind_keeps)

lemma reached_in_step: "session_reaches env s0 s \<Longrightarrow> in_step env h s0 \<Longrightarrow> steady env \<Longrightarrow> in_step env h s"
  by (induction rule: session_reaches.induct) (simp_all add: run_op_keeps)

definition opened :: "sessionEnv \<Rightarrow> Header \<Rightarrow> fileWriter \<Rightarrow> session \<Rightarrow> bool" where
  "opened env h w s \<longleftrightarrow> (let items = ld_Items (fw_loaded w) in
     (\<exists>model. ss_ctx s = newWriterContext w model) \<and> ValidateItems items = Inr () \<and> ld_Head (fw_loaded w) = last_id '''' items
     \<and> fw_lastID w = last_id '''' items \<and> fw_lastSeq w = (if items = [] then 0 else it_Seq (last items))
     \<and> Reduce items (ld_Head (fw_loaded w)) = Inr (ld_State (fw_loaded w))
     \<and> list_all (\<lambda>it. \<not> isl (Reduce items (it_ID it))) items
     \<and> ss_file s = bytes_of (ce_codec env) h items \<and> (\<forall>k\<ge>ss_drawn s. ce_newID env k \<notin> ids items))"

lemma opened_in_step:
  assumes "opened env h w s"
  shows "in_step env h s"
proof -
  let ?items = "ld_Items (fw_loaded w)" and ?head = "last_id '''' (ld_Items (fw_loaded w))"
  have ok: "journal_ok ?items" and red: "Reduce ?items ?head = Inr (ld_State (fw_loaded w))"
    and all: "list_all (\<lambda>it. \<not> isl (Reduce ?items (it_ID it))) ?items"
    using assms by (auto simp: opened_def Let_def ValidateItems_iff)
  have h: "?head = '''' \<or> ?head \<in> ids ?items" by (cases "?items = []") (simp_all add: last_id_last ids_def)
  obtain ans where r: "replay (path_to ?items ?head) = Inr (ld_State (fw_loaded w), ans)" using Reduce_replay [OF ok h red] by blast
  have "all_reduce ?items"
    unfolding all_reduce_def
  proof
    fix x assume x: "x \<in> ids ?items"
    then have "\<not> isl (Reduce ?items x)" using all by (auto simp: ids_def list_all_iff)
    then obtain st where "Reduce ?items x = Inr st" by (cases "Reduce ?items x") auto
    then show "\<exists>a. replay (path_to ?items x) = Inr a" using Reduce_replay [OF ok] x by blast
  qed
  then show ?thesis
    using assms ok r h Branch_path [OF ok, of ?head]
    by (auto simp: opened_def Let_def in_step_def on_disk_def agrees_def newWriterContext_def messageIDsOnBranch_def message_ids_def)
qed

lemma in_step_replays:
  assumes "in_step env h s" "readable_header (ce_codec env) h" "list_all (readable (ce_codec env)) (sx_items (ss_ctx s))"
  shows "ReadJournal (ce_codec env) (Some (ss_file s)) = Inr \<lparr>ct_Header = h, ct_Items = sx_items (ss_ctx s), ct_Truncated = 0\<rparr>
    \<and> sx_head (ss_ctx s) = last_id '''' (sx_items (ss_ctx s))
    \<and> (\<exists>st. Reduce (sx_items (ss_ctx s)) (sx_head (ss_ctx s)) = Inr st \<and> resumable st = resumable (sx_state (ss_ctx s)))"
proof -
  let ?items = "sx_items (ss_ctx s)" and ?head = "sx_head (ss_ctx s)"
  have ok: "journal_ok ?items" and fl: "ss_file s = bytes_of (ce_codec env) h ?items" and head: "?head = last_id '''' ?items"
    using assms by (auto simp: in_step_def on_disk_def Let_def)
  have h: "?head = '''' \<or> ?head \<in> ids ?items" using head by (cases "?items = []") (simp_all add: last_id_last ids_def)
  then have "\<exists>st. Reduce ?items ?head = Inr st \<and> resumable st = resumable (sx_state (ss_ctx s))"
    using assms(1) Reduce_path [OF ok h] by (auto simp: in_step_def agrees_def)
  then show ?thesis using scan_written [OF assms(2) ok assms(3), of "[]"] head fl by (simp add: ReadJournal_def readJournal_def)
qed


end
