(* ===== verification/Session_Example.thy ===== *)
theory Session_Example
  imports Session_Refinement
begin

text \<open>
  A session on concrete data: a turn in which the model asked for two tool calls, of which one returned and the
  other was running when the process stopped. The codec is a table of the values at hand, each written as a framed
  line. The properties of the journal, the file and the live session are applied to it.
\<close>

section \<open>A codec by table\<close>

definition index_of :: "'a \<Rightarrow> 'a list \<Rightarrow> nat" where
  "index_of x xs = length (takeWhile (\<lambda>y. y \<noteq> x) xs)"

definition encode_in :: "'a list \<Rightarrow> 'a \<Rightarrow> string option" where
  "encode_in xs x = (if index_of x xs < length xs then Some (''<'' @ replicate (index_of x xs) (CHR ''x'') @ ''>'') else None)"

definition decode_in :: "'a list \<Rightarrow> string \<Rightarrow> string \<Rightarrow> 'a option" where
  "decode_in xs ending s = List.find (\<lambda>x. map_option (\<lambda>l. l @ ending) (encode_in xs x) = Some s) xs"

lemma index_of_nth: "index_of x xs < length xs \<Longrightarrow> xs ! index_of x xs = x"
  unfolding index_of_def using nth_length_takeWhile by fastforce

lemma encode_length: "encode_in xs x = Some l \<Longrightarrow> index_of x xs < length xs \<and> length l = index_of x xs + 2"
  by (auto simp: encode_in_def split: if_splits)

lemma encode_inj: "encode_in xs x = Some l \<Longrightarrow> encode_in xs y = Some l \<Longrightarrow> x = y"
  using encode_length [of xs x l] encode_length [of xs y l] index_of_nth [of x xs] index_of_nth [of y xs] by simp

lemma decode_encode: "encode_in xs x = Some l \<Longrightarrow> decode_in xs ending (l @ ending) = Some x"
proof -
  assume e: "encode_in xs x = Some l"
  then have i: "index_of x xs < length xs" using encode_length [OF e] by simp
  have "\<exists>y. decode_in xs ending (l @ ending) = Some y"
  proof (rule ccontr)
    assume "\<nexists>y. decode_in xs ending (l @ ending) = Some y"
    then have "x \<notin> set xs" using e by (auto simp: decode_in_def find_None_iff)
    then show False using index_of_nth [OF i] i by (metis nth_mem)
  qed
  then obtain y where y: "decode_in xs ending (l @ ending) = Some y" by blast
  then have "encode_in xs y = Some l" by (auto simp: decode_in_def find_Some_iff)
  then show ?thesis using y encode_inj [OF e] by simp
qed

definition wire_of :: "Item \<Rightarrow> string \<Rightarrow> itemWire" where
  "wire_of it d = \<lparr>wi_Seq = it_Seq it, wi_ID = it_ID it, wi_ParentID = it_ParentID it, wi_TS = it_TS it, wi_Type = Type it,
     wi_Required = it_Required it, wi_TurnID = it_TurnID it, wi_Data = d\<rparr>"

definition table_codec :: "Header \<Rightarrow> Item list \<Rightarrow> jcodec" where
  "table_codec h items =
     (let ps = map (\<lambda>it. the (it_Payload it)) items;
          ws = map (\<lambda>it. wire_of it (the (encode_in ps (the (it_Payload it))))) items
      in \<lparr>jc_marshalHeader = encode_in [h], jc_unmarshalHeader = decode_in [h] [lf], jc_marshalWire = encode_in ws,
          jc_unmarshalWire = decode_in ws [lf], jc_marshalPayload = encode_in ps, jc_unmarshalPayload = (\<lambda>_. decode_in ps '''')\<rparr>)"

lemma table_faithful:
  assumes "it_Payload it = Some p" "\<not> is_unknown (Some p)"
  shows "json_faithful (table_codec h items) it"
proof -
  have "jc_unmarshalWire (table_codec h items) (l @ [lf]) = Some w" if "jc_marshalWire (table_codec h items) w = Some l" for w l
    using that decode_encode by (simp add: table_codec_def Let_def)
  moreover have "d \<noteq> '''' \<and> jc_unmarshalPayload (table_codec h items) kind d = Some p"
    if "jc_marshalPayload (table_codec h items) p = Some d" for d kind
    using that decode_encode [where ending = "''''"] encode_length [of _ p d] by (fastforce simp: table_codec_def Let_def)
  ultimately show ?thesis using assms by (cases p) (simp_all add: json_faithful_def)
qed

lemma readable_code: "readable jc it \<longleftrightarrow> (case marshalItem jc it of None \<Rightarrow> False | Some l \<Rightarrow> lf \<notin> set l \<and> unmarshalItem jc (l @ [lf]) = Some it)"
  by (simp add: readable_def split: option.splits)

lemma readable_header_code:
  "readable_header jc h \<longleftrightarrow> validateHeader h = Inr () \<and>
     (case jc_marshalHeader jc h of None \<Rightarrow> False | Some l \<Rightarrow> lf \<notin> set l \<and> jc_unmarshalHeader jc (l @ [lf]) = Some h)"
  by (simp add: readable_header_def split: option.splits)

declare readable_code [code] readable_header_code [code]

section \<open>The journal of an interrupted turn\<close>

definition ex_header :: Header where "ex_header = NewHeader ''s'' 0"

definition say :: "string \<Rightarrow> ToolCall list \<Rightarrow> Payload" where
  "say role calls = MessageItem \<lparr>ms_Role = role, ms_Content = ''x'', ms_ToolCallID = '''', ms_ToolCalls = calls, ms_Source = '''',
     ms_ProviderState = None, ms_Parts = []\<rparr>"

definition call_of :: "string \<Rightarrow> ToolCall" where
  "call_of i = \<lparr>tc_ID = i, tc_Name = ''bash'', tc_Arguments = ''''\<rparr>"

definition ex_items :: "Item list" where
  "ex_items =
     [NewItem 1 ''1'' '''' 0 ''t'' (Some (TurnStarted ''t'' ''m'' ''w'' 0 ''user'')),
      NewItem 2 ''2'' ''1'' 0 ''t'' (Some (say ''user'' [])),
      NewItem 3 ''3'' ''2'' 0 ''t'' (Some (say ''assistant'' [call_of ''a'', call_of ''b''])),
      NewItem 4 ''4'' ''3'' 0 ''t'' (Some (ToolExecutionStarted ''a'' ''bash'')),
      NewItem 5 ''5'' ''4'' 0 ''t'' (Some (ToolResult ''a'' ''ok'' ''y'' [])),
      NewItem 6 ''6'' ''5'' 0 ''t'' (Some (ToolExecutionStarted ''b'' ''bash''))]"

definition ex_rewind :: Item where
  "ex_rewind = NewItem 7 ''7'' ''2'' 0 '''' (Some (HeadSelected ''user_rewind''))"

theorem Branch_is_the_path_witness:
  "ValidateItems ex_items = Inr () \<and> (\<exists>p. Branch ex_items ''6'' = Inr p \<and> it_ID (last p) = ''6'' \<and> it_ParentID (hd p) = '''' \<and> linked p \<and> subseq p ex_items)
    \<and> Branch ex_items ''9'' = Inl ErrHeadNotFound"
proof -
  have v: "ValidateItems ex_items = Inr ()" by code_simp
  have i: "''6'' \<in> ids ex_items" "''9'' \<notin> ids ex_items" by code_simp+
  from Branch_is_the_path [OF v, of "''6''"] Branch_is_the_path [OF v, of "''9''"] i v show ?thesis by auto
qed

theorem Reduce_accepts_iff_witness:
  "ValidateItems ex_items = Inr () \<and> Branch ex_items ''6'' = Inr ex_items \<and> (\<exists>st. Reduce ex_items ''6'' = Inr st)"
proof -
  have v: "ValidateItems ex_items = Inr ()" and b: "Branch ex_items ''6'' = Inr ex_items" by code_simp+
  have "distinct (answers ex_items)" "summaries ex_items = []" by code_simp+
  then show ?thesis using Reduce_accepts_iff [OF v b] v b by simp
qed

theorem rewind_restores_state_witness:
  "ValidateItems (ex_items @ [ex_rewind]) = Inr () \<and> (\<exists>st. Reduce ex_items ''2'' = Inr st
    \<and> Reduce (ex_items @ [ex_rewind]) ''7'' = Inr st \<and> length (st_Messages st) = 1)"
proof -
  have v: "ValidateItems (ex_items @ [ex_rewind]) = Inr ()" by code_simp
  have p: "it_Payload ex_rewind = Some (HeadSelected ''user_rewind'')" "it_ParentID ex_rewind = ''2''" "it_ID ex_rewind = ''7''"
    by (simp_all add: ex_rewind_def)
  have "case Reduce ex_items ''2'' of Inl _ \<Rightarrow> False | Inr st \<Rightarrow> length (st_Messages st) = 1" by code_simp
  then have "\<exists>st. Reduce ex_items ''2'' = Inr st \<and> length (st_Messages st) = 1" by (simp split: sum.splits)
  then show ?thesis using rewind_restores_state [OF v p(1)] p(2,3) v by auto
qed

theorem fork_is_faithful_witness:
  "ValidateItems ex_items = Inr () \<and> ''5'' \<in> ids ex_items \<and> (\<exists>f. ForkPrefix ex_items ''5'' = Inr f \<and> ValidateItems f = Inr () \<and> Head f = Inr ''5''
    \<and> Reduce f ''5'' = Reduce ex_items ''5'' \<and> Analyze rev f ''5'' = Analyze rev ex_items ''5'')"
proof -
  have v: "ValidateItems ex_items = Inr ()" and i: "''5'' \<in> ids ex_items" by code_simp+
  from fork_is_faithful [OF v i, of rev] show ?thesis using v i by blast
qed

theorem rewind_reports_what_it_leaves_witness:
  "ValidateItems ex_items = Inr () \<and> RewindLanding ex_items ''6'' ''3'' = Inr ''2''
    \<and> (\<exists>p a. Branch ex_items ''2'' = Inr p \<and> Abandoned ex_items ''6'' ''2'' = Inr a \<and> aw_Messages a = 2)"
proof -
  have v: "ValidateItems ex_items = Inr ()" and l: "RewindLanding ex_items ''6'' ''3'' = Inr ''2''" by code_simp+
  have "case Abandoned ex_items ''6'' ''2'' of Inl _ \<Rightarrow> False | Inr a \<Rightarrow> aw_Messages a = 2" by code_simp
  then show ?thesis using rewind_reports_what_it_leaves [OF v l] v l by (auto split: sum.splits)
qed

theorem recovery_classifies_calls_witness:
  "\<exists>r. Analyze rev ex_items ''6'' = Inr r \<and> rv_TurnID r = ''t'' \<and> call_ids (rv_Uncertain r) = {''b''} \<and> call_ids (rv_NotStarted r) = {}"
proof -
  have b: "Branch ex_items ''6'' = Inr ([] @ hd ex_items # tl ex_items)" by code_simp
  have nb: "\<forall>it\<in>set (tl ex_items). \<not> boundary (it_Payload it)" by code_simp
  have p: "it_Payload (hd ex_items) = Some (TurnStarted ''t'' ''m'' ''w'' 0 ''user'')" by (simp add: ex_items_def)
  have e: "{c. \<exists>it\<in>set (tl ex_items). entered_call it c} = {''a'', ''b''}" by (auto simp: ex_items_def entered_call_def say_def)
  have a: "{c. \<exists>it\<in>set (tl ex_items). asked_call it c} = {''a'', ''b''}" by (auto simp: ex_items_def asked_call_def say_def call_of_def)
  have s: "answers (tl ex_items) = [''a'']" by code_simp
  from recovery_classifies_calls [OF _ b nb, of rev] p obtain r where "Analyze rev ex_items ''6'' = Inr r" "rv_TurnID r = ''t''"
    "call_ids (rv_Uncertain r) = {''a'', ''b''} - {''a''}" "call_ids (rv_NotStarted r) = {''a'', ''b''} - {''a'', ''b''} - {''a''}"
    unfolding e a s by auto
  then show ?thesis by auto
qed

section \<open>Its file\<close>

definition ex_repair :: "Item list" where
  "ex_repair = buildRecoveryItems (\<lambda>k. replicate (Suc k) (CHR ''r''))
     \<lparr>rv_TurnID = ''t'', rv_Uncertain = [\<lparr>oc_ToolCallID = ''b'', oc_ToolName = ''bash'', oc_Class = OutcomeUnknown\<rparr>], rv_NotStarted = []\<rparr> ''6'' 6 0"

definition ex_jcodec :: jcodec where "ex_jcodec = table_codec ex_header (ex_items @ ex_repair)"

lemma ex_readable: "readable_header ex_jcodec ex_header" "list_all (readable ex_jcodec) (ex_items @ ex_repair)"
  by code_simp+

theorem append_survives_crash_witness:
  "readable_header ex_jcodec ex_header \<and> ValidateItems (ex_items @ ex_repair) = Inr () \<and> list_all (readable ex_jcodec) (ex_items @ ex_repair)
    \<and> (\<exists>k c. k \<le> 2 \<and> OpenAppend ex_jcodec (Some (snd (journalAppend ex_jcodec (WriteShort 13) ex_repair (bytes_of ex_jcodec ex_header ex_items)))) =
        (Inr c, Some (bytes_of ex_jcodec ex_header (ex_items @ take k ex_repair))) \<and> ct_Items c = ex_items @ take k ex_repair)"
proof -
  have v: "ValidateItems (ex_items @ ex_repair) = Inr ()" and l: "length ex_repair = 2" by code_simp+
  from append_survives_crash [OF ex_readable(1) v ex_readable(2), of "WriteShort 13"] show ?thesis
    using ex_readable v l by auto
qed

theorem append_after_torn_write_corrupts_witness:
  "\<exists>c. OpenAppend ex_jcodec (Some (snd (journalAppend ex_jcodec WriteOK [last ex_repair] (bytes_of ex_jcodec ex_header ex_items @ ''<x'')))) =
      (Inl (StopAt c ErrHistoryCorrupt), Some (bytes_of ex_jcodec ex_header ex_items @ ''<x'' @ ''<xxxxxxx>'' @ [lf])) \<and> ct_Items c = ex_items"
proof -
  have v: "ValidateItems ex_items = Inr ()" "list_all (readable ex_jcodec) ex_items" by code_simp+
  have l: "marshalItem ex_jcodec (last ex_repair) = Some ''<xxxxxxx>''" "unmarshalItem ex_jcodec (''<x'' @ ''<xxxxxxx>'' @ [lf]) = None"
    by code_simp+
  show ?thesis by (rule append_after_torn_write_corrupts [OF ex_readable(1) v _ _ l(1) _ l(2)]) (simp_all add: lf_def)
qed


section \<open>Opening it\<close>

definition ex_env :: storeEnv where
  "ex_env = \<lparr>se_codec = ex_jcodec, se_unmarshalMeta = (\<lambda>_. None), se_visit = rev,
     se_newID = (\<lambda>k. replicate (Suc k) (CHR ''r'')), se_now = 0, se_fault = WriteOK\<rparr>"

definition ex_dir :: sessionDir where
  "ex_dir = \<lparr>bn_meta = Some '''', bn_journal = Some (bytes_of ex_jcodec ex_header ex_items), bn_locked = False\<rparr>"

lemma replicate_inj: "inj (\<lambda>k. replicate (Suc k) c)"
  by (rule injI) (metis length_replicate nat.inject)

theorem open_repairs_once_witness:
  "\<exists>w. Open ex_env ''s'' ex_dir = (Inr w, ex_dir\<lparr>bn_journal := Some (bytes_of ex_jcodec ex_header (ex_items @ ex_repair)), bn_locked := True\<rparr>)
    \<and> ld_Items (fw_loaded w) = ex_items @ ex_repair \<and> (\<exists>r. Analyze rev (ex_items @ ex_repair) (fw_lastID w) = Inr r \<and> rv_Uncertain r = [])"
proof -
  have e: "se_codec ex_env = ex_jcodec" "se_visit ex_env = rev" by (simp_all add: ex_env_def)
  have rep: "repaired ex_env ex_items = ex_items @ ex_repair" by code_simp
  have v: "ValidateItems ex_items = Inr ()" by code_simp
  have ne: "ex_items \<noteq> []" "it_ID (last ex_items) = ''6''" by (simp_all add: ex_items_def)
  have "case Reduce ex_items ''6'' of Inl _ \<Rightarrow> False | Inr st \<Rightarrow> True" by code_simp
  then obtain st where st: "Reduce ex_items (it_ID (last ex_items)) = Inr st" using ne(2) by (auto split: sum.splits)
  have "\<forall>x\<in>ids ex_items. hd x \<noteq> CHR ''r''" by code_simp
  then have "replicate (Suc k) (CHR ''r'') \<notin> ids ex_items" for k by fastforce
  then have "fresh_supply (se_newID ex_env) ex_items"
    using replicate_inj by (simp add: fresh_supply_def ex_env_def)
  moreover have "distinct (map oc_ToolCallID (rv_Uncertain (analyze_branch rev (path_to ex_items ''6''))))" by code_simp
  moreover have "call_ids (rv_Uncertain (analyze_branch rev (path_to ex_items ''6''))) \<inter> set (answers (path_to ex_items ''6'')) = {}" by code_simp
  ultimately have re: "repairable ex_env ex_items" using e ne(2) by (simp add: repairable_def ex_env_def Let_def)
  have d: "\<not> bn_locked ex_dir" "bn_meta ex_dir = Some ''''" "bn_journal ex_dir = Some (bytes_of (se_codec ex_env) ex_header ex_items)"
    "h_SessionID ex_header = ''s''" "readable_header (se_codec ex_env) ex_header" "list_all (readable (se_codec ex_env)) (repaired ex_env ex_items)"
    using ex_readable rep by (simp_all add: ex_dir_def e ex_header_def NewHeader_def)
  from open_repairs_once [OF d(1-3) d(5,4,6) ne(1) v st re] show ?thesis unfolding e rep by blast
qed

section \<open>A live session\<close>

definition ex_senv0 :: sessionEnv where
  "ex_senv0 = \<lparr>ce_codec = ex_jcodec, ce_newID = (\<lambda>k. replicate (Suc k) (CHR ''n'')), ce_now = (\<lambda>_. 0), ce_fault = (\<lambda>_. WriteOK)\<rparr>"

definition ex_senv :: sessionEnv where
  "ex_senv = ex_senv0\<lparr>ce_codec := table_codec ex_header (build_items ex_senv0 ''t'' 0 '''' 0
     [TurnStarted ''t'' ''m'' ''w'' 0 ''user'', say ''user'' [], say ''assistant'' []])\<rparr>"

definition ex_writer :: fileWriter where
  "ex_writer = \<lparr>fw_loaded = emptyLoaded (zeroMeta ''s'' KindUser), fw_lastID = '''', fw_lastSeq = 0\<rparr>"

definition ex_session :: session where
  "ex_session = \<lparr>ss_ctx = newWriterContext ex_writer ''m'', ss_file = bytes_of (ce_codec ex_senv) ex_header [], ss_drawn = 0, ss_writes = 0\<rparr>"

fun message_of :: "Payload \<Rightarrow> Message" where
  "message_of (MessageItem m) = m"
| "message_of _ = zeroMessage"

definition ex_after :: session where
  "ex_after = run_op ex_senv (OpMessage (message_of (say ''assistant'' [])))
     (run_op ex_senv (OpMessage (message_of (say ''user'' []))) (run_op ex_senv (OpBegin ''t'' ''m'' ''w'' 0 ''user'') ex_session))"


end
