(* ===== verification/Agent_Context.thy ===== *)
theory Agent_Context
  imports Session_Meta Utf8
begin

text \<open>
  The context window of the agent loop, \<open>internal/core/agent/context.go\<close>: the token estimate, the split
  of a history for compaction, the trim that is the fallback, and the summary with its budget. The lemmas
  show where the cuts fall: a history in which every tool call is answered in order is cut into parts of
  the same kind, except for the one message the trim keeps when nothing fits.
\<close>

section \<open>Fractions of the window\<close>

text \<open>\<open>int(float64(cw) * f)\<close> for a fraction \<open>f\<close> whose \<open>float64\<close> is \<open>m * 2 ^ - e\<close>: both the conversion and
  the product are rounded to 53 bits, ties to even, and the conversion back drops the fraction.\<close>

fun bit_length :: "nat \<Rightarrow> nat" where
  "bit_length n = (if n = 0 then 0 else Suc (bit_length (n div 2)))"

declare bit_length.simps [simp del]

definition round_even :: "nat \<Rightarrow> nat \<Rightarrow> nat" where
  "round_even n k =
     (let q = n div 2 ^ k; r = n mod 2 ^ k
      in if 2 ^ k < 2 * r \<or> 2 * r = 2 ^ k \<and> odd q then Suc q else q)"

definition round53 :: "nat \<Rightarrow> nat" where
  "round53 n = (let k = bit_length n - 53 in round_even n k * 2 ^ k)"

definition float_fraction :: "nat \<Rightarrow> nat \<Rightarrow> int \<Rightarrow> int" where
  "float_fraction m e cw = int (round53 (round53 (nat cw) * m) div 2 ^ e)"

definition defaultReserveTokens :: int where "defaultReserveTokens = 4096"

definition compactionThreshold :: "int \<Rightarrow> int" where
  "compactionThreshold = float_fraction 7205759403792794 53"

definition compactionReserve :: "int \<Rightarrow> int" where
  "compactionReserve = float_fraction 7205759403792794 55"

definition manualCompactionReserve :: "int \<Rightarrow> int" where
  "manualCompactionReserve = float_fraction 7205759403792794 57"

definition compactionSummaryBudget :: "int \<Rightarrow> int" where
  "compactionSummaryBudget = float_fraction 5764607523034235 58"

definition defaultMaxSummaryChars :: int where "defaultMaxSummaryChars = 8000"

section \<open>Estimates\<close>

definition EstimateMessageTokens :: "Message \<Rightarrow> int" where
  "EstimateMessageTokens m =
     (let chars = length (ms_Role m) + length (ms_Content m) + length (ms_ToolCallID m)
            + (\<Sum>tc\<leftarrow>ms_ToolCalls m. length (tc_ID tc) + length (tc_Name tc) + length (tc_Arguments tc))
      in int (chars div 4) + 4)"

definition EstimateTokens :: "Message list \<Rightarrow> int" where
  "EstimateTokens msgs = (\<Sum>m\<leftarrow>msgs. EstimateMessageTokens m)"

section \<open>Splitting for compaction\<close>

text \<open>The walk from the newest message to the oldest: \<open>keep_walk msgs reserve cost i\<close> has the messages from
  \<open>i\<close> on behind it.\<close>

fun keep_walk :: "Message list \<Rightarrow> int \<Rightarrow> int \<Rightarrow> nat \<Rightarrow> nat option" where
  "keep_walk msgs reserve cost 0 = None"
| "keep_walk msgs reserve cost (Suc i) =
     (let cost' = cost + EstimateMessageTokens (msgs ! i)
      in if cost' \<ge> reserve then Some i else keep_walk msgs reserve cost' i)"

text \<open>\<open>for k < len(msgs) && msgs[k].Role == "tool" { k++ }\<close>\<close>

function skip_tools :: "Message list \<Rightarrow> nat \<Rightarrow> nat" where
  "skip_tools msgs k = (if k < length msgs \<and> ms_Role (msgs ! k) = ''tool'' then skip_tools msgs (Suc k) else k)"
  by pat_completeness auto
termination
  by (relation "measure (\<lambda>(msgs, k). length msgs - k)") auto

declare skip_tools.simps [simp del]

definition splitForCompaction :: "Message list \<Rightarrow> int \<Rightarrow> Message list \<times> Message list" where
  "splitForCompaction msgs reserveTokens =
     (if msgs = [] then ([], msgs)
      else
        let keepFrom = (case keep_walk msgs reserveTokens 0 (length msgs) of None \<Rightarrow> length msgs | Some i \<Rightarrow> i)
        in if keepFrom = 0 then ([], msgs)
           else
             let keepFrom = skip_tools msgs keepFrom
             in if keepFrom \<ge> length msgs then ([], msgs) else (take keepFrom msgs, drop keepFrom msgs))"

section \<open>Trimming\<close>

fun trim_walk :: "Message list \<Rightarrow> int \<Rightarrow> int \<Rightarrow> nat \<Rightarrow> nat" where
  "trim_walk msgs budget cost 0 = 0"
| "trim_walk msgs budget cost (Suc i) =
     (let cost' = cost + EstimateMessageTokens (msgs ! i)
      in if cost' > budget then Suc i else trim_walk msgs budget cost' i)"

definition TrimHistory :: "Message list \<Rightarrow> int \<Rightarrow> int \<Rightarrow> int \<Rightarrow> Message list" where
  "TrimHistory msgs systemTokens contextWindow reserveTokens =
     (let reserveTokens = (if reserveTokens = 0 then defaultReserveTokens else reserveTokens);
          budget = contextWindow - reserveTokens - systemTokens
      in if budget \<le> 0 \<or> msgs = [] then msgs
         else
           let cutAt = trim_walk msgs budget 0 (length msgs)
           in if cutAt = 0 then msgs
              else
                let cutAt = skip_tools msgs cutAt;
                    cutAt = (if cutAt \<ge> length msgs then length msgs - 1 else cutAt)
                in drop cutAt msgs)"

section \<open>Summaries\<close>

definition maxSummaryChars :: "int \<Rightarrow> int" where
  "maxSummaryChars contextWindow =
     (if contextWindow \<le> 0 then defaultMaxSummaryChars else compactionSummaryBudget contextWindow * 4)"

definition newline :: char where "newline = CHR 0x0A"

definition summaryClampMarker :: string where
  "summaryClampMarker = [newline, newline] @ ''[earlier detail dropped: summary exceeded its budget]''"

definition priorSummaryPreamble :: string where
  "priorSummaryPreamble = ''Summary of the conversation up to this point, produced by an '' @
     ''earlier compaction. Carry its still-relevant content forward into your new summary:''"

definition blank_message :: Message where
  "blank_message = \<lparr>ms_Role = '''', ms_Content = '''', ms_ToolCallID = '''', ms_ToolCalls = [], ms_Source = '''',
     ms_ProviderState = None, ms_Parts = []\<rparr>"

definition text_message :: "string \<Rightarrow> string \<Rightarrow> Message" where
  "text_message role content = blank_message\<lparr>ms_Role := role, ms_Content := content\<rparr>"

definition withPriorSummary :: "string \<Rightarrow> Message list \<Rightarrow> Message list" where
  "withPriorSummary prior msgs =
     (if prior = '''' then msgs
      else text_message ''user'' (priorSummaryPreamble @ [newline, newline] @ prior) # msgs)"

text \<open>\<open>strings.LastIndexByte\<close> and \<open>strings.TrimRight(s, cutset)\<close> for a cutset of ASCII characters.\<close>

definition LastIndexByte :: "string \<Rightarrow> char \<Rightarrow> int" where
  "LastIndexByte s c = int (length (dropWhile (\<lambda>x. x \<noteq> c) (rev s))) - 1"

definition TrimRight :: "string \<Rightarrow> string \<Rightarrow> string" where
  "TrimRight s cutset = rev (dropWhile (\<lambda>x. x \<in> set cutset) (rev s))"

definition clampSummary :: "string \<Rightarrow> int \<Rightarrow> string" where
  "clampSummary s maxChars =
     (if maxChars \<le> 0 \<or> RuneCountInString s \<le> maxChars then s
      else
        let clipped = ClipRunes s maxChars;
            i = LastIndexByte clipped newline;
            clipped = (if i > maxChars * 4 div 5 then take (nat i) clipped else clipped)
        in TrimRight clipped [CHR '' '', CHR 0x09, newline] @ summaryClampMarker)"

definition RenderCompactionBlock :: "string \<Rightarrow> string" where
  "RenderCompactionBlock summary =
     (if summary = '''' then ''''
      else [newline, newline] @ ''<context_compaction>'' @ [newline] @ summary @ [newline] @ ''</context_compaction>'')"

section \<open>The fractions are exact\<close>

lemma bit_length_upper: "n < 2 ^ bit_length n"
proof (induction n rule: less_induct)
  case (less n)
  show ?case
  proof (cases "n = 0")
    case False
    then have "n div 2 < 2 ^ bit_length (n div 2)" using less by simp
    then show ?thesis using False by (subst bit_length.simps) simp
  qed (simp add: bit_length.simps)
qed

lemma bit_length_le: "n < 2 ^ b \<Longrightarrow> bit_length n \<le> b"
proof (induction n arbitrary: b rule: less_induct)
  case (less n)
  show ?case
  proof (cases "n = 0")
    case False
    then obtain c where b: "b = Suc c" using less.prems by (cases b) auto
    then have "n div 2 < 2 ^ c" using less.prems by auto
    then have "bit_length (n div 2) \<le> c" using less.IH [of "n div 2" c] False by simp
    then show ?thesis using False b by (subst bit_length.simps) simp
  qed (simp add: bit_length.simps)
qed

lemma round_even_bounds:
  "n div 2 ^ k \<le> round_even n k" "2 * (round_even n k * 2 ^ k) \<le> 2 * n + 2 ^ k"
proof -
  define b q r where "b = (2::nat) ^ k" and "q = n div b" and "r = n mod b"
  have n: "n = q * b + r" by (simp add: q_def r_def)
  show "n div 2 ^ k \<le> round_even n k" by (simp add: round_even_def Let_def)
  have "round_even n k = q \<or> b \<le> 2 * r \<and> round_even n k = Suc q"
    by (auto simp: round_even_def Let_def b_def q_def r_def)
  then have "2 * (round_even n k * b) \<le> 2 * n + b"
  proof
    assume "round_even n k = q"
    then show ?thesis using n by simp
  next
    assume *: "b \<le> 2 * r \<and> round_even n k = Suc q"
    then have "2 * (round_even n k * b) = 2 * (q * b) + 2 * b" by (simp add: algebra_simps)
    then show ?thesis using n * by linarith
  qed
  then show "2 * (round_even n k * 2 ^ k) \<le> 2 * n + 2 ^ k" by (simp add: b_def)
qed

lemma round53_small: "n < 2 ^ 53 \<Longrightarrow> round53 n = n"
  using bit_length_le [of n 53] by (simp add: round53_def round_even_def Let_def)

lemma rounding_room:
  fixes t :: nat
  shows "x < y \<Longrightarrow> a \<le> 2 * b \<Longrightarrow> f + e \<le> q \<Longrightarrow> y + b \<le> e \<Longrightarrow> 2 * (t + f + x) + a < 2 * (t + q)"
  by presburger

lemma float_fraction_exact:
  assumes m: "q * m = p * 2 ^ e + d" and "m < 2 ^ 53" and "cw < 2 ^ 50" and small: "d * 2 ^ 50 + q * 2 ^ 49 \<le> 2 ^ e"
    and e: "50 \<le> e" and q: "0 < q" and d: "0 < d"
  shows "float_fraction m e (int cw) = int (p * cw div q)"
proof -
  define n where "n = cw * m"
  define k where "k = bit_length n - 53"
  define t where "t = p * cw div q"
  define f where "f = p * cw mod q"
  have "round53 cw = cw" using assms(3) by (simp add: round53_small)
  have "n < 2 ^ 50 * 2 ^ 53" unfolding n_def using assms(3,2) by (rule mult_strict_mono) auto
  then have "n < 2 ^ 103" by (simp flip: power_add)
  then have k: "k \<le> 50" using bit_length_le [of n 103] by (simp add: k_def)
  have pc: "p * cw = q * t + f" by (simp add: t_def f_def)
  have "f < q" using q by (simp add: f_def)
  then have f: "f \<le> q - 1" by simp
  have "q * n = cw * (q * m)" by (simp add: n_def ac_simps)
  also have "\<dots> = cw * (p * 2 ^ e + d)" by (simp only: m)
  also have "\<dots> = p * cw * 2 ^ e + d * cw" by (simp add: algebra_simps)
  finally have raw: "q * n = p * cw * 2 ^ e + d * cw" .
  have qn: "q * n = q * (t * 2 ^ e) + f * 2 ^ e + d * cw" unfolding raw pc by (simp add: algebra_simps)
  have "q * (t * 2 ^ e) \<le> q * n" using qn by simp
  then have "t * 2 ^ e \<le> n" using q by simp
  then have "t * 2 ^ (e - k) * 2 ^ k \<le> n" using k e by (simp add: mult.assoc flip: power_add)
  then have "t * 2 ^ (e - k) \<le> round_even n k"
    using round_even_bounds(1) [of n k] by (meson le_trans less_eq_div_iff_mult_less_eq zero_less_numeral zero_less_power)
  then have low: "t * 2 ^ e \<le> round_even n k * 2 ^ k"
    using k e mult_right_mono [of "t * 2 ^ (e - k)" "round_even n k" "2 ^ k"] by (simp add: mult.assoc flip: power_add)
  have "2 * q * (round_even n k * 2 ^ k) \<le> q * (2 * n + 2 ^ k)"
    using mult_left_mono [OF round_even_bounds(2) [of n k], of q] by (simp add: ac_simps)
  also have "\<dots> = 2 * (q * n) + q * 2 ^ k" by (simp add: algebra_simps)
  also have "\<dots> = 2 * (q * (t * 2 ^ e) + f * 2 ^ e + d * cw) + q * 2 ^ k" by (simp only: qn)
  also have "\<dots> < 2 * (q * (t * 2 ^ e) + q * 2 ^ e)"
  proof -
    have k2: "q * 2 ^ k \<le> 2 * (q * 2 ^ 49)"
      using mult_left_mono [OF power_increasing [OF k, of 2], of q] by simp
    have fe: "f * 2 ^ e + 2 ^ e \<le> q * 2 ^ e" using f q mult_right_mono [of "f + 1" q "2 ^ e"] by (simp add: algebra_simps)
    have "d * cw < d * 2 ^ 50" using assms(3) d by simp
    then show ?thesis using k2 fe small by (rule rounding_room)
  qed
  finally have "q * (round_even n k * 2 ^ k) < q * ((t + 1) * 2 ^ e)" by (simp add: algebra_simps)
  then have "round_even n k * 2 ^ k < (t + 1) * 2 ^ e" by simp
  then have "round_even n k * 2 ^ k div 2 ^ e = t"
    using low by (simp add: div_nat_eqI algebra_simps)
  then show ?thesis
    using \<open>round53 cw = cw\<close> by (simp add: float_fraction_def round53_def Let_def n_def k_def t_def)
qed

lemma fractions_exact:
  assumes "cw < 2 ^ 50"
  shows "compactionThreshold (int cw) = int (4 * cw div 5)" "compactionReserve (int cw) = int (cw div 5)"
    "manualCompactionReserve (int cw) = int (cw div 20)" "compactionSummaryBudget (int cw) = int (cw div 50)"
proof -
  show "compactionThreshold (int cw) = int (4 * cw div 5)"
    unfolding compactionThreshold_def by (rule float_fraction_exact [where d = 2]) (use assms in simp_all)
  show "compactionReserve (int cw) = int (cw div 5)"
    unfolding compactionReserve_def using float_fraction_exact [where q = 5 and p = 1 and d = 2 and m = 7205759403792794 and e = 55] assms by simp
  show "manualCompactionReserve (int cw) = int (cw div 20)"
    unfolding manualCompactionReserve_def using float_fraction_exact [where q = 20 and p = 1 and d = 8 and m = 7205759403792794 and e = 57] assms by simp
  show "compactionSummaryBudget (int cw) = int (cw div 50)"
    unfolding compactionSummaryBudget_def using float_fraction_exact [where q = 50 and p = 1 and d = 6 and m = 5764607523034235 and e = 58] assms by simp
qed

section \<open>Answered calls\<close>

text \<open>A history answers its calls: after the calls of a message come their results, in the order of the calls,
  before anything else. \<open>answered\<close> gives the calls still to be answered.\<close>

fun answered :: "string list \<Rightarrow> Message list \<Rightarrow> string list option" where
  "answered todo [] = Some todo"
| "answered todo (m # ms) =
     (if ms_Role m = ''tool''
      then (case todo of [] \<Rightarrow> None | c # cs \<Rightarrow> if ms_ToolCallID m = c then answered cs ms else None)
      else if todo \<noteq> [] then None else answered (map tc_ID (ms_ToolCalls m)) ms)"

definition well_paired :: "Message list \<Rightarrow> bool" where
  "well_paired ms \<longleftrightarrow> answered [] ms = Some []"

lemma answered_append: "answered todo (xs @ ys) = Option.bind (answered todo xs) (\<lambda>t. answered t ys)"
  by (induction todo xs rule: answered.induct) (auto split: list.splits)

lemma well_paired_cut:
  assumes "well_paired (xs @ ys)" "ys \<noteq> []" "ms_Role (hd ys) \<noteq> ''tool''"
  shows "well_paired xs \<and> well_paired ys"
proof -
  obtain t where t: "answered [] xs = Some t" "answered t ys = Some []"
    using assms(1) by (auto simp: well_paired_def answered_append bind_eq_Some_conv)
  moreover have "t = []" using t(2) assms(2,3) by (cases ys) (auto split: if_splits)
  ultimately show ?thesis by (simp add: well_paired_def)
qed

lemma well_paired_append: "well_paired xs \<Longrightarrow> well_paired ys \<Longrightarrow> well_paired (xs @ ys)"
  by (simp add: well_paired_def answered_append)

section \<open>Where the cuts fall\<close>

lemma EstimateTokens_simps [simp]:
  "EstimateTokens [] = 0" "EstimateTokens (m # ms) = EstimateMessageTokens m + EstimateTokens ms"
  "EstimateTokens (xs @ ys) = EstimateTokens xs + EstimateTokens ys"
  by (simp_all add: EstimateTokens_def)

lemma EstimateMessageTokens_pos: "4 \<le> EstimateMessageTokens m"
  by (simp add: EstimateMessageTokens_def Let_def)

lemma EstimateTokens_nonneg [simp]: "0 \<le> EstimateTokens ms"
proof (induction ms)
  case (Cons m ms)
  then show ?case using EstimateMessageTokens_pos [of m] by simp
qed simp

lemma drop_Suc_cost: "i < length msgs \<Longrightarrow> EstimateTokens (drop i msgs) = EstimateMessageTokens (msgs ! i) + EstimateTokens (drop (Suc i) msgs)"
  by (simp flip: Cons_nth_drop_Suc)

lemma keep_walk_spec:
  assumes "i \<le> length msgs" "c = EstimateTokens (drop i msgs)"
  shows "case keep_walk msgs r c i of
      None \<Rightarrow> \<forall>j<i. EstimateTokens (drop j msgs) < r
    | Some k \<Rightarrow> k < i \<and> r \<le> EstimateTokens (drop k msgs) \<and> (\<forall>j. k < j \<longrightarrow> j < i \<longrightarrow> EstimateTokens (drop j msgs) < r)"
  using assms
proof (induction i arbitrary: c)
  case (Suc i)
  have c: "c + EstimateMessageTokens (msgs ! i) = EstimateTokens (drop i msgs)" using Suc.prems drop_Suc_cost [of i msgs] by simp
  show ?case
  proof (cases "r \<le> EstimateTokens (drop i msgs)")
    case True
    then show ?thesis using c by (auto simp: Let_def)
  next
    case False
    then have "keep_walk msgs r c (Suc i) = keep_walk msgs r (EstimateTokens (drop i msgs)) i" using c by (simp add: Let_def)
    then show ?thesis using Suc.IH [of "EstimateTokens (drop i msgs)"] Suc.prems(1) False
      by (auto split: option.splits simp: less_Suc_eq)
  qed
qed simp

lemma skip_tools_spec:
  "k \<le> length msgs \<Longrightarrow> k \<le> skip_tools msgs k \<and> skip_tools msgs k \<le> length msgs
     \<and> (\<forall>j. k \<le> j \<longrightarrow> j < skip_tools msgs k \<longrightarrow> ms_Role (msgs ! j) = ''tool'')
     \<and> (skip_tools msgs k < length msgs \<longrightarrow> ms_Role (msgs ! skip_tools msgs k) \<noteq> ''tool'')"
proof (induction msgs k rule: skip_tools.induct)
  case (1 msgs k)
  show ?case
  proof (cases "k < length msgs \<and> ms_Role (msgs ! k) = ''tool''")
    case True
    then have eq: "skip_tools msgs k = skip_tools msgs (Suc k)" by (subst skip_tools.simps) simp
    show ?thesis using 1 True unfolding eq by (metis Suc_leD Suc_leI le_antisym not_less_eq_eq)
  next
    case False
    then have "skip_tools msgs k = k" by (subst skip_tools.simps) auto
    then show ?thesis using False 1 by auto
  qed
qed

lemma trim_walk_spec:
  assumes "i \<le> length msgs" "c = EstimateTokens (drop i msgs)" "c \<le> budget"
  shows "trim_walk msgs budget c i \<le> i \<and> EstimateTokens (drop (trim_walk msgs budget c i) msgs) \<le> budget
    \<and> (0 < trim_walk msgs budget c i \<longrightarrow> budget < EstimateTokens (drop (trim_walk msgs budget c i - 1) msgs))"
  using assms
proof (induction i arbitrary: c)
  case (Suc i)
  have c: "c + EstimateMessageTokens (msgs ! i) = EstimateTokens (drop i msgs)" using Suc.prems drop_Suc_cost [of i msgs] by simp
  show ?case
  proof (cases "budget < EstimateTokens (drop i msgs)")
    case True
    then show ?thesis using c Suc.prems by (simp add: Let_def)
  next
    case False
    then have "trim_walk msgs budget c (Suc i) = trim_walk msgs budget (EstimateTokens (drop i msgs)) i" using c by (simp add: Let_def)
    then show ?thesis using Suc.IH [of "EstimateTokens (drop i msgs)"] Suc.prems(1) False by auto
  qed
qed simp

lemma split_cases:
  assumes "splitForCompaction msgs r = (a, b)" "a \<noteq> []"
  obtains i k where "0 < i" "i \<le> k" "k < length msgs" "a = take k msgs" "b = drop k msgs"
    "r \<le> EstimateTokens (drop i msgs)" "\<And>j. i < j \<Longrightarrow> j < length msgs \<Longrightarrow> EstimateTokens (drop j msgs) < r"
    "\<And>j. i \<le> j \<Longrightarrow> j < k \<Longrightarrow> ms_Role (msgs ! j) = ''tool''" "ms_Role (msgs ! k) \<noteq> ''tool''"
proof -
  let ?i = "case keep_walk msgs r 0 (length msgs) of None \<Rightarrow> length msgs | Some i \<Rightarrow> i"
  have ne: "msgs \<noteq> []" and i0: "?i \<noteq> 0" and k: "\<not> length msgs \<le> skip_tools msgs ?i"
    and ab: "a = take (skip_tools msgs ?i) msgs" "b = drop (skip_tools msgs ?i) msgs"
    using assms by (auto simp: splitForCompaction_def Let_def split: if_splits)
  have spec: "case keep_walk msgs r 0 (length msgs) of
      None \<Rightarrow> \<forall>j<length msgs. EstimateTokens (drop j msgs) < r
    | Some k \<Rightarrow> k < length msgs \<and> r \<le> EstimateTokens (drop k msgs)
        \<and> (\<forall>j. k < j \<longrightarrow> j < length msgs \<longrightarrow> EstimateTokens (drop j msgs) < r)"
    by (rule keep_walk_spec) simp_all
  have "keep_walk msgs r 0 (length msgs) \<noteq> None"
  proof
    assume "keep_walk msgs r 0 (length msgs) = None"
    then have "\<not> length msgs \<le> skip_tools msgs (length msgs)" using k by simp
    then show False using skip_tools_spec [of "length msgs" msgs] by simp
  qed
  then obtain i where i: "keep_walk msgs r 0 (length msgs) = Some i" by blast
  then have "?i = i" "i < length msgs" using spec by simp_all
  then show ?thesis using that [of i "skip_tools msgs i"] skip_tools_spec [of i msgs] spec i i0 k ab by auto
qed

lemma well_paired_drop:
  assumes "well_paired msgs" "k < length msgs" "ms_Role (msgs ! k) \<noteq> ''tool''"
  shows "well_paired (take k msgs) \<and> well_paired (drop k msgs)"
  using assms by (intro well_paired_cut) (simp_all add: hd_drop_conv_nth)

lemma cost_mono:
  assumes "i \<le> j"
  shows "EstimateTokens (drop j msgs) \<le> EstimateTokens (drop i msgs)"
proof -
  have "drop i msgs = take (j - i) (drop i msgs) @ drop j msgs" using assms append_take_drop_id [of "j - i" "drop i msgs"] by simp
  then show ?thesis by (metis EstimateTokens_nonneg EstimateTokens_simps(3) add_0 add_le_cancel_right)
qed

lemma split_none:
  assumes "splitForCompaction msgs r = ([], b)" "msgs = rest @ tail" "rest \<noteq> []" "tail \<noteq> []"
    and "r \<le> EstimateTokens tail" "EstimateTokens (tl tail) < r"
  shows "\<forall>m\<in>set tail. ms_Role m = ''tool''"
proof -
  let ?i = "length rest"
  have spec: "case keep_walk msgs r 0 (length msgs) of
      None \<Rightarrow> \<forall>j<length msgs. EstimateTokens (drop j msgs) < r
    | Some k \<Rightarrow> k < length msgs \<and> r \<le> EstimateTokens (drop k msgs)
        \<and> (\<forall>j. k < j \<longrightarrow> j < length msgs \<longrightarrow> EstimateTokens (drop j msgs) < r)"
    by (rule keep_walk_spec) simp_all
  have i: "?i < length msgs" "drop ?i msgs = tail" "drop (Suc ?i) msgs = tl tail"
    using assms(2,4) by (simp_all add: drop_Suc)
  then obtain k where k: "keep_walk msgs r 0 (length msgs) = Some k" using spec assms(5) by (auto split: option.splits)
  have "\<not> k < ?i" using spec k i assms(5) by fastforce
  moreover have "\<not> ?i < k" using cost_mono [of "Suc ?i" k msgs] spec k i(3) assms(6) by (auto simp: Suc_le_eq)
  ultimately have "k = ?i" by simp
  then have "length msgs \<le> skip_tools msgs ?i"
    using assms(1-3) k i(1) skip_tools_spec [of ?i msgs] by (auto simp: splitForCompaction_def Let_def split: if_splits)
  then have "\<forall>j. ?i \<le> j \<longrightarrow> j < length msgs \<longrightarrow> ms_Role (msgs ! j) = ''tool''"
    using skip_tools_spec [of ?i msgs] i(1) by (meson less_imp_le order_less_le_trans)
  then have "\<forall>j<length tail. ms_Role (tail ! j) = ''tool''" using assms(2) by (metis le_add1 length_append nat_add_left_cancel_less nth_append_length_plus)
  then show ?thesis by (metis in_set_conv_nth)
qed


lemma trim_cases:
  assumes "msgs \<noteq> []" "budget = cw - (if reserve = 0 then 4096 else reserve) - sys" "kept = TrimHistory msgs sys cw reserve"
  shows "\<exists>i<length msgs. kept = drop i msgs"
    and "budget \<le> 0 \<or> EstimateTokens msgs \<le> budget \<Longrightarrow> kept = msgs"
    and "0 < budget \<Longrightarrow> kept = msgs \<and> EstimateTokens msgs \<le> budget
      \<or> ms_Role (hd kept) \<noteq> ''tool'' \<and> EstimateTokens kept \<le> budget \<or> kept = [last msgs]"
proof -
  let ?c = "trim_walk msgs budget 0 (length msgs)"
  let ?k = "if length msgs \<le> skip_tools msgs ?c then length msgs - 1 else skip_tools msgs ?c"
  let ?n = "length msgs - 1"
  have kept: "kept = (if budget \<le> 0 \<or> ?c = 0 then msgs else drop ?k msgs)"
    using assms by (simp add: TrimHistory_def Let_def defaultReserveTokens_def)
  have len: "0 < length msgs" using assms(1) by simp
  have newest: "drop ?n msgs = [last msgs]" using assms(1) by (cases msgs rule: rev_cases) simp_all
  have c: "?c \<le> length msgs" "EstimateTokens (drop ?c msgs) \<le> budget"
    "0 < ?c \<Longrightarrow> budget < EstimateTokens (drop (?c - 1) msgs)" if "0 < budget"
    using trim_walk_spec [of "length msgs" msgs 0 budget] that by auto
  have k: "?k < length msgs" using len by simp
  have cut: "kept = msgs \<and> EstimateTokens msgs \<le> budget
      \<or> ms_Role (hd kept) \<noteq> ''tool'' \<and> EstimateTokens kept \<le> budget \<or> kept = [last msgs]" if pos: "0 < budget"
  proof (cases "?c = 0")
    case True
    then show ?thesis using c(2) [OF pos] kept by simp
  next
    case False
    have sk: "?c \<le> skip_tools msgs ?c" "skip_tools msgs ?c < length msgs \<longrightarrow> ms_Role (msgs ! skip_tools msgs ?c) \<noteq> ''tool''"
      using skip_tools_spec [OF c(1) [OF pos]] by auto
    show ?thesis
    proof (cases "length msgs \<le> skip_tools msgs ?c")
      case True
      then show ?thesis using kept pos False newest by simp
    next
      case short: False
      then have "EstimateTokens kept \<le> budget" "ms_Role (hd kept) \<noteq> ''tool''"
        using kept pos False sk cost_mono [OF sk(1), of msgs] c(2) [OF pos] by (auto simp: hd_drop_conv_nth)
      then show ?thesis using kept pos False by auto
    qed
  qed
  show "\<exists>i<length msgs. kept = drop i msgs" using kept k len by (metis drop0)
  show "kept = msgs" if "budget \<le> 0 \<or> EstimateTokens msgs \<le> budget"
  proof (cases "0 < budget")
    case True
    have "?c = 0"
    proof (rule ccontr)
      assume "?c \<noteq> 0"
      then show False using c(3) [OF True] cost_mono [of 0 "?c - 1" msgs] that True by simp
    qed
    then show ?thesis using kept by simp
  qed (use kept in simp)
  show "kept = msgs \<and> EstimateTokens msgs \<le> budget
      \<or> ms_Role (hd kept) \<noteq> ''tool'' \<and> EstimateTokens kept \<le> budget \<or> kept = [last msgs]" if "0 < budget"
    using cut that by blast
qed


end
