(* ===== verification/Agent_Runtime.thy ===== *)
theory Agent_Runtime
  imports Agent_State Json_Pointer
begin

text \<open>
  What the agent loop works with: the model's requests and answers (\<open>internal/core/llm/llm.go\<close>), tools and their
  optional declarations (\<open>llm/tool.go\<close>, \<open>llm/policy.go\<close>), the permission layers, the loop guard and the session
  grants (\<open>internal/core/agent/policy.go\<close>, \<open>grant.go\<close>), hooks and events (\<open>hook.go\<close>, \<open>event.go\<close>), the queue of
  messages sent during a run (\<open>queue.go\<close>), the statistics of a run and of the runs it delegated (\<open>agent.go\<close>,
  \<open>delegation.go\<close>), and the options of a run. Everything a run asks of its surroundings - the model, the tools,
  the hooks, the user - answers as a function of what has happened in the run so far, its \<open>trace\<close>.
\<close>

section \<open>Requests and completions\<close>

type_synonym args = "(string \<times> json) list"

record ToolDef =
  df_Name :: string
  df_Description :: string
  df_Parameters :: json

datatype CallProfile = ProfileAgentTurn | ProfileTitle | ProfileCompaction | ProfileEvaluation | ProfileProbe | ProfileOther string

definition profileValid :: "CallProfile \<Rightarrow> bool" where
  "profileValid p \<longleftrightarrow> p \<in> {ProfileAgentTurn, ProfileTitle, ProfileCompaction, ProfileEvaluation, ProfileProbe}"

record OutputSchema =
  os_Name :: string
  os_Schema :: string

record Structured =
  sv_Value :: "string option"
  sv_Mode :: string
  sv_Enforced :: bool
  sv_Err :: "string option"

definition structuredFailure :: "string \<Rightarrow> Structured" where
  "structuredFailure msg = \<lparr>sv_Value = None, sv_Mode = '''', sv_Enforced = False, sv_Err = Some msg\<rparr>"

record Request =
  rq_Messages :: "Message list"
  rq_Tools :: "ToolDef list"
  rq_Profile :: CallProfile
  rq_CacheScope :: string
  rq_Output :: "OutputSchema option"

record Completion =
  cm_Content :: string
  cm_ToolCalls :: "ToolCall list"
  cm_Usage :: Usage
  cm_ProviderState :: "ProviderState option"
  cm_Structured :: "Structured option"

definition AssistantMessage :: "Completion \<Rightarrow> Message" where
  "AssistantMessage c = blank_message\<lparr>ms_Role := ''assistant'', ms_Content := cm_Content c, ms_ToolCalls := cm_ToolCalls c,
     ms_ProviderState := cm_ProviderState c\<rparr>"

definition Belongs :: "ProviderState option \<Rightarrow> string \<Rightarrow> bool" where
  "Belongs p protocol = (case p of None \<Rightarrow> False | Some ps \<Rightarrow> ps_Protocol ps = protocol \<and> ps_Data ps \<noteq> '''')"

section \<open>Run statistics\<close>

definition noUsage :: Usage where
  "noUsage = \<lparr>us_PromptTokens = 0, us_CompletionTokens = 0, us_TotalTokens = 0, us_CacheReadTokens = 0, us_CacheWriteTokens = 0\<rparr>"

record DelegatedStats =
  dg_Runs :: int
  dg_PromptTokens :: int
  dg_CompletionTokens :: int
  dg_CacheReadTokens :: int
  dg_CacheWriteTokens :: int
  dg_ToolCalls :: int
  dg_Cost :: "Cost option"
  dg_CostIncomplete :: bool

definition noDelegation :: DelegatedStats where
  "noDelegation = \<lparr>dg_Runs = 0, dg_PromptTokens = 0, dg_CompletionTokens = 0, dg_CacheReadTokens = 0, dg_CacheWriteTokens = 0,
     dg_ToolCalls = 0, dg_Cost = None, dg_CostIncomplete = False\<rparr>"

record RunStats =
  rs_ToolCalls :: int
  rs_WriteToolCalls :: int
  rs_PromptTokens :: int
  rs_CompletionTokens :: int
  rs_CacheReadTokens :: int
  rs_CacheWriteTokens :: int
  rs_Cost :: "Cost option"
  rs_CostIncomplete :: bool
  rs_Delegated :: "DelegatedStats option"

definition zeroStats :: RunStats where
  "zeroStats = \<lparr>rs_ToolCalls = 0, rs_WriteToolCalls = 0, rs_PromptTokens = 0, rs_CompletionTokens = 0, rs_CacheReadTokens = 0,
     rs_CacheWriteTokens = 0, rs_Cost = None, rs_CostIncomplete = False, rs_Delegated = None\<rparr>"

definition addCall :: "Usage \<Rightarrow> Pricing \<Rightarrow> RunStats \<Rightarrow> Cost option \<times> RunStats" where
  "addCall usage pricing s0 =
     (let s = s0\<lparr>rs_PromptTokens := wrap64 (rs_PromptTokens s0 + us_PromptTokens usage),
                 rs_CompletionTokens := wrap64 (rs_CompletionTokens s0 + us_CompletionTokens usage),
                 rs_CacheReadTokens := wrap64 (rs_CacheReadTokens s0 + us_CacheReadTokens usage),
                 rs_CacheWriteTokens := wrap64 (rs_CacheWriteTokens s0 + us_CacheWriteTokens usage)\<rparr>
      in case EstimateCost usage pricing of
           None \<Rightarrow>
             (None, if us_PromptTokens usage \<noteq> 0 \<or> us_CompletionTokens usage \<noteq> 0 then s\<lparr>rs_CostIncomplete := True\<rparr> else s)
         | Some call \<Rightarrow>
             (case rs_Cost s of
                None \<Rightarrow> (Some call, s\<lparr>rs_Cost := Some call\<rparr>)
              | Some total_cost \<Rightarrow>
                  (case addCost total_cost call of
                     (both, ok) \<Rightarrow> (Some call, if ok then s\<lparr>rs_Cost := Some both\<rparr> else s\<lparr>rs_CostIncomplete := True\<rparr>))))"

text \<open>The total and its flag, with another total and its flag added.\<close>

definition mergeCost :: "Cost option \<Rightarrow> bool \<Rightarrow> Cost option \<Rightarrow> bool \<Rightarrow> Cost option \<times> bool" where
  "mergeCost dst incomplete add addIncomplete =
     (let incomplete = incomplete \<or> addIncomplete
      in case add of
           None \<Rightarrow> (dst, incomplete)
         | Some a \<Rightarrow>
             (case dst of
                None \<Rightarrow> (Some a, incomplete)
              | Some d \<Rightarrow> (case addCost d a of (both, ok) \<Rightarrow> if ok then (Some both, incomplete) else (dst, True))))"

definition Report :: "RunStats \<Rightarrow> DelegatedStats \<Rightarrow> DelegatedStats" where
  "Report stats d =
     (let (cost, incomplete) = mergeCost (dg_Cost d) (dg_CostIncomplete d) (rs_Cost stats) (rs_CostIncomplete stats);
          nested = (case rs_Delegated stats of None \<Rightarrow> 0 | Some n \<Rightarrow> dg_ToolCalls n)
      in \<lparr>dg_Runs = wrap64 (dg_Runs d + 1),
          dg_PromptTokens = wrap64 (dg_PromptTokens d + rs_PromptTokens stats),
          dg_CompletionTokens = wrap64 (dg_CompletionTokens d + rs_CompletionTokens stats),
          dg_CacheReadTokens = wrap64 (dg_CacheReadTokens d + rs_CacheReadTokens stats),
          dg_CacheWriteTokens = wrap64 (dg_CacheWriteTokens d + rs_CacheWriteTokens stats),
          dg_ToolCalls = wrap64 (wrap64 (dg_ToolCalls d + rs_ToolCalls stats) + nested),
          dg_Cost = cost, dg_CostIncomplete = incomplete\<rparr>)"

definition Drain :: "DelegatedStats \<Rightarrow> DelegatedStats \<times> DelegatedStats" where
  "Drain d = (d, noDelegation)"

definition absorb :: "DelegatedStats \<Rightarrow> RunStats \<Rightarrow> RunStats" where
  "absorb d s =
     (if dg_Runs d = 0 then s
      else
        let (cost, incomplete) = mergeCost (rs_Cost s) (rs_CostIncomplete s) (dg_Cost d) (dg_CostIncomplete d);
            b = (case rs_Delegated s of None \<Rightarrow> noDelegation | Some b \<Rightarrow> b);
            (bcost, bincomplete) = mergeCost (dg_Cost b) (dg_CostIncomplete b) (dg_Cost d) (dg_CostIncomplete d)
        in s\<lparr>rs_PromptTokens := wrap64 (rs_PromptTokens s + dg_PromptTokens d),
             rs_CompletionTokens := wrap64 (rs_CompletionTokens s + dg_CompletionTokens d),
             rs_CacheReadTokens := wrap64 (rs_CacheReadTokens s + dg_CacheReadTokens d),
             rs_CacheWriteTokens := wrap64 (rs_CacheWriteTokens s + dg_CacheWriteTokens d),
             rs_Cost := cost, rs_CostIncomplete := incomplete,
             rs_Delegated := Some \<lparr>dg_Runs = wrap64 (dg_Runs b + dg_Runs d),
               dg_PromptTokens = wrap64 (dg_PromptTokens b + dg_PromptTokens d),
               dg_CompletionTokens = wrap64 (dg_CompletionTokens b + dg_CompletionTokens d),
               dg_CacheReadTokens = wrap64 (dg_CacheReadTokens b + dg_CacheReadTokens d),
               dg_CacheWriteTokens = wrap64 (dg_CacheWriteTokens b + dg_CacheWriteTokens d),
               dg_ToolCalls = wrap64 (dg_ToolCalls b + dg_ToolCalls d),
               dg_Cost = bcost, dg_CostIncomplete = bincomplete\<rparr>\<rparr>)"

section \<open>Hooks and events\<close>

datatype HookEvent =
    HookSessionStart | HookSessionEnd | HookUserPromptSubmit | HookPreToolUse | HookPostToolUse | HookPostToolUseFailure
  | HookNotification | HookPreCompact | HookPostCompact | HookSubagentStart | HookSubagentStop | HookStop | HookStopFailure
  | HookWorktreeCreate | HookWorktreeRemove | HookCwdChanged

text \<open>The fields the loop sets; those about worktrees and the sandbox are for other callers.\<close>

record HookInput =
  hk_Event :: HookEvent
  hk_SessionID :: string
  hk_Workspace :: string
  hk_IsSubagent :: bool
  hk_AgentType :: string
  hk_Prompt :: string
  hk_ToolName :: string
  hk_ToolCallID :: string
  hk_ToolArgs :: "args option"
  hk_ToolResult :: string
  hk_ToolError :: string
  hk_NotificationKind :: string
  hk_NotificationReason :: string
  hk_Summarized :: nat
  hk_Kept :: nat
  hk_Summary :: string
  hk_Stats :: "RunStats option"
  hk_Error :: string

record HookOutput =
  ho_Decision :: string
  ho_Reason :: string

definition noDecision :: HookOutput where "noDecision = \<lparr>ho_Decision = '''', ho_Reason = ''''\<rparr>"

definition Blocked :: "HookOutput \<Rightarrow> bool" where "Blocked o' \<longleftrightarrow> ho_Decision o' = ''block''"

definition NotificationApprovalRequired :: string where "NotificationApprovalRequired = ''approval_required''"
definition NotificationPermissionDenied :: string where "NotificationPermissionDenied = ''permission_denied''"
definition NotificationUserQuestion :: string where "NotificationUserQuestion = ''user_question''"
definition ToolNameAskUser :: string where "ToolNameAskUser = ''AskUser''"

datatype EventKind =
    EventIterStart | EventLLMStart | EventLLMDelta | EventLLMEnd | EventToolStart | EventToolEnd | EventToolDenied
  | EventContextCompacted | EventRunEnd | EventUserInput | EventUserInputBlocked

record Event =
  ev_Kind :: EventKind
  ev_Iter :: nat
  ev_Content :: string
  ev_HasToolCalls :: bool
  ev_ContextTokens :: int
  ev_ContextWindow :: int
  ev_PromptTokens :: int
  ev_CompletionTokens :: int
  ev_CacheReadTokens :: int
  ev_CacheWriteTokens :: int
  ev_CallUsage :: Usage
  ev_CallCost :: "Cost option"
  ev_ToolName :: string
  ev_ToolCallID :: string
  ev_ToolArgs :: string
  ev_ToolResult :: string
  ev_ToolDuration :: int
  ev_ToolErrorKind :: string
  ev_DenyReason :: string
  ev_Summarized :: nat
  ev_Kept :: nat
  ev_Stats :: RunStats
  ev_Err :: "string option"

definition event :: "EventKind \<Rightarrow> Event" where
  "event k = \<lparr>ev_Kind = k, ev_Iter = 0, ev_Content = '''', ev_HasToolCalls = False, ev_ContextTokens = 0, ev_ContextWindow = 0,
     ev_PromptTokens = 0, ev_CompletionTokens = 0, ev_CacheReadTokens = 0, ev_CacheWriteTokens = 0, ev_CallUsage = noUsage,
     ev_CallCost = None, ev_ToolName = '''', ev_ToolCallID = '''', ev_ToolArgs = '''', ev_ToolResult = '''', ev_ToolDuration = 0,
     ev_ToolErrorKind = '''', ev_DenyReason = '''', ev_Summarized = 0, ev_Kept = 0, ev_Stats = zeroStats, ev_Err = None\<rparr>"

definition DenyReasonPolicy :: string where "DenyReasonPolicy = ''policy''"
definition DenyReasonUser :: string where "DenyReasonUser = ''user''"
definition DenyReasonLoopGuard :: string where "DenyReasonLoopGuard = ''loop_guard''"
definition DenyReasonHook :: string where "DenyReasonHook = ''hook''"
definition DenyReasonUnknown :: string where "DenyReasonUnknown = ''unknown_tool''"

section \<open>What happens in a run\<close>

datatype ApprovalDecision = ApprovalDeny | ApprovalAllowOnce | ApprovalAllowSession | ApprovalOther nat

record Answer =
  aw_Values :: "string list"
  aw_Declined :: bool
  aw_Deferred :: bool

datatype trace =
    Emitted Event
  | HookRan HookInput HookOutput
  | ApprovalAsked string args string ApprovalDecision
  | UserAsked "Question list" "Answer option"
  | BoundaryRecorded "(string \<times> string) list"
  | Entered string string args
  | ModelCalled Request
  | ModelAnswered "string + Completion"
  | StreamDelta string
  | StreamEnded
  | CheckpointTaken "Message list" bool
  | CompactorCalled "Message list" "string + (string \<times> Usage)"
  | DelegationReported RunStats

section \<open>Tools\<close>

datatype ToolAction = ToolActionAllow | ToolActionAsk | ToolActionDeny | ToolActionOther int

datatype Access = AccessWrite | AccessReadOnly | AccessOther nat

record ToolResult =
  tr_Text :: string
  tr_Parts :: "ContentPart list"

text \<open>What executing a tool amounts to for the loop: its answer, an error or a panic; the questions it put to the
  user and the delegated runs it reported through its context; and the history after its use of the note store.\<close>

datatype 'r tool_answer = Returned 'r | Failed string | Panicked string

record ('h, 'r) exec =
  ex_Answer :: "'r tool_answer"
  ex_Duration :: int
  ex_Asked :: "Question list list"
  ex_Reported :: "RunStats list"
  ex_History :: 'h

record call_context =
  cc_Iteration :: nat
  cc_ToolCall :: string

record 'h Tool =
  tl_Name :: string
  tl_Description :: string
  tl_Parameters :: json
  tl_Execute :: "trace list \<Rightarrow> call_context \<Rightarrow> args \<Rightarrow> 'h \<Rightarrow> ('h, string) exec"
  tl_ExecuteMultimodal :: "(trace list \<Rightarrow> call_context \<Rightarrow> args \<Rightarrow> 'h \<Rightarrow> ('h, ToolResult) exec) option"
  tl_CheckArgs :: "(args \<Rightarrow> ToolAction) option"
  tl_DefaultAction :: "ToolAction option"
  tl_Access :: "(args \<Rightarrow> Access) option"
  tl_GrantScope :: "(args \<Rightarrow> string) option"

type_synonym 'h ToolRegistry = "'h Tool list"

definition NewToolRegistry :: "'h ToolRegistry" where "NewToolRegistry = []"

definition AppendTools :: "'h Tool list \<Rightarrow> 'h ToolRegistry \<Rightarrow> 'h ToolRegistry" where
  "AppendTools tools r = r @ tools"

definition GetDefs :: "'h ToolRegistry \<Rightarrow> ToolDef list" where
  "GetDefs r = map (\<lambda>t. \<lparr>df_Name = tl_Name t, df_Description = tl_Description t, df_Parameters = tl_Parameters t\<rparr>) r"

definition Lookup :: "'h ToolRegistry \<Rightarrow> string \<Rightarrow> 'h Tool option" where
  "Lookup r name = find (\<lambda>t. tl_Name t = name) r"

definition DeclaredAccess :: "'h Tool option \<Rightarrow> args \<Rightarrow> Access" where
  "DeclaredAccess tool args =
     (case Option.bind tool tl_Access of None \<Rightarrow> AccessWrite | Some f \<Rightarrow> f args)"

definition grantTarget :: "'h Tool \<Rightarrow> args \<Rightarrow> string" where
  "grantTarget tool args = (case tl_GrantScope tool of None \<Rightarrow> '''' | Some f \<Rightarrow> f args)"

definition grantScope :: "string \<Rightarrow> string \<Rightarrow> string" where
  "grantScope name target = (if target \<noteq> '''' then name @ '':'' @ target else name)"

section \<open>Permissions\<close>

type_synonym ToolPolicy = "string \<Rightarrow> string \<Rightarrow> args \<Rightarrow> ToolAction \<times> bool"

definition AllowAllPolicy :: ToolPolicy where
  "AllowAllPolicy name scope args = (ToolActionAllow, False)"

definition resolveAction :: "ToolPolicy option \<Rightarrow> 'h Tool \<Rightarrow> string \<Rightarrow> string \<Rightarrow> args \<Rightarrow> bool \<Rightarrow> ToolAction" where
  "resolveAction policy tool name scope args interactive =
     (let (configured, hasConfig) = (case policy of None \<Rightarrow> (ToolActionAllow, False) | Some p \<Rightarrow> p name scope args);
          checked = (case tl_CheckArgs tool of None \<Rightarrow> ToolActionAllow | Some f \<Rightarrow> f args)
      in if hasConfig \<and> configured = ToolActionDeny then ToolActionDeny
         else if checked \<noteq> ToolActionAllow then checked
         else if hasConfig then configured
         else case tl_DefaultAction tool of
                Some a \<Rightarrow> a
              | None \<Rightarrow> if interactive \<and> DeclaredAccess (Some tool) args = AccessWrite then ToolActionAsk else ToolActionAllow)"

definition ResolveToolAction :: "ToolPolicy option \<Rightarrow> 'h Tool \<Rightarrow> args option \<Rightarrow> bool \<Rightarrow> ToolAction" where
  "ResolveToolAction policy tool args interactive =
     (let args = (case args of None \<Rightarrow> [] | Some a \<Rightarrow> a); name = tl_Name tool
      in resolveAction policy tool name (grantScope name (grantTarget tool args)) args interactive)"

text \<open>The loop guard counts fingerprints of calls, \<open>toolFingerprint\<close> being the MD5 of a name and its arguments.\<close>

record loopGuard =
  lg_counts :: "string \<Rightarrow> int"
  lg_max :: int

definition defaultMaxRepeatedCalls :: int where "defaultMaxRepeatedCalls = 3"

definition newLoopGuard :: "int \<Rightarrow> loopGuard" where
  "newLoopGuard limit = \<lparr>lg_counts = (\<lambda>_. 0), lg_max = limit\<rparr>"

definition exceeded :: "string \<Rightarrow> loopGuard \<Rightarrow> bool \<times> loopGuard" where
  "exceeded fp g =
     (let n = lg_counts g fp + 1 in (n > lg_max g, g\<lparr>lg_counts := (lg_counts g)(fp := n)\<rparr>))"

type_synonym SessionGrants = "string set option"

definition NewSessionGrants :: SessionGrants where "NewSessionGrants = Some {}"

definition granted :: "string \<Rightarrow> SessionGrants \<Rightarrow> bool" where
  "granted scope g = (case g of None \<Rightarrow> False | Some scopes \<Rightarrow> scope \<in> scopes)"

definition grant :: "string \<Rightarrow> SessionGrants \<Rightarrow> SessionGrants" where
  "grant scope g = map_option (insert scope) g"

section \<open>The message queue\<close>

record MessageQueue =
  mq_items :: "string list"
  mq_max :: int

definition DefaultMaxQueuedMessages :: int where "DefaultMaxQueuedMessages = 10"

definition NewMessageQueue :: "int \<Rightarrow> MessageQueue" where
  "NewMessageQueue limit = \<lparr>mq_items = [], mq_max = (if limit \<le> 0 then DefaultMaxQueuedMessages else limit)\<rparr>"

text \<open>\<open>None\<close> is \<open>ErrQueueFull\<close>.\<close>

definition Enqueue :: "string \<Rightarrow> MessageQueue \<Rightarrow> nat option \<times> MessageQueue" where
  "Enqueue text q =
     (if int (length (mq_items q)) \<ge> mq_max q then (None, q)
      else (Some (length (mq_items q) + 1), q\<lparr>mq_items := mq_items q @ [text]\<rparr>))"

definition Dequeue :: "MessageQueue \<Rightarrow> string option \<times> MessageQueue" where
  "Dequeue q = (case mq_items q of [] \<Rightarrow> (None, q) | t # ts \<Rightarrow> (Some t, q\<lparr>mq_items := ts\<rparr>))"

definition DropLast :: "MessageQueue \<Rightarrow> string option \<times> MessageQueue" where
  "DropLast q = (if mq_items q = [] then (None, q) else (Some (last (mq_items q)), q\<lparr>mq_items := butlast (mq_items q)\<rparr>))"

definition DropQueue :: "MessageQueue \<Rightarrow> nat \<times> MessageQueue" where
  "DropQueue q = (length (mq_items q), q\<lparr>mq_items := []\<rparr>)"

definition queueLen :: "MessageQueue \<Rightarrow> nat" where "queueLen q = length (mq_items q)"

definition Snapshot :: "MessageQueue \<Rightarrow> string list" where "Snapshot q = mq_items q"

section \<open>Histories\<close>

text \<open>\<open>MessageHistory\<close> and its optional extensions, over a history of type \<open>'h\<close> with errors of type \<open>'e\<close>.\<close>

record ('h, 'e) History =
  hi_Messages :: "'h \<Rightarrow> Message list"
  hi_Append :: "Message \<Rightarrow> ('e, 'h, unit) prog"
  hi_Compaction :: "(('h \<Rightarrow> string) \<times> (string \<Rightarrow> int \<Rightarrow> ('e, 'h, unit) prog)) option"
  hi_Boundary :: "(((string \<times> string) list \<Rightarrow> ('e, 'h, unit) prog) \<times> (ToolOutcome \<Rightarrow> ('e, 'h, unit) prog)) option"
  hi_Notes :: "(('h \<Rightarrow> Note list) \<times> ('h \<Rightarrow> Todo list)) option"

section \<open>Options and state of a run\<close>

record LLMClient =
  lc_ContextWindow :: int
  lc_Blocking :: "trace list \<Rightarrow> Request \<Rightarrow> string + Completion"
  lc_Streaming :: "trace list \<Rightarrow> Request \<Rightarrow> string list \<times> (string + Completion)"

text \<open>An option stands for a collaborator that may be nil. \<open>op_StreamSink\<close> says whether the sink is told of the
  stream's end.\<close>

record ('h, 'e) RunLoopOpts =
  op_LLMClient :: "LLMClient option"
  op_SystemPrompt :: string
  op_Pricing :: Pricing
  op_ToolRegistry :: "'h ToolRegistry"
  op_MaxIter :: int
  op_History :: "('h, 'e) History"
  op_StreamSink :: "bool option"
  op_Policy :: "ToolPolicy option"
  op_Approval :: "(trace list \<Rightarrow> string \<Rightarrow> args \<Rightarrow> string \<Rightarrow> ApprovalDecision) option"
  op_Questioner :: "(trace list \<Rightarrow> Question list \<Rightarrow> Answer option) option"
  op_PendingInput :: bool
  op_MaxParallelTools :: int
  op_Compactor :: "(trace list \<Rightarrow> Message list \<Rightarrow> string + (string \<times> Usage)) option"
  op_Checkpointer :: "(trace list \<Rightarrow> nat \<Rightarrow> Message list \<Rightarrow> 'h \<Rightarrow> bool \<times> 'h) option"
  op_Invariants :: string
  op_Memory :: "(trace list \<Rightarrow> MemoryIndex) option"
  op_EventSink :: bool
  op_Hooks :: "(trace list \<Rightarrow> HookInput \<Rightarrow> HookOutput) option"
  op_SessionID :: string
  op_Workspace :: string
  op_IsSubagent :: bool
  op_AgentType :: string
  op_RedactResult :: "(string \<Rightarrow> string) option"
  op_Output :: "OutputSchema option"

definition interactive :: "('h, 'e) RunLoopOpts \<Rightarrow> bool" where
  "interactive opts \<longleftrightarrow> op_Approval opts \<noteq> None"

text \<open>The rest of the surroundings: \<open>json.Unmarshal\<close> into a map (an error, or the members, none for \<open>null\<close>), the
  fingerprint, \<open>fmt\<close>'s \<open>%q\<close>, the texts of the history's errors, whether the context is cancelled, the messages the
  user has sent since the last look at the queue, and the order in which the calls of a group take effect.\<close>

record 'e runEnv =
  re_Unmarshal :: "string \<Rightarrow> string + args option"
  re_Fingerprint :: "string \<Rightarrow> args \<Rightarrow> string"
  re_Quote :: "string \<Rightarrow> string"
  re_ErrText :: "'e \<Rightarrow> string"
  re_Cancelled :: "trace list \<Rightarrow> bool"
  re_Arrivals :: "trace list \<Rightarrow> string list"
  re_Schedule :: "trace list \<Rightarrow> nat list"

record 'h run =
  rn_History :: 'h
  rn_Queue :: MessageQueue
  rn_Guard :: loopGuard
  rn_Grants :: SessionGrants
  rn_Stats :: RunStats
  rn_Delegated :: DelegatedStats
  rn_Yielded :: bool
  rn_Trace :: "trace list"

datatype 'e run_error =
    HistoryFailed 'e | AppendQueued 'e | CompactionNotPersisted 'e | CompactorFailed string | NoCompactor
  | LLMCall string | MaxIterations | ToolPanic string string | NilDereference

end
