(* ===== verification/Agent_Loop.thy ===== *)
theory Agent_Loop
  imports Agent_Runtime
begin

text \<open>
  The agent loop, \<open>internal/core/agent/agent.go\<close> with \<open>tool_boundary.go\<close>, \<open>compaction.go\<close> and the asking of
  questions of \<open>question.go\<close>: gating, running and committing the tool calls of one message, compacting the history,
  calling the model, and \<open>RunLoop\<close> itself. A program over the state of a run ends in an error where the code returns
  one; a tool that panics outside a parallel group ends the run with \<open>ToolPanic\<close>. Logging is left out.
\<close>

type_synonym ('h, 'e, 'a) loop = "('e run_error, 'h run, 'a) prog"

section \<open>Steps of a run\<close>

definition observe :: "trace \<Rightarrow> ('h, 'e, unit) loop" where
  "observe t = (\<lambda>s. (Inr (), s\<lparr>rn_Trace := rn_Trace s @ [t]\<rparr>))"

definition ask :: "(trace list \<Rightarrow> 'a) \<Rightarrow> ('a \<Rightarrow> trace) \<Rightarrow> ('h, 'e, 'a) loop" where
  "ask f t = (\<lambda>s. let a = f (rn_Trace s) in (Inr a, s\<lparr>rn_Trace := rn_Trace s @ [t a]\<rparr>))"

definition onHistory :: "('e, 'h, 'a) prog \<Rightarrow> ('h, 'e, 'e + 'a) loop" where
  "onHistory m = (\<lambda>s. case m (rn_History s) of (r, h) \<Rightarrow> (Inr r, s\<lparr>rn_History := h\<rparr>))"

definition modifyRun :: "('h run \<Rightarrow> 'h run) \<Rightarrow> ('h, 'e, unit) loop" where
  "modifyRun f = (\<lambda>s. (Inr (), f s))"

definition contextWindow :: "('h, 'e) RunLoopOpts \<Rightarrow> ('h, 'e, int) loop" where
  "contextWindow opts = (case op_LLMClient opts of None \<Rightarrow> throwP NilDereference | Some c \<Rightarrow> retP (lc_ContextWindow c))"

definition emit :: "('h, 'e) RunLoopOpts \<Rightarrow> Event \<Rightarrow> ('h, 'e, unit) loop" where
  "emit opts e = (if op_EventSink opts then observe (Emitted e) else retP ())"

definition baseHookInput :: "('h, 'e) RunLoopOpts \<Rightarrow> HookEvent \<Rightarrow> HookInput" where
  "baseHookInput opts e =
     \<lparr>hk_Event = e, hk_SessionID = op_SessionID opts, hk_Workspace = op_Workspace opts, hk_IsSubagent = op_IsSubagent opts,
      hk_AgentType = op_AgentType opts, hk_Prompt = '''', hk_ToolName = '''', hk_ToolCallID = '''', hk_ToolArgs = None,
      hk_ToolResult = '''', hk_ToolError = '''', hk_NotificationKind = '''', hk_NotificationReason = '''', hk_Summarized = 0,
      hk_Kept = 0, hk_Summary = '''', hk_Stats = None, hk_Error = ''''\<rparr>"

definition runHook :: "('h, 'e) RunLoopOpts \<Rightarrow> HookInput \<Rightarrow> ('h, 'e, HookOutput) loop" where
  "runHook opts inp =
     (case op_Hooks opts of None \<Rightarrow> retP noDecision | Some f \<Rightarrow> ask (\<lambda>tr. f tr inp) (HookRan inp))"

definition fireNotification :: "('h, 'e) RunLoopOpts \<Rightarrow> string \<Rightarrow> string \<Rightarrow> string \<Rightarrow> args \<Rightarrow> string \<Rightarrow> ('h, 'e, unit) loop" where
  "fireNotification opts kind toolName callID args reason =
     bindP (runHook opts ((baseHookInput opts HookNotification)\<lparr>hk_NotificationKind := kind, hk_NotificationReason := reason,
       hk_ToolName := toolName, hk_ToolCallID := callID, hk_ToolArgs := Some args\<rparr>)) (\<lambda>_. retP ())"

fun errorText :: "('e \<Rightarrow> string) \<Rightarrow> 'e run_error \<Rightarrow> string" where
  "errorText txt (HistoryFailed e) = txt e"
| "errorText txt (AppendQueued e) = ''append queued message: '' @ txt e"
| "errorText txt (CompactionNotPersisted e) = ''persist compaction: '' @ txt e"
| "errorText txt (CompactorFailed msg) = msg"
| "errorText txt NoCompactor = ''compact: no compactor configured''"
| "errorText txt (LLMCall msg) = ''llm call: '' @ msg"
| "errorText txt MaxIterations = ''max iterations exceeded''"
| "errorText txt (ToolPanic name msg) = msg"
| "errorText txt NilDereference = ''invalid memory address or nil pointer dereference''"

definition fireRunEndHook :: "'e runEnv \<Rightarrow> ('h, 'e) RunLoopOpts \<Rightarrow> 'e run_error option \<Rightarrow> ('h, 'e, unit) loop" where
  "fireRunEndHook env opts err =
     bindP (getP rn_Stats) (\<lambda>stats.
     bindP (runHook opts ((baseHookInput opts
         (if err \<noteq> None then HookStopFailure else if op_IsSubagent opts then HookSubagentStop else HookStop))
           \<lparr>hk_Stats := Some stats, hk_Error := (case err of None \<Rightarrow> '''' | Some e \<Rightarrow> errorText (re_ErrText env) e)\<rparr>))
       (\<lambda>_. retP ()))"

definition endRun :: "'e runEnv \<Rightarrow> ('h, 'e) RunLoopOpts \<Rightarrow> 'e run_error option \<Rightarrow> ('h, 'e, unit) loop" where
  "endRun env opts err =
     bindP (getP rn_Stats) (\<lambda>stats.
     bindP (emit opts ((event EventRunEnd)\<lparr>ev_Stats := stats, ev_Err := map_option (errorText (re_ErrText env)) err\<rparr>)) (\<lambda>_.
     fireRunEndHook env opts err))"

section \<open>Questions to the user\<close>

definition questionArgs :: "Question list \<Rightarrow> args" where
  "questionArgs qs = [(''questions'', JArr (map (\<lambda>q. JStr (qu_Text q)) qs))]"

text \<open>The questioner a tool reaches through its context, none where the surface has none.\<close>

definition AskUser :: "('h, 'e) RunLoopOpts \<Rightarrow> string \<Rightarrow> Question list \<Rightarrow> ('h, 'e, unit) loop" where
  "AskUser opts callID qs =
     (case op_Questioner opts of
        None \<Rightarrow> retP ()
      | Some f \<Rightarrow>
          bindP (fireNotification opts NotificationUserQuestion ToolNameAskUser callID (questionArgs qs) '''') (\<lambda>_.
          bindP (ask (\<lambda>tr. f tr qs) (UserAsked qs)) (\<lambda>a.
          case a of
            None \<Rightarrow> retP ()
          | Some ans \<Rightarrow> if aw_Deferred ans then modifyRun (rn_Yielded_update (\<lambda>_. True)) else retP ())))"

fun askAll :: "('h, 'e) RunLoopOpts \<Rightarrow> string \<Rightarrow> Question list list \<Rightarrow> ('h, 'e, unit) loop" where
  "askAll opts callID [] = retP ()"
| "askAll opts callID (qs # rest) = bindP (AskUser opts callID qs) (\<lambda>_. askAll opts callID rest)"

section \<open>Tool calls\<close>

record 'h pendingCall =
  pc_call :: ToolCall
  pc_args :: args
  pc_tool :: "'h Tool option"
  pc_result :: string
  pc_decided :: bool
  pc_parts :: "ContentPart list"
  pc_executed :: bool
  pc_errKind :: string

definition ToolErrorInvalidArgs :: string where "ToolErrorInvalidArgs = ''invalid_args''"
definition ToolErrorFailed :: string where "ToolErrorFailed = ''tool_error''"
definition ToolErrorPanic :: string where "ToolErrorPanic = ''panic''"

definition ToolStatusCompleted :: string where "ToolStatusCompleted = ''completed''"
definition ToolStatusFailed :: string where "ToolStatusFailed = ''failed''"
definition ToolStatusDenied :: string where "ToolStatusDenied = ''denied''"

abbreviation pc_Name :: "'h pendingCall \<Rightarrow> string" where "pc_Name c \<equiv> tc_Name (pc_call c)"
abbreviation pc_ID :: "'h pendingCall \<Rightarrow> string" where "pc_ID c \<equiv> tc_ID (pc_call c)"

definition parseCall :: "'e runEnv \<Rightarrow> ('h, 'e) RunLoopOpts \<Rightarrow> ToolCall \<Rightarrow> 'h pendingCall" where
  "parseCall env opts tc =
     (let c = \<lparr>pc_call = tc, pc_args = [], pc_tool = None, pc_result = '''', pc_decided = False, pc_parts = [],
               pc_executed = False, pc_errKind = ''''\<rparr>
      in case (if tc_Arguments tc = '''' then Inr None else re_Unmarshal env (tc_Arguments tc)) of
           Inl msg \<Rightarrow> c\<lparr>pc_result := ''error: invalid arguments: '' @ msg, pc_decided := True, pc_errKind := ToolErrorInvalidArgs\<rparr>
         | Inr args \<Rightarrow> c\<lparr>pc_args := (case args of None \<Rightarrow> [] | Some a \<Rightarrow> a), pc_tool := Lookup (op_ToolRegistry opts) (tc_Name tc)\<rparr>)"

definition parseCalls :: "'e runEnv \<Rightarrow> ('h, 'e) RunLoopOpts \<Rightarrow> ToolCall list \<Rightarrow> 'h pendingCall list" where
  "parseCalls env opts toolCalls = map (parseCall env opts) toolCalls"

definition eligibleForGroup :: "'h pendingCall \<Rightarrow> bool" where
  "eligibleForGroup c \<longleftrightarrow> \<not> pc_decided c \<and> pc_tool c \<noteq> None \<and> DeclaredAccess (pc_tool c) (pc_args c) = AccessReadOnly"

fun adjacent_groups :: "'h pendingCall list \<Rightarrow> 'h pendingCall list \<Rightarrow> 'h pendingCall list list" where
  "adjacent_groups start [] = []"
| "adjacent_groups start (c # cs) =
     (if eligibleForGroup c \<and> cs \<noteq> [] \<and> eligibleForGroup (hd cs) then adjacent_groups (start @ [c]) cs
      else (start @ [c]) # adjacent_groups [] cs)"

definition groupCalls :: "'h pendingCall list \<Rightarrow> int \<Rightarrow> 'h pendingCall list list" where
  "groupCalls calls maxParallel = (if maxParallel \<le> 1 then map (\<lambda>c. [c]) calls else adjacent_groups [] calls)"

subsection \<open>The gate\<close>

definition toolEvent :: "EventKind \<Rightarrow> 'h pendingCall \<Rightarrow> Event" where
  "toolEvent k c = (event k)\<lparr>ev_ToolName := pc_Name c, ev_ToolCallID := pc_ID c\<rparr>"

definition deny :: "('h, 'e) RunLoopOpts \<Rightarrow> 'h pendingCall \<Rightarrow> string \<Rightarrow> string \<Rightarrow> ('h, 'e, 'h pendingCall) loop" where
  "deny opts c reason result =
     bindP (emit opts ((toolEvent EventToolDenied c)\<lparr>ev_DenyReason := reason\<rparr>)) (\<lambda>_.
     retP (c\<lparr>pc_result := result, pc_decided := True\<rparr>))"

definition preToolUse :: "'e runEnv \<Rightarrow> ('h, 'e) RunLoopOpts \<Rightarrow> 'h pendingCall \<Rightarrow> ('h, 'e, 'h pendingCall) loop" where
  "preToolUse env opts c =
     bindP (runHook opts ((baseHookInput opts HookPreToolUse)\<lparr>hk_ToolName := pc_Name c, hk_ToolCallID := pc_ID c,
       hk_ToolArgs := Some (pc_args c)\<rparr>)) (\<lambda>out.
     if Blocked out
     then let reason = (if ho_Reason out = '''' then ''blocked by hook'' else ho_Reason out)
          in deny opts c DenyReasonHook (''error: tool call '' @ re_Quote env (pc_Name c) @ '' denied by hook: '' @ reason)
     else retP c)"

definition countCall :: "string \<Rightarrow> ('h, 'e, bool) loop" where
  "countCall fp = (\<lambda>s. case exceeded fp (rn_Guard s) of (over, g) \<Rightarrow> (Inr over, s\<lparr>rn_Guard := g\<rparr>))"

definition denyByPolicy :: "'e runEnv \<Rightarrow> ('h, 'e) RunLoopOpts \<Rightarrow> 'h pendingCall \<Rightarrow> ('h, 'e, 'h pendingCall) loop" where
  "denyByPolicy env opts c =
     deny opts c DenyReasonPolicy (''error: tool call '' @ re_Quote env (pc_Name c) @ '' denied by policy'')"

definition askApproval :: "'e runEnv \<Rightarrow> ('h, 'e) RunLoopOpts \<Rightarrow> 'h pendingCall \<Rightarrow> string \<Rightarrow> string \<Rightarrow> ('h, 'e, 'h pendingCall) loop" where
  "askApproval env opts c target scope =
     (let denied = (\<lambda>c' reason.
        bindP (fireNotification opts NotificationPermissionDenied (pc_Name c) (pc_ID c) (pc_args c) reason) (\<lambda>_. retP c'))
      in bindP (fireNotification opts NotificationApprovalRequired (pc_Name c) (pc_ID c) (pc_args c) '''') (\<lambda>_.
         case op_Approval opts of
           None \<Rightarrow> bindP (denyByPolicy env opts c) (\<lambda>c'. denied c' ''no approval handler configured'')
         | Some f \<Rightarrow>
             bindP (ask (\<lambda>tr. f tr (pc_Name c) (pc_args c) target) (ApprovalAsked (pc_Name c) (pc_args c) target)) (\<lambda>decision.
             if decision = ApprovalDeny
             then bindP (deny opts c DenyReasonUser (''error: tool call '' @ re_Quote env (pc_Name c) @ '' denied by user''))
                    (\<lambda>c'. denied c' ''denied by user'')
             else bindP (if decision = ApprovalAllowSession then modifyRun (rn_Grants_update (grant scope)) else retP ()) (\<lambda>_.
                  preToolUse env opts c))))"

definition gateTool :: "'e runEnv \<Rightarrow> ('h, 'e) RunLoopOpts \<Rightarrow> ToolPolicy \<Rightarrow> 'h Tool \<Rightarrow> 'h pendingCall \<Rightarrow> ('h, 'e, 'h pendingCall) loop" where
  "gateTool env opts policy tool c =
     (let target = grantTarget tool (pc_args c);
          scope = grantScope (pc_Name c) target;
          resolved = resolveAction (Some policy) tool (pc_Name c) scope (pc_args c) (interactive opts)
      in bindP (getP rn_Grants) (\<lambda>grants.
         case (if resolved = ToolActionAsk \<and> granted scope grants then ToolActionAllow else resolved) of
           ToolActionDeny \<Rightarrow> denyByPolicy env opts c
         | ToolActionAsk \<Rightarrow> askApproval env opts c target scope
         | ToolActionAllow \<Rightarrow> preToolUse env opts c
         | ToolActionOther n \<Rightarrow>
             retP (c\<lparr>pc_result := ''error: unknown policy action for '' @ re_Quote env (pc_Name c), pc_decided := True\<rparr>)))"

definition gateCall :: "'e runEnv \<Rightarrow> ('h, 'e) RunLoopOpts \<Rightarrow> ToolPolicy \<Rightarrow> 'h pendingCall \<Rightarrow> ('h, 'e, 'h pendingCall) loop" where
  "gateCall env opts policy c =
     (let started = emit opts ((toolEvent EventToolStart c)\<lparr>ev_ToolArgs := tc_Arguments (pc_call c)\<rparr>)
      in if pc_decided c
         then if pc_errKind c = '''' then retP c
              else bindP started (\<lambda>_.
                   bindP (emit opts ((toolEvent EventToolEnd c)\<lparr>ev_ToolResult := pc_result c, ev_ToolErrorKind := pc_errKind c\<rparr>)) (\<lambda>_.
                   retP c))
         else bindP started (\<lambda>_.
              case pc_tool c of
                None \<Rightarrow> deny opts c DenyReasonUnknown (''error: unknown tool '' @ re_Quote env (pc_Name c))
              | Some tool \<Rightarrow>
                  bindP (countCall (re_Fingerprint env (pc_Name c) (pc_args c))) (\<lambda>over.
                  if over
                  then deny opts c DenyReasonLoopGuard
                         (''error: tool call '' @ re_Quote env (pc_Name c) @ '' blocked '' @ em_dash
                            @ '' repeated identical call detected (loop guard)'')
                  else gateTool env opts policy tool c)))"

fun gateAll :: "'e runEnv \<Rightarrow> ('h, 'e) RunLoopOpts \<Rightarrow> ToolPolicy \<Rightarrow> 'h pendingCall list \<Rightarrow> ('h, 'e, 'h pendingCall list) loop" where
  "gateAll env opts policy [] = retP []"
| "gateAll env opts policy (c # cs) =
     bindP (gateCall env opts policy c) (\<lambda>c'. bindP (gateAll env opts policy cs) (\<lambda>cs'. retP (c' # cs')))"

subsection \<open>The boundary\<close>

definition starts_of :: "'h pendingCall list \<Rightarrow> (string \<times> string) list" where
  "starts_of grp = map (\<lambda>c. (pc_ID c, pc_Name c)) (filter (\<lambda>c. \<not> pc_decided c) grp)"

definition recordToolBoundary :: "('h, 'e) RunLoopOpts \<Rightarrow> 'h pendingCall list \<Rightarrow> ('h, 'e, 'e + unit) loop" where
  "recordToolBoundary opts grp =
     (case hi_Boundary (op_History opts) of
        None \<Rightarrow> retP (Inr ())
      | Some (started, appendResult) \<Rightarrow>
          if starts_of grp = [] then retP (Inr ())
          else bindP (onHistory (started (starts_of grp))) (\<lambda>r.
               case r of
                 Inl e \<Rightarrow> retP (Inl e)
               | Inr _ \<Rightarrow> bindP (observe (BoundaryRecorded (starts_of grp))) (\<lambda>_. retP (Inr ()))))"

definition outcomeOf :: "'h pendingCall \<Rightarrow> ToolOutcome" where
  "outcomeOf c =
     \<lparr>ou_ID = pc_ID c, ou_Name = pc_Name c,
      ou_Status = (if \<not> pc_executed c then ToolStatusDenied else if pc_errKind c \<noteq> '''' then ToolStatusFailed else ToolStatusCompleted),
      ou_Result = pc_result c, ou_Parts = pc_parts c\<rparr>"

definition appendToolOutcome :: "('h, 'e) RunLoopOpts \<Rightarrow> 'h pendingCall \<Rightarrow> ('h, 'e, 'e + unit) loop" where
  "appendToolOutcome opts c =
     (case hi_Boundary (op_History opts) of
        Some (started, appendResult) \<Rightarrow> onHistory (appendResult (outcomeOf c))
      | None \<Rightarrow> onHistory (hi_Append (op_History opts)
          ((text_message ''tool'' (pc_result c))\<lparr>ms_ToolCallID := pc_ID c, ms_Parts := pc_parts c\<rparr>)))"

subsection \<open>Running a group\<close>

fun answer_parts :: "ToolResult tool_answer \<Rightarrow> (string \<times> ContentPart list) tool_answer" where
  "answer_parts (Returned r) = Returned (tr_Text r, tr_Parts r)"
| "answer_parts (Failed msg) = Failed msg"
| "answer_parts (Panicked msg) = Panicked msg"

fun answer_text :: "string tool_answer \<Rightarrow> (string \<times> ContentPart list) tool_answer" where
  "answer_text (Returned r) = Returned (r, [])"
| "answer_text (Failed msg) = Failed msg"
| "answer_text (Panicked msg) = Panicked msg"

definition take_effect :: "('r tool_answer \<Rightarrow> 'a) \<Rightarrow> ('h, 'r) exec \<Rightarrow> 'h run \<Rightarrow> ('e run_error + 'a \<times> int \<times> Question list list) \<times> 'h run" where
  "take_effect f x s =
     (Inr (f (ex_Answer x), ex_Duration x, ex_Asked x),
      s\<lparr>rn_History := ex_History x, rn_Delegated := fold Report (ex_Reported x) (rn_Delegated s),
         rn_Trace := rn_Trace s @ map DelegationReported (ex_Reported x)\<rparr>)"

definition executeTool :: "'h Tool \<Rightarrow> call_context \<Rightarrow> args \<Rightarrow>
    ('h, 'e, (string \<times> ContentPart list) tool_answer \<times> int \<times> Question list list) loop" where
  "executeTool tool ctx args = (\<lambda>s.
     case tl_ExecuteMultimodal tool of
       Some f \<Rightarrow> take_effect answer_parts (f (rn_Trace s) ctx args (rn_History s)) s
     | None \<Rightarrow> take_effect answer_text (tl_Execute tool (rn_Trace s) ctx args (rn_History s)) s)"

text \<open>The result is \<open>Inl\<close> the value of a panic. A panic leaves the call as it was.\<close>

definition executeCall :: "('h, 'e) RunLoopOpts \<Rightarrow> nat \<Rightarrow> 'h pendingCall \<Rightarrow> ('h, 'e, string + 'h pendingCall) loop" where
  "executeCall opts iter c =
     (if pc_decided c then retP (Inr c)
      else case pc_tool c of
        None \<Rightarrow> throwP NilDereference
      | Some tool \<Rightarrow>
          bindP (observe (Entered (pc_ID c) (pc_Name c) (pc_args c))) (\<lambda>_.
          bindP (executeTool tool \<lparr>cc_Iteration = iter, cc_ToolCall = pc_ID c\<rparr> (pc_args c)) (\<lambda>(answer, dur, asked).
          bindP (askAll opts (pc_ID c) asked) (\<lambda>_.
          case answer of
            Panicked msg \<Rightarrow> retP (Inl msg)
          | _ \<Rightarrow>
              let c = c\<lparr>pc_executed := True\<rparr>;
                  c = (case answer of
                         Returned (text, parts) \<Rightarrow> c\<lparr>pc_result := text, pc_parts := parts\<rparr>
                       | Failed msg \<Rightarrow> c\<lparr>pc_errKind := ToolErrorFailed, pc_result := ''error: '' @ msg\<rparr>
                       | Panicked msg \<Rightarrow> c);
                  c = (case op_RedactResult opts of None \<Rightarrow> c | Some f \<Rightarrow> c\<lparr>pc_result := f (pc_result c)\<rparr>)
              in bindP (emit opts ((toolEvent EventToolEnd c)\<lparr>ev_ToolResult := pc_result c, ev_ToolDuration := dur,
                   ev_ToolErrorKind := pc_errKind c\<rparr>)) (\<lambda>_. retP (Inr c))))))"

fun runInOrder :: "('h, 'e) RunLoopOpts \<Rightarrow> nat \<Rightarrow> 'h pendingCall list \<Rightarrow> ('h, 'e, 'h pendingCall list) loop" where
  "runInOrder opts iter [] = retP []"
| "runInOrder opts iter (c # cs) =
     bindP (executeCall opts iter c) (\<lambda>r.
     case r of
       Inl msg \<Rightarrow> throwP (ToolPanic (pc_Name c) msg)
     | Inr c' \<Rightarrow> bindP (runInOrder opts iter cs) (\<lambda>cs'. retP (c' # cs')))"

fun runParallel :: "'e runEnv \<Rightarrow> ('h, 'e) RunLoopOpts \<Rightarrow> nat \<Rightarrow> nat list \<Rightarrow> 'h pendingCall list \<Rightarrow> ('h, 'e, 'h pendingCall list) loop" where
  "runParallel env opts iter [] grp = retP grp"
| "runParallel env opts iter (i # order) grp =
     bindP (executeCall opts iter (grp ! i)) (\<lambda>r.
     let c = grp ! i;
         c' = (case r of
                 Inr c' \<Rightarrow> c'
               | Inl msg \<Rightarrow> c\<lparr>pc_result := ''error: tool '' @ re_Quote env (pc_Name c) @ '' panicked: '' @ msg,
                              pc_executed := True, pc_errKind := ToolErrorPanic\<rparr>)
     in runParallel env opts iter order (grp[i := c']))"

text \<open>The order in which the calls of a group take effect: every position once, in any order.\<close>

definition every_once :: "nat list \<Rightarrow> nat \<Rightarrow> nat list" where
  "every_once order n = (let o' = remdups (filter (\<lambda>i. i < n) order) in o' @ filter (\<lambda>i. i \<notin> set o') [0..<n])"

definition runGroup :: "'e runEnv \<Rightarrow> ('h, 'e) RunLoopOpts \<Rightarrow> nat \<Rightarrow> 'h pendingCall list \<Rightarrow> ('h, 'e, 'h pendingCall list) loop" where
  "runGroup env opts iter grp =
     (if op_MaxParallelTools opts < 1 \<or> length grp = 1 then runInOrder opts iter grp
      else bindP (getP rn_Trace) (\<lambda>tr.
           runParallel env opts iter (every_once (re_Schedule env tr) (length grp)) grp))"

subsection \<open>Committing a group\<close>

definition firePostHook :: "('h, 'e) RunLoopOpts \<Rightarrow> 'h pendingCall \<Rightarrow> ('h, 'e, unit) loop" where
  "firePostHook opts c =
     (if \<not> pc_executed c then retP ()
      else
        let failed = (pc_errKind c \<noteq> '''');
            inp = (baseHookInput opts (if failed then HookPostToolUseFailure else HookPostToolUse))
              \<lparr>hk_ToolName := pc_Name c, hk_ToolCallID := pc_ID c, hk_ToolArgs := Some (pc_args c),
               hk_ToolError := (if failed then pc_result c else ''''), hk_ToolResult := (if failed then '''' else pc_result c)\<rparr>
        in bindP (runHook opts inp) (\<lambda>_. retP ()))"

text \<open>The acc so far, and the error of the history that ended the commit.\<close>

fun commitGroup :: "('h, 'e) RunLoopOpts \<Rightarrow> 'h pendingCall list \<Rightarrow> int \<times> int \<Rightarrow> ('h, 'e, (int \<times> int) \<times> 'e option) loop" where
  "commitGroup opts [] (n, writes) = retP ((n, writes), None)"
| "commitGroup opts (c # cs) (n, writes) =
     bindP (firePostHook opts c) (\<lambda>_.
     bindP (appendToolOutcome opts c) (\<lambda>r.
     case r of
       Inl e \<Rightarrow> retP ((n, writes), Some e)
     | Inr _ \<Rightarrow> commitGroup opts cs (n + 1,
         if pc_executed c \<and> DeclaredAccess (pc_tool c) (pc_args c) = AccessWrite then writes + 1 else writes)))"

fun executeGroups :: "'e runEnv \<Rightarrow> ('h, 'e) RunLoopOpts \<Rightarrow> ToolPolicy \<Rightarrow> nat \<Rightarrow> 'h pendingCall list list \<Rightarrow> int \<times> int \<Rightarrow>
    ('h, 'e, (int \<times> int) \<times> 'e option) loop" where
  "executeGroups env opts policy iter [] acc = retP (acc, None)"
| "executeGroups env opts policy iter (grp # groups) acc =
     bindP (gateAll env opts policy grp) (\<lambda>gated.
     bindP (recordToolBoundary opts gated) (\<lambda>r.
     case r of
       Inl e \<Rightarrow> retP (acc, Some e)
     | Inr _ \<Rightarrow>
         bindP (runGroup env opts iter gated) (\<lambda>ran.
         bindP (commitGroup opts ran acc) (\<lambda>(acc', err).
         if err \<noteq> None then retP (acc', err) else executeGroups env opts policy iter groups acc'))))"

definition policyOf :: "('h, 'e) RunLoopOpts \<Rightarrow> ToolPolicy" where
  "policyOf opts = (case op_Policy opts of None \<Rightarrow> AllowAllPolicy | Some p \<Rightarrow> p)"

definition executeToolCalls :: "'e runEnv \<Rightarrow> ('h, 'e) RunLoopOpts \<Rightarrow> nat \<Rightarrow> ToolCall list \<Rightarrow> ('h, 'e, (int \<times> int) \<times> 'e option) loop" where
  "executeToolCalls env opts iter toolCalls =
     (let policy = policyOf opts
      in executeGroups env opts policy iter (groupCalls (parseCalls env opts toolCalls) (op_MaxParallelTools opts)) (0, 0))"

section \<open>Messages sent during the run\<close>

text \<open>What the user has sent since the last look waits in the queue; what a full queue refuses is lost to the run.\<close>

definition receive :: "'e runEnv \<Rightarrow> ('h, 'e, unit) loop" where
  "receive env = (\<lambda>s. (Inr (), s\<lparr>rn_Queue := fold (\<lambda>t q. snd (Enqueue t q)) (re_Arrivals env (rn_Trace s)) (rn_Queue s)\<rparr>))"

definition dequeueInput :: "('h, 'e, string option) loop" where
  "dequeueInput = (\<lambda>s. case Dequeue (rn_Queue s) of (t, q) \<Rightarrow> (Inr t, s\<lparr>rn_Queue := q\<rparr>))"

definition injectOne :: "('h, 'e) RunLoopOpts \<Rightarrow> nat \<Rightarrow> string \<Rightarrow> ('h, 'e, unit) loop" where
  "injectOne opts iter text =
     (if TrimSpace text = '''' then retP ()
      else bindP (runHook opts ((baseHookInput opts HookUserPromptSubmit)\<lparr>hk_Prompt := text\<rparr>)) (\<lambda>out.
        if Blocked out
        then emit opts ((event EventUserInputBlocked)\<lparr>ev_Iter := iter, ev_Content := text,
               ev_DenyReason := (if ho_Reason out = '''' then ''prompt blocked by hook'' else ho_Reason out)\<rparr>)
        else bindP (onHistory (hi_Append (op_History opts) (text_message ''user'' text))) (\<lambda>r.
             case r of
               Inl e \<Rightarrow> throwP (AppendQueued e)
             | Inr _ \<Rightarrow> emit opts ((event EventUserInput)\<lparr>ev_Iter := iter, ev_Content := text\<rparr>))))"

text \<open>The loop ends with an empty queue: every round takes one message out.\<close>

fun injectWaiting :: "('h, 'e) RunLoopOpts \<Rightarrow> nat \<Rightarrow> nat \<Rightarrow> ('h, 'e, unit) loop" where
  "injectWaiting opts iter 0 = retP ()"
| "injectWaiting opts iter (Suc waiting) =
     bindP dequeueInput (\<lambda>t.
     case t of
       None \<Rightarrow> retP ()
     | Some text \<Rightarrow> bindP (injectOne opts iter text) (\<lambda>_. injectWaiting opts iter waiting))"

definition injectPendingInput :: "'e runEnv \<Rightarrow> ('h, 'e) RunLoopOpts \<Rightarrow> nat \<Rightarrow> ('h, 'e, unit) loop" where
  "injectPendingInput env opts iter =
     (if \<not> op_PendingInput opts then retP ()
      else bindP (receive env) (\<lambda>_.
           bindP (getP (\<lambda>s. queueLen (rn_Queue s))) (\<lambda>waiting. injectWaiting opts iter (Suc waiting))))"

section \<open>Compaction\<close>

record CompactResult =
  cr_Summarized :: nat
  cr_Kept :: nat
  cr_Summary :: string
  cr_Reason :: string

definition Compacted :: "CompactResult \<Rightarrow> bool" where "Compacted r \<longleftrightarrow> cr_Summarized r > 0"

definition notCompacted :: "Message list \<Rightarrow> string \<Rightarrow> CompactResult" where
  "notCompacted history reason = \<lparr>cr_Summarized = 0, cr_Kept = length history, cr_Summary = '''', cr_Reason = reason\<rparr>"

definition windowOrZero :: "('h, 'e) RunLoopOpts \<Rightarrow> int" where
  "windowOrZero opts = (case op_LLMClient opts of None \<Rightarrow> 0 | Some c \<Rightarrow> lc_ContextWindow c)"

definition manualReserveTokens :: "('h, 'e) RunLoopOpts \<Rightarrow> int" where
  "manualReserveTokens opts =
     (let cw = windowOrZero opts in if cw \<le> 0 then defaultReserveTokens else manualCompactionReserve cw)"

definition takeCheckpoint :: "('h, 'e) RunLoopOpts \<Rightarrow> nat \<Rightarrow> Message list \<Rightarrow> ('h, 'e, unit) loop" where
  "takeCheckpoint opts iter discarded = (\<lambda>s.
     case op_Checkpointer opts of
       None \<Rightarrow> (Inr (), s)
     | Some f \<Rightarrow>
         (case f (rn_Trace s) iter discarded (rn_History s) of
            (ok, h) \<Rightarrow> (Inr (), s\<lparr>rn_History := h, rn_Trace := rn_Trace s @ [CheckpointTaken discarded ok]\<rparr>)))"

definition checkpointAndCompact :: "('h, 'e) RunLoopOpts \<Rightarrow> nat \<Rightarrow> string \<Rightarrow> Message list \<Rightarrow> ('h, 'e, string + (string \<times> Usage)) loop" where
  "checkpointAndCompact opts iter priorSummary toSummarize =
     bindP (takeCheckpoint opts iter toSummarize) (\<lambda>_.
     case op_Compactor opts of
       None \<Rightarrow> throwP NilDereference
     | Some f \<Rightarrow> (let msgs = withPriorSummary priorSummary toSummarize in ask (\<lambda>tr. f tr msgs) (CompactorCalled msgs)))"

definition recordCompaction :: "('h, 'e) RunLoopOpts \<Rightarrow> string \<Rightarrow> nat \<Rightarrow> ('h, 'e, 'e + unit) loop" where
  "recordCompaction opts summary n =
     (case hi_Compaction (op_History opts) of
        None \<Rightarrow> retP (Inr ())
      | Some (prior, add) \<Rightarrow> onHistory (add summary (int n)))"

definition chargeCall :: "('h, 'e) RunLoopOpts \<Rightarrow> Usage \<Rightarrow> ('h, 'e, Cost option) loop" where
  "chargeCall opts usage = (\<lambda>s. case addCall usage (op_Pricing opts) (rn_Stats s) of (cost, st) \<Rightarrow> (Inr cost, s\<lparr>rn_Stats := st\<rparr>))"

text \<open>The messages to continue with, and the result or the error of the pass.\<close>

definition compactOnce :: "('h, 'e) RunLoopOpts \<Rightarrow> nat \<Rightarrow> string \<Rightarrow> Message list \<Rightarrow> int \<Rightarrow>
    ('h, 'e, Message list \<times> ('e run_error + CompactResult)) loop" where
  "compactOnce opts iter priorSummary history reserveTokens =
     (case splitForCompaction history reserveTokens of (toSummarize, toKeep) \<Rightarrow>
        if toSummarize = [] then retP (history, Inr (notCompacted history ''nothing old enough to summarize''))
        else
          let sizes = (\<lambda>inp. inp\<lparr>hk_Summarized := length toSummarize, hk_Kept := length toKeep\<rparr>)
          in bindP (runHook opts (sizes (baseHookInput opts HookPreCompact))) (\<lambda>out.
             if Blocked out
             then retP (history, Inr (notCompacted history
                    (if ho_Reason out = '''' then ''blocked by a PreCompact hook'' else ho_Reason out)))
             else bindP (checkpointAndCompact opts iter priorSummary toSummarize) (\<lambda>r.
               case r of
                 Inl msg \<Rightarrow> retP (history, Inl (CompactorFailed msg))
               | Inr (text, usage) \<Rightarrow>
                   let summary = clampSummary text (maxSummaryChars (windowOrZero opts))
                   in bindP (recordCompaction opts summary (length toSummarize)) (\<lambda>recorded.
                      case recorded of
                        Inl e \<Rightarrow> retP (history, Inl (CompactionNotPersisted e))
                      | Inr _ \<Rightarrow>
                          bindP (chargeCall opts usage) (\<lambda>callCost.
                          bindP (emit opts ((event EventContextCompacted)\<lparr>ev_Iter := iter, ev_Summarized := length toSummarize,
                            ev_Kept := length toKeep, ev_CallUsage := usage, ev_CallCost := callCost\<rparr>)) (\<lambda>_.
                          bindP (runHook opts ((sizes (baseHookInput opts HookPostCompact))\<lparr>hk_Summary := summary\<rparr>)) (\<lambda>_.
                          retP (toKeep, Inr \<lparr>cr_Summarized = length toSummarize, cr_Kept = length toKeep, cr_Summary = summary,
                            cr_Reason = ''''\<rparr>))))))))"

definition PriorSummary :: "('h, 'e) RunLoopOpts \<Rightarrow> ('h, 'e, string) loop" where
  "PriorSummary opts =
     (case hi_Compaction (op_History opts) of None \<Rightarrow> retP '''' | Some (prior, add) \<Rightarrow> getP (\<lambda>s. prior (rn_History s)))"

definition historyMessages :: "('h, 'e) RunLoopOpts \<Rightarrow> ('h, 'e, Message list) loop" where
  "historyMessages opts = getP (\<lambda>s. hi_Messages (op_History opts) (rn_History s))"

text \<open>On demand, outside a run: the statistics are those of the state.\<close>

definition Compact :: "('h, 'e) RunLoopOpts \<Rightarrow> ('h, 'e, CompactResult) loop" where
  "Compact opts =
     bindP (modifyRun (rn_Stats_update (\<lambda>_. zeroStats))) (\<lambda>_.
     if op_Compactor opts = None then throwP NoCompactor
     else bindP (PriorSummary opts) (\<lambda>priorSummary.
          bindP (historyMessages opts) (\<lambda>history.
          bindP (compactOnce opts 0 priorSummary history (manualReserveTokens opts)) (\<lambda>(kept, res). liftE res))))"

definition system_message :: "string \<Rightarrow> Message" where
  "system_message = text_message ''system''"

definition compactIfFull :: "('h, 'e) RunLoopOpts \<Rightarrow> nat \<Rightarrow> string \<Rightarrow> Message list \<Rightarrow> ('h, 'e, Message list \<times> string) loop" where
  "compactIfFull opts iter compactionSummary history =
     (if op_Compactor opts = None then retP (history, compactionSummary)
      else bindP (contextWindow opts) (\<lambda>cw.
        if cw > 0 \<and> EstimateMessageTokens (system_message (op_SystemPrompt opts)) + EstimateTokens history > compactionThreshold cw
        then bindP (compactOnce opts iter compactionSummary history (compactionReserve cw)) (\<lambda>(kept, res).
             case res of
               Inl (CompactionNotPersisted e) \<Rightarrow> throwP (CompactionNotPersisted e)
             | Inl _ \<Rightarrow> retP (history, compactionSummary)
             | Inr r \<Rightarrow> retP (if Compacted r then (kept, cr_Summary r) else (history, compactionSummary)))
        else retP (history, compactionSummary)))"

section \<open>Calling the model\<close>

definition sessionStateMessages :: "('h, 'e) RunLoopOpts \<Rightarrow> 'h run \<Rightarrow> Message list" where
  "sessionStateMessages opts s =
     (let (notes, todos) = (case hi_Notes (op_History opts) of None \<Rightarrow> ([], []) | Some (n, t) \<Rightarrow> (n (rn_History s), t (rn_History s)));
          memory = (case op_Memory opts of None \<Rightarrow> '''' | Some f \<Rightarrow> RenderMemoryIndex (f (rn_Trace s)));
          block = RenderSessionState (op_Invariants opts) notes todos
      in (if memory \<noteq> '''' then [text_message ''user'' memory] else []) @ (if block \<noteq> '''' then [text_message ''user'' block] else []))"

definition assembleMessages :: "string \<Rightarrow> Message list \<Rightarrow> Message list \<Rightarrow> Message list" where
  "assembleMessages systemPrompt history stateMsg = system_message systemPrompt # history @ stateMsg"

fun streamDeltas :: "('h, 'e) RunLoopOpts \<Rightarrow> string list \<Rightarrow> ('h, 'e, unit) loop" where
  "streamDeltas opts [] = retP ()"
| "streamDeltas opts (d # ds) =
     bindP (observe (StreamDelta d)) (\<lambda>_.
     bindP (emit opts ((event EventLLMDelta)\<lparr>ev_Content := d\<rparr>)) (\<lambda>_. streamDeltas opts ds))"

definition sendRequest :: "('h, 'e) RunLoopOpts \<Rightarrow> bool option \<Rightarrow> Request \<Rightarrow> ('h, 'e, string + Completion) loop" where
  "sendRequest opts sink req =
     (case op_LLMClient opts of
        None \<Rightarrow> throwP NilDereference
      | Some client \<Rightarrow>
          bindP (observe (ModelCalled req)) (\<lambda>_.
          case sink of
            None \<Rightarrow> ask (\<lambda>tr. lc_Blocking client tr req) ModelAnswered
          | Some ends \<Rightarrow>
              bindP (getP (\<lambda>s. lc_Streaming client (rn_Trace s) req)) (\<lambda>(deltas, completion).
              bindP (streamDeltas opts deltas) (\<lambda>_.
              bindP (if ends then observe StreamEnded else retP ()) (\<lambda>_.
              bindP (observe (ModelAnswered completion)) (\<lambda>_. retP completion))))))"

definition callLLM :: "('h, 'e) RunLoopOpts \<Rightarrow> Message list \<Rightarrow> string \<Rightarrow> nat \<Rightarrow> ('h, 'e, string + Completion) loop" where
  "callLLM opts history systemPrompt iter =
     bindP (getP (sessionStateMessages opts)) (\<lambda>stateMsg.
     bindP (contextWindow opts) (\<lambda>cw.
     bindP (getP rn_Stats) (\<lambda>stats.
       let systemTokens = EstimateMessageTokens (system_message systemPrompt) + EstimateTokens stateMsg;
           history = (if cw > 0 then TrimHistory history systemTokens cw 0 else history)
       in bindP (emit opts ((event EventLLMStart)\<lparr>ev_Iter := iter, ev_ContextTokens := systemTokens + EstimateTokens history,
            ev_ContextWindow := cw, ev_PromptTokens := rs_PromptTokens stats, ev_CompletionTokens := rs_CompletionTokens stats,
            ev_CacheReadTokens := rs_CacheReadTokens stats, ev_CacheWriteTokens := rs_CacheWriteTokens stats\<rparr>)) (\<lambda>_.
          sendRequest opts (op_StreamSink opts)
            \<lparr>rq_Messages = assembleMessages systemPrompt history stateMsg, rq_Tools = GetDefs (op_ToolRegistry opts),
             rq_Profile = ProfileAgentTurn, rq_CacheScope = '''', rq_Output = None\<rparr>))))"

definition extractStructured :: "('h, 'e) RunLoopOpts \<Rightarrow> string \<Rightarrow> ('h, 'e, Structured) loop" where
  "extractStructured opts systemPrompt =
     bindP (historyMessages opts) (\<lambda>history.
     bindP (contextWindow opts) (\<lambda>cw.
     bindP (getP (sessionStateMessages opts)) (\<lambda>stateMsg.
       let history = (if cw > 0 then TrimHistory history (EstimateMessageTokens (system_message systemPrompt)) cw 0 else history)
       in bindP (sendRequest opts None
            \<lparr>rq_Messages = assembleMessages systemPrompt history stateMsg, rq_Tools = [], rq_Profile = ProfileProbe,
             rq_CacheScope = '''', rq_Output = op_Output opts\<rparr>) (\<lambda>r.
          case r of
            Inl msg \<Rightarrow> retP (structuredFailure (''structured-output extraction call failed: '' @ msg))
          | Inr completion \<Rightarrow>
              bindP (chargeCall opts (cm_Usage completion)) (\<lambda>_.
              retP (case cm_Structured completion of
                      None \<Rightarrow> structuredFailure ''provider returned no structured value''
                    | Some v \<Rightarrow> v))))))"

section \<open>RunLoop\<close>

definition absorbDelegated :: "('h, 'e, unit) loop" where
  "absorbDelegated = (\<lambda>s. case Drain (rn_Delegated s) of (d, rest) \<Rightarrow>
     (Inr (), s\<lparr>rn_Stats := absorb d (rn_Stats s), rn_Delegated := rest\<rparr>))"

definition appendMessage :: "('h, 'e) RunLoopOpts \<Rightarrow> Message \<Rightarrow> ('h, 'e, unit) loop" where
  "appendMessage opts m =
     bindP (onHistory (hi_Append (op_History opts) m)) (\<lambda>r. case r of Inl e \<Rightarrow> throwP (HistoryFailed e) | Inr _ \<Rightarrow> retP ())"

text \<open>The tool calls of one answer: the counts and the delegated spend are added on every way out.\<close>

definition runToolCalls :: "'e runEnv \<Rightarrow> ('h, 'e) RunLoopOpts \<Rightarrow> nat \<Rightarrow> ToolCall list \<Rightarrow> ('h, 'e, unit) loop" where
  "runToolCalls env opts iter toolCalls =
     bindP (executeToolCalls env opts iter toolCalls) (\<lambda>(acc, err).
     bindP (modifyRun (rn_Stats_update (\<lambda>st. st\<lparr>rs_ToolCalls := rs_ToolCalls st + fst acc,
       rs_WriteToolCalls := rs_WriteToolCalls st + snd acc\<rparr>))) (\<lambda>_.
     bindP absorbDelegated (\<lambda>_.
     case err of None \<Rightarrow> retP () | Some e \<Rightarrow> throwP (HistoryFailed e))))"

definition paragraphs :: "string list \<Rightarrow> string" where
  "paragraphs texts = Join texts [newline, newline]"

text \<open>What an iteration comes to: the reply and the structured value of a finished run, or what the next goes on with.\<close>

datatype turn = Finished string "Structured option" | Continue "string list" string

definition answerTurn :: "'e runEnv \<Rightarrow> ('h, 'e) RunLoopOpts \<Rightarrow> nat \<Rightarrow> string \<Rightarrow> string list \<Rightarrow> string \<Rightarrow> Completion \<Rightarrow> ('h, 'e, turn) loop" where
  "answerTurn env opts iter systemPrompt texts compactionSummary completion =
     (let content = cm_Content completion; toolCalls = cm_ToolCalls completion;
          texts = (if content \<noteq> '''' then texts @ [content] else texts)
      in bindP (chargeCall opts (cm_Usage completion)) (\<lambda>callCost.
         bindP (if content \<noteq> '''' \<and> toolCalls \<noteq> [] \<and> op_StreamSink opts \<noteq> None then observe (StreamDelta [newline, newline]) else retP ()) (\<lambda>_.
         bindP (getP rn_Stats) (\<lambda>stats.
         bindP (emit opts ((event EventLLMEnd)\<lparr>ev_Iter := iter, ev_Content := content, ev_HasToolCalls := (toolCalls \<noteq> []),
           ev_PromptTokens := rs_PromptTokens stats, ev_CompletionTokens := rs_CompletionTokens stats,
           ev_CacheReadTokens := rs_CacheReadTokens stats, ev_CacheWriteTokens := rs_CacheWriteTokens stats,
           ev_CallUsage := cm_Usage completion, ev_CallCost := callCost\<rparr>)) (\<lambda>_.
         bindP (appendMessage opts (AssistantMessage completion)) (\<lambda>_.
         if toolCalls = []
         then bindP (if op_Output opts = None then retP None
                     else bindP (extractStructured opts systemPrompt) (\<lambda>v. retP (Some v))) (\<lambda>structured.
              bindP (endRun env opts None) (\<lambda>_. retP (Finished (paragraphs texts) structured)))
         else bindP (runToolCalls env opts iter toolCalls) (\<lambda>_.
              bindP (getP rn_Yielded) (\<lambda>yielded.
              if yielded then bindP (endRun env opts None) (\<lambda>_. retP (Finished (paragraphs texts) None))
              else retP (Continue texts compactionSummary)))))))))"

definition iteration :: "'e runEnv \<Rightarrow> ('h, 'e) RunLoopOpts \<Rightarrow> nat \<Rightarrow> string list \<Rightarrow> string \<Rightarrow> ('h, 'e, turn) loop" where
  "iteration env opts iter texts compactionSummary =
     bindP (emit opts ((event EventIterStart)\<lparr>ev_Iter := iter\<rparr>)) (\<lambda>_.
     bindP (injectPendingInput env opts iter) (\<lambda>_.
     bindP (historyMessages opts) (\<lambda>history.
     bindP (compactIfFull opts iter compactionSummary history) (\<lambda>(history, compactionSummary).
       let systemPrompt = op_SystemPrompt opts @ RenderCompactionBlock compactionSummary
       in bindP (callLLM opts history systemPrompt iter) (\<lambda>r.
          case r of
            Inr completion \<Rightarrow> answerTurn env opts iter systemPrompt texts compactionSummary completion
          | Inl msg \<Rightarrow>
              bindP (getP (\<lambda>s. re_Cancelled env (rn_Trace s))) (\<lambda>cancelled.
              if cancelled then bindP (endRun env opts None) (\<lambda>_. retP (Finished (paragraphs texts) None))
              else bindP (endRun env opts (Some (LLMCall msg))) (\<lambda>_. throwP (LLMCall msg))))))))"

fun iterations :: "'e runEnv \<Rightarrow> ('h, 'e) RunLoopOpts \<Rightarrow> nat \<Rightarrow> nat \<Rightarrow> string list \<Rightarrow> string \<Rightarrow> ('h, 'e, string \<times> Structured option) loop" where
  "iterations env opts 0 i texts compactionSummary =
     bindP (endRun env opts (Some MaxIterations)) (\<lambda>_. throwP MaxIterations)"
| "iterations env opts (Suc left) i texts compactionSummary =
     bindP (iteration env opts (i + 1) texts compactionSummary) (\<lambda>t.
     case t of
       Finished reply structured \<Rightarrow> retP (reply, structured)
     | Continue texts' summary' \<Rightarrow> iterations env opts left (i + 1) texts' summary')"

text \<open>The statistics the code returns beside the reply or the error are those of the final state.\<close>

definition RunLoop :: "'e runEnv \<Rightarrow> ('h, 'e) RunLoopOpts \<Rightarrow> ('h, 'e, string \<times> Structured option) loop" where
  "RunLoop env opts =
     bindP (modifyRun (\<lambda>s. s\<lparr>rn_Stats := zeroStats, rn_Delegated := noDelegation, rn_Yielded := False,
       rn_Guard := newLoopGuard defaultMaxRepeatedCalls\<rparr>)) (\<lambda>_.
     bindP (PriorSummary opts) (\<lambda>compactionSummary.
     iterations env opts (nat (op_MaxIter opts)) 0 [] compactionSummary))"

text \<open>\<open>ExecuteTool\<close>, one call outside a run: its answer, an error text included; \<open>Inl\<close> a panic.\<close>

definition ExecuteTool :: "'e runEnv \<Rightarrow> 'h Tool \<Rightarrow> ToolCall \<Rightarrow> ('h, 'e, string + string) loop" where
  "ExecuteTool env tool tc =
     (case (if tc_Arguments tc = '''' then Inr None else re_Unmarshal env (tc_Arguments tc)) of
        Inl msg \<Rightarrow> retP (Inr (''error: invalid arguments: '' @ msg))
      | Inr args \<Rightarrow> (\<lambda>s.
          case take_effect id (tl_Execute tool (rn_Trace s) \<lparr>cc_Iteration = 0, cc_ToolCall = ''''\<rparr>
                 (case args of None \<Rightarrow> [] | Some a \<Rightarrow> a) (rn_History s)) s of
            (Inl e, s') \<Rightarrow> (Inl e, s')
          | (Inr (answer, _), s') \<Rightarrow>
              (Inr (case answer of Returned text \<Rightarrow> Inr text | Failed msg \<Rightarrow> Inr (''error: '' @ msg) | Panicked msg \<Rightarrow> Inl msg), s')))"

end
