(* ===== verification/Agent_Safety.thy ===== *)
theory Agent_Safety
  imports Agent_Loop
begin

text \<open>
  What a run may do: the steps that only tell or ask (\<open>quiet\<close>), and the law that a tool is entered only after its call
  has passed the gate and its start has been recorded. The law is a statement about the trace; \<open>advances\<close> is the
  relation all steps of a run move along while they keep it.
\<close>

section \<open>Quiet steps\<close>

fun harmless :: "trace \<Rightarrow> bool" where
  "harmless (Entered i n a) = False"
| "harmless (ModelCalled r) = False"
| "harmless (ModelAnswered r) = False"
| "harmless (BoundaryRecorded ss) = False"
| "harmless _ = True"

definition quiet :: "'h run \<Rightarrow> 'h run \<Rightarrow> bool" where
  "quiet s s' \<longleftrightarrow> rn_History s' = rn_History s \<and> rn_Grants s' = rn_Grants s
     \<and> (\<exists>ext. rn_Trace s' = rn_Trace s @ ext \<and> list_all harmless ext)"

lemma quiet_refl: "quiet s s"
  by (simp add: quiet_def)

lemma quiet_trans: "quiet s t \<Longrightarrow> quiet t u \<Longrightarrow> quiet s u"
  by (auto simp: quiet_def)

interpretation quiet: step_relation quiet
  by unfold_locales (auto intro: quiet_refl quiet_trans)

definition quietly :: "('h, 'e, 'a) loop \<Rightarrow> bool" where
  "quietly m \<longleftrightarrow> (\<forall>s. quiet s (snd (m s)))"

named_theorems quiet_intros

lemma quietly_runs: "quietly m \<longleftrightarrow> runs quiet (\<lambda>_. True) m (\<lambda>_ _. True)"
  by (simp add: quietly_def runs_def)

lemma quietly_bindP [quiet_intros]: "quietly m \<Longrightarrow> (\<And>x. quietly (f x)) \<Longrightarrow> quietly (bindP m f)"
  unfolding quietly_runs by (rule quiet.runs_bindP)

lemma quietly_basic [quiet_intros]:
  "quietly (retP x)" "quietly (throwP e)" "quietly (getP f)"
  by (simp_all add: quietly_def prog_simps quiet_refl)

lemma quietly_observe [quiet_intros]: "harmless t \<Longrightarrow> quietly (observe t)"
  by (simp add: quietly_def observe_def quiet_def)

lemma quietly_ask [quiet_intros]: "(\<And>a. harmless (t a)) \<Longrightarrow> quietly (ask f t)"
  by (simp add: quietly_def ask_def quiet_def Let_def)

lemma quietly_emit [quiet_intros]: "quietly (emit opts e)"
  by (simp add: emit_def quiet_intros)

lemma quietly_runHook [quiet_intros]: "quietly (runHook opts inp)"
  by (cases "op_Hooks opts") (simp_all add: runHook_def quiet_intros)

lemma quietly_option [quiet_intros]:
  "quietly m \<Longrightarrow> (\<And>x. quietly (f x)) \<Longrightarrow> quietly (case x of None \<Rightarrow> m | Some y \<Rightarrow> f y)"
  by (cases x) simp_all

lemma quietly_if [quiet_intros]: "quietly m \<Longrightarrow> quietly n \<Longrightarrow> quietly (if b then m else n)"
  by simp

lemma quietly_fireNotification [quiet_intros]: "quietly (fireNotification opts kind name i a reason)"
  unfolding fireNotification_def by (intro quiet_intros)

lemma quietly_endRun [quiet_intros]: "quietly (endRun env opts err)"
  unfolding endRun_def fireRunEndHook_def by (intro quiet_intros)

lemma quietly_modifyRun:
  "(\<And>s. rn_History (f s) = rn_History s \<and> rn_Grants (f s) = rn_Grants s \<and> rn_Trace (f s) = rn_Trace s) \<Longrightarrow> quietly (modifyRun f)"
  by (simp add: quietly_def modifyRun_def quiet_def)

lemma quietly_AskUser [quiet_intros]: "quietly (AskUser opts i qs)"
  unfolding AskUser_def by (intro quiet_intros quietly_modifyRun) simp_all

lemma quietly_askAll [quiet_intros]: "quietly (askAll opts i qss)"
  by (induction qss) (simp_all add: quiet_intros)

lemma quietly_countCall [quiet_intros]: "quietly (countCall fp)"
  by (simp add: quietly_def countCall_def quiet_def split: prod.splits)

lemma quietly_deny [quiet_intros]: "quietly (deny opts c reason result)"
  unfolding deny_def by (intro quiet_intros)

lemma quietly_firePostHook [quiet_intros]: "quietly (firePostHook opts c)"
  unfolding firePostHook_def Let_def by (intro quiet_intros)

lemma quietly_receive [quiet_intros]: "quietly (receive env)"
  by (simp add: quietly_def receive_def quiet_def)

lemma quietly_dequeueInput [quiet_intros]: "quietly dequeueInput"
  by (simp add: quietly_def dequeueInput_def quiet_def split: prod.splits)

lemma quietly_chargeCall [quiet_intros]: "quietly (chargeCall opts usage)"
  by (simp add: quietly_def chargeCall_def quiet_def split: prod.splits)

lemma quietly_absorbDelegated [quiet_intros]: "quietly absorbDelegated"
  by (simp add: quietly_def absorbDelegated_def Drain_def quiet_def)

lemma quietly_contextWindow [quiet_intros]: "quietly (contextWindow opts)"
  unfolding contextWindow_def by (intro quiet_intros)

lemma quietly_historyMessages [quiet_intros]: "quietly (historyMessages opts)"
  unfolding historyMessages_def by (intro quiet_intros)

lemma quietly_PriorSummary [quiet_intros]: "quietly (PriorSummary opts)"
  unfolding PriorSummary_def by (cases "hi_Compaction (op_History opts)") (auto intro: quiet_intros)

lemma quietly_streamDeltas [quiet_intros]: "quietly (streamDeltas opts ds)"
  by (induction ds) (auto intro!: quiet_intros)

lemma runs_stable: "(\<And>s. R s (snd (m s))) \<Longrightarrow> stable R P \<Longrightarrow> runs R P m (\<lambda>_. P)"
  by (rule runsI) (auto dest: stableD)

text \<open>A relation that quiet steps respect: what quiet steps do not disturb can be carried along them.\<close>

locale run_relation = step_relation R for R :: "'h run \<Rightarrow> 'h run \<Rightarrow> bool" +
  assumes quiet_step: "quiet s s' \<Longrightarrow> R s s'"
begin

lemma runs_quietly: "quietly m \<Longrightarrow> stable R P \<Longrightarrow> runs R P m (\<lambda>_. P)"
  by (rule runsI) (auto simp: quietly_def dest: stableD intro: quiet_step)

lemma runs_quietly_post: "quietly m \<Longrightarrow> (\<And>s x. P s \<Longrightarrow> fst (m s) = Inr x \<Longrightarrow> Q x (snd (m s))) \<Longrightarrow> runs R P m Q"
  by (rule runsI) (auto simp: quietly_def intro: quiet_step)

lemma runs_then: "quietly m \<Longrightarrow> stable R P \<Longrightarrow> (\<And>x. runs R P (f x) Q) \<Longrightarrow> runs R P (bindP m f) Q"
  by (rule runs_bindP [OF runs_quietly])

end

end
