(* ===== verification/Agent_Gate.thy ===== *)
theory Agent_Gate
  imports Agent_Safety
begin

text \<open>
  The gate and the boundary: in every run a tool is entered only if the registry knows it, the permission layers
  allowed the call or a user did, no hook blocked it, and, on a durable history, its start was recorded before.
\<close>

section \<open>The law of the trace\<close>

definition session_approved :: "string \<Rightarrow> trace list \<Rightarrow> bool" where
  "session_approved scope seen =
     list_ex (\<lambda>t. case t of ApprovalAsked n a target d \<Rightarrow> d = ApprovalAllowSession \<and> grantScope n target = scope | _ \<Rightarrow> False) seen"

definition user_approved :: "string \<Rightarrow> args \<Rightarrow> string \<Rightarrow> trace list \<Rightarrow> bool" where
  "user_approved name a target seen =
     list_ex (\<lambda>t. case t of ApprovalAsked n b tg d \<Rightarrow> d \<noteq> ApprovalDeny \<and> n = name \<and> b = a \<and> tg = target | _ \<Rightarrow> False) seen"

definition permitted :: "('h, 'e) RunLoopOpts \<Rightarrow> SessionGrants \<Rightarrow> trace list \<Rightarrow> 'h Tool \<Rightarrow> string \<Rightarrow> args \<Rightarrow> bool" where
  "permitted opts g0 seen tool name a =
     (let target = grantTarget tool a; scope = grantScope name target;
          action = resolveAction (Some (policyOf opts)) tool name scope a (interactive opts)
      in action = ToolActionAllow
         \<or> action = ToolActionAsk \<and> (granted scope g0 \<or> session_approved scope seen \<or> user_approved name a target seen))"

definition hook_passed :: "('h, 'e) RunLoopOpts \<Rightarrow> trace list \<Rightarrow> string \<Rightarrow> string \<Rightarrow> args \<Rightarrow> bool" where
  "hook_passed opts seen i name a \<longleftrightarrow> op_Hooks opts = None \<or>
     list_ex (\<lambda>t. case t of
         HookRan inp out \<Rightarrow> hk_Event inp = HookPreToolUse \<and> hk_ToolName inp = name \<and> hk_ToolCallID inp = i
           \<and> hk_ToolArgs inp = Some a \<and> \<not> Blocked out
       | _ \<Rightarrow> False) seen"

definition start_recorded :: "('h, 'e) RunLoopOpts \<Rightarrow> trace list \<Rightarrow> string \<Rightarrow> string \<Rightarrow> bool" where
  "start_recorded opts seen i name \<longleftrightarrow> hi_Boundary (op_History opts) = None \<or>
     list_ex (\<lambda>t. case t of BoundaryRecorded starts \<Rightarrow> (i, name) \<in> set starts | _ \<Rightarrow> False) seen"

definition let_through :: "('h, 'e) RunLoopOpts \<Rightarrow> SessionGrants \<Rightarrow> trace list \<Rightarrow> string \<Rightarrow> string \<Rightarrow> args \<Rightarrow> bool" where
  "let_through opts g0 seen i name a \<longleftrightarrow>
     (case Lookup (op_ToolRegistry opts) name of None \<Rightarrow> False | Some tool \<Rightarrow> permitted opts g0 seen tool name a)
     \<and> hook_passed opts seen i name a"

definition cleared :: "('h, 'e) RunLoopOpts \<Rightarrow> SessionGrants \<Rightarrow> trace list \<Rightarrow> string \<Rightarrow> string \<Rightarrow> args \<Rightarrow> bool" where
  "cleared opts g0 seen i name a \<longleftrightarrow> let_through opts g0 seen i name a \<and> start_recorded opts seen i name"

definition lawful :: "('h, 'e) RunLoopOpts \<Rightarrow> SessionGrants \<Rightarrow> trace list \<Rightarrow> bool" where
  "lawful opts g0 tr \<longleftrightarrow> (\<forall>pre i name a post. tr = pre @ Entered i name a # post \<longrightarrow> cleared opts g0 pre i name a)"

lemma seen_mono:
  "session_approved scope seen \<Longrightarrow> session_approved scope (seen @ ext)"
  "user_approved name a target seen \<Longrightarrow> user_approved name a target (seen @ ext)"
  "permitted opts g0 seen tool name a \<Longrightarrow> permitted opts g0 (seen @ ext) tool name a"
  "hook_passed opts seen i name a \<Longrightarrow> hook_passed opts (seen @ ext) i name a"
  "start_recorded opts seen i name \<Longrightarrow> start_recorded opts (seen @ ext) i name"
  "let_through opts g0 seen i name a \<Longrightarrow> let_through opts g0 (seen @ ext) i name a"
  by (auto simp: session_approved_def user_approved_def permitted_def hook_passed_def start_recorded_def let_through_def
      Let_def split: option.splits)

lemma lawful_snoc:
  "lawful opts g0 (tr @ [t]) \<longleftrightarrow> lawful opts g0 tr \<and> (\<forall>i name a. t = Entered i name a \<longrightarrow> cleared opts g0 tr i name a)"
proof -
  have "(\<exists>post. tr @ [t] = pre @ x # post) \<longleftrightarrow> (\<exists>post. tr = pre @ x # post) \<or> pre = tr \<and> x = t" for pre x
  proof
    assume "\<exists>post. tr @ [t] = pre @ x # post"
    then obtain post where "tr @ [t] = pre @ x # post" by blast
    then show "(\<exists>post. tr = pre @ x # post) \<or> pre = tr \<and> x = t" by (cases post rule: rev_cases) auto
  qed auto
  then show ?thesis unfolding lawful_def by (metis (no_types, lifting))
qed

lemma lawful_append: "lawful opts g0 tr \<Longrightarrow> (\<And>i name a. Entered i name a \<notin> set ext) \<Longrightarrow> lawful opts g0 (tr @ ext)"
proof (induction ext rule: rev_induct)
  case (snoc t ext)
  then have "lawful opts g0 (tr @ ext)" by simp
  then have "lawful opts g0 ((tr @ ext) @ [t])" using snoc.prems(2) by (auto simp: lawful_snoc simp del: append_assoc)
  then show ?case by simp
qed simp

section \<open>Steps that keep the law\<close>

definition justified :: "SessionGrants \<Rightarrow> 'h run \<Rightarrow> bool" where
  "justified g0 s \<longleftrightarrow> (\<forall>scope. granted scope (rn_Grants s) \<longrightarrow> granted scope g0 \<or> session_approved scope (rn_Trace s))"

definition law_abiding :: "('h, 'e) RunLoopOpts \<Rightarrow> SessionGrants \<Rightarrow> 'h run \<Rightarrow> bool" where
  "law_abiding opts g0 s \<longleftrightarrow> lawful opts g0 (rn_Trace s) \<and> justified g0 s"

definition advances :: "('h, 'e) RunLoopOpts \<Rightarrow> SessionGrants \<Rightarrow> 'h run \<Rightarrow> 'h run \<Rightarrow> bool" where
  "advances opts g0 s s' \<longleftrightarrow> (\<exists>ext. rn_Trace s' = rn_Trace s @ ext) \<and> (law_abiding opts g0 s \<longrightarrow> law_abiding opts g0 s')"

lemma advances_refl: "advances opts g0 s s"
  unfolding advances_def by (metis append_Nil2)

lemma advances_trans: "advances opts g0 s t \<Longrightarrow> advances opts g0 t u \<Longrightarrow> advances opts g0 s u"
  unfolding advances_def by (metis append.assoc)

lemma advances_harmless:
  assumes "rn_Grants s' = rn_Grants s" "rn_Trace s' = rn_Trace s @ ext" "\<And>i name a. Entered i name a \<notin> set ext"
  shows "advances opts g0 s s'"
proof -
  have "lawful opts g0 (rn_Trace s')" if "lawful opts g0 (rn_Trace s)"
    using lawful_append [OF that assms(3)] assms(2) by simp
  moreover have "justified g0 s'" if "justified g0 s"
    using that seen_mono(1) unfolding justified_def assms(1,2) by blast
  ultimately show ?thesis using assms(2) by (simp add: advances_def law_abiding_def)
qed

lemma advances_quiet: "quiet s s' \<Longrightarrow> advances opts g0 s s'"
  by (auto simp: quiet_def list_all_iff intro!: advances_harmless)

interpretation law: run_relation "advances opts g0" for opts g0
  by unfold_locales (rule advances_refl, erule (1) advances_trans, erule advances_quiet)

lemma stable_seen [stable_intros]:
  "stable (advances opts g0) (law_abiding opts g0)"
  "stable (advances opts g0) (\<lambda>s. permitted opts g1 (rn_Trace s) tool name a)"
  "stable (advances opts g0) (\<lambda>s. let_through opts g1 (rn_Trace s) i name a)"
  "stable (advances opts g0) (\<lambda>s. start_recorded opts (rn_Trace s) i name)"
  by (auto simp: stable_def advances_def intro: seen_mono)

lemma stable_in_trace [stable_intros]: "stable (advances opts g0) (\<lambda>s. t \<in> set (rn_Trace s))"
  by (auto simp: stable_def advances_def)

lemma runs_history: "stable (advances opts g0) P \<Longrightarrow> runs (advances opts g0) P (onHistory m) (\<lambda>_. P)"
  by (rule runs_stable) (auto simp: onHistory_def split: prod.splits intro!: advances_harmless)

section \<open>The gate\<close>

definition parsed :: "('h, 'e) RunLoopOpts \<Rightarrow> 'h pendingCall \<Rightarrow> bool" where
  "parsed opts c \<longleftrightarrow> pc_decided c \<or> pc_tool c = Lookup (op_ToolRegistry opts) (pc_Name c)"

definition gate_passed :: "('h, 'e) RunLoopOpts \<Rightarrow> SessionGrants \<Rightarrow> 'h pendingCall \<Rightarrow> 'h run \<Rightarrow> bool" where
  "gate_passed opts g0 c s \<longleftrightarrow> pc_decided c \<or> let_through opts g0 (rn_Trace s) (pc_ID c) (pc_Name c) (pc_args c)"

definition gate_result :: "('h, 'e) RunLoopOpts \<Rightarrow> SessionGrants \<Rightarrow> 'h pendingCall \<Rightarrow> 'h pendingCall \<Rightarrow> 'h run \<Rightarrow> bool" where
  "gate_result opts g0 c c' s \<longleftrightarrow> law_abiding opts g0 s \<and> gate_passed opts g0 c' s \<and> parsed opts c' \<and> pc_call c' = pc_call c"

lemma stable_gate_passed [stable_intros]: "stable (advances opts g0) (gate_passed opts g0 c)"
  by (auto simp: stable_def advances_def gate_passed_def intro: seen_mono)

lemma runs_deny:
  "runs (advances opts g0) (law_abiding opts g0) (deny opts c reason result) (gate_result opts g0 c)"
  unfolding deny_def
  by (rule law.runs_then [OF quietly_emit stable_seen(1) law.runs_retP]) (simp add: gate_result_def gate_passed_def parsed_def)

lemma runs_runHook:
  assumes "stable (advances opts g0) P"
  shows "runs (advances opts g0) P (runHook opts inp) (\<lambda>out s. P s \<and> (op_Hooks opts = None \<or> HookRan inp out \<in> set (rn_Trace s)))"
proof (rule law.runs_quietly_post [OF quietly_runHook])
  fix s out assume P: "P s" and out: "fst (runHook opts inp s) = Inr out"
  have "advances opts g0 s (snd (runHook opts inp s))"
    using quietly_runHook by (auto simp: quietly_def intro: law.quiet_step)
  then have "P (snd (runHook opts inp s))" using stableD [OF assms P] by blast
  then show "P (snd (runHook opts inp s)) \<and> (op_Hooks opts = None \<or> HookRan inp out \<in> set (rn_Trace (snd (runHook opts inp s))))"
    using out by (cases "op_Hooks opts") (auto simp: runHook_def ask_def prog_simps Let_def)
qed

lemma runs_preToolUse:
  assumes tool: "Lookup (op_ToolRegistry opts) (pc_Name c) = Some tool" and c: "parsed opts c"
  shows "runs (advances opts g0) (\<lambda>s. law_abiding opts g0 s \<and> permitted opts g0 (rn_Trace s) tool (pc_Name c) (pc_args c))
    (preToolUse env opts c) (gate_result opts g0 c)"
  unfolding preToolUse_def Let_def
proof (rule law.runs_bindP [OF runs_runHook], (intro stable_intros)+, rule law.runs_if)
  fix out assume "\<not> Blocked out"
  then show "runs (advances opts g0) (\<lambda>s. (law_abiding opts g0 s \<and> permitted opts g0 (rn_Trace s) tool (pc_Name c) (pc_args c)) \<and>
      (op_Hooks opts = None \<or> HookRan ((baseHookInput opts HookPreToolUse)\<lparr>hk_ToolName := pc_Name c, hk_ToolCallID := pc_ID c,
         hk_ToolArgs := Some (pc_args c)\<rparr>) out \<in> set (rn_Trace s))) (retP c) (gate_result opts g0 c)"
    by (intro law.runs_retP)
      (auto simp: gate_result_def gate_passed_def let_through_def hook_passed_def list_ex_iff tool c baseHookInput_def
        intro!: bexI)
qed (auto intro: runs_pre [OF runs_deny])

lemma runs_askApproval:
  assumes tool: "Lookup (op_ToolRegistry opts) (pc_Name c) = Some tool" and c: "parsed opts c"
    and scope: "target = grantTarget tool (pc_args c)" "scope = grantScope (pc_Name c) target"
    and act: "resolveAction (Some (policyOf opts)) tool (pc_Name c) scope (pc_args c) (interactive opts) = ToolActionAsk"
  shows "runs (advances opts g0) (law_abiding opts g0) (askApproval env opts c target scope) (gate_result opts g0 c)"
proof -
  have told: "runs (advances opts g0) (law_abiding opts g0)
      (bindP (deny opts c reason result) (\<lambda>c'. bindP (fireNotification opts k n i a r) (\<lambda>_. retP c'))) (gate_result opts g0 c)"
    for reason result k n i a r
  proof (rule law.runs_bindP [OF runs_deny], rule law.runs_then [OF quietly_fireNotification _ law.runs_retP])
    fix c' show "stable (advances opts g0) (gate_result opts g0 c c')" unfolding gate_result_def by (intro stable_intros)
  qed
  show ?thesis
    unfolding askApproval_def Let_def
  proof (rule law.runs_then [OF quietly_fireNotification stable_seen(1)], rule law.runs_option)
    show "runs (advances opts g0) (law_abiding opts g0) (bindP (denyByPolicy env opts c) (\<lambda>c'.
        bindP (fireNotification opts NotificationPermissionDenied (pc_Name c) (pc_ID c) (pc_args c) ''no approval handler configured'')
          (\<lambda>_. retP c'))) (gate_result opts g0 c)"
      unfolding denyByPolicy_def by (rule told)
  next
    fix f
    let ?asked = "\<lambda>d s. law_abiding opts g0 s \<and> ApprovalAsked (pc_Name c) (pc_args c) target d \<in> set (rn_Trace s)"
    have ask: "runs (advances opts g0) (law_abiding opts g0)
        (ask (\<lambda>tr. f tr (pc_Name c) (pc_args c) target) (ApprovalAsked (pc_Name c) (pc_args c) target)) ?asked"
      by (rule runsI) (auto simp: ask_def Let_def intro!: advances_harmless
          intro: stableD [OF stable_seen(1) _ advances_harmless])
    have pre: "permitted opts g0 (rn_Trace s) tool (pc_Name c) (pc_args c)"
      if "ApprovalAsked (pc_Name c) (pc_args c) target d \<in> set (rn_Trace s)" "d \<noteq> ApprovalDeny" for s d
      using that act by (auto simp: permitted_def user_approved_def list_ex_iff scope Let_def intro!: bexI)
    have grants: "runs (advances opts g0) (?asked ApprovalAllowSession) (modifyRun (rn_Grants_update (grant scope)))
        (\<lambda>_. ?asked ApprovalAllowSession)"
    proof (rule runsI)
      fix s assume s: "?asked ApprovalAllowSession s"
      then have "session_approved scope (rn_Trace s)" by (auto simp: session_approved_def list_ex_iff scope intro!: bexI)
      then have "law_abiding opts g0 (rn_Grants_update (grant scope) s)"
        using s by (auto simp: law_abiding_def justified_def grant_def granted_def split: option.splits)
      then show "advances opts g0 s (snd (modifyRun (rn_Grants_update (grant scope)) s))"
        and "\<And>x. ?asked ApprovalAllowSession (snd (modifyRun (rn_Grants_update (grant scope)) s))"
        using s by (simp_all add: modifyRun_def advances_def)
    qed
    have go: "runs (advances opts g0) (?asked d) (preToolUse env opts c) (gate_result opts g0 c)" if "d \<noteq> ApprovalDeny" for d
      by (rule runs_pre [OF runs_preToolUse [OF tool c]]) (use pre that in auto)
    show "runs (advances opts g0) (law_abiding opts g0)
       (bindP (ask (\<lambda>tr. f tr (pc_Name c) (pc_args c) target) (ApprovalAsked (pc_Name c) (pc_args c) target))
         (\<lambda>decision. if decision = ApprovalDeny
             then bindP (deny opts c DenyReasonUser (''error: tool call '' @ re_Quote env (pc_Name c) @ '' denied by user''))
                   (\<lambda>c'. bindP (fireNotification opts NotificationPermissionDenied (pc_Name c) (pc_ID c) (pc_args c) ''denied by user'') (\<lambda>_. retP c'))
             else bindP (if decision = ApprovalAllowSession then modifyRun (rn_Grants_update (grant scope)) else retP ()) (\<lambda>_.
                  preToolUse env opts c))) (gate_result opts g0 c)"
    proof (rule law.runs_bindP [OF ask], rule law.runs_if)
      fix d assume "d \<noteq> ApprovalDeny"
      then show "runs (advances opts g0) (?asked d)
          (bindP (if d = ApprovalAllowSession then modifyRun (rn_Grants_update (grant scope)) else retP ()) (\<lambda>_. preToolUse env opts c))
          (gate_result opts g0 c)"
        by (intro law.runs_bindP [where Q = "\<lambda>_. ?asked d"] law.runs_if go) (auto intro: grants law.runs_retP)
    qed (auto intro: runs_pre [OF told])
  qed
qed

lemma runs_gateCall:
  assumes c: "parsed opts c"
  shows "runs (advances opts g0) (law_abiding opts g0) (gateCall env opts (policyOf opts) c) (gate_result opts g0 c)"
proof (cases "pc_decided c")
  case True
  have "runs (advances opts g0) (law_abiding opts g0) (retP c) (gate_result opts g0 c)"
    by (rule law.runs_retP) (simp add: gate_result_def gate_passed_def parsed_def True)
  then show ?thesis
    by (auto simp: gateCall_def True Let_def intro!: law.runs_then [OF quietly_emit stable_seen(1)])
next
  case False
  note undecided = False
  show ?thesis
  proof (cases "pc_tool c")
    case None
    then show ?thesis
      by (simp add: gateCall_def undecided Let_def law.runs_then [OF quietly_emit stable_seen(1)] runs_deny)
  next
    case (Some tool)
    then have tool: "Lookup (op_ToolRegistry opts) (pc_Name c) = Some tool" using c undecided by (simp add: parsed_def)
    let ?scope = "grantScope (pc_Name c) (grantTarget tool (pc_args c))"
    let ?act = "resolveAction (Some (policyOf opts)) tool (pc_Name c) ?scope (pc_args c) (interactive opts)"
    have other: "runs (advances opts g0) (law_abiding opts g0)
        (retP (c\<lparr>pc_result := r, pc_decided := True\<rparr>)) (gate_result opts g0 c)" for r
      by (rule law.runs_retP) (simp add: gate_result_def gate_passed_def parsed_def)
    have gate: "runs (advances opts g0) (law_abiding opts g0) (gateTool env opts (policyOf opts) tool c) (gate_result opts g0 c)"
      unfolding gateTool_def Let_def
    proof (rule law.runs_bindP [OF law.runs_getP [where Q = "\<lambda>g s. law_abiding opts g0 s \<and> g = rn_Grants s"]])
      fix g
      let ?P = "\<lambda>s. law_abiding opts g0 s \<and> g = rn_Grants s"
      have allow: "runs (advances opts g0) ?P (preToolUse env opts c) (gate_result opts g0 c)"
        if "?act = ToolActionAllow \<or> ?act = ToolActionAsk \<and> granted ?scope g"
        by (rule runs_pre [OF runs_preToolUse [OF tool c]])
          (use that in \<open>auto simp: permitted_def Let_def law_abiding_def justified_def\<close>)
      have denied: "runs (advances opts g0) ?P (deny opts c reason m) (gate_result opts g0 c)" for reason m
        by (rule runs_pre [OF runs_deny]) simp
      have unknown: "runs (advances opts g0) ?P (retP (c\<lparr>pc_result := r, pc_decided := True\<rparr>)) (gate_result opts g0 c)" for r
        by (rule runs_pre [OF other]) simp
      have "runs (advances opts g0) ?P (askApproval env opts c (grantTarget tool (pc_args c)) ?scope) (gate_result opts g0 c)"
        if "?act = ToolActionAsk"
        by (rule runs_pre [OF runs_askApproval [OF tool c refl refl that]]) simp
      then show "runs (advances opts g0) ?P
          (case if ?act = ToolActionAsk \<and> granted ?scope g then ToolActionAllow else ?act of
             ToolActionDeny \<Rightarrow> denyByPolicy env opts c
           | ToolActionAsk \<Rightarrow> askApproval env opts c (grantTarget tool (pc_args c)) ?scope
           | ToolActionAllow \<Rightarrow> preToolUse env opts c
           | ToolActionOther n \<Rightarrow> retP (c\<lparr>pc_result := ''error: unknown policy action for '' @ re_Quote env (pc_Name c), pc_decided := True\<rparr>))
          (gate_result opts g0 c)"
        using allow denied unknown by (auto simp: denyByPolicy_def split: ToolAction.splits)
    qed auto
    show ?thesis
      by (simp add: gateCall_def undecided Some Let_def)
        (intro law.runs_then [OF quietly_emit stable_seen(1)] law.runs_then [OF quietly_countCall stable_seen(1)] law.runs_if runs_deny gate)
  qed
qed

section \<open>Running what the gate let through\<close>

definition ready :: "('h, 'e) RunLoopOpts \<Rightarrow> SessionGrants \<Rightarrow> 'h pendingCall \<Rightarrow> 'h run \<Rightarrow> bool" where
  "ready opts g0 c s \<longleftrightarrow> pc_decided c \<or> cleared opts g0 (rn_Trace s) (pc_ID c) (pc_Name c) (pc_args c)"

lemma stable_ready [stable_intros]: "stable (advances opts g0) (ready opts g0 c)"
  by (auto simp: stable_def advances_def ready_def cleared_def intro: seen_mono)

lemma runs_gateAll:
  assumes "list_all (parsed opts) cs"
  shows "runs (advances opts g0) (law_abiding opts g0) (gateAll env opts (policyOf opts) cs)
    (\<lambda>cs' s. law_abiding opts g0 s \<and> (\<forall>c\<in>set cs'. gate_passed opts g0 c s) \<and> list_all (parsed opts) cs')"
  using assms
proof (induction cs)
  case Nil
  show ?case by (auto intro: law.runs_retP)
next
  case (Cons c cs)
  have c: "parsed opts c" and cs: "list_all (parsed opts) cs" using Cons.prems by simp_all
  show ?case
    unfolding gateAll.simps
  proof (rule law.runs_bindP [OF runs_gateCall [OF c]])
    fix c'
    have frame: "stable (advances opts g0) (\<lambda>s. gate_passed opts g0 c' s \<and> parsed opts c')" by (intro stable_intros)
    have "runs (advances opts g0) (gate_result opts g0 c c') (gateAll env opts (policyOf opts) cs)
        (\<lambda>cs' s. (law_abiding opts g0 s \<and> (\<forall>c\<in>set cs'. gate_passed opts g0 c s) \<and> list_all (parsed opts) cs')
          \<and> gate_passed opts g0 c' s \<and> parsed opts c')"
      by (rule runs_pre [OF runs_frame [OF Cons.IH [OF cs] frame]]) (simp add: gate_result_def)
    then show "runs (advances opts g0) (gate_result opts g0 c c')
        (bindP (gateAll env opts (policyOf opts) cs) (\<lambda>cs'. retP (c' # cs')))
        (\<lambda>cs' s. law_abiding opts g0 s \<and> (\<forall>c\<in>set cs'. gate_passed opts g0 c s) \<and> list_all (parsed opts) cs')"
      by (rule law.runs_bindP) (rule law.runs_retP, auto)
  qed
qed

definition all_ready :: "('h, 'e) RunLoopOpts \<Rightarrow> SessionGrants \<Rightarrow> 'h pendingCall list \<Rightarrow> 'h run \<Rightarrow> bool" where
  "all_ready opts g0 cs s \<longleftrightarrow> law_abiding opts g0 s \<and> (\<forall>c\<in>set cs. ready opts g0 c s)"

lemma stable_all_ready [stable_intros]: "stable (advances opts g0) (all_ready opts g0 cs)"
  unfolding all_ready_def by (intro stable_intros)

lemma lawful_recordToolBoundary:
  "runs (advances opts g0) (\<lambda>s. law_abiding opts g0 s \<and> (\<forall>c\<in>set cs. gate_passed opts g0 c s)) (recordToolBoundary opts cs)
    (\<lambda>r s. law_abiding opts g0 s \<and> (r = Inr () \<longrightarrow> all_ready opts g0 cs s))"
proof -
  let ?P = "\<lambda>s. law_abiding opts g0 s \<and> (\<forall>c\<in>set cs. gate_passed opts g0 c s)"
  have P: "stable (advances opts g0) ?P" by (intro stable_intros)
  have starts: "pc_decided c \<or> (pc_ID c, pc_Name c) \<in> set (starts_of cs)" if "c \<in> set cs" for c
    using that by (auto simp: starts_of_def)
  have none: "runs (advances opts g0) ?P (retP (Inr ())) (\<lambda>r s. law_abiding opts g0 s \<and> (r = Inr () \<longrightarrow> all_ready opts g0 cs s))"
    if "hi_Boundary (op_History opts) = None \<or> starts_of cs = []"
    using that starts
    by (intro law.runs_retP) (fastforce simp: all_ready_def ready_def gate_passed_def cleared_def start_recorded_def)
  show ?thesis
  proof (cases "hi_Boundary (op_History opts)")
    case None
    then show ?thesis using none by (simp add: recordToolBoundary_def)
  next
    case (Some b)
    obtain started appendResult where b: "b = (started, appendResult)" by (cases b)
    have rec: "runs (advances opts g0) ?P (observe (BoundaryRecorded (starts_of cs)))
        (\<lambda>_ s. ?P s \<and> BoundaryRecorded (starts_of cs) \<in> set (rn_Trace s))"
    proof (rule runsI)
      fix s assume s: "?P s"
      have "advances opts g0 s (snd (observe (BoundaryRecorded (starts_of cs)) s))"
        by (auto simp: observe_def intro!: advances_harmless)
      then show "advances opts g0 s (snd (observe (BoundaryRecorded (starts_of cs)) s))"
        and "\<And>x. ?P (snd (observe (BoundaryRecorded (starts_of cs)) s)) \<and> BoundaryRecorded (starts_of cs) \<in> set (rn_Trace (snd (observe (BoundaryRecorded (starts_of cs)) s)))"
        using stableD [OF P s] by (auto simp: observe_def)
    qed
    have fin: "runs (advances opts g0) (\<lambda>s. ?P s \<and> BoundaryRecorded (starts_of cs) \<in> set (rn_Trace s)) (retP (Inr ()))
        (\<lambda>r s. law_abiding opts g0 s \<and> (r = Inr () \<longrightarrow> all_ready opts g0 cs s))"
      using starts
      by (intro law.runs_retP)
        (fastforce simp: all_ready_def ready_def gate_passed_def cleared_def start_recorded_def list_ex_iff)
    have "runs (advances opts g0) ?P (bindP (onHistory (started (starts_of cs))) (\<lambda>r.
        case r of Inl e \<Rightarrow> retP (Inl e) | Inr _ \<Rightarrow> bindP (observe (BoundaryRecorded (starts_of cs))) (\<lambda>_. retP (Inr ()))))
        (\<lambda>r s. law_abiding opts g0 s \<and> (r = Inr () \<longrightarrow> all_ready opts g0 cs s))"
      by (rule law.runs_bindP [OF runs_history [OF P]], rule law.runs_sum)
        (auto intro: law.runs_retP law.runs_bindP [OF rec fin])
    then show ?thesis using none by (cases "starts_of cs = []") (simp_all add: recordToolBoundary_def Some b)
  qed
qed

lemma advances_take_effect: "advances opts g0 s (snd (take_effect f x s))"
  by (auto simp: take_effect_def intro!: advances_harmless)

lemma runs_executeTool: "stable (advances opts g0) P \<Longrightarrow> runs (advances opts g0) P (executeTool tool ctx a) (\<lambda>_. P)"
  by (rule runs_stable) (auto simp: executeTool_def split: option.splits intro: advances_take_effect)

lemma runs_executeCall:
  assumes "stable (advances opts g0) P" "\<And>s. P s \<Longrightarrow> all_ready opts g0 [c] s"
  shows "runs (advances opts g0) P (executeCall opts iter c) (\<lambda>_. P)"
proof (cases "pc_decided c \<or> pc_tool c = None")
  case True
  then show ?thesis by (auto simp: executeCall_def split: option.split intro: law.runs_retP law.runs_throwP)
next
  case False
  then obtain tool where c: "\<not> pc_decided c" "pc_tool c = Some tool" by blast
  have enter: "runs (advances opts g0) P (observe (Entered (pc_ID c) (pc_Name c) (pc_args c))) (\<lambda>_. P)"
  proof (rule runsI)
    fix s assume s: "P s"
    have "advances opts g0 s (s\<lparr>rn_Trace := rn_Trace s @ [Entered (pc_ID c) (pc_Name c) (pc_args c)]\<rparr>)"
      using assms(2) [OF s] c(1) seen_mono(1)
      by (fastforce simp: advances_def all_ready_def ready_def law_abiding_def justified_def lawful_snoc)
    then show "advances opts g0 s (snd (observe (Entered (pc_ID c) (pc_Name c) (pc_args c)) s))"
      and "\<And>x. P (snd (observe (Entered (pc_ID c) (pc_Name c) (pc_args c)) s))"
      using stableD [OF assms(1) s] by (simp_all add: observe_def)
  qed
  show ?thesis
    using c unfolding executeCall_def
    by (auto intro!: law.runs_bindP [OF enter] law.runs_bindP [OF runs_executeTool [OF assms(1)]]
        law.runs_then [OF quietly_askAll assms(1)] law.runs_then [OF quietly_emit assms(1)] law.runs_retP
        simp: Let_def split: tool_answer.split prod.split)
qed

lemma runs_runInOrder:
  "runs (advances opts g0) (all_ready opts g0 cs) (runInOrder opts iter cs) (\<lambda>_. law_abiding opts g0)"
proof (induction cs)
  case Nil
  show ?case by (auto intro: law.runs_retP simp: all_ready_def)
next
  case (Cons c cs)
  have "runs (advances opts g0) (all_ready opts g0 (c # cs)) (executeCall opts iter c) (\<lambda>_. all_ready opts g0 (c # cs))"
    by (rule runs_executeCall) (auto intro: stable_intros simp: all_ready_def)
  moreover have "runs (advances opts g0) (all_ready opts g0 (c # cs)) (runInOrder opts iter cs) (\<lambda>_. law_abiding opts g0)"
    by (rule runs_pre [OF Cons.IH]) (simp add: all_ready_def)
  ultimately show ?case
    by (auto intro!: law.runs_bindP law.runs_sum law.runs_throwP intro: law.runs_retP)
qed

text \<open>The calls of a parallel group, as they were let through or as they have come back.\<close>

definition same_call :: "'h pendingCall \<Rightarrow> 'h pendingCall \<Rightarrow> bool" where
  "same_call c c' \<longleftrightarrow> pc_call c' = pc_call c \<and> pc_args c' = pc_args c \<and> pc_tool c' = pc_tool c \<and> pc_decided c' = pc_decided c"

lemma executeCall_same:
  assumes "fst (executeCall opts iter c s) = Inr (Inr c')"
  shows "same_call c c' \<and> (pc_decided c \<longrightarrow> c' = c) \<and> (\<not> pc_decided c \<longrightarrow> pc_executed c')"
proof (cases "pc_decided c \<or> pc_tool c = None")
  case True
  then show ?thesis using assms by (auto simp: executeCall_def prog_simps same_call_def split: option.splits if_splits)
next
  case False
  then obtain tool where c: "\<not> pc_decided c" "pc_tool c = Some tool" by blast
  then show ?thesis
    using assms
    by (auto simp: executeCall_def bindP_def prog_simps same_call_def Let_def
        split: prod.splits sum.splits tool_answer.splits option.splits)
qed

lemma runs_runParallel:
  "\<forall>i\<in>set order. i < length cs \<Longrightarrow>
   runs (advances opts g0) (all_ready opts g0 cs) (runParallel env opts iter order cs) (\<lambda>_. law_abiding opts g0)"
proof (induction order arbitrary: cs)
  case Nil
  show ?case by (auto intro: law.runs_retP simp: all_ready_def)
next
  case (Cons i order)
  have i: "i < length cs" using Cons.prems by simp
  let ?panicked = "\<lambda>msg. (cs ! i)\<lparr>pc_result := ''error: tool '' @ re_Quote env (pc_Name (cs ! i)) @ '' panicked: '' @ msg,
      pc_executed := True, pc_errKind := ToolErrorPanic\<rparr>"
  have run: "runs (advances opts g0) (all_ready opts g0 cs) (executeCall opts iter (cs ! i))
      (\<lambda>r s. all_ready opts g0 cs s \<and> (\<forall>c'. r = Inr c' \<longrightarrow> same_call (cs ! i) c'))"
  proof (rule runsI)
    fix s assume s: "all_ready opts g0 cs s"
    have ex: "runs (advances opts g0) (all_ready opts g0 cs) (executeCall opts iter (cs ! i)) (\<lambda>_. all_ready opts g0 cs)"
      by (rule runs_executeCall) (use i in \<open>auto intro: stable_intros simp: all_ready_def\<close>)
    show "advances opts g0 s (snd (executeCall opts iter (cs ! i) s))" using runsD [OF ex s] .
    fix r assume r: "fst (executeCall opts iter (cs ! i) s) = Inr r"
    then show "all_ready opts g0 cs (snd (executeCall opts iter (cs ! i) s)) \<and> (\<forall>c'. r = Inr c' \<longrightarrow> same_call (cs ! i) c')"
      using runs_result [OF ex s r] executeCall_same by fastforce
  qed
  have onward: "runs (advances opts g0) (all_ready opts g0 cs) (runParallel env opts iter order (cs[i := c'])) (\<lambda>_. law_abiding opts g0)"
    if "same_call (cs ! i) c'" for c'
  proof (rule runs_pre [OF Cons.IH])
    show "\<forall>j\<in>set order. j < length (cs[i := c'])" using Cons.prems by simp
    fix s assume s: "all_ready opts g0 cs s"
    have "ready opts g0 c s" if c: "c \<in> set (cs[i := c'])" for c
    proof (cases "c = c'")
      case True
      have "ready opts g0 (cs ! i) s" using s i by (simp add: all_ready_def)
      then show ?thesis using True \<open>same_call (cs ! i) c'\<close> by (simp add: ready_def same_call_def)
    next
      case False
      then have "c \<in> set cs" using c set_update_subset_insert [of cs i c'] by blast
      then show ?thesis using s by (simp add: all_ready_def)
    qed
    then show "all_ready opts g0 (cs[i := c']) s" using s by (simp add: all_ready_def)
  qed
  show ?case
    unfolding runParallel.simps Let_def
  proof (rule law.runs_bindP [OF run])
    fix r
    show "runs (advances opts g0) (\<lambda>s. all_ready opts g0 cs s \<and> (\<forall>c'. r = Inr c' \<longrightarrow> same_call (cs ! i) c'))
        (runParallel env opts iter order (cs[i := case r of Inr c' \<Rightarrow> c' | Inl msg \<Rightarrow> ?panicked msg])) (\<lambda>_. law_abiding opts g0)"
    proof (cases r)
      case (Inl msg)
      then show ?thesis using runs_pre [OF onward [of "?panicked msg"]] by (auto simp: same_call_def)
    next
      case (Inr c')
      show ?thesis
      proof (cases "same_call (cs ! i) c'")
        case True
        then show ?thesis using Inr runs_pre [OF onward [of c']] by auto
      next
        case False
        then show ?thesis using Inr by (simp add: runs_def)
      qed
    qed
  qed
qed

lemma every_once_set: "set (every_once order n) = {..<n}"
  by (auto simp: every_once_def Let_def)

lemma runs_runGroup:
  "runs (advances opts g0) (all_ready opts g0 cs) (runGroup env opts iter cs) (\<lambda>_. law_abiding opts g0)"
  unfolding runGroup_def
  by (intro law.runs_if runs_runInOrder law.runs_then [OF quietly_basic(3) stable_all_ready] runs_runParallel)
    (simp add: every_once_set)

section \<open>The law holds in every run\<close>

lemma lawful_appendToolOutcome:
  "runs (advances opts g0) (law_abiding opts g0) (appendToolOutcome opts c) (\<lambda>_. law_abiding opts g0)"
  unfolding appendToolOutcome_def
  by (cases "hi_Boundary (op_History opts)") (auto intro: runs_history stable_intros)

lemma lawful_commitGroup:
  "runs (advances opts g0) (law_abiding opts g0) (commitGroup opts cs acc) (\<lambda>_. law_abiding opts g0)"
proof (induction opts cs acc rule: commitGroup.induct)
  case (1 opts n writes)
  show ?case by (auto intro: law.runs_retP)
next
  case (2 opts c cs n writes)
  show ?case
    unfolding commitGroup.simps
    by (intro law.runs_then [OF quietly_firePostHook stable_seen(1)] law.runs_bindP [OF lawful_appendToolOutcome] law.runs_sum 2)
      (auto intro: law.runs_retP)
qed

lemma parsed_calls: "list_all (parsed opts) (parseCalls env opts toolCalls)"
  by (auto simp: parseCalls_def parseCall_def parsed_def list_all_iff Let_def split: sum.splits)

lemma adjacent_groups_concat: "cs \<noteq> [] \<Longrightarrow> concat (adjacent_groups start cs) = start @ cs"
proof (induction start cs rule: adjacent_groups.induct)
  case (2 start c cs)
  then show ?case by (cases "cs = []") auto
qed simp

lemma groupCalls_concat: "concat (groupCalls cs limit) = cs"
  using adjacent_groups_concat [of cs "[]"] by (cases "cs = []") (auto simp: groupCalls_def)

lemma lawful_executeGroups:
  "list_all (list_all (parsed opts)) groups \<Longrightarrow>
   runs (advances opts g0) (law_abiding opts g0) (executeGroups env opts (policyOf opts) iter groups acc) (\<lambda>_. law_abiding opts g0)"
proof (induction groups arbitrary: acc)
  case Nil
  show ?case by (auto intro: law.runs_retP)
next
  case (Cons cs groups)
  have rest: "runs (advances opts g0) (all_ready opts g0 gated)
      (bindP (runGroup env opts iter gated) (\<lambda>ran.
         bindP (commitGroup opts ran acc) (\<lambda>(acc', err).
         if err \<noteq> None then retP (acc', err) else executeGroups env opts (policyOf opts) iter groups acc'))) (\<lambda>_. law_abiding opts g0)"
    for gated
    using Cons
    by (intro law.runs_bindP [OF runs_runGroup] law.runs_bindP [OF lawful_commitGroup] law.runs_prod law.runs_if)
      (auto intro: law.runs_retP)
  have gate: "runs (advances opts g0) (law_abiding opts g0) (gateAll env opts (policyOf opts) cs)
      (\<lambda>cs' s. law_abiding opts g0 s \<and> (\<forall>c\<in>set cs'. gate_passed opts g0 c s))"
    by (rule runs_post [OF runs_gateAll]) (use Cons.prems in auto)
  show ?case
    unfolding executeGroups.simps
    by (intro law.runs_bindP [OF gate] law.runs_bindP [OF lawful_recordToolBoundary] law.runs_sum)
      ((rule law.runs_retP | rule runs_pre [OF rest]), simp)+
qed

lemma lawful_executeToolCalls:
  "runs (advances opts g0) (law_abiding opts g0) (executeToolCalls env opts iter toolCalls) (\<lambda>_. law_abiding opts g0)"
proof -
  let ?groups = "groupCalls (parseCalls env opts toolCalls) (op_MaxParallelTools opts)"
  have "\<forall>c\<in>set (concat ?groups). parsed opts c"
    unfolding groupCalls_concat using parsed_calls by (simp add: list_all_iff)
  then have "list_all (list_all (parsed opts)) ?groups" by (auto simp: list_all_iff)
  then show ?thesis unfolding executeToolCalls_def Let_def by (rule lawful_executeGroups)
qed

lemma runs_injectOne: "runs (advances opts g0) (law_abiding opts g0) (injectOne opts iter text) (\<lambda>_. law_abiding opts g0)"
  unfolding injectOne_def
  by (intro law.runs_if law.runs_then [OF quietly_runHook stable_seen(1)] law.runs_bindP [OF runs_history] law.runs_sum
      law.runs_quietly law.runs_throwP quiet_intros stable_intros)

lemma runs_injectWaiting:
  "runs (advances opts g0) (law_abiding opts g0) (injectWaiting opts iter n) (\<lambda>_. law_abiding opts g0)"
  by (induction n)
    (auto intro!: law.runs_retP law.runs_then [OF quietly_dequeueInput stable_seen(1)] law.runs_option law.runs_bindP [OF runs_injectOne])

lemma runs_injectPendingInput:
  "runs (advances opts g0) (law_abiding opts g0) (injectPendingInput env opts iter) (\<lambda>_. law_abiding opts g0)"
  unfolding injectPendingInput_def
  by (intro law.runs_if law.runs_then [OF quietly_receive stable_seen(1)] law.runs_then [OF quietly_basic(3) stable_seen(1)]
      runs_injectWaiting law.runs_retP)

lemma runs_takeCheckpoint:
  "runs (advances opts g0) (law_abiding opts g0) (takeCheckpoint opts iter msgs) (\<lambda>_. law_abiding opts g0)"
  by (rule runs_stable)
    (auto simp: takeCheckpoint_def split: option.splits prod.splits intro!: advances_harmless stable_intros)

lemma runs_compactOnce:
  "runs (advances opts g0) (law_abiding opts g0) (compactOnce opts iter prior history reserve) (\<lambda>_. law_abiding opts g0)"
proof -
  have told: "runs (advances opts g0) (law_abiding opts g0) (checkpointAndCompact opts iter prior msgs) (\<lambda>_. law_abiding opts g0)" for msgs
    unfolding checkpointAndCompact_def Let_def
    by (intro law.runs_bindP [OF runs_takeCheckpoint] law.runs_option law.runs_throwP law.runs_quietly quiet_intros stable_intros) simp
  have recorded: "runs (advances opts g0) (law_abiding opts g0) (recordCompaction opts summary n) (\<lambda>_. law_abiding opts g0)" for summary n
    unfolding recordCompaction_def
    by (intro law.runs_option law.runs_prod runs_history stable_intros) (auto intro: law.runs_retP)
  show ?thesis
    unfolding compactOnce_def Let_def
    by (intro law.runs_prod law.runs_if law.runs_then [OF quietly_runHook stable_seen(1)] law.runs_bindP [OF told] law.runs_sum
        law.runs_bindP [OF recorded] law.runs_then [OF quietly_chargeCall stable_seen(1)] law.runs_then [OF quietly_emit stable_seen(1)]
        law.runs_retP) simp_all
qed

lemma runs_compactIfFull:
  "runs (advances opts g0) (law_abiding opts g0) (compactIfFull opts iter summary history) (\<lambda>_. law_abiding opts g0)"
proof -
  have res: "runs (advances opts g0) (law_abiding opts g0)
      (case res of
         Inl (CompactionNotPersisted e) \<Rightarrow> throwP (CompactionNotPersisted e)
       | Inl _ \<Rightarrow> retP (history, summary)
       | Inr r \<Rightarrow> retP (if Compacted r then (kept, cr_Summary r) else (history, summary))) (\<lambda>_. law_abiding opts g0)" for res kept
    by (auto split: sum.split run_error.split intro: law.runs_retP law.runs_throwP)
  show ?thesis
    unfolding compactIfFull_def
    by (intro law.runs_if law.runs_then [OF quietly_contextWindow stable_seen(1)] law.runs_bindP [OF runs_compactOnce] law.runs_prod res)
      (auto intro: law.runs_retP)
qed

lemma runs_observe_other:
  assumes "\<And>i name a. t \<noteq> Entered i name a"
  shows "runs (advances opts g0) (law_abiding opts g0) (observe t) (\<lambda>_. law_abiding opts g0)"
proof (rule runs_stable)
  have "Entered i name a \<notin> set [t]" for i name a using assms [of i name a] by auto
  then show "advances opts g0 s (snd (observe t s))" for s by (intro advances_harmless [of _ _ "[t]"]) (simp_all add: observe_def)
qed (rule stable_seen)

lemma runs_sendRequest:
  "runs (advances opts g0) (law_abiding opts g0) (sendRequest opts sink req) (\<lambda>_. law_abiding opts g0)"
proof -
  have "runs (advances opts g0) (law_abiding opts g0) (ask f ModelAnswered) (\<lambda>_. law_abiding opts g0)" for f
    by (rule runs_stable) (auto simp: ask_def Let_def intro!: advances_harmless stable_intros)
  then show ?thesis
    unfolding sendRequest_def
    by (intro law.runs_option law.runs_throwP law.runs_bindP [OF runs_observe_other] law.runs_then [OF quietly_basic(3) stable_seen(1)]
        law.runs_prod law.runs_then [OF quietly_streamDeltas stable_seen(1)] law.runs_then [OF quietly_if stable_seen(1)]
        quiet_intros law.runs_retP) simp_all
qed

lemma runs_callLLM: "runs (advances opts g0) (law_abiding opts g0) (callLLM opts history prompt iter) (\<lambda>_. law_abiding opts g0)"
  unfolding callLLM_def Let_def
  by (intro law.runs_then [OF quietly_basic(3) stable_seen(1)] law.runs_then [OF quietly_contextWindow stable_seen(1)]
      law.runs_then [OF quietly_emit stable_seen(1)] runs_sendRequest)

lemma runs_extractStructured:
  "runs (advances opts g0) (law_abiding opts g0) (extractStructured opts prompt) (\<lambda>_. law_abiding opts g0)"
  unfolding extractStructured_def Let_def
  by (intro law.runs_then [OF quietly_basic(3) stable_seen(1)] law.runs_then [OF quietly_contextWindow stable_seen(1)]
      law.runs_then [OF quietly_historyMessages stable_seen(1)] law.runs_bindP [OF runs_sendRequest] law.runs_sum
      law.runs_then [OF quietly_chargeCall stable_seen(1)] law.runs_retP) simp_all

lemma runs_appendMessage: "runs (advances opts g0) (law_abiding opts g0) (appendMessage opts m) (\<lambda>_. law_abiding opts g0)"
  unfolding appendMessage_def
  by (intro law.runs_bindP [OF runs_history] law.runs_sum law.runs_throwP law.runs_retP stable_intros) simp_all

lemma runs_modifyRun:
  "(\<And>s. rn_Grants (f s) = rn_Grants s \<and> rn_Trace (f s) = rn_Trace s) \<Longrightarrow>
     runs (advances opts g0) (law_abiding opts g0) (modifyRun f) (\<lambda>_. law_abiding opts g0)"
  by (rule runs_stable) (auto simp: modifyRun_def intro!: advances_harmless stable_intros)

lemma runs_runToolCalls:
  "runs (advances opts g0) (law_abiding opts g0) (runToolCalls env opts iter calls) (\<lambda>_. law_abiding opts g0)"
  unfolding runToolCalls_def
  by (intro law.runs_bindP [OF lawful_executeToolCalls] law.runs_prod law.runs_bindP [OF runs_modifyRun]
      law.runs_then [OF quietly_absorbDelegated stable_seen(1)] law.runs_option law.runs_throwP law.runs_retP) simp_all

lemma runs_endRun_then:
  "runs (advances opts g0) (law_abiding opts g0) m Q \<Longrightarrow>
   runs (advances opts g0) (law_abiding opts g0) (bindP (endRun env opts err) (\<lambda>_. m)) Q"
  by (rule law.runs_then [OF quietly_endRun stable_seen(1)])

lemma runs_answerTurn:
  "runs (advances opts g0) (law_abiding opts g0) (answerTurn env opts iter prompt texts summary completion) (\<lambda>_. law_abiding opts g0)"
proof -
  have structured: "runs (advances opts g0) (law_abiding opts g0)
      (if op_Output opts = None then retP None else bindP (extractStructured opts prompt) (\<lambda>v. retP (Some v))) (\<lambda>_. law_abiding opts g0)"
    by (intro law.runs_if law.runs_bindP [OF runs_extractStructured] law.runs_retP) simp_all
  show ?thesis
    unfolding answerTurn_def Let_def
    by (intro law.runs_then [OF quietly_chargeCall stable_seen(1)] law.runs_then [OF quietly_if stable_seen(1)]
        law.runs_then [OF quietly_basic(3) stable_seen(1)] law.runs_then [OF quietly_emit stable_seen(1)]
        law.runs_bindP [OF runs_appendMessage] law.runs_if law.runs_bindP [OF structured] law.runs_bindP [OF runs_runToolCalls]
        runs_endRun_then law.runs_retP quiet_intros) simp_all
qed

lemma runs_iteration:
  "runs (advances opts g0) (law_abiding opts g0) (iteration env opts iter texts summary) (\<lambda>_. law_abiding opts g0)"
  unfolding iteration_def Let_def
  by (intro law.runs_then [OF quietly_emit stable_seen(1)] law.runs_bindP [OF runs_injectPendingInput]
      law.runs_then [OF quietly_historyMessages stable_seen(1)] law.runs_bindP [OF runs_compactIfFull] law.runs_prod
      law.runs_bindP [OF runs_callLLM] law.runs_sum runs_answerTurn law.runs_then [OF quietly_basic(3) stable_seen(1)]
      law.runs_if runs_endRun_then law.runs_retP law.runs_throwP)

lemma runs_iterations:
  "runs (advances opts g0) (law_abiding opts g0) (iterations env opts left i texts summary) (\<lambda>_. law_abiding opts g0)"
proof (induction left arbitrary: i texts summary)
  case 0
  show ?case by (auto intro: runs_endRun_then law.runs_throwP)
next
  case (Suc left)
  then show ?case
    by (auto intro!: law.runs_bindP [OF runs_iteration] law.runs_retP split: turn.split)
qed

lemma RunLoop_lawful:
  assumes "rn_Trace s = []"
  shows "lawful opts (rn_Grants s) (rn_Trace (snd (RunLoop env opts s)))"
proof -
  let ?g0 = "rn_Grants s"
  have run: "runs (advances opts ?g0) (law_abiding opts ?g0) (RunLoop env opts) (\<lambda>_. law_abiding opts ?g0)"
    unfolding RunLoop_def
    by (intro law.runs_bindP [OF runs_modifyRun] law.runs_then [OF quietly_PriorSummary stable_seen(1)] runs_iterations) simp
  have "law_abiding opts ?g0 s" using assms by (simp add: law_abiding_def lawful_def justified_def)
  then show ?thesis using runsD [OF run] by (simp add: advances_def law_abiding_def)
qed

text \<open>C4: A tool is entered only after its call was let through. Wherever in a run a tool is entered, before it: the
  registry had a tool of that name; the permission layers resolved the call to allow, or to ask and a user approved the
  call, or its scope for the session, or had before the run; no PreToolUse hook blocked it; and a durable history holds
  the record that it was about to start. A call whose action resolves to deny, or that is to be asked where nobody can
  answer, is never entered.\<close>

theorem tools_enter_only_when_cleared:
  assumes "rn_Trace s = []" "rn_Trace (snd (RunLoop env opts s)) = before @ Entered i name a # later"
  shows "\<exists>tool. Lookup (op_ToolRegistry opts) name = Some tool
    \<and> (let target = grantTarget tool a; scope = grantScope name target;
           action = resolveAction (Some (policyOf opts)) tool name scope a (interactive opts)
       in action = ToolActionAllow
          \<or> action = ToolActionAsk \<and> (granted scope (rn_Grants s) \<or> session_approved scope before \<or> user_approved name a target before))
    \<and> hook_passed opts before i name a \<and> start_recorded opts before i name"
proof -
  have "cleared opts (rn_Grants s) before i name a"
    using RunLoop_lawful [OF assms(1), of opts env] assms(2) unfolding lawful_def by blast
  then show ?thesis by (auto simp: cleared_def let_through_def permitted_def split: option.splits)
qed

end
