(* ===== verification/Agent_Calls.thy ===== *)
theory Agent_Calls
  imports Agent_Gate
begin

text \<open>
  What gating and running the calls of a message leaves alone: the calls themselves and their order, and, as far as the
  tools keep a relation \<open>K\<close> on the history, that relation. Requests to the model are none of their business.
\<close>

section \<open>Steps between requests\<close>

fun asks_model :: "trace \<Rightarrow> bool" where
  "asks_model (ModelCalled r) = True"
| "asks_model (ModelAnswered r) = True"
| "asks_model _ = False"

definition calm :: "('h \<Rightarrow> 'h \<Rightarrow> bool) \<Rightarrow> 'h run \<Rightarrow> 'h run \<Rightarrow> bool" where
  "calm K s s' \<longleftrightarrow> K (rn_History s) (rn_History s')
     \<and> (\<exists>ext. rn_Trace s' = rn_Trace s @ ext \<and> list_all (\<lambda>t. \<not> asks_model t) ext)"

lemma harmless_no_request: "harmless t \<Longrightarrow> \<not> asks_model t"
  by (cases t) simp_all

text \<open>What the tools and the checkpointer of a run do to its history.\<close>

definition tools_respect :: "('h \<Rightarrow> 'h \<Rightarrow> bool) \<Rightarrow> ('h, 'e) RunLoopOpts \<Rightarrow> bool" where
  "tools_respect K opts \<longleftrightarrow>
     (\<forall>tool\<in>set (op_ToolRegistry opts). \<forall>tr ctx a h.
        K h (ex_History (tl_Execute tool tr ctx a h))
        \<and> (case tl_ExecuteMultimodal tool of None \<Rightarrow> True | Some f \<Rightarrow> K h (ex_History (f tr ctx a h))))
     \<and> (case op_Checkpointer opts of None \<Rightarrow> True | Some f \<Rightarrow> \<forall>tr iter msgs h. K h (snd (f tr iter msgs h)))"

definition keeps_call :: "'h pendingCall \<Rightarrow> 'h pendingCall \<Rightarrow> bool" where
  "keeps_call c c' \<longleftrightarrow> pc_call c' = pc_call c \<and> pc_tool c' = pc_tool c"

abbreviation keeps_calls :: "'h pendingCall list \<Rightarrow> 'h pendingCall list \<Rightarrow> bool" where
  "keeps_calls \<equiv> list_all2 keeps_call"

lemma keeps_call_refl [simp]: "keeps_call c c"
  by (simp add: keeps_call_def)

lemma keeps_calls_refl [simp]: "keeps_calls cs cs"
  by (simp add: list_all2_refl)

lemma keeps_calls_trans: "keeps_calls xs ys \<Longrightarrow> keeps_calls ys zs \<Longrightarrow> keeps_calls xs zs"
  by (rule list_all2_trans) (auto simp: keeps_call_def)

lemma keeps_calls_map: "keeps_calls cs cs' \<Longrightarrow> map pc_call cs' = map pc_call cs"
  by (induction rule: list_all2_induct) (simp_all add: keeps_call_def)

definition known_tools :: "('h, 'e) RunLoopOpts \<Rightarrow> 'h pendingCall list \<Rightarrow> bool" where
  "known_tools opts cs \<longleftrightarrow> (\<forall>c\<in>set cs. \<forall>t. pc_tool c = Some t \<longrightarrow> t \<in> set (op_ToolRegistry opts))"

lemma known_tools_keeps: "keeps_calls cs cs' \<Longrightarrow> known_tools opts cs \<Longrightarrow> known_tools opts cs'"
  unfolding known_tools_def by (metis in_set_conv_nth keeps_call_def list_all2_conv_all_nth)

lemma known_tools_simps [simp]:
  "known_tools opts []" "known_tools opts (c # cs) \<longleftrightarrow> known_tools opts [c] \<and> known_tools opts cs"
  "known_tools opts (xs @ ys) \<longleftrightarrow> known_tools opts xs \<and> known_tools opts ys"
  by (auto simp: known_tools_def)

lemma known_parseCalls: "known_tools opts (parseCalls env opts calls)"
  by (auto simp: known_tools_def parseCalls_def parseCall_def Lookup_def find_Some_iff Let_def split: sum.splits)

lemma parseCalls_calls [simp]: "map pc_call (parseCalls env opts calls) = calls"
  by (induction calls) (auto simp: parseCalls_def parseCall_def Let_def split: sum.splits)

locale tool_relation =
  fixes K :: "'h \<Rightarrow> 'h \<Rightarrow> bool"
  assumes K_refl: "K h h" and K_trans: "K h i \<Longrightarrow> K i j \<Longrightarrow> K h j"

sublocale tool_relation \<subseteq> calm: run_relation "calm K"
proof
  show "calm K s s" for s using K_refl by (auto simp: calm_def)
  show "calm K s t \<Longrightarrow> calm K t u \<Longrightarrow> calm K s u" for s t u using K_trans by (fastforce simp: calm_def)
  show "quiet s s' \<Longrightarrow> calm K s s'" for s s' using K_refl by (auto simp: quiet_def calm_def list_all_iff harmless_no_request)
qed

context tool_relation
begin

lemma runs_plain: "quietly m \<Longrightarrow> (\<And>x. runs (calm K) (\<lambda>_. True) (f x) Q) \<Longrightarrow> runs (calm K) (\<lambda>_. True) (bindP m f) Q"
  by (rule calm.runs_then) (simp_all add: stable_const)

lemma runs_deny_keeps: "runs (calm K) (\<lambda>_. True) (deny opts c reason result) (\<lambda>c' _. keeps_call c c')"
  unfolding deny_def by (intro runs_plain quietly_emit calm.runs_retP) (simp add: keeps_call_def)

lemma runs_told:
  "runs (calm K) (\<lambda>_. True) (bindP (deny opts c reason result) (\<lambda>c'. bindP (fireNotification opts k n i a r) (\<lambda>_. retP c')))
     (\<lambda>c' _. keeps_call c c')"
  by (rule calm.runs_bindP [OF runs_deny_keeps], rule calm.runs_then [OF quietly_fireNotification])
    (auto intro: stable_const calm.runs_retP)

lemma runs_preToolUse_keeps: "runs (calm K) (\<lambda>_. True) (preToolUse env opts c) (\<lambda>c' _. keeps_call c c')"
  unfolding preToolUse_def Let_def
  by (intro runs_plain quietly_runHook calm.runs_if runs_deny_keeps calm.runs_retP) simp

lemma runs_askApproval_keeps: "runs (calm K) (\<lambda>_. True) (askApproval env opts c target scope) (\<lambda>c' _. keeps_call c c')"
proof -
  have grants: "runs (calm K) (\<lambda>_. True) (modifyRun (rn_Grants_update g)) (\<lambda>_ _. True)" for g
    by (rule runsI) (simp_all add: modifyRun_def calm_def K_refl)
  have asked: "quietly (ask f (ApprovalAsked n a tg))" for f n a tg by (intro quiet_intros) simp
  show ?thesis
    unfolding askApproval_def Let_def denyByPolicy_def
    by (intro runs_plain quietly_fireNotification asked calm.runs_option calm.runs_if runs_told
        calm.runs_bindP [where Q = "\<lambda>_ _. True"] grants runs_preToolUse_keeps calm.runs_retP) simp_all
qed

lemma runs_gateCall_keeps: "runs (calm K) (\<lambda>_. True) (gateCall env opts policy c) (\<lambda>c' _. keeps_call c c')"
proof -
  have unknown: "runs (calm K) (\<lambda>_. True) (retP (c\<lparr>pc_result := r, pc_decided := True\<rparr>)) (\<lambda>c' _. keeps_call c c')" for r
    by (rule calm.runs_retP) (simp add: keeps_call_def)
  have tool: "runs (calm K) (\<lambda>_. True) (gateTool env opts policy t c) (\<lambda>c' _. keeps_call c c')" for t
    unfolding gateTool_def Let_def denyByPolicy_def
    by (rule runs_plain [OF quietly_basic(3)])
      (auto split: ToolAction.split intro: unknown runs_preToolUse_keeps runs_askApproval_keeps runs_deny_keeps)
  show ?thesis
    unfolding gateCall_def Let_def
    by (intro calm.runs_if runs_plain quietly_emit quietly_countCall calm.runs_option runs_deny_keeps tool calm.runs_retP) simp_all
qed

lemma runs_gateAll_keeps: "runs (calm K) (\<lambda>_. True) (gateAll env opts policy cs) (\<lambda>cs' _. keeps_calls cs cs')"
proof (induction cs)
  case Nil
  show ?case by (auto intro: calm.runs_retP)
next
  case (Cons c cs)
  have "runs (calm K) (\<lambda>_. keeps_call c c') (bindP (gateAll env opts policy cs) (\<lambda>cs'. retP (c' # cs')))
      (\<lambda>cs' _. keeps_calls (c # cs) cs')" for c'
  proof (cases "keeps_call c c'")
    case True
    have "runs (calm K) (\<lambda>_. True) (bindP (gateAll env opts policy cs) (\<lambda>cs'. retP (c' # cs'))) (\<lambda>cs' _. keeps_calls (c # cs) cs')"
      by (rule calm.runs_bindP [OF Cons.IH]) (auto intro: calm.runs_retP simp: True)
    then show ?thesis by (rule runs_pre) simp
  qed (simp add: runs_def)
  then show ?case by (auto intro: calm.runs_bindP [OF runs_gateCall_keeps])
qed

lemma runs_executeTool_K:
  assumes "tools_respect K opts" "tool \<in> set (op_ToolRegistry opts)"
  shows "runs (calm K) (\<lambda>_. True) (executeTool tool ctx a) (\<lambda>_ _. True)"
proof (rule runsI)
  have "K h (ex_History (tl_Execute tool tr ctx a h))" "tl_ExecuteMultimodal tool = Some f \<Longrightarrow> K h (ex_History (f tr ctx a h))" for h tr f
    using assms by (auto simp: tools_respect_def split: option.splits)
  then show "calm K s (snd (executeTool tool ctx a s))" for s
    by (auto simp: calm_def executeTool_def take_effect_def list_all_iff split: option.splits)
qed simp

lemma runs_executeCall_keeps:
  assumes "tools_respect K opts" "known_tools opts [c]"
  shows "runs (calm K) (\<lambda>_. True) (executeCall opts iter c) (\<lambda>r _. \<forall>c'. r = Inr c' \<longrightarrow> keeps_call c c')"
proof (rule runsI)
  have entered: "runs (calm K) (\<lambda>_. True) (observe (Entered i n a)) (\<lambda>_ _. True)" for i n a
    by (rule runsI) (simp_all add: observe_def calm_def K_refl)
  have tool: "runs (calm K) (\<lambda>_. True) (executeTool t ctx a) (\<lambda>_ _. True)" if "pc_tool c = Some t" for t ctx a
    using runs_executeTool_K assms that by (simp add: known_tools_def)
  have "runs (calm K) (\<lambda>_. True) (executeCall opts iter c) (\<lambda>_ _. True)"
    unfolding executeCall_def
    by (auto intro!: calm.runs_if calm.runs_retP calm.runs_throwP calm.runs_bindP [OF entered] calm.runs_bindP [OF tool]
        runs_plain [OF quietly_askAll] runs_plain [OF quietly_emit] simp: Let_def split: option.split prod.split tool_answer.split)
  then show "calm K s (snd (executeCall opts iter c s))" for s by (simp add: runs_def)
  show "\<forall>c'. r = Inr c' \<longrightarrow> keeps_call c c'" if "fst (executeCall opts iter c s) = Inr r" for s r
    using executeCall_same that by (fastforce simp: same_call_def keeps_call_def)
qed

lemma runs_runInOrder_keeps:
  "tools_respect K opts \<Longrightarrow> known_tools opts cs \<Longrightarrow>
   runs (calm K) (\<lambda>_. True) (runInOrder opts iter cs) (\<lambda>cs' _. keeps_calls cs cs')"
proof (induction cs)
  case Nil
  show ?case by (auto intro: calm.runs_retP)
next
  case (Cons c cs)
  have c: "known_tools opts [c]" and cs: "known_tools opts cs" using Cons.prems(2) known_tools_simps(2) by blast+
  have "runs (calm K) (\<lambda>_. keeps_call c c') (bindP (runInOrder opts iter cs) (\<lambda>cs'. retP (c' # cs')))
      (\<lambda>cs' _. keeps_calls (c # cs) cs')" for c'
  proof (cases "keeps_call c c'")
    case True
    have "runs (calm K) (\<lambda>_. True) (bindP (runInOrder opts iter cs) (\<lambda>cs'. retP (c' # cs'))) (\<lambda>cs' _. keeps_calls (c # cs) cs')"
      by (rule calm.runs_bindP [OF Cons.IH [OF Cons.prems(1) cs]]) (auto intro: calm.runs_retP simp: True)
    then show ?thesis by (rule runs_pre) simp
  qed (simp add: runs_def)
  then have "runs (calm K) (\<lambda>_. \<forall>c'. r = Inr c' \<longrightarrow> keeps_call c c')
      (case r of Inl msg \<Rightarrow> throwP (ToolPanic (pc_Name c) msg) | Inr c' \<Rightarrow> bindP (runInOrder opts iter cs) (\<lambda>cs'. retP (c' # cs')))
      (\<lambda>cs' _. keeps_calls (c # cs) cs')" for r
    by (cases r) (auto intro: calm.runs_throwP)
  then show ?case unfolding runInOrder.simps by (rule calm.runs_bindP [OF runs_executeCall_keeps [OF Cons.prems(1) c]])
qed

lemma runs_runParallel_keeps:
  "tools_respect K opts \<Longrightarrow> known_tools opts cs \<Longrightarrow> \<forall>i\<in>set order. i < length cs \<Longrightarrow>
   runs (calm K) (\<lambda>_. True) (runParallel env opts iter order cs) (\<lambda>cs' _. keeps_calls cs cs')"
proof (induction order arbitrary: cs)
  case Nil
  show ?case by (auto intro: calm.runs_retP)
next
  case (Cons i order)
  have i: "i < length cs" using Cons.prems(3) by simp
  have ci: "known_tools opts [cs ! i]" using Cons.prems(2) nth_mem [OF i] by (simp add: known_tools_def)
  have upd: "keeps_calls cs (cs[i := c'])" if "keeps_call (cs ! i) c'" for c'
    using that i by (auto simp: list_all2_conv_all_nth nth_list_update)
  have onward: "runs (calm K) (\<lambda>_. True) (runParallel env opts iter order (cs[i := c'])) (\<lambda>cs' _. keeps_calls cs cs')"
    if "keeps_call (cs ! i) c'" for c'
    by (rule runs_post [OF Cons.IH]) (use Cons.prems upd [OF that] known_tools_keeps keeps_calls_trans in \<open>auto\<close>)
  have "runs (calm K) (\<lambda>_. \<forall>c'. r = Inr c' \<longrightarrow> keeps_call (cs ! i) c')
      (runParallel env opts iter order (cs[i := case r of Inr c' \<Rightarrow> c' | Inl msg \<Rightarrow> (cs ! i)\<lparr>pc_result := m msg,
         pc_executed := True, pc_errKind := ToolErrorPanic\<rparr>])) (\<lambda>cs' _. keeps_calls cs cs')" for r m
  proof (cases r)
    case (Inl msg)
    have "runs (calm K) (\<lambda>_. True) (runParallel env opts iter order (cs[i := (cs ! i)\<lparr>pc_result := m msg,
         pc_executed := True, pc_errKind := ToolErrorPanic\<rparr>])) (\<lambda>cs' _. keeps_calls cs cs')"
      by (rule onward) (simp add: keeps_call_def)
    then show ?thesis unfolding Inl sum.case by (rule runs_pre) simp
  next
    case (Inr c')
    show ?thesis
    proof (cases "keeps_call (cs ! i) c'")
      case True
      show ?thesis unfolding Inr sum.case by (rule runs_pre [OF onward [OF True]]) simp
    qed (simp add: Inr runs_def)
  qed
  then show ?case
    unfolding runParallel.simps Let_def by (rule calm.runs_bindP [OF runs_executeCall_keeps [OF Cons.prems(1) ci]])
qed

lemma runs_runGroup_keeps:
  "tools_respect K opts \<Longrightarrow> known_tools opts cs \<Longrightarrow>
   runs (calm K) (\<lambda>_. True) (runGroup env opts iter cs) (\<lambda>cs' _. keeps_calls cs cs')"
  unfolding runGroup_def
  by (intro calm.runs_if runs_runInOrder_keeps runs_plain quietly_basic runs_runParallel_keeps) (simp_all add: every_once_set)

text \<open>The messages about to be summarized are handed to the checkpointer, which is a reader of the history as well.\<close>

lemma runs_checkpointAndCompact_K:
  assumes "tools_respect K opts"
  shows "runs (calm K) (\<lambda>_. True) (checkpointAndCompact opts iter prior msgs) (\<lambda>_ _. True)"
proof -
  have checkpoint: "runs (calm K) (\<lambda>_. True) (takeCheckpoint opts iter msgs) (\<lambda>_ _. True)"
  proof (rule runsI)
    show "calm K s (snd (takeCheckpoint opts iter msgs s))" for s
    proof (cases "op_Checkpointer opts")
      case None
      then show ?thesis by (simp add: takeCheckpoint_def calm.step_refl)
    next
      case (Some f)
      obtain ok h where f: "f (rn_Trace s) iter msgs (rn_History s) = (ok, h)" by fastforce
      have "K (rn_History s) (snd (f (rn_Trace s) iter msgs (rn_History s)))"
        using assms unfolding tools_respect_def Some option.case by blast
      then show ?thesis using f by (simp add: takeCheckpoint_def Some calm_def)
    qed
  qed simp
  show ?thesis
    unfolding checkpointAndCompact_def Let_def
    by (rule calm.runs_bindP [OF checkpoint], rule calm.runs_option)
      (rule calm.runs_throwP, rule calm.runs_quietly, auto intro!: quietly_ask stable_const)
qed

end

end
