(* ===== verification/Agent_Requests.thy ===== *)
theory Agent_Requests
  imports Agent_Calls
begin

text \<open>
  The contract of a history and what the loop makes of it: every request sent to the model is well paired. The contract
  is the locale \<open>message_history\<close>; the session is an instance of it, in \<open>Agent_Session\<close>.
\<close>

section \<open>Requests\<close>

text \<open>A request is the system prompt, a history, and the state the session keeps beside it. The history answers its
  calls in order, or is a single tool result that the trim has kept.\<close>

definition proper_request :: "Request \<Rightarrow> bool" where
  "proper_request req \<longleftrightarrow>
     (\<exists>prompt history state. rq_Messages req = system_message prompt # history @ state
        \<and> (\<forall>m\<in>set state. ms_Role m = ''user'' \<and> ms_ToolCalls m = [])
        \<and> (well_paired history \<or> (\<exists>m. history = [m] \<and> ms_Role m = ''tool'')))"

definition proper_trace :: "trace list \<Rightarrow> bool" where
  "proper_trace tr \<longleftrightarrow> (\<forall>req. ModelCalled req \<in> set tr \<longrightarrow> proper_request req)"

definition proper_step :: "'h run \<Rightarrow> 'h run \<Rightarrow> bool" where
  "proper_step s s' \<longleftrightarrow> (proper_trace (rn_Trace s) \<longrightarrow> proper_trace (rn_Trace s'))"

lemma proper_step_trace: "(\<And>req. ModelCalled req \<in> set (rn_Trace s') \<Longrightarrow> ModelCalled req \<in> set (rn_Trace s)) \<Longrightarrow> proper_step s s'"
  by (auto simp: proper_step_def proper_trace_def)

lemma quiet_proper: "quiet s s' \<Longrightarrow> proper_step s s'"
  by (rule proper_step_trace) (force simp: quiet_def list_all_iff)

text \<open>The ids of the calls the model has asked for so far, and what can be said of them and of the history.\<close>

fun called_by :: "trace \<Rightarrow> string list" where
  "called_by (ModelAnswered (Inr c)) = map tc_ID (cm_ToolCalls c)"
| "called_by _ = []"

definition called :: "trace list \<Rightarrow> string list" where
  "called tr = concat (map called_by tr)"

lemma called_append [simp]: "called (tr @ ext) = called tr @ called ext"
  by (simp add: called_def)

lemma called_calm [simp]: "list_all (\<lambda>t. \<not> asks_model t) ext \<Longrightarrow> called ext = []"
proof (induction ext)
  case (Cons t ext)
  then show ?case by (cases t) (simp_all add: called_def)
qed (simp add: called_def)

lemma called_quiet: "quiet s s' \<Longrightarrow> called (rn_Trace s') = called (rn_Trace s)"
  using harmless_no_request by (auto simp: quiet_def list_all_iff)

definition fits :: "(string list \<Rightarrow> 'h \<Rightarrow> bool) \<Rightarrow> 'h run \<Rightarrow> bool" where
  "fits P s \<longleftrightarrow> P (called (rn_Trace s)) (rn_History s)"

lemma fits_True [simp]: "fits (\<lambda>_ _. True) s"
  by (simp add: fits_def)

lemma stable_quiet_fits: "stable quiet (fits P)"
  by (auto simp: stable_def fits_def called_quiet) (auto simp: quiet_def)

section \<open>The contract of a history\<close>

text \<open>\<open>ok calls todo h\<close> is what the operations of a history keep, given the ids of the calls asked for so far and of
  those that wait for a result. Calls are announced, and answered in order. A successful operation adds its message, or
  drops what was summarized; recording a start changes no message.\<close>

locale message_history =
  fixes H :: "('h, 'e) History" and ok :: "string list \<Rightarrow> string list \<Rightarrow> 'h \<Rightarrow> bool"
  assumes announced_ok: "ok calls [] h \<Longrightarrow> ok (calls @ new) new h"
    and dropped_ok: "ok calls (i # todo) h \<Longrightarrow> ok calls todo h"
    and append_ok: "ok calls todo h \<Longrightarrow> ok calls todo (snd (hi_Append H m h))"
    and append_adds: "ok calls todo h \<Longrightarrow> hi_Append H m h = (Inr (), h') \<Longrightarrow> hi_Messages H h' = hi_Messages H h @ [m]"
    and started_ok: "hi_Boundary H = Some (started, res) \<Longrightarrow> ok calls todo h \<Longrightarrow> ok calls todo (snd (started cs h))"
    and started_keeps: "hi_Boundary H = Some (started, res) \<Longrightarrow> ok calls todo h \<Longrightarrow>
        hi_Messages H (snd (started cs h)) = hi_Messages H h"
    and result_ok: "hi_Boundary H = Some (started, res) \<Longrightarrow> ok calls (ou_ID out # todo) h \<Longrightarrow> ok calls todo (snd (res out h))"
    and result_adds: "hi_Boundary H = Some (started, res) \<Longrightarrow> ok calls todo h \<Longrightarrow> res out h = (Inr (), h') \<Longrightarrow>
        hi_Messages H h' = hi_Messages H h @ [tool_message (ou_ID out) (ou_Result out) (ou_Parts out)]"
    and compaction_ok: "hi_Compaction H = Some (prior, add) \<Longrightarrow> ok calls [] h \<Longrightarrow> ok calls [] (snd (add summary k h))"
    and compaction_drops: "hi_Compaction H = Some (prior, add) \<Longrightarrow> ok calls [] h \<Longrightarrow> 0 < n \<Longrightarrow> n \<le> length (hi_Messages H h) \<Longrightarrow>
        add summary (int n) h = (Inr (), h') \<Longrightarrow> hi_Messages H h' = drop n (hi_Messages H h)"
begin

lemma ok_Nil: "ok calls todo h \<Longrightarrow> ok calls [] h"
  by (induction todo) (auto dest: dropped_ok)

definition paired :: "string list \<Rightarrow> string list \<Rightarrow> 'h \<Rightarrow> bool" where
  "paired todo calls h \<longleftrightarrow> ok calls todo h \<and> answered [] (hi_Messages H h) = Some todo"

definition announced :: "string list \<Rightarrow> string list \<Rightarrow> 'h \<Rightarrow> bool" where
  "announced new calls h \<longleftrightarrow> ok calls new h \<and> well_paired (hi_Messages H h)"

lemma announced_Nil: "announced [] = paired []"
  by (intro ext) (simp add: announced_def paired_def well_paired_def)

definition leaves_messages :: "'h \<Rightarrow> 'h \<Rightarrow> bool" where
  "leaves_messages h h' \<longleftrightarrow> (\<forall>calls todo. ok calls todo h \<longrightarrow> ok calls todo h' \<and> hi_Messages H h' = hi_Messages H h)"

lemma paired_leaves: "leaves_messages h h' \<Longrightarrow> paired todo calls h \<Longrightarrow> paired todo calls h'"
  unfolding leaves_messages_def paired_def by metis

text \<open>Every step keeps the requests proper and the history sound, failed steps included.\<close>

definition sound_step :: "'h run \<Rightarrow> 'h run \<Rightarrow> bool" where
  "sound_step s s' \<longleftrightarrow> proper_step s s' \<and> (fits (\<lambda>calls. ok calls []) s \<longrightarrow> fits (\<lambda>calls. ok calls []) s')"

lemma quiet_sound: "quiet s s' \<Longrightarrow> sound_step s s'"
  using quiet_proper stableD [OF stable_quiet_fits] by (auto simp: sound_step_def)

lemma calm_proper: "calm K s s' \<Longrightarrow> proper_step s s'"
  unfolding calm_def proper_step_def proper_trace_def list_all_iff by (metis Un_iff asks_model.simps(1) set_append)

end

sublocale message_history \<subseteq> sound: run_relation sound_step
proof
  show "quiet s s' \<Longrightarrow> sound_step s s'" for s s' by (rule quiet_sound)
qed (auto simp: sound_step_def proper_step_def)

sublocale message_history \<subseteq> tools: tool_relation leaves_messages
proof
  show "leaves_messages h i \<Longrightarrow> leaves_messages i j \<Longrightarrow> leaves_messages h j" for h i j
    unfolding leaves_messages_def by metis
qed (simp add: leaves_messages_def)

context message_history
begin

lemma sound_quiet: "quietly m \<Longrightarrow> runs sound_step (fits P) m (\<lambda>_. fits P)"
  by (rule sound.runs_quietly_post) (auto simp: quietly_def intro: stableD [OF stable_quiet_fits])

lemma sound_then: "quietly m \<Longrightarrow> (\<And>x. runs sound_step (fits P) (f x) Q) \<Longrightarrow> runs sound_step (fits P) (bindP m f) Q"
  by (rule sound.runs_bindP [OF sound_quiet])

lemma runs_calm:
  assumes "runs (calm leaves_messages) (\<lambda>_. True) m Q" "\<And>calls h h'. leaves_messages h h' \<Longrightarrow> P calls h \<Longrightarrow> P calls h'"
  shows "runs sound_step (fits P) m (\<lambda>x s. fits P s \<and> Q x s)"
proof (rule runsI)
  fix s :: "'h run" assume s: "fits P s"
  let ?s' = "snd (m s)"
  have c: "calm leaves_messages s ?s'" using assms(1) by (simp add: runs_def)
  then have le: "leaves_messages (rn_History s) (rn_History ?s')" and same: "called (rn_Trace ?s') = called (rn_Trace s)"
    by (auto simp: calm_def)
  show "sound_step s ?s'"
    using calm_proper [OF c] le same by (simp add: sound_step_def fits_def leaves_messages_def)
  have "fits P ?s'" using assms(2) [OF le] s same by (simp add: fits_def)
  then show "fits P ?s' \<and> Q x ?s'" if "fst (m s) = Inr x" for x using assms(1) that by (simp add: runs_def)
qed

lemma runs_calm_paired:
  "runs (calm leaves_messages) (\<lambda>_. True) m Q \<Longrightarrow> runs sound_step (fits (paired todo)) m (\<lambda>x s. fits (paired todo) s \<and> Q x s)"
  by (rule runs_calm) (auto intro: paired_leaves)

lemma runs_observe: "\<not> asks_model t \<Longrightarrow> runs sound_step (fits P) (observe t) (\<lambda>_. fits P)"
proof (rule runsI)
  assume t: "\<not> asks_model t"
  show "sound_step s (snd (observe t s))" for s
    using t by (auto simp: observe_def fits_def sound_step_def intro!: proper_step_trace)
qed (simp add: observe_def fits_def)

lemma runs_onHistory:
  fixes m :: "('e, 'h, 'x) prog"
  assumes "\<And>calls h. P calls h \<Longrightarrow> ok calls [] (snd (m h))"
    and "\<And>calls h. P calls h \<Longrightarrow> (case m h of (Inl e, h') \<Rightarrow> P' calls h' | (Inr x, h') \<Rightarrow> Q x calls h')"
  shows "runs sound_step (fits P) (onHistory m) (\<lambda>r s. case r of Inl e \<Rightarrow> fits P' s | Inr x \<Rightarrow> fits (Q x) s)"
proof (rule runsI)
  fix s :: "'h run" assume "fits P s"
  then have P: "P (called (rn_Trace s)) (rn_History s)" by (simp add: fits_def)
  obtain r h' where m: "m (rn_History s) = (r, h')" by fastforce
  show "sound_step s (snd (onHistory m s))"
    using assms(1) [OF P] m by (auto simp: onHistory_def sound_step_def fits_def intro: proper_step_trace)
  show "\<And>x. fst (onHistory m s) = Inr x \<Longrightarrow> case x of Inl e \<Rightarrow> fits P' (snd (onHistory m s)) | Inr y \<Rightarrow> fits (Q y) (snd (onHistory m s))"
    using assms(2) [OF P] m by (auto simp: onHistory_def fits_def split: sum.splits)
qed

lemma runs_onHistory_true:
  fixes m :: "('e, 'h, 'x) prog"
  assumes "\<And>calls h. P calls h \<Longrightarrow> ok calls [] (snd (m h))" "\<And>calls h x h'. P calls h \<Longrightarrow> m h = (Inr x, h') \<Longrightarrow> Q x calls h'"
  shows "runs sound_step (fits P) (onHistory m) (\<lambda>r s. case r of Inl e \<Rightarrow> True | Inr x \<Rightarrow> fits (Q x) s)"
proof -
  have "runs sound_step (fits P) (onHistory m) (\<lambda>r s. case r of Inl e \<Rightarrow> fits (\<lambda>_ _. True) s | Inr x \<Rightarrow> fits (Q x) s)"
    by (rule runs_onHistory) (auto intro: assms split: prod.split sum.split)
  then show ?thesis by (simp cong: sum.case_cong)
qed

lemma runs_append:
  assumes "ms_Role m \<noteq> ''tool''"
  shows "runs sound_step (fits (announced (map tc_ID (ms_ToolCalls m)))) (onHistory (hi_Append H m))
    (\<lambda>r s. case r of Inl e \<Rightarrow> True | Inr x \<Rightarrow> fits (paired (map tc_ID (ms_ToolCalls m))) s)"
proof (rule runs_onHistory_true)
  fix calls h assume a: "announced (map tc_ID (ms_ToolCalls m)) calls h"
  then have okm: "ok calls (map tc_ID (ms_ToolCalls m)) (snd (hi_Append H m h))" using append_ok by (simp add: announced_def)
  then show "ok calls [] (snd (hi_Append H m h))" by (rule ok_Nil)
  show "paired (map tc_ID (ms_ToolCalls m)) calls h'" if "hi_Append H m h = (Inr x, h')" for x h'
    using a append_adds [of calls "map tc_ID (ms_ToolCalls m)" h m h'] okm assms that
    by (simp add: paired_def announced_def well_paired_def answered_append)
qed

section \<open>Tool calls are answered in order\<close>

lemma runs_recordToolBoundary:
  assumes "op_History opts = H"
  shows "runs sound_step (fits (paired todo)) (recordToolBoundary opts cs) (\<lambda>_. fits (paired todo))"
proof (cases "hi_Boundary H")
  case None
  then show ?thesis by (auto simp: recordToolBoundary_def assms intro: sound.runs_retP)
next
  case (Some b)
  obtain started res where b: "hi_Boundary H = Some (started, res)" using Some by (cases b) simp
  have start: "runs sound_step (fits (paired todo)) (onHistory (started cs))
      (\<lambda>r s. case r of Inl e \<Rightarrow> fits (paired todo) s | Inr x \<Rightarrow> fits (paired todo) s)" for cs
  proof (rule runs_onHistory)
    fix calls h assume "paired todo calls h"
    then have p: "paired todo calls (snd (started cs h))" 
      unfolding paired_def by (metis started_ok [OF b] started_keeps [OF b])
    then show "ok calls [] (snd (started cs h))" by (auto simp: paired_def dest: ok_Nil)
    show "case started cs h of (Inl e, h') \<Rightarrow> paired todo calls h' | (Inr x, h') \<Rightarrow> paired todo calls h'"
      using p by (auto split: prod.splits sum.splits)
  qed
  have onward: "runs sound_step (\<lambda>s. case r of Inl e \<Rightarrow> fits (paired todo) s | Inr x \<Rightarrow> fits (paired todo) s)
      (case r of Inl e \<Rightarrow> retP (Inl e) | Inr _ \<Rightarrow> bindP (observe (BoundaryRecorded ss)) (\<lambda>_. retP (Inr ()))) (\<lambda>_. fits (paired todo))"
    for r :: "'e + unit" and ss
    by (cases r) (auto intro: sound.runs_retP sound.runs_bindP [OF runs_observe])
  show ?thesis
    unfolding recordToolBoundary_def assms b Let_def option.case prod.case
    by (intro sound.runs_if sound.runs_bindP [OF start onward] sound.runs_retP) simp_all
qed

lemma tool_message_text: "(text_message ''tool'' r)\<lparr>ms_ToolCallID := i, ms_Parts := p\<rparr> = tool_message i r p"
  by (simp add: text_message_def blank_message_def tool_message_def)

lemma runs_appendToolOutcome:
  assumes "op_History opts = H"
  shows "runs sound_step (fits (paired (pc_ID c # todo))) (appendToolOutcome opts c)
    (\<lambda>r s. case r of Inl e \<Rightarrow> True | Inr x \<Rightarrow> fits (paired todo) s)"
proof -
  let ?i = "pc_ID c"
  have paired: "paired todo calls h'"
    if "paired (?i # todo) calls h" "ok calls todo h'" "hi_Messages H h' = hi_Messages H h @ [tool_message ?i r p]" for calls h h' r p
    using that by (simp add: paired_def answered_append tool_message_def)
  show ?thesis
  proof (cases "hi_Boundary H")
    case None
    let ?m = "tool_message ?i (pc_result c) (pc_parts c)"
    have "runs sound_step (fits (paired (?i # todo))) (onHistory (hi_Append H ?m))
        (\<lambda>r s. case r of Inl e \<Rightarrow> True | Inr x \<Rightarrow> fits (paired todo) s)"
    proof (rule runs_onHistory_true)
      fix calls h assume h: "paired (?i # todo) calls h"
      then have okm: "ok calls todo (snd (hi_Append H ?m h))" 
        unfolding paired_def by (blast intro: append_ok dropped_ok)
      then show "ok calls [] (snd (hi_Append H ?m h))" by (rule ok_Nil)
      show "paired todo calls h'" if "hi_Append H ?m h = (Inr x, h')" for x h'
        using paired [OF h, of h'] append_adds [of calls "?i # todo" h ?m h'] okm that h by (simp add: paired_def)
    qed
    then show ?thesis by (simp add: appendToolOutcome_def assms None tool_message_text)
  next
    case (Some b)
    obtain started res where b: "hi_Boundary H = Some (started, res)" using Some by (cases b) simp
    have out: "ou_ID (outcomeOf c) = ?i" by (simp add: outcomeOf_def)
    have "runs sound_step (fits (paired (?i # todo))) (onHistory (res (outcomeOf c)))
        (\<lambda>r s. case r of Inl e \<Rightarrow> True | Inr x \<Rightarrow> fits (paired todo) s)"
    proof (rule runs_onHistory_true)
      fix calls h assume h: "paired (?i # todo) calls h"
      then have okm: "ok calls todo (snd (res (outcomeOf c) h))" using result_ok [OF b] out by (simp add: paired_def)
      then show "ok calls [] (snd (res (outcomeOf c) h))" by (rule ok_Nil)
      show "paired todo calls h'" if "res (outcomeOf c) h = (Inr x, h')" for x h'
        using paired [OF h, of h'] result_adds [OF b, of calls "?i # todo" h "outcomeOf c" h'] okm that h out by (simp add: paired_def)
    qed
    then show ?thesis by (simp add: appendToolOutcome_def assms b)
  qed
qed

lemma runs_commitGroup:
  assumes "op_History opts = H"
  shows "runs sound_step (fits (paired (map pc_ID cs @ todo))) (commitGroup opts cs acc)
    (\<lambda>r s. snd r = None \<longrightarrow> fits (paired todo) s)"
proof (induction cs arbitrary: acc)
  case Nil
  show ?case by (cases acc) (auto intro: sound.runs_retP)
next
  case (Cons c cs)
  obtain n writes where acc: "acc = (n, writes)" by (cases acc)
  have post: "runs sound_step (\<lambda>s. case r of Inl e \<Rightarrow> True | Inr x \<Rightarrow> fits (paired (map pc_ID cs @ todo)) s)
      (case r of Inl e \<Rightarrow> retP ((n, writes), Some e) | Inr _ \<Rightarrow> commitGroup opts cs a)
      (\<lambda>r s. snd r = None \<longrightarrow> fits (paired todo) s)" for r :: "'e + unit" and a
    using Cons.IH by (cases r) (auto intro: sound.runs_retP)
  have "runs sound_step (fits (paired (pc_ID c # map pc_ID cs @ todo))) (commitGroup opts (c # cs) acc)
      (\<lambda>r s. snd r = None \<longrightarrow> fits (paired todo) s)"
    unfolding acc commitGroup.simps
    by (intro sound_then quietly_firePostHook sound.runs_bindP [OF runs_appendToolOutcome [OF assms]] post)
  then show ?case by simp
qed

lemma runs_executeGroups:
  assumes "op_History opts = H" "tools_respect leaves_messages opts" "known_tools opts (concat groups)"
  shows "runs sound_step (fits (paired (map pc_ID (concat groups)))) (executeGroups env opts policy iter groups acc)
    (\<lambda>r s. snd r = None \<longrightarrow> fits (paired []) s)"
  using assms(3)
proof (induction groups arbitrary: acc)
  case Nil
  show ?case by (auto intro: sound.runs_retP)
next
  case (Cons cs groups)
  let ?rest = "map pc_ID (concat groups)"
  have cs: "known_tools opts cs" and groups: "known_tools opts (concat groups)" using Cons.prems by simp_all
  have ids: "map pc_ID cs' = map pc_ID cs" if "keeps_calls cs cs'" for cs'
    using arg_cong [OF keeps_calls_map [OF that], of "map tc_ID"] by (simp add: comp_def)
  have commit: "runs sound_step (\<lambda>s. fits (paired (map pc_ID cs @ ?rest)) s \<and> keeps_calls gated ran)
      (bindP (commitGroup opts ran acc) (\<lambda>(acc', err).
         if err \<noteq> None then retP (acc', err) else executeGroups env opts policy iter groups acc'))
      (\<lambda>r s. snd r = None \<longrightarrow> fits (paired []) s)" if gated: "keeps_calls cs gated" for gated ran
  proof (cases "keeps_calls gated ran")
    case True
    have "runs sound_step (fits (paired (map pc_ID ran @ ?rest)))
      (bindP (commitGroup opts ran acc) (\<lambda>(acc', err).
         if err \<noteq> None then retP (acc', err) else executeGroups env opts policy iter groups acc'))
      (\<lambda>r s. snd r = None \<longrightarrow> fits (paired []) s)"
    proof (rule sound.runs_bindP [OF runs_commitGroup [OF assms(1)]], rule sound.runs_prod, rule sound.runs_if)
      fix x :: "(int \<times> int) \<times> 'e option" and acc' err assume "x = (acc', err)" "\<not> err \<noteq> None"
      then show "runs sound_step (\<lambda>s. snd x = None \<longrightarrow> fits (paired ?rest) s) (executeGroups env opts policy iter groups acc')
          (\<lambda>r s. snd r = None \<longrightarrow> fits (paired []) s)"
        using Cons.IH [OF groups] by simp
    qed (auto intro: sound.runs_retP)
    then show ?thesis using ids [OF keeps_calls_trans [OF gated True]] by (auto elim: runs_pre)
  qed (simp add: runs_def)
  have run: "runs sound_step (\<lambda>s. fits (paired (map pc_ID cs @ ?rest)) s)
      (bindP (runGroup env opts iter gated) (\<lambda>ran.
         bindP (commitGroup opts ran acc) (\<lambda>(acc', err).
         if err \<noteq> None then retP (acc', err) else executeGroups env opts policy iter groups acc')))
      (\<lambda>r s. snd r = None \<longrightarrow> fits (paired []) s)" if "keeps_calls cs gated" for gated
    by (rule sound.runs_bindP [OF runs_calm_paired [OF tools.runs_runGroup_keeps [OF assms(2) known_tools_keeps [OF that cs]]]])
      (rule commit [OF that])
  have bound: "runs sound_step (\<lambda>s. fits (paired (map pc_ID cs @ ?rest)) s \<and> keeps_calls cs gated)
      (bindP (recordToolBoundary opts gated) (\<lambda>r.
         case r of Inl e \<Rightarrow> retP (acc, Some e)
         | Inr _ \<Rightarrow> bindP (runGroup env opts iter gated) (\<lambda>ran.
             bindP (commitGroup opts ran acc) (\<lambda>(acc', err).
             if err \<noteq> None then retP (acc', err) else executeGroups env opts policy iter groups acc'))))
      (\<lambda>r s. snd r = None \<longrightarrow> fits (paired []) s)" for gated
  proof (cases "keeps_calls cs gated")
    case True
    have "runs sound_step (\<lambda>s. fits (paired (map pc_ID cs @ ?rest)) s)
      (bindP (recordToolBoundary opts gated) (\<lambda>r.
         case r of Inl e \<Rightarrow> retP (acc, Some e)
         | Inr _ \<Rightarrow> bindP (runGroup env opts iter gated) (\<lambda>ran.
             bindP (commitGroup opts ran acc) (\<lambda>(acc', err).
             if err \<noteq> None then retP (acc', err) else executeGroups env opts policy iter groups acc'))))
      (\<lambda>r s. snd r = None \<longrightarrow> fits (paired []) s)"
      by (rule sound.runs_bindP [OF runs_recordToolBoundary [OF assms(1)]], rule sound.runs_sum)
        (rule run [OF True] | (rule sound.runs_retP, simp))+
    then show ?thesis by (rule runs_pre) simp
  qed (simp add: runs_def)
  show ?case
    unfolding executeGroups.simps concat.simps map_append
    by (rule sound.runs_bindP [OF runs_calm_paired [OF tools.runs_gateAll_keeps] bound])
qed

lemma runs_executeToolCalls:
  assumes "op_History opts = H" "tools_respect leaves_messages opts"
  shows "runs sound_step (fits (paired (map tc_ID calls))) (executeToolCalls env opts iter calls)
    (\<lambda>r s. snd r = None \<longrightarrow> fits (paired []) s)"
proof -
  let ?groups = "groupCalls (parseCalls env opts calls) (op_MaxParallelTools opts)"
  have ids: "map pc_ID (concat ?groups) = map tc_ID calls"
    unfolding groupCalls_concat using parseCalls_calls [of env opts calls] by (metis (no_types, lifting) comp_def list.map_comp map_eq_conv)
  show ?thesis
    unfolding executeToolCalls_def Let_def ids [symmetric]
    by (rule runs_executeGroups [OF assms]) (simp add: groupCalls_concat known_parseCalls)
qed

end

end
