(* ===== verification/Agent_Turns.thy ===== *)
theory Agent_Turns
  imports Agent_Requests
begin

text \<open>
  The rest of a run over a history that keeps its contract: queued messages, compaction, the calls of the model and the
  turns. What a turn starts from is a history whose calls are all answered, and it leaves one.
\<close>

section \<open>What the trim leaves\<close>

lemma TrimHistory_paired:
  assumes "well_paired msgs"
  shows "well_paired (TrimHistory msgs sys cw reserve)
    \<or> (\<exists>m. TrimHistory msgs sys cw reserve = [m] \<and> ms_Role m = ''tool'')"
proof -
  let ?kept = "TrimHistory msgs sys cw reserve"
  consider "?kept = msgs"
    | k where "?kept = drop k msgs" "k < length msgs" "k = length msgs - 1 \<or> ms_Role (msgs ! k) \<noteq> ''tool''"
  proof -
    let ?b = "cw - (if reserve = 0 then defaultReserveTokens else reserve) - sys"
    let ?c = "trim_walk msgs ?b 0 (length msgs)"
    show ?thesis
    proof (cases "?b \<le> 0 \<or> msgs = [] \<or> ?c = 0")
      case True
      then have "?kept = msgs" by (auto simp: TrimHistory_def Let_def)
      then show ?thesis by (rule that(1))
    next
      case False
      then have c: "?c \<le> length msgs" "0 < length msgs" using trim_walk_spec [of "length msgs" msgs 0 ?b] by auto
      let ?k = "if skip_tools msgs ?c \<ge> length msgs then length msgs - 1 else skip_tools msgs ?c"
      have "?kept = drop ?k msgs" using False by (simp add: TrimHistory_def Let_def)
      moreover have "?k < length msgs" using c by simp
      moreover have "?k = length msgs - 1 \<or> ms_Role (msgs ! ?k) \<noteq> ''tool''" using skip_tools_spec [OF c(1)] by auto
      ultimately show ?thesis by (rule that(2))
    qed
  qed
  then show ?thesis
  proof cases
    case (2 k)
    show ?thesis
    proof (cases "ms_Role (msgs ! k) = ''tool''")
      case True
      then have "drop k msgs = [msgs ! k]" using 2 by (auto simp: Cons_nth_drop_Suc [symmetric])
      then show ?thesis using 2 True by simp
    next
      case False
      then show ?thesis using 2 well_paired_drop [OF assms] by simp
    qed
  qed (use assms in simp)
qed

lemma split_paired:
  assumes "splitForCompaction msgs r = (a, b)" "a \<noteq> []" "well_paired msgs"
  shows "well_paired b \<and> b = drop (length a) msgs \<and> 0 < length a \<and> length a \<le> length msgs"
proof -
  obtain k where "k < length msgs" "a = take k msgs" "b = drop k msgs" "ms_Role (msgs ! k) \<noteq> ''tool''"
    using split_cases [OF assms(1,2)] by metis
  then show ?thesis using well_paired_drop [OF assms(3)] assms(2) by simp
qed

definition state_only :: "Message list \<Rightarrow> bool" where
  "state_only state \<longleftrightarrow> (\<forall>m\<in>set state. ms_Role m = ''user'' \<and> ms_ToolCalls m = [])"

lemma sessionStateMessages_plain: "state_only (sessionStateMessages opts s)"
  by (auto simp: state_only_def sessionStateMessages_def Let_def text_message_def blank_message_def split: prod.split)

lemma proper_assembled:
  assumes "well_paired history" "state_only state"
  shows "proper_request (req\<lparr>rq_Messages := assembleMessages prompt (if b then TrimHistory history sys cw 0 else history) state\<rparr>)"
  unfolding proper_request_def assembleMessages_def
  using assms TrimHistory_paired [OF assms(1), of sys cw 0] by (auto simp: state_only_def)

lemma runs_pure: "(b \<Longrightarrow> runs R P m Q) \<Longrightarrow> runs R (\<lambda>s. P s \<and> b) m Q"
  by (auto simp: runs_def)

section \<open>Queued messages and compaction\<close>

context message_history
begin

definition holding :: "Message list \<Rightarrow> string list \<Rightarrow> 'h \<Rightarrow> bool" where
  "holding msgs calls h \<longleftrightarrow> paired [] calls h \<and> hi_Messages H h = msgs"

lemma fits_pairedD: "fits (paired []) s \<Longrightarrow> well_paired (hi_Messages H (rn_History s))"
  by (simp add: fits_def paired_def well_paired_def)

lemma fits_holdingD: "fits (holding msgs) s \<Longrightarrow> fits (paired []) s \<and> well_paired msgs"
  by (auto simp: fits_def holding_def paired_def well_paired_def)

lemma runs_historyMessages:
  "op_History opts = H \<Longrightarrow> runs sound_step (fits (paired [])) (historyMessages opts) (\<lambda>msgs. fits (holding msgs))"
  unfolding historyMessages_def by (rule sound.runs_getP) (simp add: fits_def holding_def)

lemma runs_appendMessage_paired:
  assumes "op_History opts = H" "ms_Role m \<noteq> ''tool''"
  shows "runs sound_step (fits (announced (map tc_ID (ms_ToolCalls m)))) (appendMessage opts m)
    (\<lambda>_. fits (paired (map tc_ID (ms_ToolCalls m))))"
  unfolding appendMessage_def assms(1)
proof (rule sound.runs_bindP [OF runs_append [OF assms(2)]])
  show "runs sound_step (\<lambda>s. case r of Inl e \<Rightarrow> True | Inr x \<Rightarrow> fits (paired (map tc_ID (ms_ToolCalls m))) s)
      (case r of Inl e \<Rightarrow> throwP (HistoryFailed e) | Inr _ \<Rightarrow> retP ()) (\<lambda>_. fits (paired (map tc_ID (ms_ToolCalls m))))" for r :: "'e + unit"
    by (cases r) (auto intro: sound.runs_throwP sound.runs_retP)
qed

lemma runs_injectOne_paired:
  assumes "op_History opts = H"
  shows "runs sound_step (fits (paired [])) (injectOne opts iter text) (\<lambda>_. fits (paired []))"
proof -
  have onward: "runs sound_step (\<lambda>s. case r of Inl e \<Rightarrow> True | Inr x \<Rightarrow> fits (paired []) s)
      (case r of Inl e \<Rightarrow> throwP (AppendQueued e) | Inr _ \<Rightarrow> emit opts ev) (\<lambda>_. fits (paired []))" for r :: "'e + unit" and ev
    by (cases r) (auto intro: sound.runs_throwP sound_quiet quietly_emit)
  have user: "ms_Role (text_message ''user'' text) \<noteq> ''tool''" "map tc_ID (ms_ToolCalls (text_message ''user'' text)) = []"
    by (simp_all add: text_message_def blank_message_def)
  show ?thesis
    unfolding injectOne_def assms
    by (intro sound.runs_if sound_then quietly_runHook sound_quiet quietly_emit
        sound.runs_bindP [OF runs_append [OF user(1), unfolded user(2) announced_Nil] onward] sound.runs_retP)
qed

lemma runs_injectPendingInput_paired:
  assumes "op_History opts = H"
  shows "runs sound_step (fits (paired [])) (injectPendingInput env opts iter) (\<lambda>_. fits (paired []))"
proof -
  have waiting: "runs sound_step (fits (paired [])) (injectWaiting opts iter n) (\<lambda>_. fits (paired []))" for n
  proof (induction n)
    case (Suc n)
    then show ?case
      by (auto intro!: sound_then quietly_dequeueInput sound.runs_option sound.runs_retP
          sound.runs_bindP [OF runs_injectOne_paired [OF assms]])
  qed (auto intro: sound.runs_retP)
  show ?thesis
    unfolding injectPendingInput_def
    by (intro sound.runs_if sound_then quietly_receive quietly_basic waiting sound.runs_retP)
qed

lemma runs_checkpoint_holding:
  assumes "tools_respect leaves_messages opts"
  shows "runs sound_step (fits (holding msgs)) (checkpointAndCompact opts iter prior old) (\<lambda>_. fits (holding msgs))"
proof (rule runs_post [OF runs_calm [OF tools.runs_checkpointAndCompact_K [OF assms]]])
  show "leaves_messages h h' \<Longrightarrow> holding msgs calls h \<Longrightarrow> holding msgs calls h'" for calls h h'
    unfolding holding_def leaves_messages_def paired_def by metis
qed simp

lemma runs_recordCompaction_paired:
  assumes "op_History opts = H" "0 < n" "n \<le> length msgs" "well_paired (drop n msgs)"
  shows "runs sound_step (fits (holding msgs)) (recordCompaction opts summary n) (\<lambda>r s. case r of Inl e \<Rightarrow> True | Inr x \<Rightarrow> fits (paired []) s)"
proof (cases "hi_Compaction H")
  case None
  then show ?thesis
    unfolding recordCompaction_def assms(1) None option.case by (intro sound.runs_retP) (simp add: fits_holdingD)
next
  case (Some p)
  obtain prior add where p: "hi_Compaction H = Some (prior, add)" using Some by (cases p) simp
  have "runs sound_step (fits (holding msgs)) (onHistory (add summary (int n))) (\<lambda>r s. case r of Inl e \<Rightarrow> True | Inr x \<Rightarrow> fits (paired []) s)"
  proof (rule runs_onHistory_true)
    fix calls h assume h: "holding msgs calls h"
    then show c: "ok calls [] (snd (add summary (int n) h))" using compaction_ok [OF p] by (simp add: holding_def paired_def)
    show "paired [] calls h'" if "add summary (int n) h = (Inr x, h')" for x h'
      using compaction_drops [OF p, of calls h n summary h'] h c that assms(2-4) by (simp add: holding_def paired_def well_paired_def)
  qed
  then show ?thesis by (simp add: recordCompaction_def assms(1) p)
qed

text \<open>A compaction that could not be recorded ends the run, so nothing is said of the history then.\<close>

definition recorded :: "'h run \<Rightarrow> 'e run_error + 'a \<Rightarrow> bool" where
  "recorded s res \<longleftrightarrow> (\<forall>e. res \<noteq> Inl (CompactionNotPersisted e)) \<longrightarrow> fits (paired []) s"

lemma runs_compactOnce_paired:
  assumes "op_History opts = H" "tools_respect leaves_messages opts"
  shows "runs sound_step (fits (holding msgs)) (compactOnce opts iter prior msgs reserve)
    (\<lambda>r s. well_paired (fst r) \<and> recorded s (snd r))"
proof (cases "well_paired msgs")
  case False
  then show ?thesis using fits_holdingD by (auto simp: runs_def)
next
  case True
  obtain a b where ab: "splitForCompaction msgs reserve = (a, b)" by fastforce
  have none: "runs sound_step (fits (holding msgs)) (retP (msgs, res)) (\<lambda>r s. well_paired (fst r) \<and> recorded s (snd r))" for res
    by (rule sound.runs_retP) (auto simp: True recorded_def dest: fits_holdingD)
  show ?thesis
  proof (cases "a = []")
    case True
    then show ?thesis by (simp add: compactOnce_def ab none)
  next
    case False
    have b: "well_paired b" "b = drop (length a) msgs" "0 < length a" "length a \<le> length msgs"
      using split_paired [OF ab False True] by auto
    have kept: "runs sound_step (fits (paired [])) (retP (b, Inr res)) (\<lambda>r s. well_paired (fst r) \<and> recorded s (snd r))" for res
      by (rule sound.runs_retP) (use b(1) in \<open>simp add: recorded_def\<close>)
    have stored: "runs sound_step (\<lambda>s. case r of Inl e \<Rightarrow> True | Inr x \<Rightarrow> fits (paired []) s)
        (case r of
           Inl e \<Rightarrow> retP (msgs, Inl (CompactionNotPersisted e))
         | Inr _ \<Rightarrow> bindP (chargeCall opts usage) (\<lambda>callCost. bindP (emit opts (ev callCost)) (\<lambda>_. bindP (runHook opts inp) (\<lambda>_. retP (b, Inr res)))))
        (\<lambda>r s. well_paired (fst r) \<and> recorded s (snd r))" for r :: "'e + unit" and ev inp usage res
    proof (cases r)
      case (Inl e)
      show ?thesis unfolding Inl sum.case by (rule sound.runs_retP) (simp add: \<open>well_paired msgs\<close> recorded_def)
    next
      case (Inr x)
      show ?thesis unfolding Inr sum.case by (intro sound_then quietly_chargeCall quietly_emit quietly_runHook kept)
    qed
    note rec = runs_recordCompaction_paired [OF assms(1) b(3,4) b(1) [unfolded b(2)]]
    show ?thesis
      unfolding compactOnce_def ab prod.case if_not_P [OF False] Let_def
      by (intro sound_then quietly_runHook sound.runs_if none
          sound.runs_bindP [OF runs_checkpoint_holding [OF assms(2)]] sound.runs_sum sound.runs_prod
          sound.runs_bindP [OF rec stored])
  qed
qed

lemma runs_compactIfFull_paired:
  assumes "op_History opts = H" "tools_respect leaves_messages opts"
  shows "runs sound_step (fits (holding msgs)) (compactIfFull opts iter summary msgs) (\<lambda>r s. fits (paired []) s \<and> well_paired (fst r))"
proof -
  have same: "runs sound_step (fits (holding msgs)) (retP (msgs, summary)) (\<lambda>r s. fits (paired []) s \<and> well_paired (fst r))"
    by (rule sound.runs_retP) (auto dest: fits_holdingD)
  have onward: "runs sound_step (\<lambda>s. well_paired kept \<and> recorded s res)
      (case res of
         Inl (CompactionNotPersisted e) \<Rightarrow> throwP (CompactionNotPersisted e)
       | Inl _ \<Rightarrow> retP (msgs, summary)
       | Inr r \<Rightarrow> retP (if Compacted r then (kept, cr_Summary r) else (msgs, summary)))
      (\<lambda>r s. fits (paired []) s \<and> well_paired (fst r))" if "well_paired msgs" for kept res
    using that by (auto simp: recorded_def split: sum.split run_error.split intro!: sound.runs_retP sound.runs_throwP)
  show ?thesis
  proof (cases "well_paired msgs")
    case True
    have cut: "runs sound_step (\<lambda>s. well_paired (fst x) \<and> recorded s (snd x))
      (case x of (kept, res) \<Rightarrow> case res of
         Inl (CompactionNotPersisted e) \<Rightarrow> throwP (CompactionNotPersisted e)
       | Inl _ \<Rightarrow> retP (msgs, summary)
       | Inr r \<Rightarrow> retP (if Compacted r then (kept, cr_Summary r) else (msgs, summary)))
      (\<lambda>r s. fits (paired []) s \<and> well_paired (fst r))" for x
    proof (cases x)
      case (Pair kept res)
      show ?thesis unfolding Pair prod.case fst_conv snd_conv by (rule onward [OF True])
    qed
    show ?thesis
      unfolding compactIfFull_def
      by (intro sound.runs_if same sound_then quietly_contextWindow
          sound.runs_bindP [OF runs_compactOnce_paired [OF assms] cut])
  qed (use fits_holdingD in \<open>auto simp: runs_def\<close>)
qed

section \<open>The turns of a run\<close>

lemma runs_getP_state:
  "runs sound_step (fits (paired [])) (getP (sessionStateMessages opts)) (\<lambda>state s. fits (paired []) s \<and> state_only state)"
  by (rule sound.runs_getP) (simp add: sessionStateMessages_plain)

text \<open>What a request leaves: the calls of its answer, if it has one, are announced.\<close>

definition replied :: "string + Completion \<Rightarrow> 'h run \<Rightarrow> bool" where
  "replied r s \<longleftrightarrow> (case r of Inl msg \<Rightarrow> fits (paired []) s | Inr c \<Rightarrow> fits (announced (map tc_ID (cm_ToolCalls c))) s)"

lemma runs_sendRequest_proper:
  assumes "proper_request req"
  shows "runs sound_step (fits (paired [])) (sendRequest opts sink req) replied"
proof -
  have called: "runs sound_step (fits (paired [])) (observe (ModelCalled req)) (\<lambda>_. fits (paired []))"
    by (rule runsI) (use assms in \<open>auto simp: observe_def sound_step_def fits_def called_def proper_step_def proper_trace_def\<close>)
  have answered: "sound_step s s' \<and> replied r s'" if "fits (paired []) s" "s' = s\<lparr>rn_Trace := rn_Trace s @ [ModelAnswered r]\<rparr>" for s s' r
  proof -
    have p: "ok (called (rn_Trace s)) [] (rn_History s)" "well_paired (hi_Messages H (rn_History s))"
      using that(1) by (simp_all add: fits_def paired_def well_paired_def)
    have new: "ok (called (rn_Trace s')) (called_by (ModelAnswered r)) (rn_History s')"
      using announced_ok [OF p(1)] that(2) by (simp add: called_def)
    have "proper_step s s'" by (rule proper_step_trace) (simp add: that(2))
    then have "sound_step s s'" using ok_Nil [OF new] by (simp add: sound_step_def fits_def)
    moreover have "replied r s'"
      using new p that by (cases r) (auto simp: replied_def fits_def announced_def paired_def called_def)
    ultimately show ?thesis by simp
  qed
  have asked: "runs sound_step (fits (paired [])) (ask f ModelAnswered) replied" for f
    by (rule runsI) (auto simp: ask_def Let_def dest: answered [OF _ refl])
  have told: "runs sound_step (fits (paired [])) (bindP (observe (ModelAnswered r)) (\<lambda>_. retP r)) replied" for r
    by (rule runsI) (auto simp: bindP_def observe_def retP_def dest: answered [OF _ refl])
  have ends: "quietly (if e then observe StreamEnded else retP ())" for e by (intro quiet_intros) simp
  show ?thesis
    unfolding sendRequest_def
    by (intro sound.runs_option sound.runs_throwP sound.runs_bindP [OF called] asked sound_then quietly_basic
        sound.runs_prod quietly_streamDeltas ends told)
qed

lemma runs_request:
  assumes "well_paired msgs" "state_only state"
  shows "runs sound_step (fits (paired []))
    (sendRequest opts sink \<lparr>rq_Messages = assembleMessages prompt (if b then TrimHistory msgs sys cw 0 else msgs) state,
       rq_Tools = tools, rq_Profile = profile, rq_CacheScope = scope, rq_Output = out\<rparr>) replied"
  by (rule runs_sendRequest_proper) (use proper_assembled [OF assms, where req = "\<lparr>rq_Messages = [], rq_Tools = tools,
    rq_Profile = profile, rq_CacheScope = scope, rq_Output = out\<rparr>"] in simp)

lemma runs_callLLM_paired:
  assumes "well_paired msgs"
  shows "runs sound_step (fits (paired [])) (callLLM opts msgs prompt iter) replied"
  unfolding callLLM_def Let_def
  by (intro sound.runs_bindP [OF runs_getP_state] runs_pure sound_then quietly_contextWindow quietly_basic quietly_emit
      runs_request [OF assms])

lemma replied_paired: "replied r s \<Longrightarrow> fits (paired []) s"
  by (auto simp: replied_def fits_def announced_def paired_def well_paired_def split: sum.splits dest: ok_Nil)

lemma runs_extractStructured_paired:
  assumes "op_History opts = H"
  shows "runs sound_step (fits (paired [])) (extractStructured opts prompt) (\<lambda>_. fits (paired []))"
proof -
  have messages: "runs sound_step (fits (paired [])) (historyMessages opts) (\<lambda>msgs s. fits (paired []) s \<and> well_paired msgs)"
    by (rule runs_post [OF runs_historyMessages [OF assms]]) (auto dest: fits_holdingD)
  note request = runs_post [OF runs_request, where Q' = "\<lambda>_. fits (paired [])", OF _ _ replied_paired]
  show ?thesis
    unfolding extractStructured_def Let_def
    by (intro sound.runs_bindP [OF messages] runs_pure sound_then quietly_contextWindow
        sound.runs_bindP [OF runs_getP_state] sound.runs_bindP [OF request] sound.runs_sum quietly_chargeCall sound.runs_retP)
qed

lemma runs_runToolCalls_paired:
  assumes "op_History opts = H" "tools_respect leaves_messages opts"
  shows "runs sound_step (fits (paired (map tc_ID calls))) (runToolCalls env opts iter calls) (\<lambda>_. fits (paired []))"
proof -
  have after: "runs sound_step (\<lambda>s. snd x = None \<longrightarrow> fits (paired []) s)
      (case x of (acc, err) \<Rightarrow>
         bindP (modifyRun (rn_Stats_update (f acc))) (\<lambda>_. bindP absorbDelegated (\<lambda>_.
         case err of None \<Rightarrow> retP () | Some e \<Rightarrow> throwP (HistoryFailed e)))) (\<lambda>_. fits (paired []))" for x f
  proof (cases x)
    case (Pair acc err)
    have stats: "quietly (modifyRun (rn_Stats_update (f acc)))" by (rule quietly_modifyRun) simp
    have ends: "runs sound_step (fits P)
        (bindP (modifyRun (rn_Stats_update (f acc))) (\<lambda>_. bindP absorbDelegated (\<lambda>_.
         case err of None \<Rightarrow> retP () | Some e \<Rightarrow> throwP (HistoryFailed e)))) (\<lambda>_. fits (paired []))"
      if "err = None \<longrightarrow> P = paired []" for P
      by (intro sound_then stats quietly_absorbDelegated sound.runs_option sound.runs_throwP sound.runs_retP) (simp add: that)
    show ?thesis
      unfolding Pair prod.case snd_conv
      by (rule runs_pre, rule ends [of "if err = None then paired [] else (\<lambda>_ _. True)"]) simp_all
  qed
  show ?thesis
    unfolding runToolCalls_def by (rule sound.runs_bindP [OF runs_executeToolCalls [OF assms] after])
qed

lemma runs_endRun_paired:
  "runs sound_step (fits (paired [])) m Q \<Longrightarrow> runs sound_step (fits (paired [])) (bindP (endRun env opts err) (\<lambda>_. m)) Q"
  by (rule sound_then [OF quietly_endRun])

lemma runs_answerTurn_paired:
  assumes "op_History opts = H" "tools_respect leaves_messages opts"
  shows "runs sound_step (fits (announced (map tc_ID (cm_ToolCalls completion)))) (answerTurn env opts iter prompt texts summary completion) (\<lambda>_. fits (paired []))"
proof -
  have answer: "ms_Role (AssistantMessage completion) \<noteq> ''tool''"
    "ms_ToolCalls (AssistantMessage completion) = cm_ToolCalls completion"
    by (simp_all add: AssistantMessage_def text_message_def blank_message_def)
  note append = runs_appendMessage_paired [OF assms(1) answer(1), unfolded answer(2)]
  have structured: "runs sound_step (fits (paired []))
      (if op_Output opts = None then retP None else bindP (extractStructured opts prompt) (\<lambda>v. retP (Some v))) (\<lambda>_. fits (paired []))"
    by (intro sound.runs_if sound.runs_bindP [OF runs_extractStructured_paired [OF assms(1)]] sound.runs_retP)
  have turns: "runs sound_step (fits (paired (map tc_ID (cm_ToolCalls completion))))
      (if cm_ToolCalls completion = [] then bindP structured (\<lambda>x. bindP (endRun env opts None) (\<lambda>_. retP (a x)))
       else bindP (runToolCalls env opts iter (cm_ToolCalls completion)) (\<lambda>_. m)) (\<lambda>_. fits (paired []))"
    if "runs sound_step (fits (paired [])) structured (\<lambda>_. fits (paired []))" "runs sound_step (fits (paired [])) m (\<lambda>_. fits (paired []))"
    for structured :: "('h, 'e, 'x) loop" and a m
  proof (cases "cm_ToolCalls completion = []")
    case True
    show ?thesis
      unfolding if_P [OF True] unfolding True list.map
      by (intro sound.runs_bindP [OF that(1)] runs_endRun_paired sound.runs_retP)
  next
    case False
    show ?thesis
      unfolding if_not_P [OF False] by (rule sound.runs_bindP [OF runs_runToolCalls_paired [OF assms] that(2)])
  qed
  have quiets: "quietly (if b then observe (StreamDelta d) else retP ())" for b d by (intro quiet_intros) simp
  show ?thesis
    unfolding answerTurn_def Let_def
    by (intro sound_then quietly_chargeCall quiets quietly_basic quietly_emit sound.runs_bindP [OF append] turns structured
        sound.runs_if runs_endRun_paired sound.runs_retP)
qed

lemma runs_iteration_paired:
  assumes "op_History opts = H" "tools_respect leaves_messages opts"
  shows "runs sound_step (fits (paired [])) (iteration env opts iter texts summary) (\<lambda>_. fits (paired []))"
proof -
  have answer: "runs sound_step (replied r)
      (case r of
         Inr completion \<Rightarrow> answerTurn env opts iter prompt texts summary completion
       | Inl msg \<Rightarrow>
           bindP (getP (\<lambda>s. re_Cancelled env (rn_Trace s))) (\<lambda>cancelled.
           if cancelled then bindP (endRun env opts None) (\<lambda>_. retP (Finished (paragraphs texts) None))
           else bindP (endRun env opts (Some (LLMCall msg))) (\<lambda>_. throwP (LLMCall msg)))) (\<lambda>_. fits (paired []))" for r prompt summary
  proof (cases r)
    case (Inl msg)
    have "runs sound_step (fits (paired []))
        (bindP (getP (\<lambda>s. re_Cancelled env (rn_Trace s))) (\<lambda>cancelled.
           if cancelled then bindP (endRun env opts None) (\<lambda>_. retP (Finished (paragraphs texts) None))
           else bindP (endRun env opts (Some (LLMCall msg))) (\<lambda>_. throwP (LLMCall msg)))) (\<lambda>_. fits (paired []))"
      by (intro sound_then quietly_basic sound.runs_if runs_endRun_paired sound.runs_retP sound.runs_throwP)
    then show ?thesis unfolding Inl sum.case by (rule runs_pre) (rule replied_paired)
  next
    case (Inr c)
    show ?thesis unfolding Inr sum.case by (rule runs_pre [OF runs_answerTurn_paired [OF assms]]) (simp add: replied_def)
  qed
  have request: "runs sound_step (\<lambda>s. fits (paired []) s \<and> well_paired (fst x))
      (case x of (msgs, summary) \<Rightarrow>
         bindP (callLLM opts msgs (op_SystemPrompt opts @ RenderCompactionBlock summary) iter) (\<lambda>r.
          case r of
            Inr completion \<Rightarrow> answerTurn env opts iter (op_SystemPrompt opts @ RenderCompactionBlock summary) texts summary completion
          | Inl msg \<Rightarrow>
              bindP (getP (\<lambda>s. re_Cancelled env (rn_Trace s))) (\<lambda>cancelled.
              if cancelled then bindP (endRun env opts None) (\<lambda>_. retP (Finished (paragraphs texts) None))
              else bindP (endRun env opts (Some (LLMCall msg))) (\<lambda>_. throwP (LLMCall msg))))) (\<lambda>_. fits (paired []))" for x
  proof (cases x)
    case (Pair msgs summary)
    show ?thesis
      unfolding Pair prod.case fst_conv
      by (intro runs_pure sound.runs_bindP [OF runs_callLLM_paired answer])
  qed
  show ?thesis
    unfolding iteration_def Let_def
    by (rule sound_then [OF quietly_emit], rule sound.runs_bindP [OF runs_injectPendingInput_paired [OF assms(1)]],
        rule sound.runs_bindP [OF runs_historyMessages [OF assms(1)]],
        rule sound.runs_bindP [OF runs_compactIfFull_paired [OF assms] request])
qed

lemma runs_iterations_paired:
  assumes "op_History opts = H" "tools_respect leaves_messages opts"
  shows "runs sound_step (fits (paired [])) (iterations env opts left i texts summary) (\<lambda>_. fits (paired []))"
proof (induction left arbitrary: i texts summary)
  case 0
  show ?case unfolding iterations.simps by (rule runs_endRun_paired) (rule sound.runs_throwP)
next
  case (Suc left)
  then show ?case
    unfolding iterations.simps
    by (intro sound.runs_bindP [OF runs_iteration_paired [OF assms]]) (auto intro: sound.runs_retP split: turn.split)
qed

lemma RunLoop_paired:
  assumes "op_History opts = H" "tools_respect leaves_messages opts" "ok [] [] (rn_History s)" "well_paired (hi_Messages H (rn_History s))"
    and "rn_Trace s = []"
  shows "(\<forall>req. ModelCalled req \<in> set (rn_Trace (snd (RunLoop env opts s))) \<longrightarrow> proper_request req)
    \<and> (\<forall>x. fst (RunLoop env opts s) = Inr x \<longrightarrow> well_paired (hi_Messages H (rn_History (snd (RunLoop env opts s)))))
    \<and> ok (called (rn_Trace (snd (RunLoop env opts s)))) [] (rn_History (snd (RunLoop env opts s)))"
proof -
  have init: "quietly (modifyRun (\<lambda>s. s\<lparr>rn_Stats := zeroStats, rn_Delegated := noDelegation, rn_Yielded := False,
      rn_Guard := newLoopGuard defaultMaxRepeatedCalls\<rparr>))" by (rule quietly_modifyRun) simp
  have run: "runs sound_step (fits (paired [])) (RunLoop env opts) (\<lambda>_. fits (paired []))"
    unfolding RunLoop_def by (intro sound_then init quietly_PriorSummary runs_iterations_paired [OF assms(1,2)])
  have s: "fits (paired []) s" using assms(3-5) by (simp add: fits_def paired_def well_paired_def called_def)
  have "sound_step s (snd (RunLoop env opts s))" using runsD [OF run s] .
  then show ?thesis
    using runs_result [OF run s] assms(3,5) fits_pairedD
    by (auto simp: sound_step_def proper_step_def proper_trace_def fits_def called_def)
qed

end

end
