(* ===== verification/Agent_Session.thy ===== *)
theory Agent_Session
  imports Agent_Turns Session_Refinement
begin

text \<open>
  The agent loop over a live session: the session of \<open>session_context.go\<close> is the history \<open>RunLoop\<close> works on. It
  keeps the contract of a history, so every request of a run is well paired; and while no call id comes twice, a run
  keeps the session in step with its journal, however it ends.
\<close>

section \<open>The session as a history\<close>

definition session_history :: "sessionEnv \<Rightarrow> (session, session_error) History" where
  "session_history env =
     \<lparr>hi_Messages = (\<lambda>h. HistoryMessages (sx_state (ss_ctx h))),
      hi_Append = AppendMessage env,
      hi_Compaction = Some (\<lambda>h. st_CompactionSummary (sx_state (ss_ctx h)), AddCompaction env),
      hi_Boundary = Some (MarkToolsStarted env, AppendToolResult env),
      hi_Notes = Some (\<lambda>h. st_Notes (sx_state (ss_ctx h)), \<lambda>h. st_Todos (sx_state (ss_ctx h)))\<rparr>"

text \<open>What a tool or the checkpointer may do to the session: replace the notes and the todos.\<close>

fun is_note_op :: "session_op \<Rightarrow> bool" where
  "is_note_op (OpNotes notes iter) = True"
| "is_note_op (OpTodos todos iter) = True"
| "is_note_op _ = False"

definition notes_only :: "sessionEnv \<Rightarrow> session \<Rightarrow> session \<Rightarrow> bool" where
  "notes_only env h h' \<longleftrightarrow> (\<exists>ops. list_all is_note_op ops \<and> h' = fold (run_op env) ops h)"

section \<open>What the operations change\<close>

definition view_of :: "session \<Rightarrow> State \<times> string list" where
  "view_of s = (sx_state (ss_ctx s), sx_messageIDs (ss_ctx s))"

lemma commitAll_view [simp]: "view_of (snd (commitAll env ps s)) = view_of s"
  by (simp add: view_of_def commitAll_def append_items_def bindP_def retP_def Let_def split: prod.split sum.split option.split)

definition aligned :: "session \<Rightarrow> bool" where
  "aligned s \<longleftrightarrow> length (sx_messageIDs (ss_ctx s)) = length (st_Messages (sx_state (ss_ctx s)))
     \<and> st_CompactionIdx (sx_state (ss_ctx s)) \<le> length (st_Messages (sx_state (ss_ctx s)))"

text \<open>One payload is committed and, if that succeeded, \<open>f\<close> is applied: the shape of every operation.\<close>

lemma commit_then:
  assumes "bindP (commitAll env ps) (\<lambda>x. bindP (q x) (\<lambda>i. modify (f i))) s = (r, s')" "\<And>x s. view_of (snd (q x s)) = view_of s"
    "\<And>x s. \<not> isl (fst (q x s))"
  shows "(\<exists>e. r = Inl e) \<and> view_of s' = view_of s \<or> (\<exists>i s1. r = Inr () \<and> view_of s1 = view_of s \<and> s' = s1\<lparr>ss_ctx := f i (ss_ctx s1)\<rparr>)"
proof (cases "commitAll env ps s")
  case (Pair x s0)
  have v0: "view_of s0 = view_of s" using commitAll_view [of env ps s] Pair by simp
  show ?thesis
  proof (cases x)
    case (Inl e)
    then show ?thesis using assms(1) Pair v0 by (auto simp: bindP_def)
  next
    case (Inr ids)
    obtain i s1 where q: "q ids s0 = (Inr i, s1)" using assms(3) [of ids s0] by (cases "q ids s0", cases "fst (q ids s0)") auto
    have "view_of s1 = view_of s" using assms(2) [of ids s0] q v0 by simp
    then show ?thesis using assms(1) Pair Inr q by (auto simp: bindP_def modify_def)
  qed
qed

lemma commitItem_then:
  assumes "bindP (commitItem env p) (\<lambda>i. modify (f i)) s = (r, s')"
  shows "(\<exists>e. r = Inl e) \<and> view_of s' = view_of s \<or> (\<exists>i s1. r = Inr () \<and> view_of s1 = view_of s \<and> s' = s1\<lparr>ss_ctx := f i (ss_ctx s1)\<rparr>)"
  by (rule commit_then [OF assms [unfolded commitItem_bind]]) (simp_all add: view_of_def)

lemma commit_payloads_then:
  assumes "bindP (commit_payloads env ps) (\<lambda>_. modify f) s = (r, s')"
  shows "(\<exists>e. r = Inl e) \<and> view_of s' = view_of s \<or> (\<exists>s1. r = Inr () \<and> view_of s1 = view_of s \<and> s' = s1\<lparr>ss_ctx := f (ss_ctx s1)\<rparr>)"
proof -
  have "bindP (commitAll env ps) (\<lambda>_. bindP (retP ()) (\<lambda>_. modify f)) s = (r, s')"
    using assms unfolding commit_payloads_bind by (simp add: bindP_def retP_def)
  from commit_then [OF this] show ?thesis by (simp add: retP_def)
qed

lemma AppendMessage_view:
  assumes "AppendMessage env m s = (r, s')"
  shows "(aligned s \<longrightarrow> aligned s')
    \<and> (r = Inr () \<longrightarrow> st_Messages (sx_state (ss_ctx s')) = st_Messages (sx_state (ss_ctx s)) @ [m]
         \<and> st_CompactionIdx (sx_state (ss_ctx s')) = st_CompactionIdx (sx_state (ss_ctx s)))"
  using commitItem_then [OF assms [unfolded AppendMessage_def]] by (auto simp: view_of_def aligned_def)

lemma AppendToolResult_view:
  assumes "AppendToolResult env out s = (r, s')"
  shows "(aligned s \<longrightarrow> aligned s')
    \<and> (r = Inr () \<longrightarrow> st_Messages (sx_state (ss_ctx s')) = st_Messages (sx_state (ss_ctx s)) @ [tool_message (ou_ID out) (ou_Result out) (ou_Parts out)]
         \<and> st_CompactionIdx (sx_state (ss_ctx s')) = st_CompactionIdx (sx_state (ss_ctx s)))"
  using commitItem_then [OF assms [unfolded AppendToolResult_def]] by (auto simp: view_of_def aligned_def)

lemma MarkToolsStarted_view: "view_of (snd (MarkToolsStarted env calls s)) = view_of s"
proof -
  let ?ps = "map (\<lambda>(i, name). ToolExecutionStarted i name) calls"
  have "snd (MarkToolsStarted env calls s) = snd (commitAll env ?ps s)"
    by (simp add: MarkToolsStarted_def commit_payloads_def bindP_def retP_def split: prod.split sum.split)
  then show ?thesis by simp
qed

lemma note_op_view:
  assumes "is_note_op x"
  shows "(aligned s \<longrightarrow> aligned (run_op env x s)) \<and> HistoryMessages (sx_state (ss_ctx (run_op env x s))) = HistoryMessages (sx_state (ss_ctx s))"
  using assms
proof (cases x)
  case (OpNotes ns iter)
  obtain r s' where run: "SetNotes env ns iter s = (r, s')" by fastforce
  have "bindP (commit_payloads env [NotesReplaced (StampNotes (st_Notes (sx_state (ss_ctx s))) ns iter)])
      (\<lambda>_. modify (upd_state (st_Notes_update (\<lambda>_. StampNotes (st_Notes (sx_state (ss_ctx s))) ns iter)))) s = (r, s')"
    using run by (simp add: SetNotes_def with_ctx_def Let_def)
  from commit_payloads_then [OF this] show ?thesis
    using run OpNotes by (auto simp: view_of_def aligned_def HistoryMessages_def)
next
  case (OpTodos ts iter)
  obtain r s' where run: "SetTodos env ts iter s = (r, s')" by fastforce
  have "bindP (commit_payloads env [TodosReplaced (StampTodos (st_Todos (sx_state (ss_ctx s))) ts iter)])
      (\<lambda>_. modify (upd_state (st_Todos_update (\<lambda>_. StampTodos (st_Todos (sx_state (ss_ctx s))) ts iter)))) s = (r, s')"
    using run by (simp add: SetTodos_def with_ctx_def Let_def)
  from commit_payloads_then [OF this] show ?thesis
    using run OpTodos by (auto simp: view_of_def aligned_def HistoryMessages_def)
qed simp_all

lemma AddCompaction_view:
  assumes "AddCompaction env summary k s = (r, s')" "aligned s"
  shows "aligned s' \<and> (r = Inr () \<longrightarrow> 0 < k \<longrightarrow> k \<le> int (length (HistoryMessages (sx_state (ss_ctx s)))) \<longrightarrow>
    HistoryMessages (sx_state (ss_ctx s')) = drop (nat k) (HistoryMessages (sx_state (ss_ctx s))))"
proof -
  let ?st = "sx_state (ss_ctx s)"
  define idx where "idx = min (int (st_CompactionIdx ?st) + k) (int (length (sx_messageIDs (ss_ctx s))))"
  have run: "(if idx = 0 then throwP CoversNothing else if idx < 0 then throwP IndexOutOfRange
      else bindP (commit_payloads env [Compaction (sx_messageIDs (ss_ctx s) ! (nat idx - 1)) summary])
        (\<lambda>_. modify (upd_state (\<lambda>st. st\<lparr>st_CompactionIdx := nat idx, st_CompactionSummary := summary\<rparr>)))) s = (r, s')"
    using assms(1) unfolding AddCompaction_def with_ctx_def Let_def idx_def by simp
  show ?thesis
  proof (cases "0 < idx")
    case False
    then show ?thesis using run assms(2) by (auto simp: throwP_def split: if_splits)
  next
    case True
    then have "bindP (commit_payloads env [Compaction (sx_messageIDs (ss_ctx s) ! (nat idx - 1)) summary])
        (\<lambda>_. modify (upd_state (\<lambda>st. st\<lparr>st_CompactionIdx := nat idx, st_CompactionSummary := summary\<rparr>))) s = (r, s')"
      using run by simp
    from commit_payloads_then [OF this] show ?thesis
    proof (elim disjE conjE exE)
      fix e assume "r = Inl e" "view_of s' = view_of s"
      then show ?thesis using assms(2) by (simp add: view_of_def aligned_def)
    next
      fix s1 assume s': "view_of s1 = view_of s" "s' = s1\<lparr>ss_ctx := upd_state (\<lambda>st. st\<lparr>st_CompactionIdx := nat idx, st_CompactionSummary := summary\<rparr>) (ss_ctx s1)\<rparr>"
      have len: "idx \<le> int (length (st_Messages ?st))" using assms(2) by (simp add: idx_def aligned_def)
      have al: "aligned s'" using s' len assms(2) by (simp add: view_of_def aligned_def)
      have all: "HistoryMessages ?st = drop (st_CompactionIdx ?st) (st_Messages ?st)"
        using assms(2) by (simp add: HistoryMessages_def aligned_def)
      have kept: "HistoryMessages (sx_state (ss_ctx s')) = drop (nat idx) (st_Messages ?st)"
        using s' len True by (simp add: HistoryMessages_def view_of_def)
      have "nat idx = nat k + st_CompactionIdx ?st" if "0 < k" "k \<le> int (length (HistoryMessages ?st))"
        using that assms(2) unfolding idx_def all by (simp add: aligned_def)
      then show ?thesis using al kept all by simp
    qed
  qed
qed

section \<open>Results on the branch\<close>

definition branch_answers :: "session \<Rightarrow> string list" where
  "branch_answers s = answers (path_to (sx_items (ss_ctx s)) (sx_head (ss_ctx s)))"

lemma branch_answers_state [simp]:
  "sx_items c = sx_items (ss_ctx s) \<Longrightarrow> sx_head c = sx_head (ss_ctx s) \<Longrightarrow> branch_answers (s\<lparr>ss_ctx := c\<rparr>) = branch_answers s"
  by (simp add: branch_answers_def)

lemma commitAll_answers:
  assumes "in_step env h s" "steady env" "list_all (\<lambda>p. \<not> is_unknown (Some p)) ps"
  shows "branch_answers (snd (commitAll env ps s)) \<in> {branch_answers s, branch_answers s @ List.map_filter (result_call \<circ> Some) ps}"
proof (cases "ps = []")
  case True
  then show ?thesis by (simp add: commitAll_def)
next
  case False
  let ?its = "build_items env (sx_turnID (ss_ctx s)) (ss_drawn s) (sx_head (ss_ctx s)) (sx_lastSeq (ss_ctx s)) ps"
  have disk: "on_disk env h s" using assms(1) by (simp add: in_step_def)
  note commit = commitAll_ok [OF disk assms(2) False assms(3)]
  have path: "path_to (sx_items (ss_ctx s) @ ?its) (it_ID (last ?its)) = path_to (sx_items (ss_ctx s)) (sx_head (ss_ctx s)) @ ?its"
    using chain_path [OF conjunct1 [OF commit] build_items_facts(1)] False by (simp add: last_id_last)
  have "answers its = List.map_filter result_call (map it_Payload its)" for its
    by (induction its) (simp_all add: answers_def List.map_filter_simps split: option.split)
  then have its: "answers ?its = List.map_filter (result_call \<circ> Some) ps"
    by (simp add: build_items_facts(3)) (induction ps, simp_all add: List.map_filter_simps split: option.split)
  from commit show ?thesis
    using path its by (auto simp: branch_answers_def same_view_def extended_def)
qed

lemma commitItem_answers: "branch_answers (snd (commitItem env p s)) = branch_answers (snd (commitAll env [p] s))"
  by (auto simp: commitItem_def bindP_def branch_answers_def split: prod.split sum.split)

lemma modify_answers:
  assumes "\<And>x c. sx_items (f x c) = sx_items c \<and> sx_head (f x c) = sx_head c"
  shows "branch_answers (snd (bindP m (\<lambda>x. modify (f x)) s)) = branch_answers (snd (m s))"
  using assms by (auto simp: bindP_def modify_def split: prod.split sum.split)

lemma AppendMessage_answers:
  assumes "in_step env h s" "steady env"
  shows "branch_answers (snd (AppendMessage env m s)) = branch_answers s"
proof -
  have "branch_answers (snd (AppendMessage env m s)) = branch_answers (snd (commitAll env [MessageItem m] s))"
    unfolding AppendMessage_def commitItem_answers [symmetric] by (rule modify_answers) simp
  then show ?thesis using commitAll_answers [OF assms, of "[MessageItem m]"] by (simp add: List.map_filter_simps)
qed

lemma AppendToolResult_answers:
  assumes "in_step env h s" "steady env"
  shows "branch_answers (snd (AppendToolResult env out s)) \<in> {branch_answers s, branch_answers s @ [ou_ID out]}"
proof -
  let ?p = "ToolResult (ou_ID out) (ou_Status out) (ou_Result out) (ou_Parts out)"
  have "branch_answers (snd (AppendToolResult env out s)) = branch_answers (snd (commitAll env [?p] s))"
    unfolding AppendToolResult_def commitItem_answers [symmetric] by (rule modify_answers) simp
  then show ?thesis using commitAll_answers [OF assms, of "[?p]"] by (simp add: List.map_filter_simps)
qed

lemma commit_payloads_answers:
  assumes "in_step env h s" "steady env" "list_all (\<lambda>p. \<not> is_unknown (Some p) \<and> result_call (Some p) = None) ps"
  shows "branch_answers (snd (commit_payloads env ps s)) = branch_answers s"
proof -
  have "List.map_filter (result_call \<circ> Some) ps = []"
    using assms(3) by (induction ps) (simp_all add: List.map_filter_simps)
  moreover have "snd (commit_payloads env ps s) = snd (commitAll env ps s)"
    by (simp add: commit_payloads_def bindP_def retP_def split: prod.split sum.split)
  ultimately show ?thesis using commitAll_answers [OF assms(1,2), of ps] assms(3) by (auto simp: list_all_iff)
qed

lemma modified_payloads_answers:
  assumes "in_step env h s" "steady env" "list_all (\<lambda>p. \<not> is_unknown (Some p) \<and> result_call (Some p) = None) ps"
    and "\<And>c. sx_items (f c) = sx_items c \<and> sx_head (f c) = sx_head c"
  shows "branch_answers (snd (bindP (commit_payloads env ps) (\<lambda>_. modify f) s)) = branch_answers s"
  using modify_answers [of "\<lambda>_. f" "commit_payloads env ps" s] assms(4) commit_payloads_answers [OF assms(1-3)] by simp

lemma MarkToolsStarted_answers:
  assumes "in_step env h s" "steady env"
  shows "branch_answers (snd (MarkToolsStarted env calls s)) = branch_answers s"
  unfolding MarkToolsStarted_def by (rule commit_payloads_answers [OF assms]) (auto simp: list_all_iff)

lemma AddCompaction_answers:
  assumes "in_step env h s" "steady env"
  shows "branch_answers (snd (AddCompaction env summary k s)) = branch_answers s"
  unfolding AddCompaction_def with_ctx_def Let_def
  by (auto simp: throwP_def intro!: modified_payloads_answers [OF assms])

lemma note_op_answers:
  assumes "in_step env h s" "steady env" "is_note_op x"
  shows "branch_answers (run_op env x s) = branch_answers s"
  using assms(3)
  by (cases x) (auto simp: SetNotes_def SetTodos_def with_ctx_def Let_def intro!: modified_payloads_answers [OF assms(1,2)])

section \<open>The contract, kept by the session\<close>

text \<open>Relative to the results \<open>A\<close> on the branch when the run began: while the ids of the calls asked for are new and
  distinct, the session is in step with its journal, and the calls that wait have no result yet.\<close>

definition new_calls :: "string set \<Rightarrow> string list \<Rightarrow> bool" where
  "new_calls A calls \<longleftrightarrow> distinct calls \<and> set calls \<inter> A = {}"

definition session_ok :: "sessionEnv \<Rightarrow> Header \<Rightarrow> string set \<Rightarrow> string list \<Rightarrow> string list \<Rightarrow> session \<Rightarrow> bool" where
  "session_ok env hdr A calls todo h \<longleftrightarrow> aligned h
     \<and> (steady env \<and> new_calls A calls \<longrightarrow> in_step env hdr h \<and> set (branch_answers h) \<subseteq> A \<union> set calls
          \<and> distinct todo \<and> set todo \<subseteq> set calls - set (branch_answers h))"

lemma session_ok_step:
  assumes "session_ok env hdr A calls todo h" "aligned h'"
    and "\<And>h0. in_step env hdr h \<Longrightarrow> steady env \<Longrightarrow> in_step env hdr h' \<and> branch_answers h' = branch_answers h"
  shows "session_ok env hdr A calls todo h'"
  using assms by (simp add: session_ok_def)

lemma session_ok_result:
  assumes "session_ok env hdr A calls (ou_ID out # todo) h"
  shows "session_ok env hdr A calls todo (snd (AppendToolResult env out h))"
proof -
  let ?h' = "snd (AppendToolResult env out h)"
  have al: "aligned ?h'"
    using assms AppendToolResult_view [of env out h "fst (AppendToolResult env out h)" ?h'] by (simp add: session_ok_def)
  have step: "in_step env hdr ?h' \<and> set (branch_answers ?h') \<subseteq> A \<union> set calls \<and> distinct todo \<and> set todo \<subseteq> set calls - set (branch_answers ?h')"
    if st: "steady env" "new_calls A calls"
  proof -
    have h: "in_step env hdr h" "set (branch_answers h) \<subseteq> A \<union> set calls" "distinct (ou_ID out # todo)"
      "set (ou_ID out # todo) \<subseteq> set calls - set (branch_answers h)"
      using assms st by (simp_all add: session_ok_def)
    have "ou_ID out \<notin> set (branch_answers h)" using h(4) by auto
    then have "in_step env hdr ?h'" using AppendToolResult_keeps [OF h(1) st(1)] by (simp add: branch_answers_def)
    then show ?thesis using AppendToolResult_answers [OF h(1) st(1), of out] h by auto
  qed
  show ?thesis unfolding session_ok_def using al step by blast
qed

lemma HistoryMessages_append:
  "st_CompactionIdx st \<le> length (st_Messages st) \<Longrightarrow> HistoryMessages (st\<lparr>st_Messages := st_Messages st @ ms\<rparr>) = HistoryMessages st @ ms"
  by (simp add: HistoryMessages_def)

lemma HistoryMessages_appended:
  "aligned h \<Longrightarrow> st_Messages (sx_state (ss_ctx h')) = st_Messages (sx_state (ss_ctx h)) @ ms \<Longrightarrow>
   st_CompactionIdx (sx_state (ss_ctx h')) = st_CompactionIdx (sx_state (ss_ctx h)) \<Longrightarrow>
   HistoryMessages (sx_state (ss_ctx h')) = HistoryMessages (sx_state (ss_ctx h)) @ ms"
  by (simp add: HistoryMessages_def aligned_def)

interpretation live: message_history "session_history env" "session_ok env hdr A" for env hdr A
proof
  fix calls todo new :: "string list" and h h' :: session and i :: string and m out cs k n summary started res prior add
  let ?H = "session_history env"
  show "session_ok env hdr A (calls @ new) new h" if "session_ok env hdr A calls [] h"
    using that by (auto simp: session_ok_def new_calls_def)
  show "session_ok env hdr A calls todo h" if "session_ok env hdr A calls (i # todo) h"
    using that by (auto simp: session_ok_def)
  show "session_ok env hdr A calls todo (snd (hi_Append ?H m h))" if "session_ok env hdr A calls todo h"
    using that AppendMessage_view [of env m h "fst (AppendMessage env m h)" "snd (AppendMessage env m h)"]
    by (intro session_ok_step [OF that]) (simp_all add: session_history_def session_ok_def AppendMessage_keeps AppendMessage_answers)
  show "hi_Messages ?H h' = hi_Messages ?H h @ [m]" if "session_ok env hdr A calls todo h" "hi_Append ?H m h = (Inr (), h')"
    using that AppendMessage_view [of env m h "Inr ()" h'] HistoryMessages_appended [of h h' "[m]"]
    by (simp add: session_history_def session_ok_def)
  show "hi_Messages ?H h' = hi_Messages ?H h @ [tool_message (ou_ID out) (ou_Result out) (ou_Parts out)]"
    if "hi_Boundary ?H = Some (started, res)" "session_ok env hdr A calls todo h" "res out h = (Inr (), h')"
    using that AppendToolResult_view [of env out h "Inr ()" h'] HistoryMessages_appended [of h h']
    by (auto simp: session_history_def session_ok_def)
  show "session_ok env hdr A calls todo (snd (res out h))"
    if "hi_Boundary ?H = Some (started, res)" "session_ok env hdr A calls (ou_ID out # todo) h"
    using that session_ok_result by (auto simp: session_history_def)
  show "session_ok env hdr A calls todo (snd (started cs h))"
    if "hi_Boundary ?H = Some (started, res)" "session_ok env hdr A calls todo h"
  proof -
    have "started = MarkToolsStarted env" using that(1) by (simp add: session_history_def)
    moreover have "aligned (snd (MarkToolsStarted env cs h))"
      using that(2) MarkToolsStarted_view [of env cs h] by (simp add: view_of_def aligned_def session_ok_def)
    ultimately show ?thesis
      by (intro session_ok_step [OF that(2)]) (simp_all add: MarkToolsStarted_keeps MarkToolsStarted_answers)
  qed
  show "hi_Messages ?H (snd (started cs h)) = hi_Messages ?H h" if "hi_Boundary ?H = Some (started, res)"
    using that MarkToolsStarted_view [of env cs h] by (auto simp: session_history_def view_of_def)
  show "session_ok env hdr A calls [] (snd (add summary k h))"
    if "hi_Compaction ?H = Some (prior, add)" "session_ok env hdr A calls [] h"
  proof -
    have "add = AddCompaction env" using that(1) by (simp add: session_history_def)
    moreover have "aligned (snd (AddCompaction env summary k h))"
      using AddCompaction_view [of env summary k h "fst (AddCompaction env summary k h)" "snd (AddCompaction env summary k h)"] that(2)
      by (simp add: session_ok_def)
    ultimately show ?thesis
      by (intro session_ok_step [OF that(2)]) (simp_all add: AddCompaction_keeps AddCompaction_answers)
  qed
  show "hi_Messages ?H h' = drop n (hi_Messages ?H h)"
    if "hi_Compaction ?H = Some (prior, add)" "session_ok env hdr A calls [] h" "0 < n" "n \<le> length (hi_Messages ?H h)"
      "add summary (int n) h = (Inr (), h')"
    using that AddCompaction_view [of env summary "int n" h "Inr ()" h'] by (auto simp: session_history_def session_ok_def)
qed

lemma notes_only_leaves:
  assumes "notes_only env h h'"
  shows "live.leaves_messages env hdr A h h'"
proof -
  obtain ops where ops: "list_all is_note_op ops" "h' = fold (run_op env) ops h" using assms by (auto simp: notes_only_def)
  have one: "live.leaves_messages env hdr A s (run_op env x s)" if "is_note_op x" for x s
    unfolding live.leaves_messages_def
  proof (intro allI impI conjI)
    fix calls todo assume s: "session_ok env hdr A calls todo s"
    have "in_step env hdr (run_op env x s)" if "in_step env hdr s" "steady env"
      using \<open>is_note_op x\<close> SetNotes_keeps [OF that] SetTodos_keeps [OF that] by (cases x) simp_all
    then show "session_ok env hdr A calls todo (run_op env x s)"
      using note_op_view [OF \<open>is_note_op x\<close>] note_op_answers [OF _ _ \<open>is_note_op x\<close>] s
      by (intro session_ok_step [OF s]) (auto simp: session_ok_def)
    show "hi_Messages (session_history env) (run_op env x s) = hi_Messages (session_history env) s"
      using note_op_view [OF \<open>is_note_op x\<close>] by (simp add: session_history_def)
  qed
  have "list_all is_note_op ops \<Longrightarrow> live.leaves_messages env hdr A h (fold (run_op env) ops h)" for h
    by (induction ops arbitrary: h) (auto intro: live.tools.K_refl live.tools.K_trans one)
  then show ?thesis using ops by simp
qed

lemma tools_respect_mono: "tools_respect K opts \<Longrightarrow> (\<And>h h'. K h h' \<Longrightarrow> L h h') \<Longrightarrow> tools_respect L opts"
  by (fastforce simp: tools_respect_def split: option.splits)

text \<open>A session that replays has as many ids as messages, and its compaction lies within them.\<close>

lemma boundary_count_bound: "boundary_count c p n = Some k \<Longrightarrow> k \<le> n + length (message_ids p)"
proof (induction p arbitrary: n)
  case (Cons it p)
  then show ?case by (fastforce simp: message_ids_def Let_def split: if_splits)
qed simp

lemma foldE_lengths:
  assumes "foldE (reduce_item b) p (st, ans) = Inr (st', ans')" "st_CompactionIdx st \<le> length (message_ids b)"
  shows "length (st_Messages st') = length (st_Messages st) + length (message_ids p) \<and> st_CompactionIdx st' \<le> length (message_ids b)"
  using assms
proof (induction p arbitrary: st ans)
  case (Cons it p)
  obtain st1 ans1 where one: "reduce_item b it (st, ans) = Inr (st1, ans1)" and rest: "foldE (reduce_item b) p (st1, ans1) = Inr (st', ans')"
    using Cons.prems(1) by (cases "reduce_item b it (st, ans)") auto
  have len: "length (st_Messages st1) = length (st_Messages st) + (if is_message (it_Payload it) then 1 else 0)"
    "st_CompactionIdx st1 \<le> length (message_ids b)"
    using one Cons.prems(2) boundary_count_bound [of _ b 0]
    by (cases "it_Payload it"; cases "the (it_Payload it)";
        auto simp: reduce_item_def compactionBoundary_def split: if_splits sum.splits option.splits)+
  then show ?case using Cons.IH [OF rest] by (simp add: message_ids_def)
qed (simp add: message_ids_def)

lemma in_step_aligned:
  assumes "in_step env hdr s"
  shows "aligned s"
proof -
  let ?p = "path_to (sx_items (ss_ctx s)) (sx_head (ss_ctx s))"
  obtain st ans where r: "replay ?p = Inr (st, ans)" "resumable st = resumable (sx_state (ss_ctx s))"
    and ids: "sx_messageIDs (ss_ctx s) = message_ids ?p"
    using assms by (auto simp: in_step_def agrees_def)
  have "length (st_Messages st) = length (message_ids ?p)" "st_CompactionIdx st \<le> length (message_ids ?p)"
    using foldE_lengths [OF r(1) [unfolded replay_def]] by (simp_all add: zeroState_def)
  then show ?thesis using r(2) ids by (simp add: aligned_def resumable_def)
qed

section \<open>Runs over a session\<close>

lemma RunLoop_session:
  fixes env :: "session_error runEnv"
  assumes "opened senv hdr w h0" "session_reaches senv h0 (rn_History s)" "steady senv"
    and "op_History opts = session_history senv" "tools_respect (notes_only senv) opts"
    and "well_paired (HistoryMessages (sx_state (ss_ctx (rn_History s))))" "rn_Trace s = []"
  defines "s' \<equiv> snd (RunLoop env opts s)"
  shows "(\<forall>req. ModelCalled req \<in> set (rn_Trace s') \<longrightarrow> proper_request req)
    \<and> (\<forall>x. fst (RunLoop env opts s) = Inr x \<longrightarrow> well_paired (HistoryMessages (sx_state (ss_ctx (rn_History s')))))
    \<and> (new_calls (set (branch_answers (rn_History s))) (called (rn_Trace s')) \<longrightarrow> in_step senv hdr (rn_History s'))"
proof -
  let ?A = "set (branch_answers (rn_History s))"
  have ins: "in_step senv hdr (rn_History s)" using reached_in_step [OF assms(2) opened_in_step [OF assms(1)] assms(3)] .
  then have ok: "session_ok senv hdr ?A [] [] (rn_History s)" using in_step_aligned by (simp add: session_ok_def)
  have tools: "tools_respect (live.leaves_messages senv hdr ?A) opts"
    by (rule tools_respect_mono [OF assms(5)]) (rule notes_only_leaves)
  have msgs: "hi_Messages (session_history senv) h = HistoryMessages (sx_state (ss_ctx h))" for h
    by (simp add: session_history_def)
  show ?thesis
    using live.RunLoop_paired [OF assms(4) tools ok _ assms(7), of env] assms(3,6)
    unfolding msgs s'_def by (simp add: session_ok_def)
qed



end
