(* ===== verification/Agent_Example.thy ===== *)
theory Agent_Example
  imports Agent_Session Session_Example
begin

text \<open>
  A run on concrete data: the model asks for one call of \<open>bash\<close>, which the user approves, and then answers. The
  properties of the loop, the compaction and the session state are applied to it.
\<close>

section \<open>A run\<close>

definition demo_reply :: "string \<Rightarrow> ToolCall list \<Rightarrow> Completion" where
  "demo_reply text calls = \<lparr>cm_Content = text, cm_ToolCalls = calls, cm_Usage = noUsage, cm_ProviderState = None, cm_Structured = None\<rparr>"

fun enters :: "trace \<Rightarrow> bool" where
  "enters (Entered i name a) = True"
| "enters _ = False"

definition demo_model :: LLMClient where
  "demo_model = \<lparr>lc_ContextWindow = 0,
     lc_Blocking = (\<lambda>tr req. Inr (if list_ex enters tr then demo_reply ''x'' [] else demo_reply '''' [call_of ''a''])),
     lc_Streaming = (\<lambda>tr req. ([], Inl ''''))\<rparr>"

definition demo_tool :: "session Tool" where
  "demo_tool = \<lparr>tl_Name = ''bash'', tl_Description = '''', tl_Parameters = JObj [],
     tl_Execute = (\<lambda>tr ctx a h. \<lparr>ex_Answer = Returned ''y'', ex_Duration = 0, ex_Asked = [], ex_Reported = [], ex_History = h\<rparr>),
     tl_ExecuteMultimodal = None, tl_CheckArgs = None, tl_DefaultAction = None, tl_Access = None, tl_GrantScope = None\<rparr>"

definition demo_opts :: "sessionEnv \<Rightarrow> (session, session_error) RunLoopOpts" where
  "demo_opts env = \<lparr>op_LLMClient = Some demo_model, op_SystemPrompt = ''p'', op_Pricing = ex_pricing, op_ToolRegistry = [demo_tool],
     op_MaxIter = 3, op_History = session_history env, op_StreamSink = None, op_Policy = None,
     op_Approval = Some (\<lambda>tr name a target. ApprovalAllowOnce), op_Questioner = None, op_PendingInput = False,
     op_MaxParallelTools = 2, op_Compactor = None, op_Checkpointer = None, op_Invariants = '''', op_Memory = None,
     op_EventSink = False, op_Hooks = None, op_SessionID = ''s'', op_Workspace = ''w'', op_IsSubagent = False,
     op_AgentType = '''', op_RedactResult = None, op_Output = None\<rparr>"

definition demo_renv :: "session_error runEnv" where
  "demo_renv = \<lparr>re_Unmarshal = (\<lambda>s. Inr None), re_Fingerprint = (\<lambda>name a. name), re_Quote = id, re_ErrText = (\<lambda>_. ''''),
     re_Cancelled = (\<lambda>_. False), re_Arrivals = (\<lambda>_. []), re_Schedule = (\<lambda>_. [])\<rparr>"

definition demo_run :: "session \<Rightarrow> session run" where
  "demo_run h = \<lparr>rn_History = h, rn_Queue = NewMessageQueue 0, rn_Guard = newLoopGuard 3, rn_Grants = NewSessionGrants,
     rn_Stats = zeroStats, rn_Delegated = noDelegation, rn_Yielded = False, rn_Trace = []\<rparr>"

definition demo_answer :: "string \<Rightarrow> ToolCall list \<Rightarrow> Payload" where
  "demo_answer text calls = MessageItem (AssistantMessage (demo_reply text calls))"

text \<open>The lines of this codec carry the number of the item and the length of the message, which is enough to tell the
  four items apart.\<close>

definition demo_payloads :: "Payload list" where
  "demo_payloads = [demo_answer '''' [call_of ''a''], ToolExecutionStarted ''a'' ''bash'', ToolResult ''a'' ToolStatusCompleted ''y'' [],
     demo_answer ''x'' []]"

definition demo_codec :: jcodec where
  "demo_codec = \<lparr>jc_marshalHeader = (\<lambda>h. Some ''<>''), jc_unmarshalHeader = (\<lambda>s. Some ex_header),
     jc_marshalWire = (\<lambda>w. Some (replicate (unat (wi_Seq w)) (CHR ''x''))),
     jc_unmarshalWire = (\<lambda>s. let it = build_items ex_senv0 '''' 0 '''' 0 demo_payloads ! (length s - 2) in Some (wire_of it (Type it @ ms_Content (message_of (the (it_Payload it)))))),
     jc_marshalPayload = (\<lambda>p. Some (itemType p @ ms_Content (message_of p))),
     jc_unmarshalPayload = (\<lambda>kind d. List.find (\<lambda>p. itemType p @ ms_Content (message_of p) = d) demo_payloads)\<rparr>"

definition demo_senv :: sessionEnv where
  "demo_senv = ex_senv0\<lparr>ce_codec := demo_codec\<rparr>"

definition demo_session :: session where
  "demo_session = ex_session\<lparr>ss_file := bytes_of (ce_codec demo_senv) ex_header []\<rparr>"

definition demo_final :: "session run" where
  "demo_final = snd (RunLoop demo_renv (demo_opts demo_senv) (demo_run demo_session))"

definition demo_before :: "trace list" where
  "demo_before = takeWhile (\<lambda>t. \<not> enters t) (rn_Trace demo_final)"

fun calls_model :: "trace \<Rightarrow> bool" where
  "calls_model (ModelCalled req) = True"
| "calls_model _ = False"

definition demo_check :: "session run \<Rightarrow> bool" where
  "demo_check s \<longleftrightarrow> rn_Trace s = takeWhile (\<lambda>t. \<not> enters t) (rn_Trace s) @ Entered ''a'' ''bash'' [] # tl (dropWhile (\<lambda>t. \<not> enters t) (rn_Trace s))
     \<and> length (sx_items (ss_ctx (rn_History s))) = 4
     \<and> called (rn_Trace s) = [''a''] \<and> list_ex calls_model (rn_Trace s)
     \<and> list_all (readable (ce_codec demo_senv)) (sx_items (ss_ctx (rn_History s)))"

text \<open>The run is evaluated once: its result and the checks on its final state.\<close>

lemma demo_evaluated:
  "(case RunLoop demo_renv (demo_opts demo_senv) (demo_run demo_session) of (r, s) \<Rightarrow> \<not> isl r \<and> demo_check s)"
  by code_simp

lemma demo_final_checked: "demo_check demo_final"
  and demo_returns: "\<not> isl (fst (RunLoop demo_renv (demo_opts demo_senv) (demo_run demo_session)))"
  using demo_evaluated by (auto simp: demo_final_def split: prod.splits)

lemma demo_readable: "readable_header (ce_codec demo_senv) ex_header"
  by code_simp

lemmas demo_checked = demo_final_checked [unfolded demo_check_def]

lemma demo_run_init [simp]: "rn_Trace (demo_run h) = []" "rn_History (demo_run h) = h" "rn_Grants (demo_run h) = Some {}"
  by (simp_all add: demo_run_def NewSessionGrants_def)

lemma demo_opts_session: "op_History (demo_opts env) = session_history env"
  by (simp add: demo_opts_def)

lemma demo_tools: "tools_respect (notes_only env) (demo_opts env)"
proof -
  have "notes_only env h h" for h unfolding notes_only_def by (intro exI [of _ "[]"]) simp
  then show ?thesis by (simp add: tools_respect_def demo_opts_def demo_tool_def)
qed

lemma demo_opened: "opened demo_senv ex_header ex_writer demo_session"
proof -
  have items: "ld_Items (fw_loaded ex_writer) = []" by (simp add: ex_writer_def emptyLoaded_def)
  have "Reduce [] '''' = Inr zeroState" "ValidateItems [] = Inr ()" by code_simp+
  then show ?thesis
    by (auto simp: opened_def demo_session_def ex_session_def items ex_writer_def emptyLoaded_def)
qed

lemma demo_steady: "steady demo_senv"
  using replicate_inj by (simp add: steady_def demo_senv_def ex_senv0_def)

lemma demo_new_calls: "branch_answers demo_session = []" "well_paired (HistoryMessages (sx_state (ss_ctx demo_session)))"
  by code_simp+

theorem tools_enter_only_when_cleared_witness:
  "(session_approved ''bash'' demo_before \<or> user_approved ''bash'' [] '''' demo_before)
    \<and> start_recorded (demo_opts demo_senv) demo_before ''a'' ''bash''"
proof -
  have tool: "Lookup [demo_tool] ''bash'' = Some demo_tool" by (simp add: Lookup_def demo_tool_def)
  have act: "resolveAction (Some (policyOf (demo_opts demo_senv))) demo_tool ''bash'' ''bash'' [] True = ToolActionAsk"
    by (simp add: resolveAction_def policyOf_def demo_opts_def AllowAllPolicy_def demo_tool_def DeclaredAccess_def)
  have tr: "rn_Trace (snd (RunLoop demo_renv (demo_opts demo_senv) (demo_run demo_session))) =
      demo_before @ Entered ''a'' ''bash'' [] # tl (dropWhile (\<lambda>t. \<not> enters t) (rn_Trace demo_final))"
    using demo_checked by (simp add: demo_before_def flip: demo_final_def)
  have "interactive (demo_opts demo_senv)" "op_ToolRegistry (demo_opts demo_senv) = [demo_tool]" "grantTarget demo_tool [] = ''''"
    by (simp_all add: interactive_def demo_opts_def grantTarget_def demo_tool_def)
  with tools_enter_only_when_cleared [OF _ tr] tool act show ?thesis
    by (simp add: Let_def grantScope_def granted_def)
qed



section \<open>Histories and notes\<close>

definition demo_turn :: "Message list" where
  "demo_turn = [text_message ''user'' ''x'', AssistantMessage (demo_reply '''' [call_of ''a'']), tool_message ''a'' ''y'' [],
     text_message ''assistant'' ''z'']"



definition demo_notes :: "Note list" where
  "demo_notes = [\<lparr>nt_Text = replicate 3150 (CHR ''x''), nt_WrittenIteration = 0\<rparr>, \<lparr>nt_Text = replicate 100 (CHR ''y''), nt_WrittenIteration = 0\<rparr>]"


end
