(* ===== verification/Spec2Isabelle.thy ===== *)
theory Spec2Isabelle
  imports Runtime_Progress Utf8 Session_Example Agent_Example
begin

text \<open>
  Verification of buildmax: the task and workflow runtime of its server, the durable sessions of its agent,
  and the agent loop that works on them.

  \<^bold>\<open>The program.\<close> buildmax runs language model agents. A server keeps tasks (a request and its runs) and
  workflows (a graph of agent steps and questions to people) in a database; several server processes share
  it. Workers execute task runs. On a user's machine or in a worker, an agent loop talks to a model, runs
  tools and keeps its conversation in a session: an append-only journal file that survives crashes, rewinds
  and forks. Three parts carry the program's own logic and are modelled here.

  \<^bold>\<open>1. The runtime of tasks and workflows.\<close>

  \<^item> \<open>Workflow_Core\<close>, \<open>Task_Core\<close>, \<open>Service_Errors\<close>: the domain types, status machines, retry policy, failure
    classes and error values of \<open>internal/core/workflow\<close>, \<open>internal/core/task\<close> and \<open>internal/core/apierr\<close>. A
    Go struct is a record with the prefix of its type, an enumeration a datatype, an \<open>error\<close> a value of
    \<open>err\<close>.
  \<^item> \<open>Workflow_Graph\<close> (\<open>core/workflow/graph.go\<close>), \<open>Json_Pointer\<close> (\<open>pointer.go\<close>), \<open>Json_Schema\<close>
    (\<open>core/jsonschema\<close>), \<open>Workflow_Definition\<close> (the parsing part of \<open>service/workflow\<close>): how a definition is
    read. \<open>BuildGraph\<close> accepts exactly the acyclic definitions and its order is the least topological order;
    a pointer is followed one reference per step; a compiled schema accepts exactly the conforming values;
    what \<open>parseDefinition\<close> returns is well-formed, and what a publication stores is read back.
  \<^item> \<open>Store\<close>: the database as maps from public ids to rows, \<open>infra/db/publicid.go\<close>, and the world of a
    process: what other processes commit before each call (\<open>w_env\<close>), which calls are lost before or after
    they took effect (\<open>w_fault\<close>), the clock and the random source. Every store call is one atomic step of
    \<open>db_op\<close>; a transaction is \<open>commit\<close>.
  \<^item> \<open>Task_Store\<close>, \<open>Workflow_Store\<close> (\<open>infra/db/task.go\<close>, \<open>task_run.go\<close>, \<open>workflow.go\<close>,
    \<open>workflow_request.go\<close>, \<open>workflow_admission.go\<close>), \<open>Task_Service\<close> (\<open>service/task\<close>), \<open>Workflow_Reconcile\<close>
    and \<open>Workflow_Service\<close> (\<open>service/workflow\<close>): every operation, with the guards and early returns of the
    code. \<open>reconcilePass\<close> calls itself again after it stopped a run; \<open>fuel\<close> bounds these calls and running
    out is the error \<open>OutOfFuel\<close>, which the safety properties allow like any other error.
  \<^item> \<open>Store_Logic\<close>: rely and guarantee, as the locale \<open>db_relation\<close>. \<open>tells R F m Q\<close> says that a service
    program moves the database along \<open>R\<close> whatever the other processes do along \<open>R\<close>, and that its result
    satisfies \<open>Q\<close>. \<open>Task_Plane\<close> and \<open>Workflow_Plane\<close> give the invariants of the tables (\<open>task_inv\<close>,
    \<open>wf_inv\<close>) and how rows may evolve (\<open>task_evolves\<close>, \<open>wf_evolves\<close>), and prove them of every transaction;
    \<open>Runtime_Store\<close> and \<open>Runtime_Services\<close> lift that to every service operation; \<open>Runtime_Safety\<close> states
    what holds in every reachable database: nodes start after their needs, stopped runs stay stopped,
    outcomes are final, a task has one active run. \<open>Runtime_Progress\<close>: a pass over a running run with
    unfinished nodes has something in flight or starts something. \<open>Run_Start\<close> and \<open>Runtime_Example\<close> tie the
    hypotheses to runs that start and evaluate them on a scenario.
  \<^item> \<open>Utf8\<close>: the rune limits of \<open>internal/util/helpers.go\<close>.

  \<^bold>\<open>2. Sessions.\<close>

  \<^item> \<open>Session_History\<close> (\<open>internal/core/session\<close>: \<open>history.go\<close>, \<open>branch.go\<close>, \<open>reduce.go\<close>, \<open>recovery.go\<close>,
    \<open>rewind.go\<close>, \<open>fork.go\<close>): the records of a journal and the functions on it. \<open>Session_Branch\<close> and
    \<open>Session_Replay\<close> show that validation accepts exactly the trees, that a branch is the path to its head,
    when replay succeeds, and what rewind and fork keep; \<open>Session_Recovery\<close> what the analysis of an
    interrupted turn finds.
  \<^item> \<open>Session_Meta\<close> (\<open>core/llm/pricing.go\<close>, \<open>core/session/meta.go\<close>, \<open>stats.go\<close>, \<open>usage.go\<close>): cost, totals and
    reports. Token counts and amounts are Go's \<open>int\<close> and \<open>int64\<close>: additions wrap (\<open>wrap64\<close>).
  \<^item> \<open>Session_Store\<close> (\<open>infra/sessionstore/journal.go\<close>): the journal as bytes; a write may be cut short or fail
    to sync. \<open>Session_Open\<close> (\<open>store.go\<close>): opening with repair, loading, the guarded writer.
    \<open>encoding/json\<close> is the parameter \<open>jcodec\<close>; \<open>readable\<close> and \<open>json_faithful\<close> name what is relied on.
  \<^item> \<open>Session_Context\<close> (\<open>internal/agentapp/session_context.go\<close>): the live session, which commits a record and
    then applies it to the state it keeps. \<open>Session_Refinement\<close>: after any sequence of its operations the
    file, read back and replayed, gives the state the session keeps. \<open>Session_Example\<close> applies the
    properties to a concrete interrupted turn.

  \<^bold>\<open>3. The agent loop.\<close>

  \<^item> \<open>Agent_Context\<close> (\<open>internal/core/agent/context.go\<close>): token estimates, the cut for a compaction, the trim, the
    summary and its budget. \<open>Agent_State\<close> (\<open>notes.go\<close>, \<open>memory.go\<close>, \<open>question.go\<close>): what is rendered behind the
    history, within its bounds, and the checks of questions.
  \<^item> \<open>Agent_Runtime\<close> (\<open>core/llm\<close>: \<open>llm.go\<close>, \<open>tool.go\<close>, \<open>policy.go\<close>; \<open>core/agent\<close>: \<open>policy.go\<close>, \<open>grant.go\<close>,
    \<open>queue.go\<close>, \<open>hook.go\<close>, \<open>event.go\<close>, \<open>delegation.go\<close>, \<open>run_ctx.go\<close>): requests, tools, permission layers, loop guard,
    session grants, hooks, events, the queue and the statistics. The state of a run is the record \<open>run\<close>; what
    happened is its \<open>trace\<close>, and the model, the tools, the hooks, the user and the arrival of messages answer
    as functions of the trace, so a claim about a run covers all their answers. Tools may also change the
    history; the claims over a session let them replace its notes and todos only (\<open>tools_respect\<close>).
  \<^item> \<open>Agent_Loop\<close> (\<open>agent.go\<close>, \<open>tool_boundary.go\<close>, \<open>compaction.go\<close>): \<open>RunLoop\<close>, as \<open>iterations\<close> over \<open>iteration\<close>,
    which recurses on what \<open>MaxIter\<close> leaves; gating, running and committing the calls of a message; the
    compaction. The queue is emptied by recursion on its length. The tools of a parallel group act one after
    another in any order (\<open>re_Schedule\<close>), each as one step on the history. A nil client and a panic that the
    code does not recover are the errors \<open>NilDereference\<close> and \<open>ToolPanic\<close>.
  \<^item> \<open>Agent_Safety\<close> and \<open>Agent_Gate\<close>: a tool is entered only after its call passed the permission layers or the
    user, and the hooks, and its start was recorded. \<open>Agent_Calls\<close>, \<open>Agent_Requests\<close> and \<open>Agent_Turns\<close>: the
    contract of a history as the locale \<open>message_history\<close>, and that every request answers its calls in order.
    \<open>Agent_Session\<close> interprets the locale on the live session of part 2: over a session the contract holds, and
    a run leaves the session in step with its journal however it ends. \<open>Agent_Example\<close> runs the loop on a model
    that asks for one call.
  \<^item> Parameters: \<open>json.Unmarshal\<close>, the fingerprint of a call, \<open>%q\<close>, \<open>strings.ToLower\<close> and the texts of errors.
    The fractions of the window are computed in \<open>float64\<close>, rounding included. Left out: logging, the worktree
    and sandbox fields of a hook's input.

  \<^bold>\<open>Conventions.\<close> \<open>Prelude\<close> has the program type \<open>prog\<close> (a state is threaded, the result is an error or a
  value), its logic \<open>runs\<close> over the locale \<open>step_relation\<close>, and the Go string functions. A method whose
  name would clash carries the prefix \<open>svc_\<close> or its type's name. Errors keep their identity and lose their
  formatted text, except where the text is stored.

  \<^bold>\<open>Not modelled.\<close> The tools themselves, subagents, the sandbox, the assembly of the system prompt, model providers, HTTP and worker transport, identity, spaces,
  quota, plugins, schedules beyond the fold of an outcome, audit events (written and never read by the
  modelled code), logging, the session index and the operating system's file locks; the desktop, terminal and
  build tools. List projections of the portal and gorm's row structs are identified with the domain records.
\<close>

end
